(* ===== verification/Prelude.thy ===== *)
theory Prelude
  imports Main "HOL-Library.Word"
begin

unbundle bit_operations_syntax

text \<open>
  Shared vocabulary of the development: the errno values the runtime reports, the
  integer types of the target (ThreadX and FileX fix ULONG at 32 and ULONG64 at 64
  bits), arithmetic facts on words that the clock and timer components need, and the
  interface of a fixed-capacity slot table, which the descriptor registry, the
  directory streams and the thread-specific keys all use.
\<close>

section \<open>Collections\<close>

named_theorems path_simps \<open>rewriting of path strings to component lists\<close>
named_theorems inv_rules \<open>preservation of the registry invariant, one fact per operation\<close>

section \<open>Machine types\<close>

type_synonym u8 = "8 word"
type_synonym u16 = "16 word"
type_synonym u32 = "32 word"
type_synonym u64 = "64 word"

section \<open>Error numbers\<close>

text \<open>The errno values named by the runtime; success (0) is \<open>None\<close> of an option.\<close>

datatype errno =
    EPERM | ENOENT | EINTR | EIO | EBADF | EAGAIN | ENOMEM | EACCES | EFAULT | EBUSY
  | EEXIST | EXDEV | ENODEV | ENOTDIR | EISDIR | EINVAL | EMFILE | ENOSPC | EDEADLK
  | ENAMETOOLONG | ENOSYS | ENOTEMPTY | EOVERFLOW | ETIMEDOUT | ENOTSUP | ERANGE

type_synonym error = "errno option"

text \<open>ThreadX status codes the runtime tells apart; \<open>TX_OTHER\<close> is any other code.\<close>

datatype tx_status =
    TX_SUCCESS | TX_WAIT_ABORTED | TX_NO_INSTANCE | TX_NOT_AVAILABLE | TX_DELETE_ERROR | TX_OTHER u32

section \<open>Lists\<close>

lemma list_update_out [simp]: "length xs \<le> i \<Longrightarrow> xs[i := x] = xs"
  by (rule list_update_beyond)

lemma list_all_update:
  "list_all P xs \<Longrightarrow> P x \<Longrightarrow> list_all P (xs[i := x])"
  by (auto simp: list_all_iff dest: set_update_subset_insert [THEN subsetD])

lemma list_all_nth: "list_all P xs \<Longrightarrow> i < length xs \<Longrightarrow> P (xs ! i)"
  by (simp add: list_all_length)

lemma list_all_init: "list_all P xs \<Longrightarrow> list_all P (butlast xs)"
  by (auto simp: list_all_iff dest: in_set_butlastD)

section \<open>Words\<close>

lemma unat_of_nat_small: "n < 2 ^ LENGTH('a::len) \<Longrightarrow> unat (of_nat n :: 'a word) = n"
  by (simp add: unat_of_nat take_bit_nat_eq_self)

lemma unat_add_small:
  "unat a + unat b < 2 ^ LENGTH('a::len) \<Longrightarrow> unat (a + b :: 'a word) = unat a + unat b"
  by (simp add: unat_word_ariths take_bit_nat_eq_self flip: take_bit_eq_mod)

lemma unat_ucast_32_64: "unat (ucast (x :: u32) :: u64) = unat x"
proof -
  have "unat x < 2 ^ LENGTH(32)" by (rule unsigned_less)
  then show ?thesis by (simp add: unsigned_ucast_eq take_bit_nat_eq_self)
qed

lemma unat_mult_small:
  "unat a * unat b < 2 ^ LENGTH('a::len) \<Longrightarrow> unat (a * b :: 'a word) = unat a * unat b"
  by (simp add: unat_word_ariths take_bit_nat_eq_self flip: take_bit_eq_mod)

lemma unat_sub_small: "unat b \<le> unat a \<Longrightarrow> unat (a - b :: 'a::len word) = unat a - unat b"
  by (simp add: unat_sub word_le_nat_alt)

lemma sint_small:
  fixes x :: "64 word"
  assumes "unat x < 2 ^ 63"
  shows "sint x = int (unat x)"
proof -
  have u: "uint x = int (unat x)" by simp
  have "int (unat x) < 2 ^ 63" using assms by (metis of_nat_less_iff of_nat_numeral of_nat_power)
  then have "signed_take_bit 63 (int (unat x)) = int (unat x)"
    by (intro signed_take_bit_int_eq_self) (simp_all add: order_trans [of _ 0])
  then show ?thesis unfolding sint_uint u by simp
qed

lemma unat_nonneg:
  fixes x :: "64 word"
  assumes "0 \<le> sint x"
  shows "unat x < 2 ^ 63"
proof (rule ccontr)
  assume "\<not> unat x < 2 ^ 63"
  then have "2 ^ 63 \<le> unat x" by simp
  moreover have "unat x < 2 ^ LENGTH(64)" by (rule unsigned_less)
  ultimately have "unat x div 2 ^ 63 = 1" by (intro div_nat_eqI) simp_all
  then have "bit (unat x) 63" by (simp add: bit_iff_odd)
  then have "bit x 63" by (simp add: bit_unsigned_iff)
  then have "sint x < 0" by (simp add: sint_uint bit_uint_iff)
  with assms show False by simp
qed

text \<open>
  Scaling a count \<open>t\<close> of units of rate \<open>r\<close> to rate \<open>u\<close> without a wide intermediate product:
  whole seconds and the remainder are scaled apart, and the sum is compared with a limit
  before it is formed. The three conversions of the clock have this shape.
\<close>

lemma scaled_nat:
  fixes t r u :: nat
  assumes "0 < r"
  shows "t * u div r = (t div r) * u + (t mod r) * u div r"
proof -
  have "t * u = ((t div r) * r + t mod r) * u" by simp
  also have "\<dots> = (t mod r) * u + r * ((t div r) * u)" by (simp only: algebra_simps)
  finally show ?thesis using assms by simp
qed

lemma scaled_fraction:
  fixes t r u :: nat
  assumes "0 < r" and "0 < u"
  shows "(t mod r) * u div r < u"
  using assms by (simp add: less_mult_imp_div_less)

lemma scaled_word:
  fixes t r u limit :: u64
  assumes r: "0 < unat r" and u: "0 < unat u" "unat u \<le> unat limit" and small: "unat r * unat u < 2 ^ 64"
  defines "f \<equiv> t mod r * u div r"
  shows "(limit - f) div u < t div r \<longleftrightarrow> unat limit < unat t * unat u div unat r"
    and "unat t * unat u div unat r \<le> unat limit \<Longrightarrow> unat (t div r * u + f) = unat t * unat u div unat r"
proof -
  have m: "unat (t mod r * u) = (unat t mod unat r) * unat u"
  proof -
    have "(unat t mod unat r) * unat u \<le> unat r * unat u" using r by (intro mult_le_mono1) simp
    also have "\<dots> < 2 ^ LENGTH(64)" using small by simp
    finally have "unat (t mod r) * unat u < 2 ^ LENGTH(64)" by (simp only: unat_mod)
    then show ?thesis by (simp add: unat_mult_small unat_mod)
  qed
  then have f: "unat f = (unat t mod unat r) * unat u div unat r" by (simp add: f_def unat_div)
  then have "unat f < unat u" using scaled_fraction [OF r u(1)] by simp
  with u(2) have fl: "unat f < unat u" "unat f \<le> unat limit" by simp_all
  have v: "unat t * unat u div unat r = (unat t div unat r) * unat u + unat f"
    unfolding f by (rule scaled_nat [OF r])
  have "(limit - f) div u < t div r \<longleftrightarrow> (unat limit - unat f) div unat u < unat t div unat r"
    using fl by (simp add: word_less_nat_alt unat_div unat_sub_small)
  also have "\<dots> \<longleftrightarrow> unat limit - unat f < (unat t div unat r) * unat u"
    using u(1) by (simp add: div_less_iff_less_mult)
  also have "\<dots> \<longleftrightarrow> unat limit < unat t * unat u div unat r" using v fl by auto
  finally show "(limit - f) div u < t div r \<longleftrightarrow> unat limit < unat t * unat u div unat r" .
  assume fits: "unat t * unat u div unat r \<le> unat limit"
  have "unat limit < 2 ^ LENGTH(64)" by (rule unsigned_less)
  with v fits have s: "(unat t div unat r) * unat u + unat f < 2 ^ LENGTH(64)" by linarith
  then have "unat (t div r * u) = (unat t div unat r) * unat u"
    by (simp add: unat_mult_small unat_div)
  with s v show "unat (t div r * u + f) = unat t * unat u div unat r"
    by (simp add: unat_add_small)
qed

section \<open>Powers of two and alignment\<close>

lemma nat_power_of_two:
  fixes n :: nat
  shows "0 < n \<Longrightarrow> n AND (n - 1) = 0 \<Longrightarrow> \<exists>k. n = 2 ^ k"
proof (induction n rule: less_induct)
  case (less n)
  show ?case
  proof (cases "even n")
    case True
    then obtain m where m: "n = 2 * m" by blast
    then have "0 < m" using less.prems(1) by simp
    moreover have "n AND (n - 1) = 2 * (m AND (m - 1))"
    proof -
      have "(2 * m - 1) div 2 = m - 1" using \<open>0 < m\<close> by arith
      then show ?thesis unfolding m by (subst and_nat_unfold) simp
    qed
    ultimately obtain k where "m = 2 ^ k" using less.IH [of m] less.prems(2) m by auto
    then have "n = 2 ^ Suc k" using m by simp
    then show ?thesis by blast
  next
    case False
    then obtain m where m: "n = 2 * m + 1" using oddE by blast
    then have "n AND (n - 1) = 2 * m" by (subst and_nat_unfold) auto
    then have "n = 2 ^ 0" using less.prems(2) m by simp
    then show ?thesis by blast
  qed
qed

lemma word_power_of_two:
  fixes a :: u32
  assumes "a \<noteq> 0" and "a AND (a - 1) = 0"
  obtains k where "unat a = 2 ^ k"
proof -
  have "unat a AND (unat a - 1) = 0"
  proof -
    have "unat (a AND (a - 1)) = unat a AND unat (a - 1)" by (rule unsigned_and_eq)
    moreover have "unat (a - 1) = unat a - 1" using assms(1) by (simp add: unat_sub_small unat_gt_0 Suc_leI)
    ultimately show ?thesis using assms(2) by simp
  qed
  then show ?thesis using nat_power_of_two [of "unat a"] assms(1) that by (auto simp: unat_gt_0)
qed

lemma round_down_word:
  fixes a y :: "'a::len word"
  assumes "unat a = 2 ^ k"
  shows "unat (y AND NOT (a - 1)) = unat y div unat a * unat a"
proof -
  have p: "(2 :: nat) ^ k < 2 ^ LENGTH('a)" using unsigned_less [of a, where ?'a = nat] assms by simp
  from p have k: "k < LENGTH('a)" by (rule power_less_imp_less_exp [rotated]) simp
  have "unat (of_nat (2 ^ k) :: 'a word) = 2 ^ k" by (rule unat_of_nat_small) (rule p)
  then have "a = of_nat (2 ^ k)" using assms by (simp only: word_unat_eq_iff)
  then have a: "a = 2 ^ k" by simp
  have "y AND NOT (a - 1) = push_bit k (drop_bit k y)"
    unfolding a by (auto simp: bit_eq_iff bit_simps simp flip: mask_eq_exp_minus_1)
  then have "y AND NOT (a - 1) = y div 2 ^ k * 2 ^ k" by (simp add: push_bit_eq_mult drop_bit_eq_div)
  moreover have "unat (y div 2 ^ k) = unat y div 2 ^ k" using k a assms by (simp add: unat_div)
  moreover have "unat y div 2 ^ k * 2 ^ k < 2 ^ LENGTH('a)"
    by (rule le_less_trans [OF div_times_less_eq_dividend unsigned_less])
  ultimately show ?thesis using assms a by (simp add: unat_mult_small)
qed

text \<open>Rounding an address up to a multiple of a power of two, if nothing wraps.\<close>

lemma round_up_word:
  fixes a y :: "'a::len word"
  assumes "unat a = 2 ^ k" and "unat y + unat a \<le> 2 ^ LENGTH('a)"
  shows "unat ((y + a - 1) AND NOT (a - 1)) = (unat y + unat a - 1) div unat a * unat a"
proof -
  have a: "0 < unat a" using assms(1) by simp
  have "y + a - 1 = y + (a - 1)" by simp
  moreover have a1: "unat (a - 1) = unat a - 1" using a by (subst unat_sub_small) simp_all
  ultimately have "unat (y + a - 1) = unat y + unat a - 1"
    using assms(2) a by (simp only:) (subst unat_add_small, simp_all add: a1)
  then show ?thesis using round_down_word [OF assms(1)] by simp
qed

lemma round_down:
  fixes a y :: u32
  shows "unat a = 2 ^ k \<Longrightarrow> unat (y AND NOT (a - 1)) = unat y div unat a * unat a"
  by (rule round_down_word)

lemma round_up:
  fixes a y :: u32
  shows "unat a = 2 ^ k \<Longrightarrow> unat y + unat a \<le> 2 ^ 32 \<Longrightarrow>
    unat ((y + a - 1) AND NOT (a - 1)) = (unat y + unat a - 1) div unat a * unat a"
  using round_up_word [of a k y] by simp

lemma round_up_bounds:
  fixes m n :: nat
  assumes "0 < n"
  shows "(m + n - 1) div n * n mod n = 0" and "m \<le> (m + n - 1) div n * n" and "(m + n - 1) div n * n < m + n"
proof -
  let ?q = "(m + n - 1) div n"
  have e: "?q * n + (m + n - 1) mod n = m + n - 1" by (rule div_mult_mod_eq)
  moreover have "(m + n - 1) mod n < n" using assms by simp
  ultimately show "m \<le> ?q * n" "?q * n < m + n" using assms by linarith+
  show "?q * n mod n = 0" by simp
qed

section \<open>First free slot\<close>

text \<open>\<open>std::find_if\<close> over an array: the index of the first element with the property.\<close>

fun find_index :: "('a \<Rightarrow> bool) \<Rightarrow> 'a list \<Rightarrow> nat option" where
  "find_index P [] = None"
| "find_index P (x # xs) = (if P x then Some 0 else map_option Suc (find_index P xs))"

lemma find_index_Some:
  "find_index P xs = Some i \<longleftrightarrow> i < length xs \<and> P (xs ! i) \<and> (\<forall>j<i. \<not> P (xs ! j))"
proof (induction xs arbitrary: i)
  case Nil
  then show ?case by simp
next
  case (Cons x xs)
  show ?case
  proof (cases i)
    case 0
    then show ?thesis by auto
  next
    case (Suc k)
    then show ?thesis
      using Cons.IH [of k] by (auto simp: All_less_Suc2)
  qed
qed

lemma find_index_None: "find_index P xs = None \<longleftrightarrow> list_all (\<lambda>x. \<not> P x) xs"
  by (induction xs) auto

locale slot_table =
  fixes used :: "'a \<Rightarrow> bool"
    and blank :: 'a
    and capacity :: nat
  assumes blank_free: "\<not> used blank"
begin

definition free_slot :: "'a list \<Rightarrow> nat option" where
  "free_slot xs = find_index (\<lambda>x. \<not> used x) xs"

definition in_use :: "'a list \<Rightarrow> nat set" where
  "in_use xs = {i. i < length xs \<and> used (xs ! i)}"

lemma finite_in_use: "finite (in_use xs)"
  by (simp add: in_use_def)

lemma free_slot_fresh:
  "free_slot xs = Some i \<Longrightarrow> i < length xs \<and> i \<notin> in_use xs"
  by (simp add: free_slot_def in_use_def find_index_Some)

lemma free_slot_lowest:
  "free_slot xs = Some i \<Longrightarrow> j < i \<Longrightarrow> j \<in> in_use xs"
  by (auto simp: free_slot_def in_use_def find_index_Some)

lemma free_slot_full:
  "free_slot xs = None \<longleftrightarrow> in_use xs = {..<length xs}"
  by (auto simp: free_slot_def in_use_def find_index_None list_all_length)

lemma free_slot_available:
  assumes "length xs = capacity" and "card (in_use xs) < capacity"
  shows "\<exists>i. free_slot xs = Some i"
proof (cases "free_slot xs")
  case None
  then have "in_use xs = {..<length xs}" by (simp only: free_slot_full)
  with assms show ?thesis by simp
qed simp

lemma in_use_claim:
  "i < length xs \<Longrightarrow> used x \<Longrightarrow> in_use (xs[i := x]) = insert i (in_use xs)"
  by (auto simp: in_use_def nth_list_update)

lemma in_use_freed:
  "\<not> used x \<Longrightarrow> in_use (xs[i := x]) = in_use xs - {i}"
  by (cases "i < length xs") (auto simp: in_use_def nth_list_update)

lemma in_use_release:
  "in_use (xs[i := blank]) = in_use xs - {i}"
  by (rule in_use_freed [OF blank_free])

lemma release_claim:
  assumes "free_slot xs = Some i" and "used x"
  shows "in_use ((xs[i := x])[i := blank]) = in_use xs"
  using assms free_slot_fresh [OF assms(1)] by (simp add: in_use_release)

end

end
