(* ===== verification/FileX_Interface.thy ===== *)
theory FileX_Interface
  imports Prelude
begin

text \<open>
  The third-party code under the file-system layer: FileX (\<open>fx_*\<close>), the ThreadX mutex
  behind the registry guard, the interrupt-status register and the console hooks. None
  of it is part of the repository, so it is a parameter: a record of operations on an
  unspecified state \<open>'w\<close>, passed to every definition that calls it. What a theorem needs
  of it is stated there as a named hypothesis. The status codes the adapter tells apart
  are constructors of a datatype, and \<open>FX_OTHER\<close> stands for every code it does not name.
  \<open>filex_errno\<close> is the adapter's own translation of them.
\<close>

section \<open>Status codes\<close>

datatype fx_status =
    FX_SUCCESS | FX_NOT_FOUND | FX_NOT_OPEN | FX_MEDIA_NOT_OPEN | FX_ALREADY_CREATED
  | FX_INVALID_NAME | FX_INVALID_PATH | FX_INVALID_OPTION | FX_PTR_ERROR | FX_NOT_A_FILE
  | FX_NOT_DIRECTORY | FX_DIR_NOT_EMPTY | FX_NO_MORE_SPACE | FX_NOT_ENOUGH_MEMORY
  | FX_ACCESS_ERROR | FX_WRITE_PROTECT | FX_END_OF_FILE | FX_NO_MORE_ENTRIES
  | FX_NOT_IMPLEMENTED | FX_BOOT_ERROR | FX_IO_ERROR | FX_OTHER u32

definition filex_errno :: "fx_status \<Rightarrow> error" where
  "filex_errno status =
    (case status of
       FX_SUCCESS \<Rightarrow> None
     | FX_NOT_FOUND \<Rightarrow> Some ENOENT
     | FX_NOT_OPEN \<Rightarrow> Some ENOENT
     | FX_MEDIA_NOT_OPEN \<Rightarrow> Some ENOENT
     | FX_ALREADY_CREATED \<Rightarrow> Some EEXIST
     | FX_INVALID_NAME \<Rightarrow> Some EINVAL
     | FX_INVALID_PATH \<Rightarrow> Some EINVAL
     | FX_INVALID_OPTION \<Rightarrow> Some EINVAL
     | FX_PTR_ERROR \<Rightarrow> Some EINVAL
     | FX_NOT_A_FILE \<Rightarrow> Some EISDIR
     | FX_NOT_DIRECTORY \<Rightarrow> Some ENOTDIR
     | FX_DIR_NOT_EMPTY \<Rightarrow> Some ENOTEMPTY
     | FX_NO_MORE_SPACE \<Rightarrow> Some ENOSPC
     | FX_NOT_ENOUGH_MEMORY \<Rightarrow> Some ENOSPC
     | FX_ACCESS_ERROR \<Rightarrow> Some EACCES
     | FX_WRITE_PROTECT \<Rightarrow> Some EACCES
     | FX_END_OF_FILE \<Rightarrow> None
     | FX_NO_MORE_ENTRIES \<Rightarrow> None
     | FX_NOT_IMPLEMENTED \<Rightarrow> Some ENOTSUP
     | _ \<Rightarrow> Some EIO)"

lemma filex_errno_None:
  "filex_errno st = None \<longleftrightarrow> st = FX_SUCCESS \<or> st = FX_END_OF_FILE \<or> st = FX_NO_MORE_ENTRIES"
  by (cases st) (simp_all add: filex_errno_def)

lemma filex_errno_success [simp]: "filex_errno FX_SUCCESS = None"
  by (simp add: filex_errno_def)

section \<open>Volumes and directory information\<close>

datatype volume = Flash | Sd

datatype open_type = FX_OPEN_FOR_READ | FX_OPEN_FOR_WRITE

text \<open>The output parameters of \<open>fx_directory_information_get\<close>, at FileX's widths.\<close>

record fx_information =
  fx_attributes :: u32
  fx_size :: u32
  fx_year :: u32
  fx_month :: u32
  fx_day :: u32
  fx_hour :: u32
  fx_minute :: u32
  fx_second :: u32

section \<open>The operations the adapter calls\<close>

text \<open>
  An open \<open>FX_FILE\<close> is named by the index of the descriptor slot that holds it; its two
  fields the adapter reads are observers of the state. \<open>fx_file_zero\<close> is the adapter's
  \<open>memset\<close> or reassignment of such a control block.
\<close>

record 'w filex =
  fx_directory_information_get :: "'w \<Rightarrow> volume \<Rightarrow> string \<Rightarrow> fx_status \<times> fx_information \<times> 'w"
  fx_directory_rename :: "'w \<Rightarrow> volume \<Rightarrow> string \<Rightarrow> string \<Rightarrow> fx_status \<times> 'w"
  fx_file_rename :: "'w \<Rightarrow> volume \<Rightarrow> string \<Rightarrow> string \<Rightarrow> fx_status \<times> 'w"
  fx_directory_delete :: "'w \<Rightarrow> volume \<Rightarrow> string \<Rightarrow> fx_status \<times> 'w"
  fx_file_delete :: "'w \<Rightarrow> volume \<Rightarrow> string \<Rightarrow> fx_status \<times> 'w"
  fx_directory_create :: "'w \<Rightarrow> volume \<Rightarrow> string \<Rightarrow> fx_status \<times> 'w"
  fx_file_create :: "'w \<Rightarrow> volume \<Rightarrow> string \<Rightarrow> fx_status \<times> 'w"
  fx_directory_default_set :: "'w \<Rightarrow> volume \<Rightarrow> string \<Rightarrow> fx_status \<times> 'w"
  fx_directory_first_full_entry_find :: "'w \<Rightarrow> volume \<Rightarrow> fx_status \<times> (string \<times> u32) \<times> 'w"
  fx_directory_next_full_entry_find :: "'w \<Rightarrow> volume \<Rightarrow> fx_status \<times> (string \<times> u32) \<times> 'w"
  fx_media_flush :: "'w \<Rightarrow> volume \<Rightarrow> fx_status \<times> 'w"
  fx_media_extended_space_available :: "'w \<Rightarrow> volume \<Rightarrow> fx_status \<times> u64 \<times> 'w"
  fx_media_total_sectors :: "'w \<Rightarrow> volume \<Rightarrow> u64"
  fx_file_open :: "'w \<Rightarrow> volume \<Rightarrow> nat \<Rightarrow> string \<Rightarrow> open_type \<Rightarrow> fx_status \<times> 'w"
  fx_file_close :: "'w \<Rightarrow> nat \<Rightarrow> fx_status \<times> 'w"
  fx_file_extended_seek :: "'w \<Rightarrow> nat \<Rightarrow> u64 \<Rightarrow> fx_status \<times> 'w"
  fx_file_read :: "'w \<Rightarrow> nat \<Rightarrow> u32 \<Rightarrow> fx_status \<times> (u8 list \<times> u32) \<times> 'w"
  fx_file_write :: "'w \<Rightarrow> nat \<Rightarrow> u8 list \<Rightarrow> fx_status \<times> 'w"
  fx_file_extended_truncate_release :: "'w \<Rightarrow> nat \<Rightarrow> u64 \<Rightarrow> fx_status \<times> 'w"
  fx_file_current_file_offset :: "'w \<Rightarrow> nat \<Rightarrow> u64"
  fx_file_current_file_size :: "'w \<Rightarrow> nat \<Rightarrow> u64"
  fx_file_zero :: "'w \<Rightarrow> nat \<Rightarrow> 'w"
  tx_mutex_get :: "'w \<Rightarrow> tx_status \<times> 'w"
  tx_mutex_put :: "'w \<Rightarrow> tx_status \<times> 'w"
  get_IPSR :: "'w \<Rightarrow> u32"
  io_putchar :: "('w \<Rightarrow> u8 \<Rightarrow> int \<times> 'w) option"
  io_getchar :: "('w \<Rightarrow> int \<times> 'w) option"

end
