(* ===== verification/Path.thy ===== *)
theory Path
  imports FileX_Interface
begin

text \<open>
  Path handling of \<open>platform/runtime/libc/filesystem.cpp\<close>: normalisation of a C string
  against the current directory, case-folded prefix tests, the split of a normalised path
  into a mounted volume and a path on it, and the rewriting of stored paths when a
  directory is renamed. A C string is the list of its characters before the terminator; a
  null pointer is \<open>None\<close>. Buffers of \<open>MAXIMUM_PATH\<close> characters hold strings shorter than
  that, which the theorems show.
\<close>

section \<open>Normalisation\<close>

definition MAXIMUM_PATH :: nat where
  "MAXIMUM_PATH = 256"

definition is_separator :: "char \<Rightarrow> bool" where
  "is_separator c \<longleftrightarrow> c = CHR ''/'' \<or> c = CHR 0x5C"

text \<open>
  The inner loop of the \<open>..\<close> case: drop characters until the output is one character
  long or ends in a slash.
\<close>

function drop_component :: "string \<Rightarrow> string" where
  "drop_component out =
     (if length out > 1 \<and> last out \<noteq> CHR ''/'' then drop_component (butlast out) else out)"
  by pat_completeness auto
termination
  by (relation "measure length") auto

declare drop_component.simps [simp del]

definition ascend :: "string \<Rightarrow> string" where
  "ascend out =
     (let out1 = drop_component (butlast out)
      in if length out1 > 1 then butlast out1 else out1)"

function normalize_loop :: "string \<Rightarrow> string \<Rightarrow> errno + string" where
  "normalize_loop cursor out =
     (if cursor = [] then Inr out
      else
        let start = dropWhile is_separator cursor;
            comp = takeWhile (\<lambda>c. \<not> is_separator c) start;
            rest = dropWhile (\<lambda>c. \<not> is_separator c) start
        in if length comp = 0 \<or> comp = ''.'' then normalize_loop rest out
           else if comp = ''..'' then
             (if length out = 1 then Inl EACCES else normalize_loop rest (ascend out))
           else if length out \<noteq> 1 \<and> length out + 1 \<ge> MAXIMUM_PATH then Inl ENAMETOOLONG
           else
             let out1 = (if length out \<noteq> 1 then out @ ''/'' else out)
             in if length comp \<ge> MAXIMUM_PATH - length out1 then Inl ENAMETOOLONG
                else normalize_loop rest (out1 @ comp))"
  by pat_completeness auto

lemma component_progress:
  assumes "cursor \<noteq> []"
  shows "length (dropWhile (\<lambda>c. \<not> is_separator c) (dropWhile is_separator cursor)) < length cursor"
proof (cases cursor)
  case Nil
  with assms show ?thesis by simp
next
  case (Cons c cs)
  show ?thesis
  proof (cases "is_separator c")
    case True
    have "length (dropWhile (\<lambda>c. \<not> is_separator c) (dropWhile is_separator cs)) \<le> length cs"
      by (meson length_dropWhile_le order_trans)
    with Cons True show ?thesis by simp
  next
    case False
    have "length (dropWhile (\<lambda>c. \<not> is_separator c) cs) \<le> length cs"
      by (rule length_dropWhile_le)
    with Cons False show ?thesis by simp
  qed
qed

termination normalize_loop
  by (relation "measure (\<lambda>(cursor, out). length cursor)") (auto simp: component_progress)

declare normalize_loop.simps [simp del]

definition normalize_path_unlocked :: "string \<Rightarrow> string option \<Rightarrow> errno + string" where
  "normalize_path_unlocked current_directory path =
     (case path of
        None \<Rightarrow> Inl ENOENT
      | Some p \<Rightarrow>
          if p = [] then Inl ENOENT
          else
            let relative = \<not> is_separator (hd p);
                base = (if relative then current_directory else [])
            in if relative \<and> length base \<ge> MAXIMUM_PATH then Inl ENAMETOOLONG
               else
                 let base1 = (if length base > 1 \<and> last base \<noteq> CHR ''/'' then base @ ''/'' else base)
                 in if length p \<ge> MAXIMUM_PATH - length base1 then Inl ENAMETOOLONG
                    else normalize_loop (base1 @ p) ''/'')"

section \<open>Case-folded prefixes\<close>

definition fold_ascii_case :: "char \<Rightarrow> u8" where
  "fold_ascii_case character =
     (let value = (of_char character :: u8)
      in if value \<ge> of_char CHR ''a'' \<and> value \<le> of_char CHR ''z''
         then value - of_char CHR ''a'' + of_char CHR ''A'' else value)"

text \<open>
  The loop stops at the first character of \<open>path\<close> that differs from \<open>prefix\<close>; the
  terminator of a shorter \<open>path\<close> differs from every character of \<open>prefix\<close>.
\<close>

fun path_has_prefix :: "string \<Rightarrow> string \<Rightarrow> bool \<Rightarrow> bool" where
  "path_has_prefix [] [] include_descendants = True"
| "path_has_prefix (c # path) [] include_descendants = (include_descendants \<and> c = CHR ''/'')"
| "path_has_prefix [] (d # prefix) include_descendants = False"
| "path_has_prefix (c # path) (d # prefix) include_descendants =
     (fold_ascii_case c = fold_ascii_case d \<and> path_has_prefix path prefix include_descendants)"

definition paths_equal :: "string \<Rightarrow> string \<Rightarrow> bool" where
  "paths_equal first second = path_has_prefix first second False"

section \<open>Mounts\<close>

definition mount_name :: "volume \<Rightarrow> string" where
  "mount_name volume = (if volume = Flash then ''/flash'' else ''/sd'')"

record resolved_path =
  media :: "volume option"
  rp_volume :: volume
  local :: string
  virtual_root :: bool
  mount_root :: bool

definition empty_resolved :: resolved_path where
  "empty_resolved = \<lparr>media = None, rp_volume = Flash, local = [], virtual_root = False,
     mount_root = False\<rparr>"

fun resolve_volumes :: "(volume \<Rightarrow> bool) \<Rightarrow> string \<Rightarrow> volume list \<Rightarrow> errno + resolved_path" where
  "resolve_volumes mounted normalized [] = Inl ENOENT"
| "resolve_volumes mounted normalized (v # vs) =
     (if \<not> path_has_prefix normalized (mount_name v) True then resolve_volumes mounted normalized vs
      else if \<not> mounted v then Inl ENODEV
      else
        let prefix_length = length (mount_name v);
            at_mount = (length normalized = prefix_length)
        in Inr \<lparr>media = Some v, rp_volume = v,
                local = (if at_mount then ''/'' else drop prefix_length normalized),
                virtual_root = False, mount_root = at_mount\<rparr>)"

definition resolve_normalized_path ::
    "(volume \<Rightarrow> bool) \<Rightarrow> string \<Rightarrow> errno + resolved_path" where
  "resolve_normalized_path mounted normalized =
     (if normalized = ''/'' then Inr (empty_resolved\<lparr>virtual_root := True, local := ''/''\<rparr>)
      else resolve_volumes mounted normalized [Flash, Sd])"

definition resolve_path_unlocked ::
    "string \<Rightarrow> (volume \<Rightarrow> bool) \<Rightarrow> string option \<Rightarrow> errno + (string \<times> resolved_path)" where
  "resolve_path_unlocked current_directory mounted path =
     (case normalize_path_unlocked current_directory path of
        Inl e \<Rightarrow> Inl e
      | Inr normalized \<Rightarrow>
          (case resolve_normalized_path mounted normalized of
             Inl e \<Rightarrow> Inl e
           | Inr resolved \<Rightarrow> Inr (normalized, resolved)))"

section \<open>Paths that follow a rename\<close>

definition migrated_path_length :: "string \<Rightarrow> string \<Rightarrow> string \<Rightarrow> bool \<Rightarrow> nat" where
  "migrated_path_length path old_prefix new_prefix include_descendants =
     (if \<not> path_has_prefix path old_prefix include_descendants then length path
      else length new_prefix + length (drop (length old_prefix) path))"

definition migrate_path :: "string \<Rightarrow> string \<Rightarrow> string \<Rightarrow> bool \<Rightarrow> string" where
  "migrate_path path old_prefix new_prefix include_descendants =
     (if \<not> path_has_prefix path old_prefix include_descendants then path
      else new_prefix @ drop (length old_prefix) path)"


section \<open>Component lists: the specification of paths\<close>

text \<open>
  A normalised path stands for the list of its components. \<open>walk\<close> is what the runtime
  promises of normalisation: process the components from left to right on a stack,
  ignoring \<open>.\<close>, popping at \<open>..\<close>, refusing to leave the root and refusing to grow beyond
  the buffer.
\<close>

function split_path :: "string \<Rightarrow> string list" where
  "split_path s =
     (let start = dropWhile is_separator s
      in if start = [] then []
         else takeWhile (\<lambda>c. \<not> is_separator c) start
                # split_path (dropWhile (\<lambda>c. \<not> is_separator c) start))"
  by pat_completeness auto
termination
  by (relation "measure length") (auto intro!: component_progress)

declare split_path.simps [simp del]

definition tail_string :: "string list \<Rightarrow> string" where
  "tail_string cs = concat (map (Cons (CHR ''/'')) cs)"

definition join_path :: "string list \<Rightarrow> string" where
  "join_path cs = (if cs = [] then ''/'' else tail_string cs)"

definition plain_component :: "string \<Rightarrow> bool" where
  "plain_component c \<longleftrightarrow> c \<noteq> [] \<and> list_all (\<lambda>x. \<not> is_separator x) c"

definition valid_component :: "string \<Rightarrow> bool" where
  "valid_component c \<longleftrightarrow> plain_component c \<and> c \<noteq> ''.'' \<and> c \<noteq> ''..''"

definition canonical :: "string \<Rightarrow> bool" where
  "canonical p \<longleftrightarrow> list_all valid_component (split_path p) \<and> p = join_path (split_path p)"

fun walk :: "string list \<Rightarrow> string list \<Rightarrow> errno + string list" where
  "walk stack [] = Inr stack"
| "walk stack (c # cs) =
     (if c = ''.'' then walk stack cs
      else if c = ''..'' then (if stack = [] then Inl EACCES else walk (butlast stack) cs)
      else if length (join_path (stack @ [c])) \<ge> MAXIMUM_PATH then Inl ENAMETOOLONG
      else walk (stack @ [c]) cs)"

fun join_result :: "errno + string list \<Rightarrow> errno + string" where
  "join_result (Inl e) = Inl e"
| "join_result (Inr st) = Inr (join_path st)"

subsection \<open>Splitting and joining\<close>

lemma is_separator_slash [simp]: "is_separator CHR ''/''"
  by (simp add: is_separator_def)

lemma is_separator_dot [simp]: "\<not> is_separator CHR ''.''"
  by (simp add: is_separator_def)

lemma tail_string_Nil [simp]: "tail_string [] = []"
  by (simp add: tail_string_def)

lemma tail_string_Cons [simp]: "tail_string (c # cs) = CHR ''/'' # c @ tail_string cs"
  by (simp add: tail_string_def)

lemma tail_string_append [simp]: "tail_string (cs @ ds) = tail_string cs @ tail_string ds"
  by (simp add: tail_string_def)

lemma tail_string_empty [simp]: "tail_string cs = [] \<longleftrightarrow> cs = []"
  by (cases cs) simp_all

lemma tail_string_hd: "cs \<noteq> [] \<Longrightarrow> hd (tail_string cs) = CHR ''/''"
  by (cases cs) simp_all

lemma join_path_Nil [simp]: "join_path [] = ''/''"
  by (simp add: join_path_def)

lemma join_path_tail: "cs \<noteq> [] \<Longrightarrow> join_path cs = tail_string cs"
  by (simp add: join_path_def)

lemma join_path_nonempty [simp]: "join_path cs \<noteq> []"
  by (simp add: join_path_def)

lemma valid_plain: "valid_component c \<Longrightarrow> plain_component c"
  by (simp add: valid_component_def)

lemma valid_nonempty: "valid_component c \<Longrightarrow> c \<noteq> []"
  by (simp add: valid_component_def plain_component_def)

lemma plain_no_slash: "plain_component c \<Longrightarrow> CHR ''/'' \<notin> set c"
  by (auto simp: plain_component_def list_all_iff is_separator_def)

lemma split_path_Nil [simp]: "split_path [] = []"
  by (simp add: split_path.simps)

lemma split_path_sep [simp]: "is_separator c \<Longrightarrow> split_path (c # s) = split_path s"
  by (simp add: split_path.simps [of "c # s"] split_path.simps [of s])

lemma split_path_seps: "split_path (dropWhile is_separator s) = split_path s"
  by (induction s) auto

lemma takeWhile_plain:
  "list_all (\<lambda>x. \<not> is_separator x) c \<Longrightarrow> s = [] \<or> is_separator (hd s) \<Longrightarrow>
   takeWhile (\<lambda>x. \<not> is_separator x) (c @ s) = c"
  by (induction c) (auto simp: takeWhile_eq_Nil_iff)

lemma dropWhile_plain:
  "list_all (\<lambda>x. \<not> is_separator x) c \<Longrightarrow> s = [] \<or> is_separator (hd s) \<Longrightarrow>
   dropWhile (\<lambda>x. \<not> is_separator x) (c @ s) = s"
  by (induction c) (auto simp: dropWhile_eq_self_iff)

lemma split_path_component:
  assumes "plain_component c" and "s = [] \<or> is_separator (hd s)"
  shows "split_path (c @ s) = c # split_path s"
proof -
  from assms(1) obtain x xs where c: "c = x # xs" and x: "\<not> is_separator x"
    by (cases c) (auto simp: plain_component_def)
  have start: "dropWhile is_separator (c @ s) = c @ s"
    using c x by simp
  have pl: "list_all (\<lambda>x. \<not> is_separator x) c"
    using assms(1) by (simp add: plain_component_def)
  have nonempty: "c @ s \<noteq> []"
    using c by simp
  show ?thesis
    using nonempty takeWhile_plain [OF pl assms(2)] dropWhile_plain [OF pl assms(2)]
    by (simp only: split_path.simps [of "c @ s"] start Let_def if_False)
qed

lemma split_path_plain: "list_all plain_component (split_path s)"
proof (induction s rule: split_path.induct)
  case (1 s)
  let ?start = "dropWhile is_separator s"
  show ?case
  proof (cases "?start = []")
    case True
    then show ?thesis by (simp add: split_path.simps [of s])
  next
    case False
    then have hd: "\<not> is_separator (hd ?start)"
      by (rule hd_dropWhile)
    then have "plain_component (takeWhile (\<lambda>c. \<not> is_separator c) ?start)"
      using False
      by (auto simp: plain_component_def list_all_iff takeWhile_eq_Nil_iff dest: set_takeWhileD)
    with 1 [OF refl False] False show ?thesis
      by (simp add: split_path.simps [of s] Let_def)
  qed
qed

lemma tail_string_starts: "tail_string cs = [] \<or> is_separator (hd (tail_string cs))"
  by (cases cs) simp_all

lemma split_tail_string:
  "list_all plain_component cs \<Longrightarrow> split_path (tail_string cs) = cs"
  by (induction cs) (simp_all add: split_path_component [OF _ tail_string_starts])

lemma split_join_path [path_simps]:
  "list_all plain_component cs \<Longrightarrow> split_path (join_path cs) = cs"
  by (cases "cs = []") (simp_all add: join_path_tail split_tail_string)

lemma valid_plain_all: "list_all valid_component cs \<Longrightarrow> list_all plain_component cs"
  by (simp add: list_all_iff valid_plain)

lemma canonical_join: "list_all valid_component cs \<Longrightarrow> canonical (join_path cs)"
  by (simp add: canonical_def valid_plain_all split_join_path)

lemma canonicalE:
  assumes "canonical p"
  obtains cs where "list_all valid_component cs" and "p = join_path cs" and "split_path p = cs"
  using assms by (auto simp: canonical_def)

lemma canonical_iff: "canonical p \<longleftrightarrow> (\<exists>cs. list_all valid_component cs \<and> p = join_path cs)"
  by (metis canonicalE canonical_join)

lemma split_path_append_sep:
  "is_separator d \<Longrightarrow> split_path (s @ d # t) = split_path s @ split_path t"
proof (induction s rule: split_path.induct)
  case (1 s)
  let ?start = "dropWhile is_separator s"
  show ?case
  proof (cases "?start = []")
    case True
    then have "list_all is_separator s"
      by (auto simp: list_all_iff)
    then have "split_path (s @ d # t) = split_path t"
      using "1.prems" by (induction s) simp_all
    with True show ?thesis by (simp add: split_path.simps [of s])
  next
    case False
    let ?c = "takeWhile (\<lambda>c. \<not> is_separator c) ?start"
    let ?r = "dropWhile (\<lambda>c. \<not> is_separator c) ?start"
    have pl: "plain_component ?c"
      using split_path_plain [of s] False
      unfolding split_path.simps [of s] Let_def if_not_P [OF False] by simp
    have rest: "?r @ d # t = [] \<or> is_separator (hd (?r @ d # t))"
      using "1.prems" hd_dropWhile [of "\<lambda>c. \<not> is_separator c" ?start]
      unfolding hd_append list.sel by presburger
    have "split_path (s @ d # t) = split_path (?start @ d # t)"
      using False split_path_seps [of "s @ d # t"]
      by (auto simp: dropWhile_append split: if_splits)
    also have "\<dots> = split_path (?c @ ?r @ d # t)"
      by (simp only: append_assoc [symmetric] takeWhile_dropWhile_id)
    also have "\<dots> = ?c # split_path (?r @ d # t)"
      by (rule split_path_component [OF pl rest])
    also have "\<dots> = ?c # split_path ?r @ split_path t"
      using "1.IH" [OF refl False "1.prems"] by simp
    also have "\<dots> = split_path s @ split_path t"
      using False by (simp add: split_path.simps [of s] Let_def)
    finally show ?thesis .
  qed
qed

subsection \<open>Normalisation implements the component walk\<close>

lemma drop_component_slash:
  "CHR ''/'' \<notin> set u \<Longrightarrow> drop_component (x @ CHR ''/'' # u) = x @ ''/''"
proof (induction u rule: rev_induct)
  case Nil
  then show ?case by (simp add: drop_component.simps [of "x @ ''/''"])
next
  case (snoc c u)
  then have "drop_component (x @ CHR ''/'' # u @ [c]) = drop_component (x @ CHR ''/'' # u)"
    by (subst drop_component.simps) (auto simp: butlast_append)
  with snoc show ?case by simp
qed

lemma ascend_join_path [path_simps]:
  assumes "list_all valid_component st" and "st \<noteq> []"
  shows "ascend (join_path st) = join_path (butlast st)"
proof -
  from assms(2) obtain ss c where st: "st = ss @ [c]"
    by (cases st rule: rev_cases) auto
  then have c: "valid_component c"
    using assms(1) by simp
  have "CHR ''/'' \<notin> set (butlast c)"
    using plain_no_slash [OF valid_plain [OF c]] by (auto dest: in_set_butlastD)
  then have "drop_component (butlast (tail_string ss @ CHR ''/'' # c)) = tail_string ss @ ''/''"
    using valid_nonempty [OF c] by (simp add: butlast_append drop_component_slash)
  then show ?thesis
    using st by (cases "ss = []") (simp_all add: ascend_def join_path_tail Let_def)
qed

lemma length_join_root: "list_all valid_component st \<Longrightarrow> length (join_path st) = 1 \<longleftrightarrow> st = []"
  by (cases st) (auto simp: join_path_tail dest: valid_nonempty)

lemma join_path_snoc:
  "list_all valid_component st \<Longrightarrow>
   join_path (st @ [c]) = (if length (join_path st) \<noteq> 1 then join_path st @ ''/'' else join_path st) @ c"
  using length_join_root [of st] by (cases "st = []") (auto simp: join_path_tail)

lemma normalize_loop_Nil: "normalize_loop [] out = Inr out"
  by (simp add: normalize_loop.simps)

lemma normalize_loop_component:
  assumes "cursor \<noteq> []" and "c \<noteq> []"
    and "c = takeWhile (\<lambda>x. \<not> is_separator x) (dropWhile is_separator cursor)"
    and "rest = dropWhile (\<lambda>x. \<not> is_separator x) (dropWhile is_separator cursor)"
  shows "normalize_loop cursor out =
    (if c = ''.'' then normalize_loop rest out
     else if c = ''..'' then (if length out = 1 then Inl EACCES else normalize_loop rest (ascend out))
     else
       let out1 = (if length out \<noteq> 1 then out @ ''/'' else out)
       in if length out1 + length c \<ge> MAXIMUM_PATH then Inl ENAMETOOLONG
          else normalize_loop rest (out1 @ c))"
proof -
  have "Suc 0 \<le> length c"
    using assms(2) by (cases c) simp_all
  then show ?thesis
    unfolding normalize_loop.simps [of cursor] assms(3,4) [symmetric] Let_def if_not_P [OF assms(1)]
    by (simp add: assms(2)) auto
qed

theorem normalize_loop_walk:
  "list_all valid_component st \<Longrightarrow>
   normalize_loop cursor (join_path st) = join_result (walk st (split_path cursor))"
proof (induction cursor arbitrary: st rule: length_induct)
  case (1 cursor)
  let ?start = "dropWhile is_separator cursor"
  define comp where comp: "comp = takeWhile (\<lambda>c. \<not> is_separator c) ?start"
  define rest where rest: "rest = dropWhile (\<lambda>c. \<not> is_separator c) ?start"
  show ?case
  proof (cases "?start = []")
    case True
    then have "rest = []" and "comp = []"
      by (simp_all only: comp rest True dropWhile.simps takeWhile.simps)
    moreover have "split_path cursor = []"
      unfolding split_path.simps [of cursor] Let_def if_P [OF True] ..
    ultimately show ?thesis
      unfolding normalize_loop.simps [of cursor] Let_def comp [symmetric] rest [symmetric]
      by (simp add: normalize_loop_Nil)
  next
    case False
    then have nonempty: "cursor \<noteq> []"
      by auto
    have "length rest < length cursor"
      unfolding rest by (rule component_progress [OF nonempty])
    then have IH: "normalize_loop rest (join_path ss) = join_result (walk ss (split_path rest))"
      if "list_all valid_component ss" for ss
      using "1.IH" that by blast
    have split: "split_path cursor = comp # split_path rest"
      unfolding split_path.simps [of cursor] Let_def if_not_P [OF False] comp rest ..
    have plain: "plain_component comp"
      using split_path_plain [of cursor] split by simp
    then have "comp \<noteq> []"
      by (auto simp: plain_component_def)
    note step = normalize_loop_component [OF nonempty this comp rest, of "join_path st"]
    show ?thesis
    proof (cases "comp = ''.'' \<or> comp = ''..''")
      case True
      then show ?thesis
        using "1.prems" length_join_root [OF "1.prems"] ascend_join_path [OF "1.prems"]
        unfolding step split by (auto simp: IH list_all_init)
    next
      case False
      then have "list_all valid_component (st @ [comp])"
        using plain "1.prems" by (auto simp: valid_component_def [of comp])
      with False show ?thesis
        unfolding step split Let_def join_path_snoc [OF "1.prems", symmetric]
          length_append [symmetric] by (simp add: IH)
    qed
  qed
qed

lemma walk_valid:
  "walk st cs = Inr st' \<Longrightarrow> list_all valid_component st \<Longrightarrow> list_all plain_component cs \<Longrightarrow>
   length (join_path st) < MAXIMUM_PATH \<Longrightarrow>
   list_all valid_component st' \<and> length (join_path st') < MAXIMUM_PATH"
proof (induction st cs rule: walk.induct)
  case (1 stack)
  then show ?case by simp
next
  case (2 stack c cs)
  have pop: "length (join_path (butlast stack)) < MAXIMUM_PATH"
  proof (cases stack rule: rev_cases)
    case Nil
    then show ?thesis by (simp add: MAXIMUM_PATH_def)
  next
    case (snoc ss x)
    then show ?thesis
      using "2.prems"(4) by (cases "ss = []") (simp_all add: join_path_tail MAXIMUM_PATH_def)
  qed
  from 2 pop show ?case
    by (auto split: if_splits simp: list_all_init valid_component_def)
qed

lemma walk_append:
  "length (join_path (st @ ks)) < MAXIMUM_PATH \<Longrightarrow> list_all valid_component ks \<Longrightarrow>
   walk st (ks @ cs) = walk (st @ ks) cs"
proof (induction ks arbitrary: st)
  case Nil
  then show ?case by simp
next
  case (Cons k ks)
  have "length (join_path (st @ [k])) \<le> length (join_path (st @ k # ks))"
    by (simp add: join_path_tail)
  with Cons.prems have fits: "length (join_path (st @ [k])) < MAXIMUM_PATH"
    by linarith
  from Cons.prems(2) have "k \<noteq> ''.''" and "k \<noteq> ''..''"
    by (auto simp: valid_component_def)
  with fits Cons show ?case
    by simp
qed

lemma canonical_last: "canonical p \<Longrightarrow> length p > 1 \<Longrightarrow> last p \<noteq> CHR ''/''"
proof (erule canonicalE)
  fix cs
  assume "length p > 1" and valid: "list_all valid_component cs" and p: "p = join_path cs"
  then obtain ss c where cs: "cs = ss @ [c]"
    by (cases cs rule: rev_cases) auto
  then have c: "c \<noteq> []" "CHR ''/'' \<notin> set c"
    using valid by (auto dest: valid_nonempty valid_plain plain_no_slash)
  then have "last p = last c"
    using p cs by (simp add: join_path_tail)
  with c show "last p \<noteq> CHR ''/''"
    by (metis last_in_set)
qed

lemma split_path_relative:
  assumes "canonical cwd" and "length cwd < MAXIMUM_PATH"
  shows "walk [] (split_path ((if length cwd > 1 then cwd @ ''/'' else cwd) @ p))
         = walk (split_path cwd) (split_path p)"
proof -
  from assms(1) obtain cs where cs: "list_all valid_component cs" "cwd = join_path cs" "split_path cwd = cs"
    by (rule canonicalE)
  have "split_path ((if length cwd > 1 then cwd @ ''/'' else cwd) @ p) = cs @ split_path p"
  proof (cases "length cwd > 1")
    case True
    then show ?thesis
      using cs(3) split_path_append_sep [of "CHR ''/''" cwd p] by simp
  next
    case False
    then have "cs = []"
      using cs(2) length_join_root [OF cs(1)] join_path_nonempty [of cs]
      by (cases "join_path cs") auto
    with False cs show ?thesis by simp
  qed
  then show ?thesis
    using walk_append [of "[]" cs "split_path p"] assms(2) cs by simp
qed

text \<open>The length check on the raw input, before any component is looked at.\<close>

definition input_too_long :: "string \<Rightarrow> string \<Rightarrow> bool" where
  "input_too_long cwd p \<longleftrightarrow>
     (if is_separator (hd p) then length p \<ge> MAXIMUM_PATH
      else length cwd + (if length cwd > 1 then 1 else 0) + length p \<ge> MAXIMUM_PATH)"

lemma normalize_path_walk:
  assumes "canonical cwd" and "length cwd < MAXIMUM_PATH" and "p \<noteq> []"
  shows "normalize_path_unlocked cwd (Some p) =
    (if input_too_long cwd p then Inl ENAMETOOLONG
     else join_result (walk (if is_separator (hd p) then [] else split_path cwd) (split_path p)))"
proof (cases "is_separator (hd p)")
  case True
  then show ?thesis
    using assms(3) normalize_loop_walk [of "[]" p]
    by (simp add: normalize_path_unlocked_def input_too_long_def)
next
  case False
  let ?base = "if length cwd > 1 then cwd @ ''/'' else cwd"
  have base: "(if length cwd > 1 \<and> last cwd \<noteq> CHR ''/'' then cwd @ ''/'' else cwd) = ?base"
    using canonical_last [OF assms(1)] by simp
  have len: "length p \<ge> MAXIMUM_PATH - length ?base \<longleftrightarrow> input_too_long cwd p"
    using False assms(2) by (auto simp: input_too_long_def)
  have "normalize_path_unlocked cwd (Some p) =
      (if input_too_long cwd p then Inl ENAMETOOLONG else normalize_loop (?base @ p) ''/'')"
    using False assms(2,3)
    unfolding normalize_path_unlocked_def Let_def len [symmetric] base [symmetric] by auto
  then show ?thesis
    using False normalize_loop_walk [of "[]" "?base @ p"] split_path_relative [OF assms(1,2), of p]
    by simp
qed

lemma normalize_path_Inr:
  assumes "canonical cwd" and "length cwd < MAXIMUM_PATH"
    and "normalize_path_unlocked cwd path = Inr out"
  shows "canonical out \<and> length out < MAXIMUM_PATH"
proof -
  from assms(3) obtain p where p: "path = Some p" "p \<noteq> []"
    by (auto simp: normalize_path_unlocked_def split: option.splits if_splits)
  let ?st = "if is_separator (hd p) then [] else split_path cwd"
  from assms p obtain st' where st': "walk ?st (split_path p) = Inr st'" and out: "out = join_path st'"
    using normalize_path_walk [OF assms(1,2) p(2)]
    by (cases "walk ?st (split_path p)") (auto split: if_splits)
  have "list_all valid_component ?st" "length (join_path ?st) < MAXIMUM_PATH"
    using assms(1,2) by (auto simp: canonical_def MAXIMUM_PATH_def)
  with walk_valid [OF st'] split_path_plain out show ?thesis
    by (simp add: canonical_join)
qed

subsection \<open>Case-folded prefixes are component prefixes\<close>

abbreviation fold_path :: "string \<Rightarrow> u8 list" where
  "fold_path p \<equiv> map fold_ascii_case p"

lemma path_has_prefix_iff:
  "path_has_prefix path pre d \<longleftrightarrow>
     (\<exists>u v. path = u @ v \<and> fold_path u = fold_path pre \<and> (v = [] \<or> d \<and> hd v = CHR ''/''))"
proof (induction path pre d rule: path_has_prefix.induct)
  case (4 c path d pre b)
  show ?case
  proof
    assume "path_has_prefix (c # path) (d # pre) b"
    then obtain u v where "path = u @ v" "fold_path u = fold_path pre" "v = [] \<or> b \<and> hd v = CHR ''/''"
      and "fold_ascii_case c = fold_ascii_case d"
      using 4 by auto
    then show "\<exists>u v. c # path = u @ v \<and> fold_path u = fold_path (d # pre) \<and> (v = [] \<or> b \<and> hd v = CHR ''/'')"
      by (intro exI [of _ "c # u"] exI [of _ v]) simp
  next
    assume "\<exists>u v. c # path = u @ v \<and> fold_path u = fold_path (d # pre) \<and> (v = [] \<or> b \<and> hd v = CHR ''/'')"
    then obtain u v where "c # path = u @ v" "fold_path u = fold_path (d # pre)" "v = [] \<or> b \<and> hd v = CHR ''/''"
      by blast
    then obtain w where "path = w @ v" "fold_path w = fold_path pre" "fold_ascii_case c = fold_ascii_case d"
      by (cases u) auto
    with 4 \<open>v = [] \<or> b \<and> hd v = CHR ''/''\<close> show "path_has_prefix (c # path) (d # pre) b"
      by auto
  qed
qed auto

lemma path_has_prefixE:
  assumes "path_has_prefix path pre d"
  obtains "length pre \<le> length path" and "fold_path (take (length pre) path) = fold_path pre"
    and "drop (length pre) path = [] \<or> d \<and> hd (drop (length pre) path) = CHR ''/''"
proof -
  from assms obtain u v where uv: "path = u @ v" "fold_path u = fold_path pre"
    "v = [] \<or> d \<and> hd v = CHR ''/''"
    by (auto simp: path_has_prefix_iff)
  then have "length u = length pre"
    by (metis length_map)
  with uv show thesis
    by (intro that) auto
qed

lemma paths_equal_iff: "paths_equal a b \<longleftrightarrow> fold_path a = fold_path b"
  by (auto simp: paths_equal_def path_has_prefix_iff)

lemma of_char_word: "(of_char c :: u8) = of_nat (of_char c)"
  by (simp only: of_nat_of_char)

lemma of_char_word_inject: "(of_char c :: u8) = of_char d \<longleftrightarrow> c = d"
proof
  assume "(of_char c :: u8) = of_char d"
  then have "unat (of_nat (of_char c) :: u8) = unat (of_nat (of_char d) :: u8)"
    by (simp only: of_char_word)
  then have "(of_char c :: nat) mod 256 = of_char d mod 256"
    by (simp add: unat_of_nat)
  then show "c = d"
    by simp
qed simp

lemma fold_slash [simp]: "fold_ascii_case CHR ''/'' = 0x2F"
  by (simp add: fold_ascii_case_def)

lemma fold_ascii_case_slash: "fold_ascii_case c = 0x2F \<longleftrightarrow> c = CHR ''/''"
proof
  assume fold: "fold_ascii_case c = 0x2F"
  have "(of_char c :: u8) = 0x2F"
  proof (cases "(of_char c :: u8) \<ge> 0x61 \<and> (of_char c :: u8) \<le> 0x7A")
    case True
    then have "unat (of_char c :: u8) \<ge> 0x61" "unat (of_char c :: u8) \<le> 0x7A"
      by (simp_all add: word_le_nat_alt)
    moreover from True fold have "(of_char c :: u8) = 0x4F"
      by (simp add: fold_ascii_case_def Let_def algebra_simps)
    ultimately show ?thesis by simp
  next
    case False
    with fold show ?thesis
      by (auto simp: fold_ascii_case_def Let_def split: if_splits)
  qed
  then show "c = CHR ''/''"
    using of_char_word_inject [of c "CHR ''/''"] by simp
qed simp

definition slash_free :: "string \<Rightarrow> bool" where
  "slash_free c \<longleftrightarrow> CHR ''/'' \<notin> set c"

lemma prefix_component:
  "slash_free p \<Longrightarrow> slash_free q \<Longrightarrow>
   path_has_prefix (p @ tail_string ps) (q @ tail_string qs) True \<longleftrightarrow>
     fold_path p = fold_path q \<and> path_has_prefix (tail_string ps) (tail_string qs) True"
proof (induction p arbitrary: q)
  case Nil
  show ?case
  proof (cases q)
    case Nil
    then show ?thesis by simp
  next
    case (Cons d q')
    with Nil.prems have "fold_ascii_case d \<noteq> 0x2F"
      by (auto simp: slash_free_def fold_ascii_case_slash)
    with Cons show ?thesis by (cases ps) auto
  qed
next
  case (Cons c p)
  then have c: "c \<noteq> CHR ''/''" "fold_ascii_case c \<noteq> 0x2F" and p: "slash_free p"
    by (auto simp: slash_free_def fold_ascii_case_slash)
  show ?case
  proof (cases q)
    case Nil
    with c show ?thesis by (cases qs) auto
  next
    case (Cons d q')
    with Cons.prems have "slash_free q'"
      by (simp add: slash_free_def)
    with Cons.IH [OF p, of q'] Cons show ?thesis by simp
  qed
qed

lemma prefix_tail_strings:
  "list_all slash_free ps \<Longrightarrow> list_all slash_free qs \<Longrightarrow>
   path_has_prefix (tail_string ps) (tail_string qs) True \<longleftrightarrow>
     (\<exists>ds. map fold_path ps = map fold_path qs @ ds)"
proof (induction qs arbitrary: ps)
  case Nil
  then show ?case by (cases ps) simp_all
next
  case (Cons q qs)
  then show ?case by (cases ps) (simp_all add: prefix_component)
qed

lemma valid_slash_free: "list_all valid_component cs \<Longrightarrow> list_all slash_free cs"
  by (auto simp: list_all_iff slash_free_def dest: valid_plain plain_no_slash)

lemma canonical_tail: "canonical p \<Longrightarrow> p \<noteq> ''/'' \<Longrightarrow> p = tail_string (split_path p) \<and> split_path p \<noteq> []"
  by (metis canonicalE join_path_Nil join_path_tail)

lemma path_has_prefix_components:
  assumes "canonical path" and "canonical pre" and "pre \<noteq> ''/''"
  shows "path_has_prefix path pre True \<longleftrightarrow>
    (\<exists>ds. map fold_path (split_path path) = map fold_path (split_path pre) @ ds)"
proof (cases "path = ''/''")
  case True
  have pre: "pre = tail_string (split_path pre)" "split_path pre \<noteq> []"
    using canonical_tail [OF assms(2,3)] by auto
  then obtain c cs where cs: "split_path pre = c # cs"
    by (cases "split_path pre") auto
  with assms(2) have "c \<noteq> []"
    by (auto simp: canonical_def dest: valid_nonempty)
  then have "\<not> path_has_prefix ''/'' (CHR ''/'' # c @ tail_string cs) True"
    by (cases c) auto
  with True pre(1) cs show ?thesis
    by (simp del: path_has_prefix.simps)
next
  case False
  then show ?thesis
    using canonical_tail [OF assms(1) False] canonical_tail [OF assms(2,3)] assms
      prefix_tail_strings [of "split_path path" "split_path pre"]
    by (simp add: canonical_def valid_slash_free)
qed

subsection \<open>Resolution and migration on component lists\<close>

lemma mount_name_tail: "mount_name v = tail_string [tl (mount_name v)]"
  by (cases v) (simp_all add: mount_name_def)

lemma mount_prefix:
  assumes "list_all valid_component (c # cs)"
  shows "path_has_prefix (join_path (c # cs)) (mount_name v) True \<longleftrightarrow>
    fold_path c = fold_path (tl (mount_name v))"
proof -
  have "list_all slash_free [tl (mount_name v)]"
    by (cases v) (simp_all add: mount_name_def slash_free_def)
  then show ?thesis
    using prefix_tail_strings [of "c # cs" "[tl (mount_name v)]"] valid_slash_free [OF assms]
    by (subst mount_name_tail) (simp add: join_path_tail del: path_has_prefix.simps)
qed

lemma resolve_mounted:
  assumes "list_all valid_component (c # cs)" and "fold_path c = fold_path (tl (mount_name v))"
  shows "resolve_volumes mounted (join_path (c # cs)) (v # vs) =
    (if mounted v
     then Inr \<lparr>media = Some v, rp_volume = v, local = join_path cs, virtual_root = False,
               mount_root = (cs = [])\<rparr>
     else Inl ENODEV)"
proof -
  have len: "length (mount_name v) = Suc (length c)"
    using arg_cong [OF assms(2), of length] by (cases v) (simp_all add: mount_name_def)
  then have "drop (length (mount_name v)) (join_path (c # cs)) = tail_string cs"
    by (simp add: join_path_tail)
  moreover have "length (join_path (c # cs)) = length (mount_name v) \<longleftrightarrow> cs = []"
    using len by (simp add: join_path_tail)
  ultimately show ?thesis
    using mount_prefix [OF assms(1), of v] assms(2) by (simp add: join_path_def [of cs] Let_def)
qed

lemma drop_components:
  assumes "list_all slash_free ps" and "list_all slash_free qs"
    and "map fold_path ps = map fold_path qs @ ds"
  shows "drop (length (tail_string qs)) (tail_string ps) = tail_string (drop (length qs) ps)"
  using assms
proof (induction qs arbitrary: ps)
  case Nil
  then show ?case by simp
next
  case (Cons q qs)
  then obtain p ps' where ps: "ps = p # ps'" and "fold_path p = fold_path q"
    by (cases ps) auto
  then have "length p = length q"
    by (metis length_map)
  with Cons ps show ?case by simp
qed

lemma migrate_path_components:
  assumes "canonical path" and "canonical old" and "old \<noteq> ''/''" and "canonical new" and "new \<noteq> ''/''"
    and "path_has_prefix path old True"
  shows "migrate_path path old new True =
    join_path (split_path new @ drop (length (split_path old)) (split_path path))"
proof -
  from assms obtain ds where ds: "map fold_path (split_path path) = map fold_path (split_path old) @ ds"
    using path_has_prefix_components [OF assms(1-3)] by blast
  have "path \<noteq> ''/''"
  proof
    assume "path = ''/''"
    then have "split_path old = []"
      using ds by simp
    with canonical_tail [OF assms(2,3)] show False by simp
  qed
  then have "drop (length old) path = tail_string (drop (length (split_path old)) (split_path path))"
    using canonical_tail [OF assms(1)] canonical_tail [OF assms(2,3)] ds assms(1,2)
      drop_components [of "split_path path" "split_path old" ds]
    by (simp add: canonical_def valid_slash_free)
  then show ?thesis
    using assms(6) canonical_tail [OF assms(4,5)]
    by (simp add: migrate_path_def join_path_tail)
qed

lemma migrate_path_length: "length (migrate_path path old new d) = migrated_path_length path old new d"
  by (simp add: migrate_path_def migrated_path_length_def)

lemma migrate_path_exact:
  assumes "path_has_prefix path old False"
  shows "migrate_path path old new False = new"
  using assms by (auto simp: migrate_path_def elim: path_has_prefixE)

lemma canonical_migrate_path:
  assumes "canonical path" and "canonical old" and "old \<noteq> ''/''" and "canonical new" and "new \<noteq> ''/''"
  shows "canonical (migrate_path path old new d)"
proof (cases "path_has_prefix path old d")
  case False
  then show ?thesis
    using assms(1) by (simp add: migrate_path_def)
next
  case True
  show ?thesis
  proof (cases d)
    case False
    then show ?thesis
      using True assms(4) migrate_path_exact by simp
  next
    case d: True
    have "list_all valid_component (drop n (split_path path))" for n
      using assms(1) by (auto simp: canonical_def list_all_iff dest: in_set_dropD)
    then show ?thesis
      using True d assms(4) migrate_path_components [OF assms]
      by (auto simp: canonical_def [of new] intro!: canonical_join)
  qed
qed

lemma normalize_path_fixpoint:
  assumes "canonical cwd" and "length cwd < MAXIMUM_PATH"
    and "canonical p" and "length p < MAXIMUM_PATH"
  shows "normalize_path_unlocked cwd (Some p) = Inr p"
proof -
  from assms(3) obtain cs where cs: "list_all valid_component cs" "p = join_path cs" "split_path p = cs"
    by (rule canonicalE)
  have hd: "is_separator (hd p)" and p: "p \<noteq> []"
    using cs(2) tail_string_hd [of cs] by (auto simp: join_path_def)
  have "walk [] cs = Inr cs"
    using walk_append [of "[]" cs "[]"] cs assms(4) by simp
  then show ?thesis
    using normalize_path_walk [OF assms(1,2) p] hd assms(4) cs by (simp add: input_too_long_def)
qed

section \<open>Properties\<close>

text \<open>
  C6. Normalisation is the component walk. For every input, null and empty ones included,
  the character-level loops of \<open>normalize_path_unlocked\<close> return exactly what the abstract
  stack machine returns: absolute paths start at the root, relative ones at the current
  directory, both separators count, and each error is reported in the same cases.
\<close>

theorem normalize_path_refines:
  assumes "canonical cwd" and "length cwd < MAXIMUM_PATH"
  shows "normalize_path_unlocked cwd path =
    (case path of
       None \<Rightarrow> Inl ENOENT
     | Some p \<Rightarrow>
         if p = [] then Inl ENOENT
         else if input_too_long cwd p then Inl ENAMETOOLONG
         else join_result (walk (if is_separator (hd p) then [] else split_path cwd) (split_path p)))"
  using normalize_path_walk [OF assms]
  by (auto simp: normalize_path_unlocked_def split: option.splits)

theorem normalize_path_refines_witness:
  "canonical ''/flash'' \<and>
   normalize_path_unlocked ''/flash'' (Some ''a/./b/../c'') = Inr ''/flash/a/c'' \<and>
   normalize_path_unlocked ''/flash'' (Some ''../../x'') = Inl EACCES"
proof -
  have h: "canonical ''/flash''" "length ''/flash'' < MAXIMUM_PATH"
    by code_simp+
  show ?thesis
    unfolding normalize_path_refines [OF h] by (intro conjI h(1)) code_simp+
qed

text \<open>
  Whatever normalisation accepts is in normal form and fits the buffer: it starts at
  the root, has no empty, \<open>.\<close> or \<open>..\<close> component and no backslash, and is shorter than
  \<open>MAXIMUM_PATH\<close>, so that the terminator is inside the array too.
\<close>

theorem normalize_path_canonical:
  assumes "canonical cwd" and "length cwd < MAXIMUM_PATH"
    and "normalize_path_unlocked cwd path = Inr out"
  shows "canonical out \<and> length out < MAXIMUM_PATH"
  using assms by (rule normalize_path_Inr)

theorem normalize_path_canonical_witness:
  "normalize_path_unlocked ''/sd'' (Some ''x//y'') = Inr ''/sd/x/y'' \<and> canonical ''/sd/x/y''"
proof -
  have h: "canonical ''/sd''" "length ''/sd'' < MAXIMUM_PATH"
    by code_simp+
  have r: "normalize_path_unlocked ''/sd'' (Some ''x//y'') = Inr ''/sd/x/y''"
    by code_simp
  from normalize_path_canonical [OF h r] r show ?thesis by simp
qed

text \<open>
  Normalising a normalised path changes nothing, whatever the current directory, so
  the adapter may normalise a stored path again (\<open>information_unlocked\<close> does).
\<close>

theorem normalize_path_idempotent:
  assumes "canonical cwd" and "length cwd < MAXIMUM_PATH"
    and "canonical p" and "length p < MAXIMUM_PATH"
  shows "normalize_path_unlocked cwd (Some p) = Inr p"
  using assms by (rule normalize_path_fixpoint)

theorem normalize_path_idempotent_witness:
  "normalize_path_unlocked ''/flash'' (Some ''/sd/x/y'') = Inr ''/sd/x/y''"
  by (rule normalize_path_idempotent) code_simp+

text \<open>
  On normalised paths the byte-wise, case-folded prefix test is the prefix relation
  of component lists: \<open>/flash/ab\<close> is not below \<open>/flash/a\<close>, and case never matters.
\<close>

theorem path_prefix_is_component_prefix:
  assumes "canonical path" and "canonical pre" and "pre \<noteq> ''/''"
  shows "path_has_prefix path pre True \<longleftrightarrow>
    (\<exists>ds. map fold_path (split_path path) = map fold_path (split_path pre) @ ds)"
  using assms by (rule path_has_prefix_components)

theorem path_prefix_is_component_prefix_witness:
  "path_has_prefix ''/Flash/A/b'' ''/flash/a'' True \<and> \<not> path_has_prefix ''/flash/ab'' ''/flash/a'' True \<and>
   (\<exists>ds. map fold_path (split_path ''/Flash/A/b'') = map fold_path (split_path ''/flash/a'') @ ds)"
proof -
  have h: "canonical ''/Flash/A/b''" "canonical ''/flash/a''" "''/flash/a'' \<noteq> ''/''"
    by code_simp+
  have p: "path_has_prefix ''/Flash/A/b'' ''/flash/a'' True" "\<not> path_has_prefix ''/flash/ab'' ''/flash/a'' True"
    by code_simp+
  from p path_prefix_is_component_prefix [OF h] show ?thesis by simp
qed

text \<open>
  Resolution dispatches on the first component alone, without regard to case: the
  root is the virtual root, \<open>flash\<close> and \<open>sd\<close> name the volumes if they are mounted
  (\<open>ENODEV\<close> otherwise), the remaining components are the path on the volume, and any
  other first component is \<open>ENOENT\<close>.
\<close>

theorem resolve_path_mounts:
  assumes "list_all valid_component cs"
  shows "resolve_normalized_path mounted (join_path cs) =
    (let mount = (\<lambda>v ds. if mounted v
           then Inr \<lparr>media = Some v, rp_volume = v, local = join_path ds,
                     virtual_root = False, mount_root = (ds = [])\<rparr>
           else Inl ENODEV)
     in case cs of
          [] \<Rightarrow> Inr \<lparr>media = None, rp_volume = Flash, local = ''/'', virtual_root = True,
                     mount_root = False\<rparr>
        | c # ds \<Rightarrow>
            if fold_path c = fold_path ''flash'' then mount Flash ds
            else if fold_path c = fold_path ''sd'' then mount Sd ds
            else Inl ENOENT)"
proof (cases cs)
  case Nil
  then show ?thesis
    by (simp add: resolve_normalized_path_def empty_resolved_def)
next
  case (Cons c ds)
  have names: "tl (mount_name Flash) = ''flash''" "tl (mount_name Sd) = ''sd''"
    by (simp_all add: mount_name_def)
  have root: "join_path (c # ds) \<noteq> ''/''"
    using length_join_root [OF assms] Cons by auto
  have valid: "list_all valid_component (c # ds)"
    using assms Cons by simp
  show ?thesis
    using root mount_prefix [OF valid, of Flash] mount_prefix [OF valid, of Sd]
      resolve_mounted [OF valid, of Flash mounted "[Sd]"] resolve_mounted [OF valid, of Sd mounted "[]"]
    unfolding Cons resolve_normalized_path_def if_not_P [OF root] Let_def names list.case
    by (cases "fold_path c = fold_path ''flash''"; cases "fold_path c = fold_path ''sd''")
      (simp_all only: resolve_volumes.simps if_True if_False simp_thms)
qed

theorem resolve_path_mounts_witness:
  "resolve_normalized_path (\<lambda>v. v = Flash) (join_path [''FLASH'', ''a'']) =
     Inr \<lparr>media = Some Flash, rp_volume = Flash, local = ''/a'', virtual_root = False, mount_root = False\<rparr> \<and>
   resolve_normalized_path (\<lambda>v. v = Flash) (join_path [''sd'']) = Inl ENODEV"
proof -
  have h: "list_all valid_component [''FLASH'', ''a'']" "list_all valid_component [''sd'']"
    by code_simp+
  show ?thesis
    unfolding resolve_path_mounts [OF h(1)] resolve_path_mounts [OF h(2)] by code_simp
qed

text \<open>
  A stored path below a renamed directory follows it: the components of the old name
  are replaced by those of the new one, the rest is kept, the result is again normalised,
  and its length is the one checked beforehand.
\<close>

theorem migrate_path_retargets:
  assumes "canonical path" and "canonical old" and "old \<noteq> ''/''" and "canonical new" and "new \<noteq> ''/''"
  shows "canonical (migrate_path path old new True) \<and>
    length (migrate_path path old new True) = migrated_path_length path old new True \<and>
    (path_has_prefix path old True \<longrightarrow>
      split_path (migrate_path path old new True) =
        split_path new @ drop (length (split_path old)) (split_path path))"
proof (intro conjI impI)
  show "canonical (migrate_path path old new True)"
    using assms by (rule canonical_migrate_path)
  show "length (migrate_path path old new True) = migrated_path_length path old new True"
    by (rule migrate_path_length)
  assume pre: "path_has_prefix path old True"
  have "list_all plain_component (split_path new @ drop n (split_path path))" for n
    using split_path_plain by (auto simp: list_all_iff dest: in_set_dropD)
  then show "split_path (migrate_path path old new True) =
      split_path new @ drop (length (split_path old)) (split_path path)"
    using migrate_path_components [OF assms pre] by (simp add: split_join_path)
qed

theorem migrate_path_retargets_witness:
  "path_has_prefix ''/flash/A/f'' ''/flash/a'' True \<and>
   canonical (migrate_path ''/flash/A/f'' ''/flash/a'' ''/flash/b/c'' True) \<and>
   split_path (migrate_path ''/flash/A/f'' ''/flash/a'' ''/flash/b/c'' True) =
     [''flash'', ''b'', ''c'', ''f'']"
proof -
  have h: "canonical ''/flash/A/f''" "canonical ''/flash/a''" "''/flash/a'' \<noteq> ''/''"
    "canonical ''/flash/b/c''" "''/flash/b/c'' \<noteq> ''/''"
    by code_simp+
  have p: "path_has_prefix ''/flash/A/f'' ''/flash/a'' True"
    by code_simp
  have r: "split_path ''/flash/b/c'' @ drop (length (split_path ''/flash/a'')) (split_path ''/flash/A/f'') =
      [''flash'', ''b'', ''c'', ''f'']"
    by code_simp
  show ?thesis
    using migrate_path_retargets [OF h] p unfolding r by blast
qed

end
