(* ===== verification/Registry.thy ===== *)
theory Registry
  imports Path
begin

unbundle bit_operations_syntax

text \<open>
  The state of the file-system adapter (\<open>platform/runtime/libc/filesystem.cpp\<close>) and the
  helpers its system calls share: the registry guard, directory information, renaming and
  deleting one entry, the backup name of a replacing rename, mode switching of a
  descriptor and the conversion to \<open>struct stat\<close>. The STM32 build is modelled, which has
  every call of the Linux build and the directory streams and interrupt checks beside.
  A helper returns its result with the new state; a call that may never return (the
  non-returning \<open>Error_Handler\<close>, or a directory scan FileX never ends) returns an option.
\<close>

section \<open>State\<close>

definition MAXIMUM_OPEN_FILES :: nat where
  "MAXIMUM_OPEN_FILES = 16"

definition MAXIMUM_OPEN_DIRECTORIES :: nat where
  "MAXIMUM_OPEN_DIRECTORIES = 8"

definition SECTOR_SIZE :: u32 where
  "SECTOR_SIZE = 512"

definition FIRST_FILE_DESCRIPTOR :: int where
  "FIRST_FILE_DESCRIPTOR = 3"

text \<open>The FAT attribute bits FileX reports.\<close>

definition FX_READ_ONLY :: u32 where
  "FX_READ_ONLY = 0x01"

definition FX_DIRECTORY :: u32 where
  "FX_DIRECTORY = 0x10"

record entry_information =
  size :: u64
  attributes :: u32
  year :: u16
  month :: u8
  day :: u8
  hour :: u8
  minute :: u8
  second :: u8

definition empty_information :: entry_information where
  "empty_information = \<lparr>size = 0, attributes = 0, year = 0, month = 0, day = 0, hour = 0,
     minute = 0, second = 0\<rparr>"

record file_descriptor =
  fd_path :: string
  position :: u64
  allocated :: bool
  readable :: bool
  writable :: bool
  append :: bool
  open_mode :: "open_type option"

definition empty_descriptor :: file_descriptor where
  "empty_descriptor = \<lparr>fd_path = [], position = 0, allocated = False, readable = False,
     writable = False, append = False, open_mode = None\<rparr>"

datatype dirent_type = DT_DIR | DT_REG

record dirent =
  d_ino :: u32
  d_type :: dirent_type
  d_name :: string

record directory_stream =
  ds_allocated :: bool
  ds_position :: int
  ds_path :: string
  ds_entries :: "(string \<times> dirent_type) list"
  ds_entry :: "dirent option"

definition empty_stream :: directory_stream where
  "empty_stream = \<lparr>ds_allocated = False, ds_position = 0, ds_path = [], ds_entries = [],
     ds_entry = None\<rparr>"

record 'w fs =
  world :: 'w
  errno_var :: error
  descriptors :: "file_descriptor list"
  directories :: "directory_stream list"
  current_directory :: string
  filesystem_initialized :: bool
  rename_backup_sequence :: u32
  flash_mounted :: bool
  sd_mounted :: bool

definition mounted :: "'w fs \<Rightarrow> volume \<Rightarrow> bool" where
  "mounted s volume = (if volume = Flash then flash_mounted s else sd_mounted s)"

definition set_errno :: "errno \<Rightarrow> 'w fs \<Rightarrow> 'w fs" where
  "set_errno e s = s\<lparr>errno_var := Some e\<rparr>"

text \<open>\<open>errno = filex_errno(status)\<close>, where the right-hand side may be 0.\<close>

definition assign_errno :: "error \<Rightarrow> 'w fs \<Rightarrow> 'w fs" where
  "assign_errno e s = s\<lparr>errno_var := e\<rparr>"

definition set_descriptor :: "nat \<Rightarrow> (file_descriptor \<Rightarrow> file_descriptor) \<Rightarrow> 'w fs \<Rightarrow> 'w fs" where
  "set_descriptor i f s = s\<lparr>descriptors := (descriptors s)[i := f (descriptors s ! i)]\<rparr>"

section \<open>The registry guard\<close>

definition usable :: "'w filex \<Rightarrow> 'w fs \<Rightarrow> bool \<times> 'w fs" where
  "usable fx s =
     (if get_IPSR fx (world s) \<noteq> 0 then (False, set_errno EPERM s)
      else if \<not> filesystem_initialized s then (False, set_errno ENODEV s)
      else (True, s))"

definition registry_lock :: "'w filex \<Rightarrow> 'w fs \<Rightarrow> error \<times> 'w fs" where
  "registry_lock fx s =
     (if \<not> filesystem_initialized s then (Some ENODEV, s)
      else
        let (status, w) = tx_mutex_get fx (world s);
            s' = s\<lparr>world := w\<rparr>
        in if status = TX_SUCCESS then (None, s')
           else (Some (if status = TX_WAIT_ABORTED then EINTR else EIO), s'))"

definition registry_unlock :: "'w filex \<Rightarrow> 'w fs \<Rightarrow> 'w fs option" where
  "registry_unlock fx s =
     (let (status, w) = tx_mutex_put fx (world s)
      in if status = TX_SUCCESS then Some (s\<lparr>world := w\<rparr>) else None)"

text \<open>
  The life of one \<open>RegistryGuard\<close>: \<open>fail\<close> is the path taken when the mutex was not
  obtained, \<open>body\<close> runs under it, and the destructor calls \<open>Error_Handler\<close>, which never
  returns, when the mutex cannot be released.
\<close>

definition with_registry ::
    "'w filex \<Rightarrow> (errno \<Rightarrow> 'w fs \<Rightarrow> 'a \<times> 'w fs) \<Rightarrow> ('w fs \<Rightarrow> ('a \<times> 'w fs) option) \<Rightarrow>
     'w fs \<Rightarrow> ('a \<times> 'w fs) option" where
  "with_registry fx fail body s =
     (case registry_lock fx s of
        (Some e, s1) \<Rightarrow> Some (fail e s1)
      | (None, s1) \<Rightarrow>
          (case body s1 of
             None \<Rightarrow> None
           | Some (r, s2) \<Rightarrow> map_option (Pair r) (registry_unlock fx s2)))"

definition fail_with :: "'a \<Rightarrow> errno \<Rightarrow> 'w fs \<Rightarrow> 'a \<times> 'w fs" where
  "fail_with r e s = (r, set_errno e s)"

text \<open>The frame of a call: \<open>usable\<close>, then the guard; errors set errno and return \<open>bad\<close>.\<close>

definition guarded_call ::
    "'w filex \<Rightarrow> 'a \<Rightarrow> ('w fs \<Rightarrow> ('a \<times> 'w fs) option) \<Rightarrow> 'w fs \<Rightarrow> ('a \<times> 'w fs) option" where
  "guarded_call fx bad body s =
     (let (ok, s1) = usable fx s
      in if \<not> ok then Some (bad, s1) else with_registry fx (fail_with bad) body s1)"

text \<open>The common end of a call: a nonzero error becomes errno and \<open>-1\<close>.\<close>

definition finish :: "error \<times> 'w fs \<Rightarrow> int \<times> 'w fs" where
  "finish r = (case r of (None, s) \<Rightarrow> (0, s) | (Some e, s) \<Rightarrow> (- 1, set_errno e s))"

section \<open>Directory entries\<close>

definition resolve :: "'w fs \<Rightarrow> string \<Rightarrow> errno + resolved_path" where
  "resolve s normalized = resolve_normalized_path (mounted s) normalized"

definition normalize :: "'w fs \<Rightarrow> string option \<Rightarrow> errno + string" where
  "normalize s path = normalize_path_unlocked (current_directory s) path"

definition resolve_input :: "'w fs \<Rightarrow> string option \<Rightarrow> errno + (string \<times> resolved_path)" where
  "resolve_input s path = resolve_path_unlocked (current_directory s) (mounted s) path"

definition is_directory :: "entry_information \<Rightarrow> bool" where
  "is_directory info \<longleftrightarrow> attributes info AND FX_DIRECTORY \<noteq> 0"

definition directory_entry :: entry_information where
  "directory_entry = empty_information\<lparr>attributes := FX_DIRECTORY\<rparr>"

text \<open>
  The volume behind \<open>resolved.media\<close>. The pointer is null for the virtual root only, and
  every use of it comes after the virtual root has been handled or refused.
\<close>

definition media_of :: "resolved_path \<Rightarrow> volume" where
  "media_of r = (case media r of None \<Rightarrow> rp_volume r | Some v \<Rightarrow> v)"

definition information_unlocked ::
    "'w filex \<Rightarrow> string option \<Rightarrow> 'w fs \<Rightarrow> (errno + entry_information) \<times> 'w fs" where
  "information_unlocked fx path s =
     (case normalize s path of
        Inl e \<Rightarrow> (Inl e, s)
      | Inr normalized \<Rightarrow>
          if normalized = ''/'' then (Inr directory_entry, s)
          else
            (case resolve s normalized of
               Inl e \<Rightarrow> (Inl e, s)
             | Inr r \<Rightarrow>
                 if mount_root r then (Inr directory_entry, s)
                 else
                   let (status, i, w) = fx_directory_information_get fx (world s) (media_of r) (local r);
                       s' = s\<lparr>world := w\<rparr>
                   in case filex_errno status of
                        Some e \<Rightarrow> (Inl e, s')
                      | None \<Rightarrow>
                          if status \<noteq> FX_SUCCESS then (Inr empty_information, s')
                          else (Inr \<lparr>size = ucast (fx_size i), attributes = fx_attributes i,
                                     year = ucast (fx_year i), month = ucast (fx_month i),
                                     day = ucast (fx_day i), hour = ucast (fx_hour i),
                                     minute = ucast (fx_minute i), second = ucast (fx_second i)\<rparr>, s')))"

text \<open>
  A status other than success that translates to 0 (end of file, no more entries) makes
  the source return 0 with the caller's zero-initialised structure, hence the
  \<open>empty_information\<close> branch. All callers pass a fresh \<open>EntryInformation{}\<close>.
\<close>

definition lift_fx :: "'w fs \<Rightarrow> fx_status \<times> 'w \<Rightarrow> error \<times> 'w fs" where
  "lift_fx s r = (case r of (status, w) \<Rightarrow> (filex_errno status, s\<lparr>world := w\<rparr>))"

definition rename_entry_unlocked ::
    "'w filex \<Rightarrow> bool \<Rightarrow> string \<Rightarrow> string \<Rightarrow> 'w fs \<Rightarrow> error \<times> 'w fs" where
  "rename_entry_unlocked fx directory old_path new_path s =
     (case resolve s old_path of
        Inl e \<Rightarrow> (Some e, s)
      | Inr old_resolved \<Rightarrow>
          (case resolve s new_path of
             Inl e \<Rightarrow> (Some e, s)
           | Inr new_resolved \<Rightarrow>
               if media old_resolved \<noteq> media new_resolved then (Some EXDEV, s)
               else lift_fx s
                 (if directory
                  then fx_directory_rename fx (world s) (media_of old_resolved) (local old_resolved) (local new_resolved)
                  else fx_file_rename fx (world s) (media_of old_resolved) (local old_resolved) (local new_resolved))))"

definition delete_entry_unlocked :: "'w filex \<Rightarrow> bool \<Rightarrow> string \<Rightarrow> 'w fs \<Rightarrow> error \<times> 'w fs" where
  "delete_entry_unlocked fx directory path s =
     (case resolve s path of
        Inl e \<Rightarrow> (Some e, s)
      | Inr r \<Rightarrow> lift_fx s
          (if directory then fx_directory_delete fx (world s) (media_of r) (local r)
           else fx_file_delete fx (world s) (media_of r) (local r)))"

text \<open>Skip the \<open>.\<close> and \<open>..\<close> entries of a scan; \<open>None\<close> if FileX reports them for ever.\<close>

definition dot_entry :: "string \<Rightarrow> bool" where
  "dot_entry name \<longleftrightarrow> name = ''.'' \<or> name = ''..''"

partial_function (option) skip_dot_entries ::
    "'w filex \<Rightarrow> volume \<Rightarrow> fx_status \<times> (string \<times> u32) \<times> 'w \<Rightarrow> (fx_status \<times> 'w) option" where
  "skip_dot_entries fx v r =
     (case r of
        (status, (name, attrs), w) \<Rightarrow>
          if status = FX_SUCCESS \<and> dot_entry name
          then skip_dot_entries fx v (fx_directory_next_full_entry_find fx w v)
          else Some (status, w))"

declare skip_dot_entries.simps [code]

definition require_empty_directory_unlocked ::
    "'w filex \<Rightarrow> string \<Rightarrow> 'w fs \<Rightarrow> (error \<times> 'w fs) option" where
  "require_empty_directory_unlocked fx path s =
     (case resolve s path of
        Inl e \<Rightarrow> Some (Some e, s)
      | Inr r \<Rightarrow>
          let v = media_of r;
              (status, w1) = fx_directory_default_set fx (world s) v (local r)
          in case (case filex_errno status of
                     Some e \<Rightarrow> Some (Some e, w1)
                   | None \<Rightarrow>
                       map_option
                         (\<lambda>(st, w). (if st = FX_NO_MORE_ENTRIES then None
                                     else if st = FX_SUCCESS then Some ENOTEMPTY
                                     else filex_errno st, w))
                         (skip_dot_entries fx v (fx_directory_first_full_entry_find fx w1 v)))
             of
               None \<Rightarrow> None
             | Some (error, w2) \<Rightarrow>
                 let (reset_status, w3) = fx_directory_default_set fx w2 v ''/''
                 in Some (if error \<noteq> None then error else filex_errno reset_status, s\<lparr>world := w3\<rparr>))"

section \<open>Backup names of a replacing rename\<close>

definition hexadecimal :: string where
  "hexadecimal = ''0123456789ABCDEF''"

definition hex_digit :: "u32 \<Rightarrow> nat \<Rightarrow> char" where
  "hex_digit sequence shift = hexadecimal ! unat (drop_bit shift sequence AND 0xF)"

definition backup_name :: "volume \<Rightarrow> u32 \<Rightarrow> string" where
  "backup_name v sequence =
     mount_name v @ ''/FXR'' @ map (\<lambda>digit. hex_digit sequence ((5 - digit - 1) * 4)) [0..<5] @ ''.TMP''"

fun backup_attempts ::
    "nat \<Rightarrow> 'w filex \<Rightarrow> volume \<Rightarrow> 'w fs \<Rightarrow> (errno + string) \<times> 'w fs" where
  "backup_attempts 0 fx v s = (Inl ENOSPC, s)"
| "backup_attempts (Suc attempts) fx v s =
     (let output = backup_name v (rename_backup_sequence s AND 0xFFFFF);
          s1 = s\<lparr>rename_backup_sequence := rename_backup_sequence s + 1\<rparr>;
          (r, s2) = information_unlocked fx (Some output) s1
      in case r of
           Inl e \<Rightarrow> if e = ENOENT then (Inr output, s2) else (Inl e, s2)
         | Inr _ \<Rightarrow> backup_attempts attempts fx v s2)"

definition find_rename_backup_unlocked ::
    "'w filex \<Rightarrow> volume \<Rightarrow> 'w fs \<Rightarrow> (errno + string) \<times> 'w fs" where
  "find_rename_backup_unlocked fx v s = backup_attempts 256 fx v s"

section \<open>Descriptors\<close>

text \<open>\<open>switch_mode\<close> closes the FileX handle it has, keeping the position, and opens another.\<close>

definition release_handle :: "'w filex \<Rightarrow> nat \<Rightarrow> 'w fs \<Rightarrow> fx_status \<times> 'w fs" where
  "release_handle fx i s =
     (if open_mode (descriptors s ! i) \<noteq> None then
        let s0 = set_descriptor i (position_update (\<lambda>_. fx_file_current_file_offset fx (world s) i)) s;
            (close_status, w) = fx_file_close fx (world s0) i
        in (close_status, set_descriptor i (open_mode_update (\<lambda>_. None)) (s0\<lparr>world := w\<rparr>))
      else (FX_SUCCESS, s))"

definition acquire_handle :: "'w filex \<Rightarrow> nat \<Rightarrow> open_type \<Rightarrow> 'w fs \<Rightarrow> error \<times> 'w fs" where
  "acquire_handle fx i requested_mode s =
     (let s2 = s\<lparr>world := fx_file_zero fx (world s) i\<rparr>
      in case resolve s2 (fd_path (descriptors s2 ! i)) of
           Inl e \<Rightarrow> (Some e, s2)
         | Inr r \<Rightarrow>
             if virtual_root r \<or> mount_root r then (Some EISDIR, s2)
             else
               let (open_status, w3) = fx_file_open fx (world s2) (media_of r) i (local r) requested_mode;
                   s3 = s2\<lparr>world := w3\<rparr>
               in if open_status \<noteq> FX_SUCCESS then (filex_errno open_status, s3)
                  else
                    let s4 = set_descriptor i (open_mode_update (\<lambda>_. Some requested_mode)) s3
                    in lift_fx s4 (fx_file_extended_seek fx (world s4) i (position (descriptors s4 ! i))))"

definition switch_mode :: "'w filex \<Rightarrow> nat \<Rightarrow> open_type \<Rightarrow> 'w fs \<Rightarrow> error \<times> 'w fs" where
  "switch_mode fx i requested_mode s =
     (if open_mode (descriptors s ! i) = Some requested_mode then (None, s)
      else
        let (close_status, s1) = release_handle fx i s
        in if close_status \<noteq> FX_SUCCESS then (filex_errno close_status, s1)
           else acquire_handle fx i requested_mode s1)"

definition descriptor_for :: "int \<Rightarrow> 'w fs \<Rightarrow> nat option \<times> 'w fs" where
  "descriptor_for file s =
     (let index = file - FIRST_FILE_DESCRIPTOR
      in if index < 0 \<or> index \<ge> int (length (descriptors s)) \<or> \<not> allocated (descriptors s ! nat index)
         then (None, set_errno EBADF s)
         else (Some (nat index), s))"

definition reset_descriptor :: "'w filex \<Rightarrow> nat \<Rightarrow> 'w fs \<Rightarrow> 'w fs" where
  "reset_descriptor fx i s = set_descriptor i (\<lambda>_. empty_descriptor) (s\<lparr>world := fx_file_zero fx (world s) i\<rparr>)"

section \<open>The registry invariant\<close>

text \<open>
  What every call keeps: the tables have their fixed sizes, a free slot holds nothing, a
  used slot holds a normalised path that fits its buffer, and FileX never holds a file
  open in a mode the descriptor was not opened for.
\<close>

definition stored_path :: "string \<Rightarrow> bool" where
  "stored_path p \<longleftrightarrow> canonical p \<and> length p < MAXIMUM_PATH"

definition mode_allowed :: "file_descriptor \<Rightarrow> open_type \<Rightarrow> bool" where
  "mode_allowed d m \<longleftrightarrow> (case m of FX_OPEN_FOR_READ \<Rightarrow> readable d | FX_OPEN_FOR_WRITE \<Rightarrow> writable d)"

definition descriptor_ok :: "file_descriptor \<Rightarrow> bool" where
  "descriptor_ok d \<longleftrightarrow>
     (if allocated d
      then stored_path (fd_path d) \<and> (readable d \<or> writable d) \<and>
           (case open_mode d of None \<Rightarrow> True | Some m \<Rightarrow> mode_allowed d m)
      else d = empty_descriptor)"

definition stream_ok :: "directory_stream \<Rightarrow> bool" where
  "stream_ok d \<longleftrightarrow> (if ds_allocated d then stored_path (ds_path d) \<and> 0 \<le> ds_position d else d = empty_stream)"

definition registry_inv :: "'w fs \<Rightarrow> bool" where
  "registry_inv s \<longleftrightarrow>
     length (descriptors s) = MAXIMUM_OPEN_FILES \<and> list_all descriptor_ok (descriptors s) \<and>
     length (directories s) = MAXIMUM_OPEN_DIRECTORIES \<and> list_all stream_ok (directories s) \<and>
     stored_path (current_directory s)"

interpretation files: slot_table allocated empty_descriptor MAXIMUM_OPEN_FILES
  by unfold_locales (simp add: empty_descriptor_def)

interpretation streams: slot_table ds_allocated empty_stream MAXIMUM_OPEN_DIRECTORIES
  by unfold_locales (simp add: empty_stream_def)

lemma registry_inv_frame [simp]:
  "registry_inv (s\<lparr>world := w\<rparr>) = registry_inv s"
  "registry_inv (s\<lparr>errno_var := e\<rparr>) = registry_inv s"
  "registry_inv (s\<lparr>rename_backup_sequence := q\<rparr>) = registry_inv s"
  "registry_inv (set_errno e' s) = registry_inv s"
  "registry_inv (assign_errno e s) = registry_inv s"
  by (simp_all add: registry_inv_def set_errno_def assign_errno_def)

lemma empty_descriptor_ok [simp]: "descriptor_ok empty_descriptor"
  by (simp add: descriptor_ok_def empty_descriptor_def)

lemma empty_stream_ok [simp]: "stream_ok empty_stream"
  by (simp add: stream_ok_def empty_stream_def)

lemma registry_inv_descriptor:
  "registry_inv s \<Longrightarrow> i < length (descriptors s) \<Longrightarrow> descriptor_ok (descriptors s ! i)"
  by (simp add: registry_inv_def list_all_length)

lemma registry_inv_set_descriptor:
  assumes "registry_inv s"
    and "i < length (descriptors s) \<Longrightarrow> descriptor_ok (f (descriptors s ! i))"
  shows "registry_inv (set_descriptor i f s)"
  using assms
  by (cases "i < length (descriptors s)")
    (auto simp: registry_inv_def set_descriptor_def intro: list_all_update)

subsection \<open>What the helpers may change\<close>

text \<open>
  Renaming, deleting and looking up entries change the state of FileX only; a mode switch
  changes one descriptor's position and mode beside it.
\<close>

definition same_slot :: "file_descriptor \<Rightarrow> file_descriptor \<Rightarrow> bool" where
  "same_slot d d' \<longleftrightarrow> fd_path d' = fd_path d \<and> allocated d' = allocated d \<and> readable d' = readable d \<and>
     writable d' = writable d \<and> append d' = append d"

definition handle_frame :: "nat \<Rightarrow> 'w fs \<Rightarrow> 'w fs \<Rightarrow> bool" where
  "handle_frame i s s' \<longleftrightarrow>
     length (descriptors s') = length (descriptors s) \<and>
     (\<forall>j. j \<noteq> i \<longrightarrow> descriptors s' ! j = descriptors s ! j) \<and>
     same_slot (descriptors s ! i) (descriptors s' ! i) \<and>
     directories s' = directories s \<and> current_directory s' = current_directory s \<and>
     filesystem_initialized s' = filesystem_initialized s \<and> errno_var s' = errno_var s \<and>
     flash_mounted s' = flash_mounted s \<and> sd_mounted s' = sd_mounted s \<and>
     rename_backup_sequence s' = rename_backup_sequence s"

lemma handle_frame_trans:
  "handle_frame i s t \<Longrightarrow> handle_frame i t u \<Longrightarrow> handle_frame i s u"
  unfolding handle_frame_def same_slot_def by simp

lemma handle_frame_world [simp]: "handle_frame i s (s\<lparr>world := w\<rparr>)" "handle_frame i s s"
  by (simp_all add: handle_frame_def same_slot_def)

lemma handle_frame_set:
  "same_slot (descriptors s ! i) (f (descriptors s ! i)) \<Longrightarrow> handle_frame i s (set_descriptor i f s)"
  by (cases "i < length (descriptors s)") (simp_all add: handle_frame_def same_slot_def set_descriptor_def)

lemma same_slot_update [simp]:
  "same_slot d (position_update f d)" "same_slot d (open_mode_update g d)"
  by (simp_all add: same_slot_def)

lemma handle_frame_fields:
  assumes "handle_frame i s s'"
  shows "length (descriptors s') = length (descriptors s)"
    and "same_slot (descriptors s ! i) (descriptors s' ! i)"
    and "j \<noteq> i \<Longrightarrow> descriptors s' ! j = descriptors s ! j"
    and "directories s' = directories s"
    and "current_directory s' = current_directory s"
    and "filesystem_initialized s' = filesystem_initialized s"
    and "flash_mounted s' = flash_mounted s" and "sd_mounted s' = sd_mounted s"
    and "errno_var s' = errno_var s"
  using assms by (simp_all add: handle_frame_def)

lemma handle_frame_registry_inv:
  assumes inv: "registry_inv s" and f: "handle_frame i s s'"
    and ok: "i < length (descriptors s) \<Longrightarrow> descriptor_ok (descriptors s' ! i)"
  shows "registry_inv s'"
proof -
  have "descriptor_ok (descriptors s' ! j)" if "j < length (descriptors s)" for j
    using that ok registry_inv_descriptor [OF inv that] handle_frame_fields(3) [OF f, of j]
    by (cases "j = i") simp_all
  with inv handle_frame_fields [OF f] show ?thesis
    by (simp add: registry_inv_def list_all_length)
qed

lemma information_frame:
  "information_unlocked fx path s = (r, s') \<Longrightarrow> \<exists>w. s' = s\<lparr>world := w\<rparr>"
  by (auto simp: information_unlocked_def Let_def split: sum.splits if_splits prod.splits option.splits
      intro: exI [of _ "world s"])

lemma lift_fx_frame: "lift_fx s r = (e, s') \<Longrightarrow> \<exists>w. s' = s\<lparr>world := w\<rparr>"
  by (auto simp: lift_fx_def split: prod.splits)

lemma rename_entry_frame:
  "rename_entry_unlocked fx d old new s = (e, s') \<Longrightarrow> \<exists>w. s' = s\<lparr>world := w\<rparr>"
  by (auto simp: rename_entry_unlocked_def split: sum.splits if_splits
      intro: exI [of _ "world s"] dest: lift_fx_frame)

lemma delete_entry_frame:
  "delete_entry_unlocked fx d path s = (e, s') \<Longrightarrow> \<exists>w. s' = s\<lparr>world := w\<rparr>"
  by (auto simp: delete_entry_unlocked_def split: sum.splits
      intro: exI [of _ "world s"] dest: lift_fx_frame)

lemma require_empty_frame:
  "require_empty_directory_unlocked fx path s = Some (e, s') \<Longrightarrow> \<exists>w. s' = s\<lparr>world := w\<rparr>"
  by (auto simp: require_empty_directory_unlocked_def Let_def
      split: sum.splits prod.splits option.splits intro: exI [of _ "world s"])

lemma backup_attempts_frame:
  "backup_attempts n fx v s = (r, s') \<Longrightarrow> \<exists>w q. s' = s\<lparr>world := w, rename_backup_sequence := q\<rparr>"
proof (induction n arbitrary: s)
  case 0
  then have "s' = s\<lparr>world := world s, rename_backup_sequence := rename_backup_sequence s\<rparr>" by simp
  then show ?case by blast
next
  case (Suc n)
  let ?s1 = "s\<lparr>rename_backup_sequence := rename_backup_sequence s + 1\<rparr>"
  obtain r2 s2 where i: "information_unlocked fx
      (Some (backup_name v (rename_backup_sequence s AND 0xFFFFF))) ?s1 = (r2, s2)"
    by (cases "information_unlocked fx
      (Some (backup_name v (rename_backup_sequence s AND 0xFFFFF))) ?s1")
  from information_frame [OF this] obtain w where s2: "s2 = ?s1\<lparr>world := w\<rparr>"
    by blast
  then have here: "\<exists>w q. s2 = s\<lparr>world := w, rename_backup_sequence := q\<rparr>"
    by (intro exI [of _ w] exI [of _ "rename_backup_sequence s + 1"]) simp
  show ?case
  proof (cases r2)
    case (Inl e)
    with Suc.prems i have "s' = s2"
      by (auto simp: Let_def split: if_splits)
    with here show ?thesis by simp
  next
    case (Inr info)
    with Suc.prems i have "backup_attempts n fx v s2 = (r, s')"
      by (simp add: Let_def)
    from Suc.IH [OF this] obtain w' q where "s' = s2\<lparr>world := w', rename_backup_sequence := q\<rparr>"
      by blast
    with s2 have "s' = s\<lparr>world := w', rename_backup_sequence := q\<rparr>" by simp
    then show ?thesis by blast
  qed
qed

lemma find_rename_backup_frame:
  "find_rename_backup_unlocked fx v s = (r, s') \<Longrightarrow>
   \<exists>w q. s' = s\<lparr>world := w, rename_backup_sequence := q\<rparr>"
  unfolding find_rename_backup_unlocked_def by (rule backup_attempts_frame)

lemma release_handle_frame:
  assumes "release_handle fx i s = (st, s')"
  shows "handle_frame i s s'"
    and "open_mode (descriptors s' ! i) \<in> {None, open_mode (descriptors s ! i)}"
proof -
  show "handle_frame i s s'"
    using assms unfolding release_handle_def Let_def
    by (auto split: prod.splits if_splits
        intro!: handle_frame_trans [OF handle_frame_set handle_frame_trans [OF handle_frame_world(1) handle_frame_set]])
  show "open_mode (descriptors s' ! i) \<in> {None, open_mode (descriptors s ! i)}"
    using assms by (cases "i < length (descriptors s)")
      (auto simp: release_handle_def set_descriptor_def Let_def split: prod.splits if_splits)
qed

lemma acquire_handle_frame:
  assumes "acquire_handle fx i m s = (e, s')"
  shows "handle_frame i s s'"
    and "open_mode (descriptors s' ! i) \<in> {Some m, open_mode (descriptors s ! i)}"
proof -
  show "handle_frame i s s'"
    using assms unfolding acquire_handle_def Let_def lift_fx_def
    by (auto split: prod.splits if_splits sum.splits
        intro!: handle_frame_trans [OF handle_frame_world(1) handle_frame_trans [OF handle_frame_set handle_frame_world(1)]])
  show "open_mode (descriptors s' ! i) \<in> {Some m, open_mode (descriptors s ! i)}"
    using assms by (cases "i < length (descriptors s)")
      (auto simp: acquire_handle_def set_descriptor_def lift_fx_def Let_def split: prod.splits if_splits sum.splits)
qed

lemma switch_mode_frame:
  assumes "switch_mode fx i m s = (e, s')"
  shows "handle_frame i s s'"
    and "open_mode (descriptors s' ! i) \<in> {None, Some m, open_mode (descriptors s ! i)}"
proof -
  obtain st t where r: "release_handle fx i s = (st, t)" by (cases "release_handle fx i s")
  note r' = release_handle_frame [OF r]
  consider "s' = s" | "s' = t" | "acquire_handle fx i m t = (e, s')"
    using assms r by (auto simp: switch_mode_def split: if_splits)
  then have "handle_frame i s s' \<and> open_mode (descriptors s' ! i) \<in> {None, Some m, open_mode (descriptors s ! i)}"
    using r' by cases (auto dest: acquire_handle_frame intro: handle_frame_trans)
  then show "handle_frame i s s'" "open_mode (descriptors s' ! i) \<in> {None, Some m, open_mode (descriptors s ! i)}"
    by blast+
qed

lemma same_slot_ok:
  "descriptor_ok d \<Longrightarrow> allocated d \<Longrightarrow> same_slot d d' \<Longrightarrow>
   open_mode d' \<in> {None, Some m, open_mode d} \<Longrightarrow> mode_allowed d m \<Longrightarrow> descriptor_ok d'"
  by (auto simp: descriptor_ok_def same_slot_def mode_allowed_def split: option.splits open_type.splits)

lemma switch_mode_inv:
  assumes "switch_mode fx i m s = (e, s')" and "registry_inv s" and "allocated (descriptors s ! i)"
    and "mode_allowed (descriptors s ! i) m"
  shows "registry_inv s'"
proof (rule handle_frame_registry_inv [OF assms(2) switch_mode_frame(1) [OF assms(1)]])
  assume "i < length (descriptors s)"
  from registry_inv_descriptor [OF assms(2) this] assms(3)
    handle_frame_fields(2) [OF switch_mode_frame(1) [OF assms(1)]] switch_mode_frame(2) [OF assms(1)] assms(4)
  show "descriptor_ok (descriptors s' ! i)"
    by (rule same_slot_ok)
qed

lemma registry_inv_position:
  assumes "registry_inv s" and "allocated (descriptors s ! i)"
  shows "registry_inv (set_descriptor i (position_update f) s)"
proof (rule registry_inv_set_descriptor [OF assms(1)])
  assume "i < length (descriptors s)"
  from registry_inv_descriptor [OF assms(1) this] assms(2)
  show "descriptor_ok (position_update f (descriptors s ! i))"
    by (simp add: descriptor_ok_def mode_allowed_def split: option.splits open_type.splits)
qed

lemma registry_inv_reset [simp]: "registry_inv s \<Longrightarrow> registry_inv (reset_descriptor fx i s)"
  unfolding reset_descriptor_def by (rule registry_inv_set_descriptor) simp_all

lemma registry_inv_cwd: "registry_inv s \<Longrightarrow> canonical (current_directory s) \<and> length (current_directory s) < MAXIMUM_PATH"
  by (simp add: registry_inv_def stored_path_def)

lemma normalize_stored:
  "registry_inv s \<Longrightarrow> normalize s path = Inr n \<Longrightarrow> stored_path n"
  using normalize_path_Inr registry_inv_cwd
  by (fastforce simp: normalize_def stored_path_def)

lemma resolve_input_stored:
  "registry_inv s \<Longrightarrow> resolve_input s path = Inr (n, r) \<Longrightarrow> stored_path n"
  by (auto simp: resolve_input_def resolve_path_unlocked_def split: sum.splits
      intro: normalize_stored simp: normalize_def)

lemma resolve_virtual_root:
  "resolve_normalized_path mnt n = Inr r \<Longrightarrow> virtual_root r \<longleftrightarrow> n = ''/''"
  by (auto simp: resolve_normalized_path_def empty_resolved_def Let_def split: if_splits)

lemma resolve_input_root:
  "resolve_input s path = Inr (n, r) \<Longrightarrow> virtual_root r \<longleftrightarrow> n = ''/''"
  by (auto simp: resolve_input_def resolve_path_unlocked_def dest: resolve_virtual_root split: sum.splits)

lemma descriptor_for_Some:
  "descriptor_for file s = (Some i, s') \<longleftrightarrow>
     s' = s \<and> file = FIRST_FILE_DESCRIPTOR + int i \<and> i < length (descriptors s) \<and> allocated (descriptors s ! i)"
  by (auto simp: descriptor_for_def Let_def split: if_splits)

lemma descriptor_for_None:
  "descriptor_for file s = (None, s') \<Longrightarrow> s' = set_errno EBADF s"
  by (auto simp: descriptor_for_def Let_def split: if_splits)

section \<open>Invariants across calls\<close>

text \<open>
  A computation keeps a predicate when every state it returns from a state with the
  predicate has it too. The frames of the calls (\<open>usable\<close>, the guard, errno) are shown once
  to keep any predicate that does not look at errno and the state of FileX.
\<close>

definition keeps :: "('s \<Rightarrow> bool) \<Rightarrow> ('s \<Rightarrow> ('a \<times> 's) option) \<Rightarrow> bool" where
  "keeps I f \<longleftrightarrow> (\<forall>s r s'. I s \<longrightarrow> f s = Some (r, s') \<longrightarrow> I s')"

lemma keepsI [intro?]: "(\<And>s r s'. I s \<Longrightarrow> f s = Some (r, s') \<Longrightarrow> I s') \<Longrightarrow> keeps I f"
  by (simp add: keeps_def)

lemma keepsD: "keeps I f \<Longrightarrow> I s \<Longrightarrow> f s = Some (r, s') \<Longrightarrow> I s'"
  unfolding keeps_def by blast

lemma keeps_total: "(\<And>s. I s \<Longrightarrow> I (snd (f s))) \<Longrightarrow> keeps I (\<lambda>s. Some (f s))"
  by (fastforce simp: keeps_def)

lemma keeps_if: "keeps I f \<Longrightarrow> keeps I g \<Longrightarrow> keeps I (\<lambda>s. if b then f s else g s)"
  by (cases b) simp_all

locale guard_invariant =
  fixes I :: "'w fs \<Rightarrow> bool"
  assumes world: "I s \<Longrightarrow> I (s\<lparr>world := w\<rparr>)"
    and errno: "I s \<Longrightarrow> I (s\<lparr>errno_var := e\<rparr>)"
begin

lemma set_errno_keeps: "I s \<Longrightarrow> I (set_errno e s)"
  by (simp add: set_errno_def errno)

lemma finish_keeps: "I (snd r) \<Longrightarrow> I (snd (finish r))"
  by (auto simp: finish_def set_errno_keeps split: prod.splits option.splits)

lemma usable_keeps: "I s \<Longrightarrow> I (snd (usable fx s))"
  by (simp add: usable_def set_errno_keeps)

lemma with_registry_keeps:
  assumes fail: "\<And>e s. I s \<Longrightarrow> I (snd (fail e s))" and body: "keeps I body"
  shows "keeps I (with_registry fx fail body)"
proof
  fix s r s'
  assume s: "I s" and r: "with_registry fx fail body s = Some (r, s')"
  obtain o1 s1 where l: "registry_lock fx s = (o1, s1)" by (cases "registry_lock fx s")
  then have s1: "I s1"
    using s by (auto simp: registry_lock_def world Let_def split: if_splits prod.splits)
  show "I s'"
  proof (cases o1)
    case None
    with r l obtain s2 where "body s1 = Some (r, s2)" and "registry_unlock fx s2 = Some s'"
      by (auto simp: with_registry_def split: option.splits)
    with keepsD [OF body s1] show ?thesis
      by (auto simp: registry_unlock_def world split: prod.splits if_splits)
  next
    case (Some e)
    with r l fail [OF s1, of e] show ?thesis
      by (simp add: with_registry_def)
  qed
qed

lemma guarded_call_keeps:
  assumes "keeps I body"
  shows "keeps I (guarded_call fx bad body)"
proof
  fix s r s'
  assume s: "I s" and r: "guarded_call fx bad body s = Some (r, s')"
  have "keeps I (with_registry fx (fail_with bad) body)"
    by (rule with_registry_keeps) (simp_all add: fail_with_def set_errno_keeps assms)
  with usable_keeps [OF s, of fx] r show "I s'"
    by (auto simp: guarded_call_def split: prod.splits if_splits dest: keepsD)
qed

end

interpretation reg: guard_invariant registry_inv
  by unfold_locales simp_all

text \<open>Once set up, the file system stays set up, and its volumes stay as they are.\<close>

interpretation ready: guard_invariant "\<lambda>s. filesystem_initialized s \<and> flash_mounted s = f \<and> sd_mounted s = d"
  by unfold_locales simp_all

end
