(* ===== verification/File_Calls.thy ===== *)
theory File_Calls
  imports Registry
begin

text \<open>
  The system calls on files and paths of \<open>platform/runtime/libc/filesystem.cpp\<close>, other
  than \<open>_rename\<close> and the directory streams: opening, closing, reading, writing, seeking,
  metadata, removal, directories, the working directory, truncation. A call returns
  \<open>None\<close> when it never comes back (\<open>Error_Handler\<close>), otherwise its C result with the new
  state. \<open>off_t\<close> is a signed word of a width left open (32 bits on the target, 64 on the
  host).
\<close>

section \<open>Metadata\<close>

record (overloaded) 'o stat =
  st_mode :: u32
  st_nlink :: nat
  st_ino :: u32
  st_size :: "'o word"
  st_blksize :: u32
  st_blocks :: "'o word"
  st_mtime :: int

definition zero_stat :: "'o::len stat" where
  "zero_stat = \<lparr>st_mode = 0, st_nlink = 0, st_ino = 0, st_size = 0, st_blksize = 0,
     st_blocks = 0, st_mtime = 0\<rparr>"

text \<open>\<open>std::chrono\<close>: validity of a calendar date and its days since 1970-01-01.\<close>

definition leap_year :: "int \<Rightarrow> bool" where
  "leap_year y \<longleftrightarrow> y mod 4 = 0 \<and> (y mod 100 \<noteq> 0 \<or> y mod 400 = 0)"

definition last_day :: "int \<Rightarrow> int \<Rightarrow> int" where
  "last_day y m = (if m = 2 then (if leap_year y then 29 else 28)
                   else if m = 4 \<or> m = 6 \<or> m = 9 \<or> m = 11 then 30 else 31)"

definition date_ok :: "int \<Rightarrow> int \<Rightarrow> int \<Rightarrow> bool" where
  "date_ok y m d \<longleftrightarrow> - 32767 \<le> y \<and> y \<le> 32767 \<and> 1 \<le> m \<and> m \<le> 12 \<and> 1 \<le> d \<and> d \<le> last_day y m"

definition sys_days :: "int \<Rightarrow> int \<Rightarrow> int \<Rightarrow> int" where
  "sys_days y m d =
     (let y1 = (if m \<le> 2 then y - 1 else y);
          era = y1 div 400;
          yoe = y1 - era * 400;
          doy = (153 * (m + (if m > 2 then - 3 else 9)) + 2) div 5 + d - 1;
          doe = yoe * 365 + yoe div 4 - yoe div 100 + doy
      in era * 146097 + doe - 719468)"

definition path_inode :: "string \<Rightarrow> u32" where
  "path_inode path =
     foldl (\<lambda>inode c. (inode XOR ucast (fold_ascii_case c)) * 16777619) 2166136261 path"

definition fill_stat :: "string \<Rightarrow> entry_information \<Rightarrow> 'o::len stat" where
  "fill_stat path info =
     (let directory = is_directory info;
          mode = (if directory then 0x4000 else 0x8000) OR
                 (if attributes info AND FX_READ_ONLY \<noteq> 0 then 0x124 else 0x1B6) OR
                 (if directory then 0x49 else 0);
          y = sint (year info); m = uint (month info); d = uint (day info)
      in \<lparr>st_mode = mode, st_nlink = 1, st_ino = path_inode path, st_size = ucast (size info),
          st_blksize = SECTOR_SIZE,
          st_blocks = ucast ((size info + ucast SECTOR_SIZE - 1) div ucast SECTOR_SIZE),
          st_mtime = (if date_ok y m d
            then sys_days y m d * 86400 + uint (hour info) * 3600 + uint (minute info) * 60 + uint (second info)
            else 0)\<rparr>)"

section \<open>The query interface \<open>runtime::filex\<close>\<close>

definition initialized :: "'w fs \<Rightarrow> bool" where
  "initialized s = filesystem_initialized s"

text \<open>
  \<open>if (!usable()) return errno;\<close> then the guard, whose error is returned rather than
  stored: \<open>bad\<close> is the value of the out parameter on both paths.
\<close>

definition guarded_query ::
    "'w filex \<Rightarrow> 'a \<Rightarrow> ('w fs \<Rightarrow> (error \<times> 'a) \<times> 'w fs) \<Rightarrow> 'w fs \<Rightarrow> ((error \<times> 'a) \<times> 'w fs) option" where
  "guarded_query fx bad body s =
     (let (ok, s1) = usable fx s
      in if \<not> ok then Some ((errno_var s1, bad), s1)
         else with_registry fx (\<lambda>e s. ((Some e, bad), s)) (\<lambda>s. Some (body s)) s1)"

definition normalizePath :: "'w filex \<Rightarrow> string option \<Rightarrow> 'w fs \<Rightarrow> ((error \<times> string) \<times> 'w fs) option" where
  "normalizePath fx path =
     guarded_query fx [] (\<lambda>s. (case normalize s path of Inl e \<Rightarrow> (Some e, []) | Inr n \<Rightarrow> (None, n), s))"

definition information ::
    "'w filex \<Rightarrow> string option \<Rightarrow> 'w fs \<Rightarrow> ((error \<times> entry_information) \<times> 'w fs) option" where
  "information fx path =
     guarded_query fx empty_information
       (\<lambda>s. let (r, s') = information_unlocked fx path s
            in (case r of Inl e \<Rightarrow> (Some e, empty_information) | Inr i \<Rightarrow> (None, i), s'))"

definition availableSpace :: "'w filex \<Rightarrow> string option \<Rightarrow> 'w fs \<Rightarrow> ((error \<times> u64) \<times> 'w fs) option" where
  "availableSpace fx path =
     guarded_query fx 0
       (\<lambda>s. case resolve_input s path of
              Inl e \<Rightarrow> ((Some e, 0), s)
            | Inr (normalized, r) \<Rightarrow>
                if virtual_root r then ((Some EINVAL, 0), s)
                else let (status, available, w) = fx_media_extended_space_available fx (world s) (media_of r)
                     in ((filex_errno status, available), s\<lparr>world := w\<rparr>))"

definition currentPath :: "'w filex \<Rightarrow> 'w fs \<Rightarrow> ((error \<times> string) \<times> 'w fs) option" where
  "currentPath fx = guarded_query fx [] (\<lambda>s. ((None, current_directory s), s))"

definition set_current_path_body :: "'w filex \<Rightarrow> string option \<Rightarrow> 'w fs \<Rightarrow> error \<times> 'w fs" where
  "set_current_path_body fx path s =
     (case normalize s path of
        Inl e \<Rightarrow> (Some e, s)
      | Inr normalized \<Rightarrow>
          let (r, s') = information_unlocked fx (Some normalized) s
          in case r of
               Inl e \<Rightarrow> (Some e, s')
             | Inr info \<Rightarrow>
                 if \<not> is_directory info then (Some ENOTDIR, s')
                 else (None, s'\<lparr>current_directory := normalized\<rparr>))"

definition setCurrentPath :: "'w filex \<Rightarrow> string option \<Rightarrow> 'w fs \<Rightarrow> ((error \<times> unit) \<times> 'w fs) option" where
  "setCurrentPath fx path =
     guarded_query fx () (\<lambda>s. let (e, s') = set_current_path_body fx path s in ((e, ()), s'))"

section \<open>Opening and closing\<close>

datatype accmode = O_RDONLY | O_WRONLY | O_RDWR | O_BADMODE

record open_flags =
  o_accmode :: accmode
  o_creat :: bool
  o_excl :: bool
  o_trunc :: bool
  o_append :: bool

definition claim_descriptor :: "string \<Rightarrow> open_flags \<Rightarrow> u64 \<Rightarrow> file_descriptor" where
  "claim_descriptor normalized flags existing_size =
     \<lparr>fd_path = normalized, position = (if o_append flags then existing_size else 0),
      allocated = True, readable = (o_accmode flags \<noteq> O_WRONLY),
      writable = (o_accmode flags \<noteq> O_RDONLY), append = o_append flags, open_mode = None\<rparr>"

definition open_slot ::
    "'w filex \<Rightarrow> nat \<Rightarrow> string \<Rightarrow> open_flags \<Rightarrow> u64 \<Rightarrow> 'w fs \<Rightarrow> int \<times> 'w fs" where
  "open_slot fx slot normalized flags existing_size s =
     (let s1 = set_descriptor slot (\<lambda>_. claim_descriptor normalized flags existing_size) (reset_descriptor fx slot s);
          can_write = writable (descriptors s1 ! slot);
          (error, s2) = switch_mode fx slot (if can_write then FX_OPEN_FOR_WRITE else FX_OPEN_FOR_READ) s1;
          (error, s3) =
            (if error = None \<and> can_write \<and> o_trunc flags then
               let (e, s') = lift_fx s2 (fx_file_extended_truncate_release fx (world s2) slot 0)
               in (e, set_descriptor slot (position_update (\<lambda>_. 0)) s')
             else (error, s2))
      in case error of
           None \<Rightarrow> (FIRST_FILE_DESCRIPTOR + int slot, s3)
         | Some e \<Rightarrow>
             let s4 = (if open_mode (descriptors s3 ! slot) \<noteq> None
                       then s3\<lparr>world := snd (fx_file_close fx (world s3) slot)\<rparr> else s3)
             in (- 1, set_errno e (reset_descriptor fx slot s4)))"

definition open_body :: "'w filex \<Rightarrow> string option \<Rightarrow> open_flags \<Rightarrow> 'w fs \<Rightarrow> int \<times> 'w fs" where
  "open_body fx path flags s =
     (case resolve_input s path of
        Inl e \<Rightarrow> (- 1, set_errno e s)
      | Inr (normalized, r) \<Rightarrow>
          if virtual_root r \<or> mount_root r then (- 1, set_errno EISDIR s)
          else
            (case find_index (\<lambda>d. \<not> allocated d) (descriptors s) of
               None \<Rightarrow> (- 1, set_errno EMFILE s)
             | Some slot \<Rightarrow>
                 let (info_result, s1) = information_unlocked fx (Some normalized) s;
                     exists = (case info_result of Inl _ \<Rightarrow> False | Inr _ \<Rightarrow> True);
                     info = (case info_result of Inl _ \<Rightarrow> empty_information | Inr i \<Rightarrow> i);
                     info_error = (case info_result of Inl e \<Rightarrow> Some e | Inr _ \<Rightarrow> None)
                 in if info_error \<noteq> None \<and> info_error \<noteq> Some ENOENT then (- 1, assign_errno info_error s1)
                    else if exists \<and> is_directory info then (- 1, set_errno EISDIR s1)
                    else if \<not> exists \<and> \<not> o_creat flags then (- 1, assign_errno info_error s1)
                    else if exists \<and> o_creat flags \<and> o_excl flags then (- 1, set_errno EEXIST s1)
                    else if \<not> exists then
                      let (create_status, w) = fx_file_create fx (world s1) (media_of r) (local r);
                          s2 = s1\<lparr>world := w\<rparr>
                      in if create_status \<noteq> FX_SUCCESS then (- 1, assign_errno (filex_errno create_status) s2)
                         else open_slot fx slot normalized flags 0 s2
                    else open_slot fx slot normalized flags (size info) s1))"

definition open_call :: "'w filex \<Rightarrow> string option \<Rightarrow> open_flags \<Rightarrow> 'w fs \<Rightarrow> (int \<times> 'w fs) option" where
  "open_call fx path flags = guarded_call fx (- 1) (\<lambda>s. Some (open_body fx path flags s))"

definition close_body :: "'w filex \<Rightarrow> int \<Rightarrow> 'w fs \<Rightarrow> int \<times> 'w fs" where
  "close_body fx file s =
     (case descriptor_for file s of
        (None, s1) \<Rightarrow> (- 1, s1)
      | (Some i, s1) \<Rightarrow>
          let (status, w) = (if open_mode (descriptors s1 ! i) \<noteq> None then fx_file_close fx (world s1) i
                             else (FX_SUCCESS, world s1));
              s2 = reset_descriptor fx i (s1\<lparr>world := w\<rparr>)
          in if status \<noteq> FX_SUCCESS then (- 1, assign_errno (filex_errno status) s2) else (0, s2))"

definition close_call :: "'w filex \<Rightarrow> int \<Rightarrow> 'w fs \<Rightarrow> (int \<times> 'w fs) option" where
  "close_call fx file s =
     (if 0 \<le> file \<and> file \<le> 2 then Some (0, s)
      else guarded_call fx (- 1) (\<lambda>s. Some (close_body fx file s)) s)"

section \<open>Reading and writing\<close>

text \<open>
  \<open>_read\<close> returns its count and the bytes it has placed in the caller's buffer; the
  pointer argument is null or not.
\<close>

fun read_console ::
    "('w \<Rightarrow> int \<times> 'w) \<Rightarrow> nat \<Rightarrow> u8 list \<Rightarrow> 'w fs \<Rightarrow> (int \<times> u8 list) \<times> 'w fs" where
  "read_console getchar 0 got s = ((int (length got), got), s)"
| "read_console getchar (Suc remaining) got s =
     (let (character, w) = getchar (world s);
          s1 = s\<lparr>world := w\<rparr>
      in if character < 0 then ((if got = [] then - 1 else int (length got), got), set_errno EIO s1)
         else read_console getchar remaining (got @ [word_of_int character]) s1)"

definition read_body :: "'w filex \<Rightarrow> int \<Rightarrow> int \<Rightarrow> 'w fs \<Rightarrow> (int \<times> u8 list) \<times> 'w fs" where
  "read_body fx file len s =
     (case descriptor_for file s of
        (None, s1) \<Rightarrow> ((- 1, []), s1)
      | (Some i, s1) \<Rightarrow>
          if \<not> readable (descriptors s1 ! i) then ((- 1, []), set_errno EBADF s1)
          else if len = 0 then ((0, []), s1)
          else
            (case switch_mode fx i FX_OPEN_FOR_READ s1 of
               (Some e, s2) \<Rightarrow> ((- 1, []), set_errno e s2)
             | (None, s2) \<Rightarrow>
                 let (status, (data, actual), w) = fx_file_read fx (world s2) i (word_of_int len);
                     s3 = set_descriptor i (position_update (\<lambda>_. fx_file_current_file_offset fx w i)) (s2\<lparr>world := w\<rparr>)
                 in if status \<noteq> FX_SUCCESS \<and> status \<noteq> FX_END_OF_FILE
                    then ((- 1, data), assign_errno (filex_errno status) s3)
                    else ((sint actual, data), s3)))"

definition read_call ::
    "'w filex \<Rightarrow> int \<Rightarrow> bool \<Rightarrow> int \<Rightarrow> 'w fs \<Rightarrow> ((int \<times> u8 list) \<times> 'w fs) option" where
  "read_call fx file null_buffer len s =
     (if len < 0 \<or> null_buffer \<and> len \<noteq> 0
      then Some ((- 1, []), set_errno (if len < 0 then EINVAL else EFAULT) s)
      else if file = 0 then
        (if len = 0 then Some ((0, []), s)
         else (case io_getchar fx of
                 None \<Rightarrow> Some ((- 1, []), set_errno ENOSYS s)
               | Some getchar \<Rightarrow> Some (read_console getchar (nat len) [] s)))
      else guarded_call fx (- 1, []) (\<lambda>s. Some (read_body fx file len s)) s)"

fun write_console :: "('w \<Rightarrow> u8 \<Rightarrow> int \<times> 'w) \<Rightarrow> nat \<Rightarrow> u8 list \<Rightarrow> 'w fs \<Rightarrow> int \<times> 'w fs" where
  "write_console putchar done [] s = (int done, s)"
| "write_console putchar done (b # bs) s =
     (let (r, w) = putchar (world s) b;
          s1 = s\<lparr>world := w\<rparr>
      in if r < 0 then (if done = 0 then - 1 else int done, set_errno EIO s1)
         else write_console putchar (Suc done) bs s1)"

definition write_body :: "'w filex \<Rightarrow> int \<Rightarrow> u8 list \<Rightarrow> int \<Rightarrow> 'w fs \<Rightarrow> int \<times> 'w fs" where
  "write_body fx file buffer len s =
     (case descriptor_for file s of
        (None, s1) \<Rightarrow> (- 1, s1)
      | (Some i, s1) \<Rightarrow>
          if \<not> writable (descriptors s1 ! i) then (- 1, set_errno EBADF s1)
          else if len = 0 then (0, s1)
          else
            let (error, s2) = switch_mode fx i FX_OPEN_FOR_WRITE s1;
                (error, s3) =
                  (if error = None \<and> append (descriptors s2 ! i) then
                     let s' = set_descriptor i (position_update (\<lambda>_. fx_file_current_file_size fx (world s2) i)) s2
                     in lift_fx s' (fx_file_extended_seek fx (world s') i (position (descriptors s' ! i)))
                   else (error, s2))
            in case error of
                 Some e \<Rightarrow> (- 1, set_errno e s3)
               | None \<Rightarrow>
                   let (status, w) = fx_file_write fx (world s3) i (take (nat len) buffer);
                       s4 = set_descriptor i (position_update (\<lambda>_. fx_file_current_file_offset fx w i)) (s3\<lparr>world := w\<rparr>)
                   in if status \<noteq> FX_SUCCESS then (- 1, assign_errno (filex_errno status) s4) else (len, s4))"

definition write_call ::
    "'w filex \<Rightarrow> int \<Rightarrow> u8 list option \<Rightarrow> int \<Rightarrow> 'w fs \<Rightarrow> (int \<times> 'w fs) option" where
  "write_call fx file buffer len s =
     (if len < 0 \<or> buffer = None \<and> len \<noteq> 0
      then Some (- 1, set_errno (if len < 0 then EINVAL else EFAULT) s)
      else
        let bytes = (case buffer of None \<Rightarrow> [] | Some bs \<Rightarrow> bs)
        in if file = 1 \<or> file = 2 then
             (if len = 0 then Some (0, s)
              else (case io_putchar fx of
                      None \<Rightarrow> Some (- 1, set_errno ENOSYS s)
                    | Some putchar \<Rightarrow> Some (write_console putchar 0 (take (nat len) bytes) s)))
           else guarded_call fx (- 1) (\<lambda>s. Some (write_body fx file bytes len s)) s)"

section \<open>Seeking\<close>

datatype seek_origin = SEEK_SET | SEEK_CUR | SEEK_END | SEEK_BAD

text \<open>The target computation of \<open>_lseek\<close>, in 64-bit unsigned arithmetic as in the source.\<close>

definition maximum_offset :: "'o::len itself \<Rightarrow> u64" where
  "maximum_offset _ = 2 ^ (LENGTH('o) - 1) - 1"

definition seek_target :: "u64 \<Rightarrow> 'o::len word \<Rightarrow> errno + u64" where
  "seek_target base offset =
     (let limit = maximum_offset TYPE('o)
      in if base > limit then Inl EOVERFLOW
         else if sint offset \<ge> 0 then
           (if word_of_int (sint offset) > limit - base then Inl EOVERFLOW
            else Inr (base + word_of_int (sint offset)))
         else
           let magnitude = word_of_int (- (sint offset + 1)) + 1
           in if magnitude > base then Inl EINVAL else Inr (base - magnitude))"

definition lseek_positioned ::
    "'w filex \<Rightarrow> nat \<Rightarrow> 'o::len word \<Rightarrow> seek_origin \<Rightarrow> 'w fs \<Rightarrow> 'o word \<times> 'w fs" where
  "lseek_positioned fx i offset origin s =
     (let d = descriptors s ! i
      in if origin = SEEK_BAD then (- 1, set_errno EINVAL s)
         else
           let base = (case origin of SEEK_CUR \<Rightarrow> position d
                       | SEEK_END \<Rightarrow> fx_file_current_file_size fx (world s) i | _ \<Rightarrow> 0)
           in case seek_target base offset of
                Inl e \<Rightarrow> (- 1, set_errno e s)
              | Inr target \<Rightarrow>
                  let (status, w) = fx_file_extended_seek fx (world s) i target;
                      s1 = s\<lparr>world := w\<rparr>
                  in if status \<noteq> FX_SUCCESS then (- 1, assign_errno (filex_errno status) s1)
                     else (ucast target, set_descriptor i (position_update (\<lambda>_. target)) s1))"

definition lseek_body ::
    "'w filex \<Rightarrow> int \<Rightarrow> 'o::len word \<Rightarrow> seek_origin \<Rightarrow> 'w fs \<Rightarrow> 'o word \<times> 'w fs" where
  "lseek_body fx file offset origin s =
     (case descriptor_for file s of
        (None, s1) \<Rightarrow> (- 1, s1)
      | (Some i, s1) \<Rightarrow>
          if open_mode (descriptors s1 ! i) = None then
            (case switch_mode fx i (if readable (descriptors s1 ! i) then FX_OPEN_FOR_READ else FX_OPEN_FOR_WRITE) s1 of
               (Some e, s2) \<Rightarrow> (- 1, set_errno e s2)
             | (None, s2) \<Rightarrow> lseek_positioned fx i offset origin s2)
          else lseek_positioned fx i offset origin s1)"

definition lseek_call ::
    "'w filex \<Rightarrow> int \<Rightarrow> 'o::len word \<Rightarrow> seek_origin \<Rightarrow> 'w fs \<Rightarrow> ('o word \<times> 'w fs) option" where
  "lseek_call fx file offset origin =
     guarded_call fx (- 1) (\<lambda>s. Some (lseek_body fx file offset origin s))"

section \<open>Status of files\<close>

definition fstat_body :: "'w filex \<Rightarrow> int \<Rightarrow> 'w fs \<Rightarrow> (int \<times> 'o::len stat option) \<times> 'w fs" where
  "fstat_body fx file s =
     (case descriptor_for file s of
        (None, s1) \<Rightarrow> ((- 1, None), set_errno EBADF s1)
      | (Some i, s1) \<Rightarrow>
          (case information_unlocked fx (Some (fd_path (descriptors s1 ! i))) s1 of
             (Inl e, s2) \<Rightarrow> ((- 1, None), set_errno e s2)
           | (Inr info, s2) \<Rightarrow>
               let d = descriptors s2 ! i;
                   info1 = (if open_mode d \<noteq> None
                            then info\<lparr>size := fx_file_current_file_size fx (world s2) i\<rparr> else info)
               in ((0, Some (fill_stat (fd_path d) info1)), s2)))"

definition fstat_call ::
    "'w filex \<Rightarrow> int \<Rightarrow> bool \<Rightarrow> 'w fs \<Rightarrow> ((int \<times> 'o::len stat option) \<times> 'w fs) option" where
  "fstat_call fx file null_value s =
     (if null_value then Some ((- 1, None), set_errno EFAULT s)
      else if 0 \<le> file \<and> file \<le> 2 then Some ((0, Some (zero_stat\<lparr>st_mode := 0x2000 OR 0x1B6\<rparr>)), s)
      else guarded_call fx (- 1, None) (\<lambda>s. Some (fstat_body fx file s)) s)"

text \<open>The size an open descriptor of the same file has reached, if it is larger.\<close>

definition largest_open_size :: "'w filex \<Rightarrow> string \<Rightarrow> 'w fs \<Rightarrow> u64 \<Rightarrow> u64" where
  "largest_open_size fx normalized s initial =
     foldl (\<lambda>acc i. let d = descriptors s ! i
                    in if allocated d \<and> open_mode d \<noteq> None \<and> paths_equal (fd_path d) normalized
                       then max acc (fx_file_current_file_size fx (world s) i) else acc)
       initial [0..<length (descriptors s)]"

definition stat_body :: "'w filex \<Rightarrow> string option \<Rightarrow> 'w fs \<Rightarrow> (int \<times> 'o::len stat option) \<times> 'w fs" where
  "stat_body fx path s =
     (case information_unlocked fx path s of
        (Inl e, s1) \<Rightarrow> ((- 1, None), set_errno e s1)
      | (Inr info, s1) \<Rightarrow>
          (case normalize s1 path of
             Inl e \<Rightarrow> ((- 1, None), set_errno e s1)
           | Inr normalized \<Rightarrow>
               ((0, Some (fill_stat normalized (info\<lparr>size := largest_open_size fx normalized s1 (size info)\<rparr>))), s1)))"

definition stat_call ::
    "'w filex \<Rightarrow> string option \<Rightarrow> bool \<Rightarrow> 'w fs \<Rightarrow> ((int \<times> 'o::len stat option) \<times> 'w fs) option" where
  "stat_call fx path null_value s =
     (let (ok, s1) = usable fx s
      in if \<not> ok \<or> null_value
         then Some ((- 1, None), if null_value then set_errno EFAULT s1 else s1)
         else with_registry fx (fail_with (- 1, None)) (\<lambda>s. Some (stat_body fx path s)) s1)"

section \<open>Names and directories\<close>

definition unlink_body :: "'w filex \<Rightarrow> string option \<Rightarrow> 'w fs \<Rightarrow> error \<times> 'w fs" where
  "unlink_body fx path s =
     (case resolve_input s path of
        Inl e \<Rightarrow> (Some e, s)
      | Inr (normalized, r) \<Rightarrow>
          (case information_unlocked fx (Some normalized) s of
             (Inl e, s1) \<Rightarrow> (Some e, s1)
           | (Inr info, s1) \<Rightarrow>
               if is_directory info then (Some EISDIR, s1)
               else if virtual_root r \<or> mount_root r then (Some EBUSY, s1)
               else lift_fx s1 (fx_file_delete fx (world s1) (media_of r) (local r))))"

definition unlink_call :: "'w filex \<Rightarrow> string option \<Rightarrow> 'w fs \<Rightarrow> (int \<times> 'w fs) option" where
  "unlink_call fx path = guarded_call fx (- 1) (\<lambda>s. Some (finish (unlink_body fx path s)))"

definition mkdir_body :: "'w filex \<Rightarrow> string option \<Rightarrow> 'w fs \<Rightarrow> error \<times> 'w fs" where
  "mkdir_body fx path s =
     (case resolve_input s path of
        Inl e \<Rightarrow> (Some e, s)
      | Inr (normalized, r) \<Rightarrow>
          if virtual_root r \<or> mount_root r then (Some EEXIST, s)
          else lift_fx s (fx_directory_create fx (world s) (media_of r) (local r)))"

definition mkdir_call :: "'w filex \<Rightarrow> string option \<Rightarrow> 'w fs \<Rightarrow> (int \<times> 'w fs) option" where
  "mkdir_call fx path = guarded_call fx (- 1) (\<lambda>s. Some (finish (mkdir_body fx path s)))"

definition rmdir_body :: "'w filex \<Rightarrow> string option \<Rightarrow> 'w fs \<Rightarrow> error \<times> 'w fs" where
  "rmdir_body fx path s =
     (case resolve_input s path of
        Inl e \<Rightarrow> (Some e, s)
      | Inr (normalized, r) \<Rightarrow>
          (case information_unlocked fx (Some normalized) s of
             (Inl e, s1) \<Rightarrow> (Some e, s1)
           | (Inr info, s1) \<Rightarrow>
               if \<not> is_directory info then (Some ENOTDIR, s1)
               else if virtual_root r \<or> mount_root r then (Some EBUSY, s1)
               else if path_has_prefix (current_directory s1) normalized True then (Some EBUSY, s1)
               else lift_fx s1 (fx_directory_delete fx (world s1) (media_of r) (local r))))"

definition rmdir_call :: "'w filex \<Rightarrow> string option \<Rightarrow> 'w fs \<Rightarrow> (int \<times> 'w fs) option" where
  "rmdir_call fx path = guarded_call fx (- 1) (\<lambda>s. Some (finish (rmdir_body fx path s)))"

definition remove_call :: "'w filex \<Rightarrow> string option \<Rightarrow> 'w fs \<Rightarrow> (int \<times> 'w fs) option" where
  "remove_call fx path s =
     (case unlink_call fx path s of
        None \<Rightarrow> None
      | Some (r, s1) \<Rightarrow>
          if r = 0 then Some (0, s1)
          else if errno_var s1 = Some EISDIR then rmdir_call fx path s1 else Some (- 1, s1))"

definition chdir_call :: "'w filex \<Rightarrow> string option \<Rightarrow> 'w fs \<Rightarrow> (int \<times> 'w fs) option" where
  "chdir_call fx path s = map_option (\<lambda>((e, u), s1). finish (e, s1)) (setCurrentPath fx path s)"

text \<open>\<open>_getcwd\<close>: \<open>None\<close> in the result is the null pointer, a value the filled buffer.\<close>

definition getcwd_buffer ::
    "'w filex \<Rightarrow> bool \<Rightarrow> nat \<Rightarrow> 'w fs \<Rightarrow> (string option \<times> 'w fs) option" where
  "getcwd_buffer fx null_buffer buffer_size s =
     (if null_buffer \<or> buffer_size = 0 then Some (None, set_errno EINVAL s)
      else map_option
        (\<lambda>((e, path), s1).
           if e \<noteq> None \<or> length path + 1 > buffer_size
           then (None, assign_errno (if e \<noteq> None then e else Some ERANGE) s1)
           else (Some path, s1))
        (currentPath fx s))"

text \<open>\<open>getcwd\<close> with a null buffer allocates one; \<open>malloc_ok\<close> says whether \<open>malloc\<close> succeeds.\<close>

definition getcwd_call ::
    "'w filex \<Rightarrow> bool \<Rightarrow> bool \<Rightarrow> nat \<Rightarrow> 'w fs \<Rightarrow> (string option \<times> 'w fs) option" where
  "getcwd_call fx malloc_ok null_buffer buffer_size s =
     (if \<not> null_buffer then getcwd_buffer fx False buffer_size s
      else if \<not> malloc_ok then Some (None, set_errno ENOMEM s)
      else getcwd_buffer fx False MAXIMUM_PATH s)"

section \<open>Flushing and truncation\<close>

definition fsync_body :: "'w filex \<Rightarrow> int \<Rightarrow> 'w fs \<Rightarrow> int \<times> 'w fs" where
  "fsync_body fx file s =
     (case descriptor_for file s of
        (None, s1) \<Rightarrow> (- 1, s1)
      | (Some i, s1) \<Rightarrow>
          (case resolve s1 (fd_path (descriptors s1 ! i)) of
             Inl e \<Rightarrow> (- 1, set_errno e s1)
           | Inr r \<Rightarrow>
               let (status, w) = fx_media_flush fx (world s1) (media_of r);
                   s2 = s1\<lparr>world := w\<rparr>
               in if status \<noteq> FX_SUCCESS then (- 1, assign_errno (filex_errno status) s2) else (0, s2)))"

definition fsync_call :: "'w filex \<Rightarrow> int \<Rightarrow> 'w fs \<Rightarrow> (int \<times> 'w fs) option" where
  "fsync_call fx file = guarded_call fx (- 1) (\<lambda>s. Some (fsync_body fx file s))"

text \<open>The zero-filling loop of \<open>_ftruncate\<close>, 64 bytes at a time.\<close>

function extend_with_zeroes :: "'w filex \<Rightarrow> nat \<Rightarrow> u64 \<Rightarrow> 'w fs \<Rightarrow> error \<times> 'w fs" where
  "extend_with_zeroes fx i remaining s =
     (if remaining = 0 then (None, s)
      else
        let chunk = min remaining 64;
            (error, s1) = lift_fx s (fx_file_write fx (world s) i (replicate (unat chunk) 0))
        in if error \<noteq> None then (error, s1) else extend_with_zeroes fx i (remaining - chunk) s1)"
  by pat_completeness auto

lemma zero_chunk_decreases: "(remaining :: u64) \<noteq> 0 \<Longrightarrow> unat (remaining - min remaining 64) < unat remaining"
proof -
  assume "remaining \<noteq> 0"
  then have "0 < unat (min remaining 64)" and "min remaining 64 \<le> remaining"
    by (auto simp: min_def unat_gt_0)
  then show ?thesis
    using unat_sub [of "min remaining 64" remaining] word_le_nat_alt [of "min remaining 64" remaining]
    by linarith
qed

termination extend_with_zeroes
  by (relation "measure (\<lambda>(fx, i, remaining, s). unat remaining)") (auto simp: zero_chunk_decreases)

declare extend_with_zeroes.simps [simp del]

definition resize_file :: "'w filex \<Rightarrow> nat \<Rightarrow> u64 \<Rightarrow> 'w fs \<Rightarrow> error \<times> 'w fs" where
  "resize_file fx i len s =
     (let original_size = fx_file_current_file_size fx (world s) i
      in if len < original_size then lift_fx s (fx_file_extended_truncate_release fx (world s) i len)
         else if len > original_size then
           (case lift_fx s (fx_file_extended_seek fx (world s) i original_size) of
              (Some e, s1) \<Rightarrow> (Some e, s1)
            | (None, s1) \<Rightarrow> extend_with_zeroes fx i (len - original_size) s1)
         else (None, s))"

definition ftruncate_body :: "'w filex \<Rightarrow> int \<Rightarrow> u64 \<Rightarrow> 'w fs \<Rightarrow> int \<times> 'w fs" where
  "ftruncate_body fx file len s =
     (case descriptor_for file s of
        (None, s1) \<Rightarrow> (- 1, s1)
      | (Some i, s1) \<Rightarrow>
          if \<not> writable (descriptors s1 ! i) then (- 1, set_errno EBADF s1)
          else
            let (error, s2) = switch_mode fx i FX_OPEN_FOR_WRITE s1;
                (error, s3) = (if error = None then resize_file fx i len s2 else (error, s2))
            in case error of
                 Some e \<Rightarrow> (- 1, set_errno e s3)
               | None \<Rightarrow>
                   let s4 = set_descriptor i (position_update (\<lambda>p. min p len)) s3
                   in finish (lift_fx s4 (fx_file_extended_seek fx (world s4) i (position (descriptors s4 ! i)))))"

definition ftruncate_call :: "'w filex \<Rightarrow> int \<Rightarrow> 'o::len word \<Rightarrow> 'w fs \<Rightarrow> (int \<times> 'w fs) option" where
  "ftruncate_call fx file len s =
     (let (ok, s1) = usable fx s
      in if \<not> ok \<or> sint len < 0 then Some (- 1, if sint len < 0 then set_errno EINVAL s1 else s1)
         else with_registry fx (fail_with (- 1)) (\<lambda>s. Some (ftruncate_body fx file (word_of_int (sint len)) s)) s1)"

definition truncate_flags :: open_flags where
  "truncate_flags = \<lparr>o_accmode = O_WRONLY, o_creat = False, o_excl = False, o_trunc = False, o_append = False\<rparr>"

definition truncate_call :: "'w filex \<Rightarrow> string option \<Rightarrow> 'o::len word \<Rightarrow> 'w fs \<Rightarrow> (int \<times> 'w fs) option" where
  "truncate_call fx path len s =
     (case open_call fx path truncate_flags s of
        None \<Rightarrow> None
      | Some (descriptor, s1) \<Rightarrow>
          if descriptor < 0 then Some (- 1, s1)
          else
            (case ftruncate_call fx descriptor len s1 of
               None \<Rightarrow> None
             | Some (result, s2) \<Rightarrow>
                 (case close_call fx descriptor s2 of
                    None \<Rightarrow> None
                  | Some (_, s3) \<Rightarrow> Some (result, assign_errno (errno_var s2) s3))))"

section \<open>The calls keep the registry invariant\<close>

lemma information_inv:
  "registry_inv s \<Longrightarrow> information_unlocked fx p s = (r, s') \<Longrightarrow>
   registry_inv s' \<and> descriptors s' = descriptors s \<and> directories s' = directories s \<and>
   current_directory s' = current_directory s"
  by (auto dest: information_frame)

lemma lift_fx_inv [simp]: "registry_inv (snd (lift_fx s r)) = registry_inv s"
  by (simp add: lift_fx_def split: prod.splits)

lemma claim_descriptor_ok:
  "stored_path p \<Longrightarrow> descriptor_ok (claim_descriptor p flags n)"
  by (simp add: descriptor_ok_def claim_descriptor_def)

lemma guarded_query_keeps:
  assumes "\<And>s. registry_inv s \<Longrightarrow> registry_inv (snd (body s))"
  shows "keeps registry_inv (guarded_query fx bad body)"
proof
  fix s r s'
  assume s: "registry_inv s" and r: "guarded_query fx bad body s = Some (r, s')"
  have "keeps registry_inv (with_registry fx (\<lambda>e s. ((Some e, bad), s)) (\<lambda>s. Some (body s)))"
    by (rule reg.with_registry_keeps) (simp_all add: keeps_total assms)
  with reg.usable_keeps [OF s, of fx] r show "registry_inv s'"
    by (auto simp: guarded_query_def split: prod.splits if_splits dest: keepsD)
qed

lemma open_slot_inv:
  assumes inv: "registry_inv s" and p: "stored_path p" and slot: "slot < length (descriptors s)"
  shows "registry_inv (snd (open_slot fx slot p flags n s))"
proof -
  let ?d = "claim_descriptor p flags n"
  let ?s1 = "set_descriptor slot (\<lambda>_. ?d) (reset_descriptor fx slot s)"
  let ?m = "if writable ?d then FX_OPEN_FOR_WRITE else FX_OPEN_FOR_READ"
  have s1: "registry_inv ?s1"
    by (rule registry_inv_set_descriptor) (simp_all add: inv claim_descriptor_ok p)
  have d: "descriptors ?s1 ! slot = ?d"
    using slot by (simp add: set_descriptor_def reset_descriptor_def)
  have a: "allocated ?d" and m: "mode_allowed ?d ?m"
    by (simp_all add: claim_descriptor_def mode_allowed_def)
  obtain e s2 where sw: "switch_mode fx slot ?m ?s1 = (e, s2)"
    by (cases "switch_mode fx slot ?m ?s1")
  have s2: "registry_inv s2"
    using switch_mode_inv [OF sw s1] a m d by simp
  have "allocated (descriptors s2 ! slot)"
    using handle_frame_fields(2) [OF switch_mode_frame(1) [OF sw]] a d by (simp add: same_slot_def)
  then have "registry_inv (set_descriptor slot (position_update f) (s2\<lparr>world := w\<rparr>))" for f w
    by (intro registry_inv_position) (simp_all add: s2)
  with s2 show ?thesis
    using sw d by (auto simp: open_slot_def lift_fx_def Let_def split: prod.splits option.splits if_splits)
qed

lemma open_body_inv:
  assumes "registry_inv s"
  shows "registry_inv (snd (open_body fx path flags s))"
proof (cases "resolve_input s path")
  case (Inl e)
  with assms show ?thesis by (simp add: open_body_def)
next
  case (Inr pr)
  obtain n r where pr: "pr = (n, r)" by (cases pr)
  have n: "stored_path n"
    using resolve_input_stored [OF assms] Inr pr by simp
  obtain ir s1 where i: "information_unlocked fx (Some n) s = (ir, s1)"
    by (cases "information_unlocked fx (Some n) s")
  note s1 = information_inv [OF assms i]
  have slot: "registry_inv (snd (open_slot fx slot n flags k (s1\<lparr>world := w\<rparr>)))"
    "registry_inv (snd (open_slot fx slot n flags k s1))"
    if "find_index (\<lambda>d. \<not> allocated d) (descriptors s) = Some slot" for slot k w
    using that s1 by (simp_all add: open_slot_inv n find_index_Some)
  show ?thesis
    using Inr pr i s1 assms slot
    by (auto simp: open_body_def Let_def split: option.splits sum.splits prod.splits)
qed

lemma close_body_inv: "registry_inv s \<Longrightarrow> registry_inv (snd (close_body fx file s))"
  by (auto simp: close_body_def Let_def descriptor_for_Some dest!: descriptor_for_None
      split: prod.splits option.splits)

lemma read_console_inv: "registry_inv s \<Longrightarrow> registry_inv (snd (read_console getchar n got s))"
  by (induction n arbitrary: got s) (auto simp: Let_def split: prod.splits)

lemma write_console_inv: "registry_inv s \<Longrightarrow> registry_inv (snd (write_console putchar n bs s))"
  by (induction bs arbitrary: n s) (auto simp: Let_def split: prod.splits)

text \<open>
  The calls on an open descriptor: while they run, slot \<open>i\<close> stays allocated with the path
  and access rights of \<open>d\<close>.
\<close>

definition live :: "nat \<Rightarrow> file_descriptor \<Rightarrow> 'w fs \<Rightarrow> bool" where
  "live i d s \<longleftrightarrow> registry_inv s \<and> i < length (descriptors s) \<and> allocated d \<and> same_slot d (descriptors s ! i)"

lemma live_simps [simp]:
  "live i d (s\<lparr>world := w\<rparr>) = live i d s"
  "live i d (set_errno e s) = live i d s"
  "live i d (assign_errno e' s) = live i d s"
  "live i d (snd (lift_fx s r)) = live i d s"
  by (auto simp: live_def set_errno_def assign_errno_def lift_fx_def split: prod.splits)

lemma live_inv: "live i d s \<Longrightarrow> registry_inv s"
  by (simp add: live_def)

lemma live_position [simp]:
  assumes "live i d s"
  shows "live i d (set_descriptor i (position_update f) s)"
proof -
  from assms have "registry_inv (set_descriptor i (position_update f) s)"
    by (intro registry_inv_position) (simp_all add: live_def same_slot_def)
  moreover have "same_slot (descriptors s ! i) (descriptors (set_descriptor i (position_update f) s) ! i)"
    by (rule handle_frame_fields(2) [OF handle_frame_set]) simp
  ultimately show ?thesis
    using assms by (simp add: live_def same_slot_def set_descriptor_def)
qed

lemma live_switch_mode:
  assumes "live i d s" and "mode_allowed d m" and "switch_mode fx i m s = (e, s')"
  shows "live i d s'"
  using switch_mode_inv [OF assms(3)] handle_frame_fields(1,2) [OF switch_mode_frame(1) [OF assms(3)]] assms(1,2)
  by (auto simp: live_def same_slot_def mode_allowed_def split: open_type.splits)

lemma live_start:
  "registry_inv s \<Longrightarrow> descriptor_for file s = (Some i, s') \<Longrightarrow> s' = s \<and> live i (descriptors s ! i) s"
  by (simp add: descriptor_for_Some live_def same_slot_def)

lemma live_fields:
  "live i d s \<Longrightarrow> allocated (descriptors s ! i) \<and> readable (descriptors s ! i) = readable d \<and>
   writable (descriptors s ! i) = writable d \<and> append (descriptors s ! i) = append d \<and>
   fd_path (descriptors s ! i) = fd_path d"
  by (simp add: live_def same_slot_def)

lemma lift_fx_live: "live i d s \<Longrightarrow> lift_fx s r = (e, s') \<Longrightarrow> live i d s'"
  using live_simps(4) [of i d s r] by simp

lemma live_switch_read:
  "switch_mode fx i FX_OPEN_FOR_READ s = (e, s') \<Longrightarrow> live i d s \<Longrightarrow> readable d \<Longrightarrow> live i d s'"
  using live_switch_mode [of i d s FX_OPEN_FOR_READ] by (simp add: mode_allowed_def)

lemma live_switch_write:
  "switch_mode fx i FX_OPEN_FOR_WRITE s = (e, s') \<Longrightarrow> live i d s \<Longrightarrow> writable d \<Longrightarrow> live i d s'"
  using live_switch_mode [of i d s FX_OPEN_FOR_WRITE] by (simp add: mode_allowed_def)

lemma live_any_mode: "live i d s \<Longrightarrow> readable d \<or> writable d"
  using registry_inv_descriptor [of s i] by (auto simp: live_def same_slot_def descriptor_ok_def)

lemma lift_position_live:
  "lift_fx (set_descriptor i (position_update f) s) r = (e, s') \<Longrightarrow> live i d s \<Longrightarrow> live i d s'"
  using lift_fx_live live_position by blast

lemmas live_dests = live_switch_read live_switch_write lift_position_live

text \<open>A body that first looks its descriptor up keeps the invariant if the rest does.\<close>

lemma descriptor_body_inv:
  assumes "registry_inv s" and "\<And>s. registry_inv s \<Longrightarrow> registry_inv (snd (bad s))"
    and "\<And>i. live i (descriptors s ! i) s \<Longrightarrow> registry_inv (snd (good i s))"
  shows "registry_inv (snd (case descriptor_for file s of (None, s1) \<Rightarrow> bad s1 | (Some i, s1) \<Rightarrow> good i s1))"
proof (cases "descriptor_for file s")
  case (Pair oi s1)
  show ?thesis
  proof (cases oi)
    case None
    with Pair have "s1 = set_errno EBADF s" by (simp add: descriptor_for_None)
    with Pair None assms show ?thesis by simp
  next
    case (Some i)
    with Pair live_start [OF assms(1)] have "s1 = s" "live i (descriptors s ! i) s" by auto
    with Pair Some assms show ?thesis by simp
  qed
qed

lemma read_body_inv: "registry_inv s \<Longrightarrow> registry_inv (snd (read_body fx file len s))"
  unfolding read_body_def
  by (rule descriptor_body_inv)
    (auto simp: Let_def dest: live_dests live_inv intro!: live_inv [OF live_position]
      split: prod.splits option.splits)

lemma write_body_inv: "registry_inv s \<Longrightarrow> registry_inv (snd (write_body fx file buffer len s))"
  unfolding write_body_def
  by (rule descriptor_body_inv)
    (auto simp: Let_def dest!: live_dests dest: live_inv intro: live_inv [OF live_position]
      split: prod.splits option.splits if_splits)

lemma lseek_positioned_live:
  "live i d s \<Longrightarrow> live i d (snd (lseek_positioned fx i offset origin s))"
  by (auto simp: lseek_positioned_def Let_def split: sum.splits prod.splits)

lemma lseek_body_inv: "registry_inv s \<Longrightarrow> registry_inv (snd (lseek_body fx file offset origin s))"
proof -
  assume inv: "registry_inv s"
  show ?thesis
    unfolding lseek_body_def
  proof (rule descriptor_body_inv [OF inv], goal_cases)
    case (2 i)
    obtain e s2 where sw: "switch_mode fx i (if readable (descriptors s ! i) then FX_OPEN_FOR_READ
        else FX_OPEN_FOR_WRITE) s = (e, s2)" by fastforce
    from live_any_mode [OF 2] sw 2 have "live i (descriptors s ! i) s2"
      by (auto split: if_splits dest: live_dests)
    with 2 sw show ?case
      by (auto split: option.splits dest: live_inv [OF lseek_positioned_live] live_inv)
  qed simp
qed

lemma fstat_body_inv: "registry_inv s \<Longrightarrow> registry_inv (snd (fstat_body fx file s))"
  unfolding fstat_body_def
  by (rule descriptor_body_inv)
    (auto simp: Let_def split: prod.splits sum.splits dest: information_inv)

lemma stat_body_inv: "registry_inv s \<Longrightarrow> registry_inv (snd (stat_body fx path s))"
  by (auto simp: stat_body_def split: prod.splits sum.splits dest: information_inv)

lemma set_current_path_inv: "registry_inv s \<Longrightarrow> registry_inv (snd (set_current_path_body fx path s))"
proof -
  assume inv: "registry_inv s"
  have "registry_inv (t\<lparr>current_directory := n\<rparr>)" if "registry_inv t" "stored_path n" for t :: "'a fs" and n
    using that by (simp add: registry_inv_def)
  then show ?thesis
    using inv normalize_stored [OF inv]
    by (auto simp: set_current_path_body_def Let_def split: prod.splits sum.splits dest: information_inv)
qed

lemma unlink_body_inv: "registry_inv s \<Longrightarrow> registry_inv (snd (unlink_body fx path s))"
  by (auto simp: unlink_body_def split: prod.splits sum.splits dest: information_inv)

lemma mkdir_body_inv: "registry_inv s \<Longrightarrow> registry_inv (snd (mkdir_body fx path s))"
  by (auto simp: mkdir_body_def split: prod.splits sum.splits)

lemma rmdir_body_inv: "registry_inv s \<Longrightarrow> registry_inv (snd (rmdir_body fx path s))"
  by (auto simp: rmdir_body_def split: prod.splits sum.splits dest: information_inv)

lemma fsync_body_inv: "registry_inv s \<Longrightarrow> registry_inv (snd (fsync_body fx file s))"
  unfolding fsync_body_def
  by (rule descriptor_body_inv) (auto simp: Let_def split: prod.splits sum.splits)

lemma extend_with_zeroes_live:
  "live i d s \<Longrightarrow> live i d (snd (extend_with_zeroes fx i n s))"
proof (induction fx i n s rule: extend_with_zeroes.induct)
  case (1 fx i n s)
  obtain e s1 where w: "lift_fx s (fx_file_write fx (world s) i (replicate (unat (min n 64)) 0)) = (e, s1)"
    by fastforce
  with 1 lift_fx_live [OF "1.prems" w] show ?case
    by (subst extend_with_zeroes.simps) (auto simp: Let_def)
qed

lemma resize_file_live: "live i d s \<Longrightarrow> live i d (snd (resize_file fx i n s))"
  by (auto simp: resize_file_def Let_def split: prod.splits option.splits
      dest: lift_fx_live intro: extend_with_zeroes_live)

lemma ftruncate_body_inv: "registry_inv s \<Longrightarrow> registry_inv (snd (ftruncate_body fx file n s))"
  unfolding ftruncate_body_def
proof (rule descriptor_body_inv, goal_cases)
  case (3 i)
  obtain e s2 where sw: "switch_mode fx i FX_OPEN_FOR_WRITE s = (e, s2)" by fastforce
  have s2: "live i (descriptors s ! i) s2" if "writable (descriptors s ! i)"
    using live_switch_write [OF sw 3(2) that] .
  obtain e' s3 where rs: "resize_file fx i n s2 = (e', s3)" by fastforce
  have s3: "live i (descriptors s ! i) s3" if "writable (descriptors s ! i)"
    using resize_file_live [OF s2 [OF that], of fx n] rs by simp
  show ?case
    using 3(1) sw rs s2 s3
    by (auto simp: Let_def intro!: reg.finish_keeps live_inv [OF live_position] dest: live_inv split: option.splits)
qed simp_all

section \<open>Every call keeps the invariant\<close>

lemmas body_inv = open_body_inv close_body_inv read_body_inv write_body_inv lseek_body_inv fstat_body_inv
  stat_body_inv set_current_path_inv unlink_body_inv mkdir_body_inv rmdir_body_inv fsync_body_inv ftruncate_body_inv

lemma query_calls_keep [inv_rules]:
  "keeps registry_inv (normalizePath fx path)"
  "keeps registry_inv (information fx path)"
  "keeps registry_inv (availableSpace fx path)"
  "keeps registry_inv (currentPath fx)"
  "keeps registry_inv (setCurrentPath fx path)"
  unfolding normalizePath_def information_def availableSpace_def currentPath_def setCurrentPath_def
  by (rule guarded_query_keeps;
      auto simp: Let_def split: sum.splits prod.splits dest: information_inv set_current_path_inv [of _ fx path])+

lemma file_calls_keep [inv_rules]:
  "keeps registry_inv (open_call fx path flags)"
  "keeps registry_inv (lseek_call fx file offset origin)"
  "keeps registry_inv (unlink_call fx path)"
  "keeps registry_inv (mkdir_call fx path)"
  "keeps registry_inv (rmdir_call fx path)"
  "keeps registry_inv (fsync_call fx file)"
  unfolding open_call_def lseek_call_def unlink_call_def mkdir_call_def rmdir_call_def fsync_call_def
  by (rule reg.guarded_call_keeps; rule keeps_total; intro reg.finish_keeps body_inv; assumption)+

lemma guarded_body_keeps:
  "(\<And>s. registry_inv s \<Longrightarrow> registry_inv (snd (body s))) \<Longrightarrow> keeps registry_inv (guarded_call fx bad (\<lambda>s. Some (body s)))"
  by (intro reg.guarded_call_keeps keeps_total)

lemma close_call_keeps [inv_rules]: "keeps registry_inv (close_call fx file)"
  unfolding close_call_def [abs_def]
  by (intro keeps_if guarded_body_keeps close_body_inv) (simp_all add: keeps_total)

lemma read_call_keeps [inv_rules]: "keeps registry_inv (read_call fx file null_buffer len)"
proof
  fix s r s'
  assume s: "registry_inv s" and r: "read_call fx file null_buffer len s = Some (r, s')"
  have g: "registry_inv s'"
    if "guarded_call fx (- 1, []) (\<lambda>s. Some (read_body fx file len s)) s = Some (r, s')"
    using keepsD [OF guarded_body_keeps [OF read_body_inv] s that] .
  from s r g read_console_inv [OF s] show "registry_inv s'"
    by (auto simp: read_call_def split: if_splits option.splits) (metis snd_conv)
qed

lemma write_call_keeps [inv_rules]: "keeps registry_inv (write_call fx file buffer len)"
proof
  fix s r s'
  assume s: "registry_inv s" and r: "write_call fx file buffer len s = Some (r, s')"
  have g: "registry_inv s'"
    if "guarded_call fx (- 1) (\<lambda>s. Some (write_body fx file bytes len s)) s = Some (r, s')" for bytes
    using keepsD [OF guarded_body_keeps [OF write_body_inv] s that] .
  from s r g write_console_inv [OF s] show "registry_inv s'"
    by (auto simp: write_call_def Let_def split: if_splits option.splits) (metis snd_conv)+
qed

lemma fstat_call_keeps [inv_rules]: "keeps registry_inv (fstat_call fx file null_value)"
  unfolding fstat_call_def [abs_def]
  by (intro keeps_if guarded_body_keeps fstat_body_inv) (simp_all add: keeps_total)

lemma checked_call_keeps:
  assumes "\<And>s. registry_inv s \<Longrightarrow> registry_inv (snd (body s))"
  shows "keeps registry_inv (\<lambda>s. let (ok, s1) = usable fx s in
           if \<not> ok \<or> b then Some (bad, if b then set_errno e s1 else s1)
           else with_registry fx (fail_with bad) (\<lambda>s. Some (body s)) s1)"
proof
  fix s r s'
  assume s: "registry_inv s" and r: "(let (ok, s1) = usable fx s in
           if \<not> ok \<or> b then Some (bad, if b then set_errno e s1 else s1)
           else with_registry fx (fail_with bad) (\<lambda>s. Some (body s)) s1) = Some (r, s')"
  have k: "keeps registry_inv (with_registry fx (fail_with bad) (\<lambda>s. Some (body s)))"
    by (rule reg.with_registry_keeps) (simp_all add: fail_with_def keeps_total assms)
  from r reg.usable_keeps [OF s, of fx] k show "registry_inv s'"
    by (auto split: prod.splits if_splits dest: keepsD)
qed

lemma stat_call_keeps [inv_rules]: "keeps registry_inv (stat_call fx path null_value)"
  using checked_call_keeps [OF stat_body_inv [of _ fx path], where b = null_value and e = EFAULT]
  by (simp add: stat_call_def [abs_def])

lemma ftruncate_call_keeps [inv_rules]: "keeps registry_inv (ftruncate_call fx file len)"
  using checked_call_keeps [OF ftruncate_body_inv [of _ fx "file" "word_of_int (sint len)"],
    where b = "sint len < 0" and e = EINVAL]
  by (simp add: ftruncate_call_def [abs_def])

lemma remove_call_keeps [inv_rules]: "keeps registry_inv (remove_call fx path)"
proof
  fix s r s'
  assume s: "registry_inv s" and r: "remove_call fx path s = Some (r, s')"
  then obtain q s1 where u: "unlink_call fx path s = Some (q, s1)"
    by (auto simp: remove_call_def split: option.splits)
  from keepsD [OF file_calls_keep(3) s u] keepsD [OF file_calls_keep(5), of s1 fx path] r u
  show "registry_inv s'"
    by (auto simp: remove_call_def split: if_splits)
qed

lemma chdir_call_keeps [inv_rules]: "keeps registry_inv (chdir_call fx path)"
proof
  fix s r s'
  assume s: "registry_inv s" and r: "chdir_call fx path s = Some (r, s')"
  from r obtain e u s1 where "setCurrentPath fx path s = Some ((e, u), s1)" and "(r, s') = finish (e, s1)"
    by (auto simp: chdir_call_def)
  with keepsD [OF query_calls_keep(5) s] reg.finish_keeps [of "(e, s1)"] show "registry_inv s'"
    by (metis snd_conv)
qed

lemma getcwd_call_keeps [inv_rules]: "keeps registry_inv (getcwd_call fx malloc_ok null_buffer n)"
  using query_calls_keep(4) [of fx]
  by (auto simp: keeps_def getcwd_call_def getcwd_buffer_def split: if_splits; blast)

lemma truncate_call_keeps [inv_rules]: "keeps registry_inv (truncate_call fx path len)"
proof
  fix s r s'
  assume s: "registry_inv s" and r: "truncate_call fx path len s = Some (r, s')"
  then obtain fd s1 where o: "open_call fx path truncate_flags s = Some (fd, s1)"
    by (auto simp: truncate_call_def split: option.splits)
  note s1 = keepsD [OF file_calls_keep(1) s o]
  show "registry_inv s'"
  proof (cases "fd < 0")
    case True
    with r o s1 show ?thesis by (simp add: truncate_call_def)
  next
    case False
    with r o obtain s2 u s3 where "ftruncate_call fx fd len s1 = Some (r, s2)"
      and "close_call fx fd s2 = Some (u, s3)" and "s' = assign_errno (errno_var s2) s3"
      by (auto simp: truncate_call_def split: option.splits)
    with keepsD [OF close_call_keeps keepsD [OF ftruncate_call_keeps s1]] show ?thesis
      by simp
  qed
qed

end
