(* ===== verification/Rename.thy ===== *)
theory Rename
  imports File_Calls
begin

text \<open>
  \<open>_rename\<close> of \<open>platform/runtime/libc/filesystem.cpp\<close>. FileX cannot replace an existing
  entry, so the adapter moves the destination to a backup name, renames the source,
  restores the backup if that fails, deletes it if it succeeds, and rewrites the paths of
  open descriptors, of the working directory and of directory streams below the source.
  The call is split where the source splits it: the checks that may refuse it, the
  examination of the destination, the exchange of entries, and the migration of paths.
\<close>

section \<open>Checks\<close>

definition descriptor_paths :: "'w fs \<Rightarrow> string list" where
  "descriptor_paths s = map fd_path (filter allocated (descriptors s))"

text \<open>The paths that would not fit their buffers after the move.\<close>

definition migration_too_long :: "'w fs \<Rightarrow> string \<Rightarrow> string \<Rightarrow> bool \<Rightarrow> bool" where
  "migration_too_long s old_name new_name source_is_directory \<longleftrightarrow>
     list_ex (\<lambda>p. migrated_path_length p old_name new_name source_is_directory \<ge> MAXIMUM_PATH) (descriptor_paths s)
     \<or> source_is_directory \<and> migrated_path_length (current_directory s) old_name new_name True \<ge> MAXIMUM_PATH
     \<or> source_is_directory \<and>
         list_ex (\<lambda>d. ds_allocated d \<and> migrated_path_length (ds_path d) old_name new_name True \<ge> MAXIMUM_PATH)
           (directories s)"

definition rename_precheck :: "'w fs \<Rightarrow> string \<Rightarrow> string \<Rightarrow> bool \<Rightarrow> error" where
  "rename_precheck s old_name new_name source_is_directory =
     (if source_is_directory \<and> \<not> paths_equal old_name new_name \<and> path_has_prefix new_name old_name True
      then Some EINVAL
      else if migration_too_long s old_name new_name source_is_directory then Some ENAMETOOLONG
      else None)"

text \<open>
  The destination: whether it exists and is a directory, or why it cannot be replaced.
\<close>

definition examine_destination ::
    "'w filex \<Rightarrow> string \<Rightarrow> bool \<Rightarrow> bool \<Rightarrow> 'w fs \<Rightarrow> (errno + (bool \<times> bool)) \<times> 'w fs" where
  "examine_destination fx new_name destination_is_source source_is_directory s =
     (case information_unlocked fx (Some new_name) s of
        (Inl e, s1) \<Rightarrow> if e = ENOENT then (Inr (False, False), s1) else (Inl e, s1)
      | (Inr info, s1) \<Rightarrow>
          let destination_is_directory = is_directory info
          in if source_is_directory \<noteq> destination_is_directory
             then (Inl (if source_is_directory then ENOTDIR else EISDIR), s1)
             else if \<not> destination_is_source \<and> source_is_directory \<and>
                     path_has_prefix (current_directory s1) new_name True
             then (Inl EBUSY, s1)
             else if \<not> destination_is_source \<and>
                     list_ex (\<lambda>p. path_has_prefix p new_name destination_is_directory) (descriptor_paths s1)
             then (Inl EBUSY, s1)
             else (Inr (True, destination_is_directory), s1))"

section \<open>Exchange of the entries\<close>

definition source_is_open :: "'w fs \<Rightarrow> string \<Rightarrow> bool \<Rightarrow> bool" where
  "source_is_open s old_name include_descendants \<longleftrightarrow>
     list_ex (\<lambda>d. allocated d \<and> open_mode d \<noteq> None \<and> path_has_prefix (fd_path d) old_name include_descendants)
       (descriptors s)"

text \<open>
  Everything from the reservation of a backup name to its deletion. The boolean result
  says whether the source was renamed, whatever the error is.
\<close>

definition exchange_entries ::
    "'w filex \<Rightarrow> volume \<Rightarrow> string \<Rightarrow> string \<Rightarrow> bool \<Rightarrow> bool \<Rightarrow> bool \<Rightarrow> 'w fs \<Rightarrow> (error \<times> bool) \<times> 'w fs" where
  "exchange_entries fx v old_name new_name source_is_directory replace destination_is_directory s =
     (let (error, backup, s1) =
        (if replace then
           (case find_rename_backup_unlocked fx v s of
              (Inl e, s') \<Rightarrow> (Some e, [], s')
            | (Inr backup, s') \<Rightarrow>
                let (e, s'') = rename_entry_unlocked fx destination_is_directory new_name backup s'
                in (e, backup, s''))
         else (None, [], s))
      in if error \<noteq> None then ((error, False), s1)
         else
           let backed_up = replace;
               (error, s2) = rename_entry_unlocked fx source_is_directory old_name new_name s1;
               source_was_renamed = (error = None)
           in if error \<noteq> None then
                (if backed_up then
                   let (restore_error, s3) = rename_entry_unlocked fx destination_is_directory backup new_name s2
                   in ((if restore_error \<noteq> None then restore_error else error, False), s3)
                 else ((error, False), s2))
              else if backed_up then
                let (error, s3) = delete_entry_unlocked fx destination_is_directory backup s2
                in ((error, source_was_renamed), s3)
              else ((None, source_was_renamed), s2))"

section \<open>Migration of stored paths\<close>

definition migrate_descriptor :: "string \<Rightarrow> string \<Rightarrow> bool \<Rightarrow> file_descriptor \<Rightarrow> file_descriptor" where
  "migrate_descriptor old_name new_name include_descendants d =
     (if allocated d then fd_path_update (\<lambda>p. migrate_path p old_name new_name include_descendants) d else d)"

definition migrate_stream :: "string \<Rightarrow> string \<Rightarrow> directory_stream \<Rightarrow> directory_stream" where
  "migrate_stream old_name new_name d =
     (if ds_allocated d then ds_path_update (\<lambda>p. migrate_path p old_name new_name True) d else d)"

definition migrate_paths :: "string \<Rightarrow> string \<Rightarrow> bool \<Rightarrow> 'w fs \<Rightarrow> 'w fs" where
  "migrate_paths old_name new_name source_is_directory s =
     (let s1 = s\<lparr>descriptors := map (migrate_descriptor old_name new_name source_is_directory) (descriptors s)\<rparr>
      in if source_is_directory
         then s1\<lparr>current_directory := migrate_path (current_directory s1) old_name new_name True,
                 directories := map (migrate_stream old_name new_name) (directories s1)\<rparr>
         else s1)"

section \<open>The call\<close>

definition rename_commit ::
    "'w filex \<Rightarrow> volume \<Rightarrow> string \<Rightarrow> string \<Rightarrow> bool \<Rightarrow> bool \<Rightarrow> bool \<Rightarrow> bool \<Rightarrow> 'w fs \<Rightarrow> (error \<times> 'w fs) option" where
  "rename_commit fx v old_name new_name source_is_directory destination_is_source
       destination_exists destination_is_directory s =
     (let replace = (destination_exists \<and> \<not> destination_is_source)
      in case (if replace \<and> destination_is_directory then require_empty_directory_unlocked fx new_name s
               else Some (None, s)) of
           None \<Rightarrow> None
         | Some (Some e, s1) \<Rightarrow> Some (Some e, s1)
         | Some (None, s1) \<Rightarrow>
             let (error, s2) = (if source_is_open s1 old_name source_is_directory
                                then lift_fx s1 (fx_media_flush fx (world s1) v) else (None, s1))
             in if error \<noteq> None then Some (error, s2)
                else
                  let ((error, renamed), s3) =
                    exchange_entries fx v old_name new_name source_is_directory replace destination_is_directory s2
                  in Some (error, if renamed then migrate_paths old_name new_name source_is_directory s3 else s3))"

definition rename_resolved ::
    "'w filex \<Rightarrow> string \<Rightarrow> string \<Rightarrow> resolved_path \<Rightarrow> resolved_path \<Rightarrow> bool \<Rightarrow> 'w fs \<Rightarrow> (error \<times> 'w fs) option" where
  "rename_resolved fx old_name new_name old_resolved new_resolved source_is_directory s =
     (let spelling_changed = (old_name \<noteq> new_name);
          destination_is_source = paths_equal old_name new_name
      in case rename_precheck s old_name new_name source_is_directory of
           Some e \<Rightarrow> Some (Some e, s)
         | None \<Rightarrow>
             if \<not> spelling_changed then Some (None, s)
             else
               (case examine_destination fx new_name destination_is_source source_is_directory s of
                  (Inl e, s1) \<Rightarrow> Some (Some e, s1)
                | (Inr (destination_exists, destination_is_directory), s1) \<Rightarrow>
                    rename_commit fx (media_of old_resolved) old_name new_name source_is_directory
                      destination_is_source destination_exists destination_is_directory s1))"

definition rename_body :: "'w filex \<Rightarrow> string option \<Rightarrow> string option \<Rightarrow> 'w fs \<Rightarrow> (error \<times> 'w fs) option" where
  "rename_body fx old_path new_path s =
     (case resolve_input s old_path of
        Inl e \<Rightarrow> Some (Some e, s)
      | Inr (old_name, old_resolved) \<Rightarrow>
          (case resolve_input s new_path of
             Inl e \<Rightarrow> Some (Some e, s)
           | Inr (new_name, new_resolved) \<Rightarrow>
               (case information_unlocked fx (Some old_name) s of
                  (Inl e, s1) \<Rightarrow> Some (Some e, s1)
                | (Inr info, s1) \<Rightarrow>
                    if virtual_root old_resolved \<or> mount_root old_resolved \<or>
                       virtual_root new_resolved \<or> mount_root new_resolved
                    then Some (Some EBUSY, s1)
                    else if media old_resolved \<noteq> media new_resolved then Some (Some EXDEV, s1)
                    else rename_resolved fx old_name new_name old_resolved new_resolved (is_directory info) s1)))"

definition rename_call :: "'w filex \<Rightarrow> string option \<Rightarrow> string option \<Rightarrow> 'w fs \<Rightarrow> (int \<times> 'w fs) option" where
  "rename_call fx old_path new_path =
     guarded_call fx (- 1) (\<lambda>s. map_option finish (rename_body fx old_path new_path s))"

section \<open>The registry invariant\<close>

lemma examine_destination_frame:
  "examine_destination fx n b d s = (r, s') \<Longrightarrow> \<exists>w. s' = s\<lparr>world := w\<rparr>"
  by (cases "information_unlocked fx (Some n) s")
    (auto simp: examine_destination_def Let_def dest!: information_frame split: sum.splits if_splits)

text \<open>Moving, restoring and deleting entries touch FileX and the backup counter only.\<close>

definition entries_frame :: "'w fs \<Rightarrow> 'w fs \<Rightarrow> bool" where
  "entries_frame s s' \<longleftrightarrow> descriptors s' = descriptors s \<and> directories s' = directories s \<and>
     current_directory s' = current_directory s \<and> filesystem_initialized s' = filesystem_initialized s \<and>
     flash_mounted s' = flash_mounted s \<and> sd_mounted s' = sd_mounted s \<and> errno_var s' = errno_var s"

lemma entries_frame_trans: "entries_frame s t \<Longrightarrow> entries_frame t u \<Longrightarrow> entries_frame s u"
  by (simp add: entries_frame_def)

lemma entries_frame_refl [simp]: "entries_frame s s" "entries_frame s (s\<lparr>world := w\<rparr>)"
  by (simp_all add: entries_frame_def)

lemma entries_frame_inv: "entries_frame s s' \<Longrightarrow> registry_inv s' = registry_inv s"
  by (simp add: entries_frame_def registry_inv_def)

lemma entries_frames:
  "information_unlocked fx p s = (i, s') \<Longrightarrow> entries_frame s s'"
  "lift_fx s f = (e, s') \<Longrightarrow> entries_frame s s'"
  "rename_entry_unlocked fx d old new s = (e, s') \<Longrightarrow> entries_frame s s'"
  "delete_entry_unlocked fx d old s = (e, s') \<Longrightarrow> entries_frame s s'"
  "require_empty_directory_unlocked fx old s = Some (e, s') \<Longrightarrow> entries_frame s s'"
  "examine_destination fx n b d s = (x, s') \<Longrightarrow> entries_frame s s'"
  "find_rename_backup_unlocked fx v s = (q, s') \<Longrightarrow> entries_frame s s'"
  by (auto simp: entries_frame_def dest: information_frame lift_fx_frame rename_entry_frame
      delete_entry_frame require_empty_frame examine_destination_frame find_rename_backup_frame)

lemma exchange_entries_frame:
  assumes "exchange_entries fx v old new sd replace dd s = (r, s')"
  shows "entries_frame s s'"
  using assms unfolding exchange_entries_def
  by (auto simp: Let_def split: prod.splits sum.splits if_splits
      dest!: entries_frames(3,4,7) intro: entries_frame_trans)

text \<open>The length check before the move is what makes the migrated paths fit their buffers.\<close>

lemma migrate_stored:
  assumes "stored_path p" and "stored_path old" "old \<noteq> ''/''" and "stored_path new" "new \<noteq> ''/''"
    and "migrated_path_length p old new d < MAXIMUM_PATH"
  shows "stored_path (migrate_path p old new d)"
  using assms by (simp add: stored_path_def canonical_migrate_path migrate_path_length)

lemma migrate_descriptor_ok:
  assumes "descriptor_ok d" and "allocated d \<Longrightarrow> stored_path (migrate_path (fd_path d) old new b)"
  shows "descriptor_ok (migrate_descriptor old new b d)"
  using assms
  by (auto simp: migrate_descriptor_def descriptor_ok_def mode_allowed_def split: option.splits open_type.splits)

lemma migrate_stream_ok:
  assumes "stream_ok d" and "ds_allocated d \<Longrightarrow> stored_path (migrate_path (ds_path d) old new True)"
  shows "stream_ok (migrate_stream old new d)"
  using assms by (simp add: migrate_stream_def stream_ok_def)

lemma migrate_paths_inv:
  assumes inv: "registry_inv s" and names: "stored_path old" "old \<noteq> ''/''" "stored_path new" "new \<noteq> ''/''"
    and fits: "\<not> migration_too_long s old new b"
  shows "registry_inv (migrate_paths old new b s)"
proof -
  note m = migrate_stored [OF _ names]
  have d: "descriptor_ok (migrate_descriptor old new b d)" if "d \<in> set (descriptors s)" for d
  proof (rule migrate_descriptor_ok)
    show ok: "descriptor_ok d" using inv that by (simp add: registry_inv_def list_all_iff)
    assume "allocated d"
    with ok fits that show "stored_path (migrate_path (fd_path d) old new b)"
      by (intro m) (auto simp: descriptor_ok_def migration_too_long_def descriptor_paths_def list_ex_iff not_le)
  qed
  have t: "stream_ok (migrate_stream old new d)" if "d \<in> set (directories s)" "b" for d
  proof (rule migrate_stream_ok)
    show ok: "stream_ok d" using inv that by (simp add: registry_inv_def list_all_iff)
    assume "ds_allocated d"
    with ok fits that show "stored_path (migrate_path (ds_path d) old new True)"
      by (intro m) (auto simp: stream_ok_def migration_too_long_def list_ex_iff not_le)
  qed
  have "stored_path (migrate_path (current_directory s) old new True)" if b
    using inv fits that by (intro m) (simp_all add: registry_inv_def migration_too_long_def not_le)
  with d t inv show ?thesis
    by (auto simp: registry_inv_def migrate_paths_def Let_def list_all_iff)
qed

lemma migration_frame:
  "entries_frame s s' \<Longrightarrow> migration_too_long s' old new b = migration_too_long s old new b"
  by (simp add: entries_frame_def migration_too_long_def descriptor_paths_def)

lemma rename_commit_inv:
  assumes "registry_inv s" and names: "stored_path old" "old \<noteq> ''/''" "stored_path new" "new \<noteq> ''/''"
    and "\<not> migration_too_long s old new sd"
    and r: "rename_commit fx v old new sd same de dd s = Some (e, s')"
  shows "registry_inv s'"
proof -
  have ok: "registry_inv t" "registry_inv (migrate_paths old new sd t)" if "entries_frame s t" for t
    using that assms(1,6) by (simp_all add: migrate_paths_inv names entries_frame_inv migration_frame)
  from r show ?thesis
    unfolding rename_commit_def
    by (auto simp: Let_def split: option.splits prod.splits if_splits
        dest!: entries_frames(2,5) exchange_entries_frame intro: entries_frame_trans intro!: ok)
qed

lemma rename_body_inv:
  assumes inv: "registry_inv s" and r: "rename_body fx old_path new_path s = Some (e, s')"
  shows "registry_inv s'"
proof -
  have frame: "registry_inv t" if "entries_frame s t" for t
    using that inv by (simp add: entries_frame_inv)
  have commit: "registry_inv s'"
    if "resolve_input s old_path = Inr (old, ro)" "\<not> virtual_root ro"
      "resolve_input s new_path = Inr (new, rn)" "\<not> virtual_root rn"
      "rename_precheck t old new sd = None" "entries_frame s t" "entries_frame t u"
      "rename_commit fx v old new sd same de dd u = Some (e, s')"
    for old ro new rn t sd u v same de dd
  proof (rule rename_commit_inv [OF _ _ _ _ _ _ that(8)])
    from that(5) have "\<not> migration_too_long t old new sd"
      by (auto simp: rename_precheck_def split: if_splits)
    then show "\<not> migration_too_long u old new sd"
      using that(7) by (simp add: migration_frame)
    show "registry_inv u" using frame entries_frame_trans that(6,7) by blast
    show "stored_path old" "stored_path new" using resolve_input_stored [OF inv] that by blast+
    show "old \<noteq> ''/''" "new \<noteq> ''/''" using resolve_input_root that by blast+
  qed
  from r show ?thesis
    unfolding rename_body_def rename_resolved_def
    by (auto simp: Let_def split: sum.splits prod.splits if_splits option.splits
        dest!: entries_frames(1,6) intro: entries_frame_trans commit frame inv)
qed

lemma rename_call_keeps [inv_rules]: "keeps registry_inv (rename_call fx old_path new_path)"
  unfolding rename_call_def
proof (rule reg.guarded_call_keeps, rule keepsI)
  fix s r s'
  assume s: "registry_inv s" and "map_option finish (rename_body fx old_path new_path s) = Some (r, s')"
  then obtain e s1 where "rename_body fx old_path new_path s = Some (e, s1)" and f: "finish (e, s1) = (r, s')"
    by auto
  from reg.finish_keeps [of "(e, s1)"] rename_body_inv [OF s this(1)] f show "registry_inv s'" by simp
qed

end
