(* ===== verification/Directory_Streams.thy ===== *)
theory Directory_Streams
  imports Rename
begin

text \<open>
  The \<open>DIR\<close> interface of \<open>platform/runtime/libc/filesystem.cpp\<close>: \<open>opendir\<close> takes a
  snapshot of the entries, the other calls walk through it. A \<open>DIR*\<close> is the index of a
  slot, a null pointer \<open>None\<close>. \<open>alloc_ok n\<close> says whether the vector can grow beyond \<open>n\<close>
  entries; the source turns the exception into \<open>ENOMEM\<close>.
\<close>

definition reset_stream :: "nat \<Rightarrow> 'w fs \<Rightarrow> 'w fs" where
  "reset_stream i s = s\<lparr>directories := (directories s)[i := empty_stream]\<rparr>"

definition mount_entries :: "'w fs \<Rightarrow> (string \<times> dirent_type) list" where
  "mount_entries s = (if mounted s Flash then [(''flash'', DT_DIR)] else []) @
                     (if mounted s Sd then [(''sd'', DT_DIR)] else [])"

text \<open>The scan loop: \<open>Inl\<close> is the exception of \<open>push_back\<close>, \<open>Inr\<close> the final status.\<close>

partial_function (option) scan_entries ::
    "'w filex \<Rightarrow> (nat \<Rightarrow> bool) \<Rightarrow> volume \<Rightarrow> fx_status \<times> (string \<times> u32) \<times> 'w \<Rightarrow>
     (string \<times> dirent_type) list \<Rightarrow>
     ((unit + (fx_status \<times> (string \<times> dirent_type) list)) \<times> 'w) option" where
  "scan_entries fx alloc_ok v r acc =
     (case r of
        (status, (name, attrs), w) \<Rightarrow>
          if status \<noteq> FX_SUCCESS then Some (Inr (status, acc), w)
          else if dot_entry name
          then scan_entries fx alloc_ok v (fx_directory_next_full_entry_find fx w v) acc
          else if \<not> alloc_ok (length acc) then Some (Inl (), w)
          else scan_entries fx alloc_ok v (fx_directory_next_full_entry_find fx w v)
                 (acc @ [(name, if attrs AND FX_DIRECTORY \<noteq> 0 then DT_DIR else DT_REG)]))"

declare scan_entries.simps [code]

definition claim_stream :: "string \<Rightarrow> (string \<times> dirent_type) list \<Rightarrow> directory_stream" where
  "claim_stream normalized entries =
     \<lparr>ds_allocated = True, ds_position = 0, ds_path = normalized, ds_entries = entries, ds_entry = None\<rparr>"

definition fill_stream ::
    "'w filex \<Rightarrow> (nat \<Rightarrow> bool) \<Rightarrow> nat \<Rightarrow> string \<Rightarrow> resolved_path \<Rightarrow> 'w fs \<Rightarrow> (nat option \<times> 'w fs) option" where
  "fill_stream fx alloc_ok slot normalized r s =
     (let v = media_of r;
          (status, w1) = fx_directory_default_set fx (world s) v (local r);
          s1 = s\<lparr>world := w1\<rparr>
      in if status \<noteq> FX_SUCCESS then Some (None, set_errno EIO (reset_stream slot s1))
         else
           (case scan_entries fx alloc_ok v (fx_directory_first_full_entry_find fx w1 v) [] of
              None \<Rightarrow> None
            | Some (result, w2) \<Rightarrow>
                let s2 = s1\<lparr>world := snd (fx_directory_default_set fx w2 v ''/'')\<rparr>
                in case result of
                     Inl _ \<Rightarrow> Some (None, set_errno ENOMEM (reset_stream slot s2))
                   | Inr (final, entries) \<Rightarrow>
                       if final \<noteq> FX_NO_MORE_ENTRIES
                       then Some (None, assign_errno (filex_errno final) (reset_stream slot s2))
                       else Some (Some slot, s2\<lparr>directories := (directories s2)[slot := claim_stream normalized entries]\<rparr>)))"

definition opendir_body ::
    "'w filex \<Rightarrow> (nat \<Rightarrow> bool) \<Rightarrow> string option \<Rightarrow> 'w fs \<Rightarrow> (nat option \<times> 'w fs) option" where
  "opendir_body fx alloc_ok path s =
     (case resolve_input s path of
        Inl e \<Rightarrow> Some (None, set_errno e s)
      | Inr (normalized, r) \<Rightarrow>
          (case information_unlocked fx (Some normalized) s of
             (Inl e, s1) \<Rightarrow> Some (None, set_errno e s1)
           | (Inr info, s1) \<Rightarrow>
               if \<not> is_directory info then Some (None, set_errno ENOTDIR s1)
               else
                 (case find_index (\<lambda>d. \<not> ds_allocated d) (directories s1) of
                    None \<Rightarrow> Some (None, set_errno EMFILE s1)
                  | Some slot \<Rightarrow>
                      let s2 = s1\<lparr>directories := (directories s1)[slot := claim_stream normalized []]\<rparr>
                      in if virtual_root r then
                           (if list_all alloc_ok [0..<length (mount_entries s2)]
                            then Some (Some slot,
                              s2\<lparr>directories := (directories s2)[slot := claim_stream normalized (mount_entries s2)]\<rparr>)
                            else Some (None, set_errno ENOMEM (reset_stream slot s2)))
                         else fill_stream fx alloc_ok slot normalized r s2)))"

definition opendir_call ::
    "'w filex \<Rightarrow> (nat \<Rightarrow> bool) \<Rightarrow> string option \<Rightarrow> 'w fs \<Rightarrow> (nat option \<times> 'w fs) option" where
  "opendir_call fx alloc_ok path = guarded_call fx None (opendir_body fx alloc_ok path)"

section \<open>Calls on an open stream\<close>

text \<open>
  The frame of the remaining calls: \<open>usable\<close>, the null pointer, an extra argument check,
  the guard, then the slot must be in use. The extra check sits before the guard.
\<close>

definition stream_call ::
    "'w filex \<Rightarrow> 'a \<Rightarrow> bool \<Rightarrow> nat option \<Rightarrow> (nat \<Rightarrow> 'w fs \<Rightarrow> 'a \<times> 'w fs) \<Rightarrow> 'w fs \<Rightarrow> ('a \<times> 'w fs) option" where
  "stream_call fx bad bad_argument directory body s =
     (let (ok, s1) = usable fx s
      in if \<not> ok then Some (bad, s1)
         else case directory of
           None \<Rightarrow> Some (bad, set_errno EBADF s1)
         | Some i \<Rightarrow>
             if bad_argument then Some (bad, set_errno EINVAL s1)
             else with_registry fx (fail_with bad)
               (\<lambda>s. if \<not> ds_allocated (directories s ! i) then Some (bad, set_errno EBADF s)
                    else Some (body i s)) s1)"

definition readdir_body :: "nat \<Rightarrow> 'w fs \<Rightarrow> dirent option \<times> 'w fs" where
  "readdir_body i s =
     (let d = directories s ! i
      in if ds_position d < 0 then (None, set_errno EBADF s)
         else if ds_position d \<ge> int (length (ds_entries d)) then (None, s)
         else
           let (name, type) = ds_entries d ! nat (ds_position d);
               entry = \<lparr>d_ino = word_of_int (ds_position d + 1), d_type = type, d_name = name\<rparr>
           in (Some entry, s\<lparr>directories := (directories s)[i := d\<lparr>ds_entry := Some entry,
                 ds_position := ds_position d + 1\<rparr>]\<rparr>))"

definition readdir_call :: "'w filex \<Rightarrow> nat option \<Rightarrow> 'w fs \<Rightarrow> (dirent option \<times> 'w fs) option" where
  "readdir_call fx directory = stream_call fx None False directory readdir_body"

definition closedir_call :: "'w filex \<Rightarrow> nat option \<Rightarrow> 'w fs \<Rightarrow> (int \<times> 'w fs) option" where
  "closedir_call fx directory = stream_call fx (- 1) False directory (\<lambda>i s. (0, reset_stream i s))"

definition set_stream_position :: "nat \<Rightarrow> int \<Rightarrow> 'w fs \<Rightarrow> 'w fs" where
  "set_stream_position i p s = s\<lparr>directories := (directories s)[i := (directories s ! i)\<lparr>ds_position := p\<rparr>]\<rparr>"

definition rewinddir_call :: "'w filex \<Rightarrow> nat option \<Rightarrow> 'w fs \<Rightarrow> (unit \<times> 'w fs) option" where
  "rewinddir_call fx directory = stream_call fx () False directory (\<lambda>i s. ((), set_stream_position i 0 s))"

definition telldir_call :: "'w filex \<Rightarrow> nat option \<Rightarrow> 'w fs \<Rightarrow> (int \<times> 'w fs) option" where
  "telldir_call fx directory = stream_call fx (- 1) False directory (\<lambda>i s. (ds_position (directories s ! i), s))"

definition seekdir_call :: "'w filex \<Rightarrow> nat option \<Rightarrow> int \<Rightarrow> 'w fs \<Rightarrow> (unit \<times> 'w fs) option" where
  "seekdir_call fx directory p =
     stream_call fx () (p < 0) directory (\<lambda>i s. ((), set_stream_position i p s))"

section \<open>The registry invariant\<close>

lemma registry_inv_stream:
  "registry_inv s \<Longrightarrow> stream_ok d \<Longrightarrow> registry_inv (s\<lparr>directories := (directories s)[i := d]\<rparr>)"
  "registry_inv s \<Longrightarrow> stream_ok d \<Longrightarrow> registry_inv (s\<lparr>world := w, directories := (directories s)[i := d]\<rparr>)"
  by (simp_all add: registry_inv_def list_all_update)

lemma claim_stream_ok: "stored_path p \<Longrightarrow> stream_ok (claim_stream p entries)"
  by (simp add: stream_ok_def claim_stream_def)

lemma reset_stream_inv [simp]: "registry_inv s \<Longrightarrow> registry_inv (reset_stream i s)"
  by (simp add: reset_stream_def registry_inv_stream)

lemma fill_stream_inv:
  "registry_inv s \<Longrightarrow> stored_path p \<Longrightarrow> fill_stream fx alloc_ok slot p r s = Some (x, s') \<Longrightarrow> registry_inv s'"
  unfolding fill_stream_def
  by (auto simp: Let_def split: prod.splits if_splits option.splits sum.splits
      intro!: registry_inv_stream claim_stream_ok)

lemma opendir_body_inv:
  assumes inv: "registry_inv s" and r: "opendir_body fx alloc_ok path s = Some (x, s')"
  shows "registry_inv s'"
proof (cases "resolve_input s path")
  case (Inl e)
  with r inv show ?thesis by (auto simp: opendir_body_def)
next
  case (Inr pr)
  obtain n rp where pr: "pr = (n, rp)" by (cases pr)
  have n: "stored_path n"
    using resolve_input_stored [OF inv] Inr pr by simp
  obtain ir s1 where i: "information_unlocked fx (Some n) s = (ir, s1)"
    by fastforce
  note s1 = information_inv [OF inv i, THEN conjunct1]
  have c: "registry_inv (t\<lparr>directories := (directories t)[k := claim_stream n es]\<rparr>)"
    if "registry_inv t" for t :: "'a fs" and k es
    using that by (intro registry_inv_stream claim_stream_ok n)
  from r Inr pr i s1 show ?thesis
    unfolding opendir_body_def
    by (auto simp: Let_def split: sum.splits if_splits option.splits
        intro: c fill_stream_inv [OF _ n] reset_stream_inv [OF c])
qed

lemma opendir_call_keeps [inv_rules]: "keeps registry_inv (opendir_call fx alloc_ok path)"
  unfolding opendir_call_def
  by (intro reg.guarded_call_keeps keepsI) (rule opendir_body_inv)

lemma stream_call_keeps:
  assumes "\<And>i s. registry_inv s \<Longrightarrow> ds_allocated (directories s ! i) \<Longrightarrow> registry_inv (snd (body i s))"
  shows "keeps registry_inv (stream_call fx bad ba directory body)"
proof
  fix s r s'
  assume s: "registry_inv s" and r: "stream_call fx bad ba directory body s = Some (r, s')"
  have "keeps registry_inv (with_registry fx (fail_with bad)
      (\<lambda>s. if \<not> ds_allocated (directories s ! i) then Some (bad, set_errno EBADF s) else Some (body i s)))" for i
    by (rule reg.with_registry_keeps) (auto simp: fail_with_def keeps_def dest: assms split: if_splits)
  with reg.usable_keeps [OF s, of fx] r show "registry_inv s'"
    by (auto simp: stream_call_def split: prod.splits if_splits option.splits dest: keepsD)
qed

lemma stream_position_ok:
  assumes "registry_inv s" and "ds_allocated (directories s ! i)" and "0 \<le> p"
  shows "registry_inv (s\<lparr>directories := (directories s)[i := (directories s ! i)\<lparr>ds_entry := e, ds_position := p\<rparr>]\<rparr>)"
proof (cases "i < length (directories s)")
  case True
  with assms(1) have "stream_ok (directories s ! i)" by (simp add: registry_inv_def list_all_length)
  with assms show ?thesis
    by (intro registry_inv_stream) (simp_all add: stream_ok_def)
next
  case False
  with assms(1) show ?thesis by simp
qed

lemma set_stream_position_inv:
  "registry_inv s \<Longrightarrow> ds_allocated (directories s ! i) \<Longrightarrow> 0 \<le> p \<Longrightarrow> registry_inv (set_stream_position i p s)"
  using stream_position_ok [of s i p "ds_entry (directories s ! i)"] by (simp add: set_stream_position_def)

lemma readdir_body_inv:
  "registry_inv s \<Longrightarrow> ds_allocated (directories s ! i) \<Longrightarrow> registry_inv (snd (readdir_body i s))"
  by (auto simp: readdir_body_def Let_def stream_position_ok split: prod.splits)

lemma stream_calls_keep [inv_rules]:
  "keeps registry_inv (readdir_call fx directory)"
  "keeps registry_inv (closedir_call fx directory)"
  "keeps registry_inv (rewinddir_call fx directory)"
  "keeps registry_inv (telldir_call fx directory)"
  unfolding readdir_call_def closedir_call_def rewinddir_call_def telldir_call_def
  by (rule stream_call_keeps; simp add: readdir_body_inv set_stream_position_inv)+

lemma seekdir_call_keeps [inv_rules]: "keeps registry_inv (seekdir_call fx directory p)"
proof (cases "p < 0")
  case True
  then show ?thesis
    by (auto simp: seekdir_call_def keeps_def stream_call_def
        split: prod.splits option.splits if_splits dest: reg.usable_keeps [of _ fx])
next
  case False
  then show ?thesis
    unfolding seekdir_call_def by (intro stream_call_keeps) (simp add: set_stream_position_inv)
qed

end
