(* ===== verification/Storage.thy ===== *)
theory Storage
  imports FileX_Interface
begin

unbundle bit_operations_syntax

text \<open>
  The two volumes under FileX (\<open>platform/runtime/libc/storage_media.cpp\<close>, STM32 build): the
  W25Q128 flash behind QSPI and LevelX, the SD card behind SDMMC, the FileX drivers of both,
  and their initialisation with its fallback to a one-bit SD bus. The vendor's HAL, LevelX
  and FileX are the fields of a record \<open>'w board\<close>. LevelX and the FileX media services call
  the drivers back, so their fields take the driver and act on the whole storage state. A
  result \<open>None\<close> means that the wait for the SD card never ends.
\<close>

section \<open>State\<close>

definition sector_size :: nat where
  "sector_size = 512"

definition flash_bytes :: u32 where
  "flash_bytes = 16 * 1024 * 1024"

definition erase_block_bytes :: u32 where
  "erase_block_bytes = 4 * 1024"

definition flash_blocks :: u32 where
  "flash_blocks = flash_bytes div erase_block_bytes"

definition flash_filex_sectors :: u32 where
  "flash_filex_sectors = 24 * 1024"

definition levelx_base_address :: u32 where
  "levelx_base_address = 0x90000000"

record diagnostics =
  flash_jedec_id :: u32
  dg_flash_blocks :: u32
  flash_logical_sectors :: u32
  sd_blocks :: u32
  qspi_error :: u32
  sd_error :: u32
  sd_fallback_error :: u32
  levelx_status :: u32
  flash_filex_status :: fx_status
  sd_filex_status :: fx_status
  dg_flash_mounted :: bool
  dg_sd_mounted :: bool
  flash_was_formatted :: bool
  sd_detect_level :: bool
  sd_bus_width :: u8
  sd_fallback_used :: bool

definition empty_diagnostics :: diagnostics where
  "empty_diagnostics = \<lparr>flash_jedec_id = 0, dg_flash_blocks = 0, flash_logical_sectors = 0, sd_blocks = 0,
     qspi_error = 0, sd_error = 0, sd_fallback_error = 0, levelx_status = 0, flash_filex_status = FX_SUCCESS,
     sd_filex_status = FX_SUCCESS, dg_flash_mounted = False, dg_sd_mounted = False, flash_was_formatted = False,
     sd_detect_level = False, sd_bus_width = 0, sd_fallback_used = False\<rparr>"

record 'w storage =
  hw :: 'w
  nor_open :: bool
  st_flash_mounted :: bool
  st_sd_mounted :: bool
  diag :: diagnostics

definition diagnose :: "(diagnostics \<Rightarrow> diagnostics) \<Rightarrow> 'w storage \<Rightarrow> 'w storage" where
  "diagnose f s = s\<lparr>diag := f (diag s)\<rparr>"

section \<open>The board\<close>

datatype lines = NO_LINES | ONE_LINE | FOUR_LINES

record qspi_request =
  instruction :: u32
  address :: u32
  address_mode :: lines
  data_mode :: lines
  count :: u32
  dummy_cycles :: u32

datatype bus_width = SDMMC_BUS_WIDE_1B | SDMMC_BUS_WIDE_4B

datatype driver_request =
    FX_DRIVER_INIT | FX_DRIVER_UNINIT | FX_DRIVER_FLUSH | FX_DRIVER_ABORT | FX_DRIVER_READ | FX_DRIVER_WRITE
  | FX_DRIVER_BOOT_READ | FX_DRIVER_BOOT_WRITE | FX_DRIVER_RELEASE_SECTORS | FX_DRIVER_OTHER

record media_request =
  request :: driver_request
  logical_sector :: u32
  hidden_sectors :: u32
  sectors :: u32
  buffer :: "u8 list"

text \<open>A driver answers with its status and the buffer, or never.\<close>

type_synonym 'w media_driver =
  "media_request \<Rightarrow> 'w storage \<Rightarrow> ((fx_status \<times> u8 list) \<times> 'w storage) option"

record 'w nor_driver =
  driver_read :: "u32 \<Rightarrow> u32 \<Rightarrow> 'w storage \<Rightarrow> (bool \<times> u8 list) \<times> 'w storage"
  driver_write :: "u32 \<Rightarrow> u8 list \<Rightarrow> 'w storage \<Rightarrow> bool \<times> 'w storage"
  driver_erase :: "u32 \<Rightarrow> 'w storage \<Rightarrow> bool \<times> 'w storage"
  driver_verify :: "u32 \<Rightarrow> 'w storage \<Rightarrow> bool \<times> 'w storage"
  driver_error :: "u32 \<Rightarrow> 'w storage \<Rightarrow> bool \<times> 'w storage"

text \<open>HAL statuses are numbers with 0 for \<open>HAL_OK\<close>, LevelX statuses numbers with 0 for \<open>LX_SUCCESS\<close>.\<close>

record 'w board =
  HAL_QSPI_Command :: "qspi_request \<Rightarrow> 'w \<Rightarrow> u32 \<times> 'w"
  HAL_QSPI_Receive :: "u32 \<Rightarrow> 'w \<Rightarrow> (u32 \<times> u8 list) \<times> 'w"
  HAL_QSPI_Transmit :: "u8 list \<Rightarrow> 'w \<Rightarrow> u32 \<times> 'w"
  HAL_QSPI_AutoPolling :: "'w \<Rightarrow> u32 \<times> 'w"
  hqspi_ErrorCode :: "'w \<Rightarrow> u32"
  MX_QUADSPI_Init :: "'w \<Rightarrow> 'w"
  HAL_Delay :: "u32 \<Rightarrow> 'w \<Rightarrow> 'w"
  hsd1_reset :: "'w \<Rightarrow> 'w"
  HAL_SD_Init :: "bus_width \<Rightarrow> 'w \<Rightarrow> u32 \<times> 'w"
  HAL_SD_GetCardInfo :: "'w \<Rightarrow> (u32 \<times> u32) \<times> 'w"
  HAL_SD_DeInit :: "'w \<Rightarrow> 'w"
  hsd1_ErrorCode :: "'w \<Rightarrow> u32"
  hsd1_LogBlockNbr :: "'w \<Rightarrow> u32"
  HAL_SD_ReadBlocks :: "u32 \<Rightarrow> 'w \<Rightarrow> (u32 \<times> u8 list) \<times> 'w"
  HAL_SD_WriteBlocks :: "u32 \<Rightarrow> u8 list \<Rightarrow> 'w \<Rightarrow> u32 \<times> 'w"
  HAL_SD_card_ready :: "'w \<Rightarrow> bool \<times> 'w"
  HAL_GetTick :: "'w \<Rightarrow> u32 \<times> 'w"
  tx_thread_sleep :: "u32 \<Rightarrow> 'w \<Rightarrow> 'w"
  SD_CARD_DETECT :: "'w \<Rightarrow> bool"
  partition_offset_calculate :: "u8 list \<Rightarrow> fx_status \<times> u32"
  lx_nor_flash_initialize :: "'w storage \<Rightarrow> 'w storage"
  lx_nor_flash_open :: "'w nor_driver \<Rightarrow> 'w storage \<Rightarrow> u32 \<times> 'w storage"
  lx_nor_flash_extended_cache_enable :: "'w storage \<Rightarrow> u32 \<times> 'w storage"
  lx_nor_flash_close :: "'w storage \<Rightarrow> u32 \<times> 'w storage"
  lx_nor_flash_sector_read :: "u32 \<Rightarrow> 'w storage \<Rightarrow> (u32 \<times> u8 list) \<times> 'w storage"
  lx_nor_flash_sector_write :: "u32 \<Rightarrow> u8 list \<Rightarrow> 'w storage \<Rightarrow> u32 \<times> 'w storage"
  lx_nor_flash_sector_release :: "u32 \<Rightarrow> 'w storage \<Rightarrow> u32 \<times> 'w storage"
  lx_mapped_physical_sectors :: "'w storage \<Rightarrow> u32"
  LX_SECTOR_NOT_FOUND :: u32
  fx_media_format :: "'w media_driver \<Rightarrow> u32 \<Rightarrow> 'w storage \<Rightarrow> (fx_status \<times> 'w storage) option"
  fx_media_open :: "volume \<Rightarrow> 'w media_driver \<Rightarrow> 'w storage \<Rightarrow> (fx_status \<times> 'w storage) option"

section \<open>QSPI flash\<close>

definition byte_offset :: "u32 \<Rightarrow> u32" where
  "byte_offset flash_address = flash_address - levelx_base_address"

definition note_qspi_error :: "'w board \<Rightarrow> u32 \<Rightarrow> 'w storage \<Rightarrow> 'w storage" where
  "note_qspi_error b status s =
     diagnose (qspi_error_update (\<lambda>_. if hqspi_ErrorCode b (hw s) \<noteq> 0 then hqspi_ErrorCode b (hw s) else status)) s"

definition checked :: "'w board \<Rightarrow> u32 \<times> 'w \<Rightarrow> 'w storage \<Rightarrow> bool \<times> 'w storage" where
  "checked b r s =
     (let (status, w) = r; s1 = s\<lparr>hw := w\<rparr>
      in if status \<noteq> 0 then (False, note_qspi_error b status s1) else (True, s1))"

definition qspi_command ::
    "'w board \<Rightarrow> u32 \<Rightarrow> u32 \<Rightarrow> lines \<Rightarrow> lines \<Rightarrow> u32 \<Rightarrow> u32 \<Rightarrow> 'w storage \<Rightarrow> bool \<times> 'w storage" where
  "qspi_command b instr addr am dm n dummy s =
     checked b (HAL_QSPI_Command b \<lparr>instruction = instr, address = addr, address_mode = am, data_mode = dm,
       count = n, dummy_cycles = dummy\<rparr> (hw s)) s"

definition qspi_simple :: "'w board \<Rightarrow> u32 \<Rightarrow> 'w storage \<Rightarrow> bool \<times> 'w storage" where
  "qspi_simple b instr s = qspi_command b instr 0 NO_LINES NO_LINES 0 0 s"

definition qspi_receive :: "'w board \<Rightarrow> u32 \<Rightarrow> 'w storage \<Rightarrow> (bool \<times> u8 list) \<times> 'w storage" where
  "qspi_receive b n s =
     (let ((status, data), w) = HAL_QSPI_Receive b n (hw s); (ok, s1) = checked b (status, w) s
      in ((ok, data), s1))"

definition qspi_read_register :: "'w board \<Rightarrow> u32 \<Rightarrow> 'w storage \<Rightarrow> u8 option \<times> 'w storage" where
  "qspi_read_register b instr s =
     (let (ok, s1) = qspi_command b instr 0 NO_LINES ONE_LINE 1 0 s
      in if \<not> ok then (None, s1)
         else let ((ok, data), s2) = qspi_receive b 1 s1 in (if ok then Some (case data of [] \<Rightarrow> 0 | x # _ \<Rightarrow> x) else None, s2))"

definition qspi_wait_ready :: "'w board \<Rightarrow> 'w storage \<Rightarrow> bool \<times> 'w storage" where
  "qspi_wait_ready b s = checked b (HAL_QSPI_AutoPolling b (hw s)) s"

definition qspi_write_enable :: "'w board \<Rightarrow> 'w storage \<Rightarrow> bool \<times> 'w storage" where
  "qspi_write_enable b s = qspi_simple b 0x06 s"

definition qspi_read :: "'w board \<Rightarrow> u32 \<Rightarrow> u32 \<Rightarrow> 'w storage \<Rightarrow> (bool \<times> u8 list) \<times> 'w storage" where
  "qspi_read b offset bytes s =
     (if offset > flash_bytes \<or> bytes > flash_bytes - offset \<or> bytes = 0 then ((bytes = 0, []), s)
      else
        let (ok, s1) = qspi_command b 0x0B offset ONE_LINE ONE_LINE bytes 8 s
        in if \<not> ok then ((False, []), s1) else qspi_receive b bytes s1)"

text \<open>One page program: write enable, the command, the data, the wait.\<close>

definition program_page :: "'w board \<Rightarrow> u32 \<Rightarrow> u8 list \<Rightarrow> 'w storage \<Rightarrow> bool \<times> 'w storage" where
  "program_page b offset chunk s =
     (let (ok, s1) = qspi_write_enable b s
      in if \<not> ok then (False, s1)
         else
           let (ok, s2) = qspi_command b 0x32 offset ONE_LINE FOUR_LINES (of_nat (length chunk)) 0 s1
           in if \<not> ok then (False, s2)
              else
                let (ok, s3) = checked b (HAL_QSPI_Transmit b chunk (hw s2)) s2
                in if \<not> ok then (False, s3) else qspi_wait_ready b s3)"

definition page_bytes :: "u32 \<Rightarrow> u8 list \<Rightarrow> nat" where
  "page_bytes offset input = min (length input) (256 - unat (offset AND 0xFF))"

lemma page_bytes_positive: "input \<noteq> [] \<Longrightarrow> 0 < page_bytes offset input"
proof -
  have "offset AND 0xFF \<le> 0xFF" by (rule word_and_le1)
  then have "unat (offset AND 0xFF) \<le> 255" by (simp add: word_le_nat_alt)
  then show "input \<noteq> [] \<Longrightarrow> ?thesis" by (simp add: page_bytes_def)
qed

function program_pages :: "'w board \<Rightarrow> u32 \<Rightarrow> u8 list \<Rightarrow> 'w storage \<Rightarrow> bool \<times> 'w storage" where
  "program_pages b offset input s =
     (if input = [] then (True, s)
      else
        let n = page_bytes offset input;
            (ok, s1) = program_page b offset (take n input) s
        in if \<not> ok then (False, s1) else program_pages b (offset + of_nat n) (drop n input) s1)"
  by pat_completeness auto

termination program_pages
  by (relation "measure (\<lambda>(b, offset, input, s). length input)") (auto simp: page_bytes_positive)

declare program_pages.simps [simp del]

definition qspi_write :: "'w board \<Rightarrow> u32 \<Rightarrow> u8 list \<Rightarrow> 'w storage \<Rightarrow> bool \<times> 'w storage" where
  "qspi_write b offset source s =
     (if offset > flash_bytes \<or> of_nat (length source) > flash_bytes - offset then (False, s)
      else program_pages b offset source s)"

definition qspi_erase :: "'w board \<Rightarrow> u32 \<Rightarrow> 'w storage \<Rightarrow> bool \<times> 'w storage" where
  "qspi_erase b offset s =
     (if \<not> (offset < flash_bytes \<and> offset mod erase_block_bytes = 0) then (False, s)
      else
        let (ok, s1) = qspi_write_enable b s
        in if \<not> ok then (False, s1)
           else
             let (ok, s2) = qspi_command b 0x20 offset ONE_LINE NO_LINES 0 0 s1
             in if \<not> ok then (False, s2) else qspi_wait_ready b s2)"

definition jedec_id :: "u8 list \<Rightarrow> u32" where
  "jedec_id i = push_bit 16 (ucast (i ! 0)) OR push_bit 8 (ucast (i ! 1)) OR ucast (i ! 2)"

definition enable_quad :: "'w board \<Rightarrow> u8 \<Rightarrow> u8 \<Rightarrow> 'w storage \<Rightarrow> bool \<times> 'w storage" where
  "enable_quad b status_1 status_2 s =
     (let fail = (\<lambda>s. (False, diagnose (qspi_error_update (\<lambda>_. hqspi_ErrorCode b (hw s))) s));
          (ok, s1) = qspi_write_enable b s
      in if \<not> ok then fail s1
         else
           let (ok, s2) = qspi_command b 0x01 0 NO_LINES ONE_LINE 2 0 s1
           in if \<not> ok then fail s2
              else
                let (status, w) = HAL_QSPI_Transmit b [status_1, status_2 OR 0x02] (hw s2); s3 = s2\<lparr>hw := w\<rparr>
                in if status \<noteq> 0 then fail s3
                   else
                     let (ok, s4) = qspi_wait_ready b s3
                     in if \<not> ok then fail s4
                        else (case qspi_read_register b 0x35 s4 of
                                (None, s5) \<Rightarrow> fail s5
                              | (Some v, s5) \<Rightarrow> if v AND 0x02 = 0 then fail s5 else (True, s5)))"

definition check_quad :: "'w board \<Rightarrow> 'w storage \<Rightarrow> bool \<times> 'w storage" where
  "check_quad b s =
     (case qspi_read_register b 0x05 s of
        (None, s1) \<Rightarrow> (False, s1)
      | (Some status_1, s1) \<Rightarrow>
          (case qspi_read_register b 0x35 s1 of
             (None, s2) \<Rightarrow> (False, s2)
           | (Some status_2, s2) \<Rightarrow>
               if status_2 AND 0x02 = 0 then enable_quad b status_1 status_2 s2 else (True, s2)))"

definition initialize_qspi :: "'w board \<Rightarrow> 'w storage \<Rightarrow> bool \<times> 'w storage" where
  "initialize_qspi b s =
     (let (ok, s1) = qspi_simple b 0x66 (s\<lparr>hw := MX_QUADSPI_Init b (hw s)\<rparr>)
      in if \<not> ok then (False, s1)
         else
           let (ok, s2) = qspi_simple b 0x99 s1
           in if \<not> ok then (False, s2)
              else
                let fail = (\<lambda>s. (False, diagnose (qspi_error_update (\<lambda>_. hqspi_ErrorCode b (hw s))) s));
                    (ok, s3) = qspi_command b 0x9F 0 NO_LINES ONE_LINE 3 0 (s2\<lparr>hw := HAL_Delay b 1 (hw s2)\<rparr>)
                in if \<not> ok then fail s3
                   else
                     let ((status, data), w) = HAL_QSPI_Receive b 3 (hw s3);
                         s4 = s3\<lparr>hw := w\<rparr>;
                         ident = take 3 (data @ [0, 0, 0])
                     in if status \<noteq> 0 then fail s4
                        else
                          let s5 = diagnose (flash_jedec_id_update (\<lambda>_. jedec_id ident)) s4
                          in if ident \<noteq> [0xEF, 0x40, 0x18]
                             then (False, diagnose (qspi_error_update (\<lambda>_. 0xBAD00001)) s5)
                             else check_quad b s5)"

section \<open>SD card\<close>

definition initialize_sd_card :: "'w board \<Rightarrow> bus_width \<Rightarrow> u8 \<Rightarrow> 'w storage \<Rightarrow> bool \<times> 'w storage" where
  "initialize_sd_card b width reported s =
     (let s0 = diagnose (sd_bus_width_update (\<lambda>_. 0)) (s\<lparr>hw := hsd1_reset b (hw s)\<rparr>);
          fail = (\<lambda>s. (False, diagnose (sd_error_update (\<lambda>_. hsd1_ErrorCode b (hw s)) \<circ>
                        sd_blocks_update (\<lambda>_. hsd1_LogBlockNbr b (hw s))) s));
          (status, w) = HAL_SD_Init b width (hw s0);
          s1 = s0\<lparr>hw := w\<rparr>
      in if status \<noteq> 0 then fail s1
         else
           let ((status, blocks), w) = HAL_SD_GetCardInfo b (hw s1);
               s2 = s1\<lparr>hw := w\<rparr>
           in if status \<noteq> 0 then fail s2
              else (True, diagnose (sd_error_update (\<lambda>_. 0) \<circ> sd_blocks_update (\<lambda>_. blocks) \<circ>
                     sd_bus_width_update (\<lambda>_. reported)) s2))"

definition prepare_sd_mount_retry :: "'w board \<Rightarrow> 'w storage \<Rightarrow> 'w storage" where
  "prepare_sd_mount_retry b s =
     diagnose (dg_sd_mounted_update (\<lambda>_. False) \<circ> sd_bus_width_update (\<lambda>_. 0))
       (s\<lparr>hw := hsd1_reset b (HAL_SD_DeInit b (hw s)), st_sd_mounted := False\<rparr>)"

partial_function (option) sd_wait_loop :: "'w board \<Rightarrow> u32 \<Rightarrow> 'w storage \<Rightarrow> (bool \<times> 'w storage) option" where
  "sd_wait_loop b started s =
     (let (ready, w) = HAL_SD_card_ready b (hw s);
          s1 = s\<lparr>hw := w\<rparr>
      in if ready then Some (True, s1)
         else
           let (tick, w) = HAL_GetTick b (hw s1);
               s2 = s1\<lparr>hw := w\<rparr>
           in if tick - started \<ge> 5000
              then Some (False, diagnose (sd_error_update (\<lambda>_. hsd1_ErrorCode b (hw s2))) s2)
              else sd_wait_loop b started (s2\<lparr>hw := tx_thread_sleep b 1 (hw s2)\<rparr>))"

declare sd_wait_loop.simps [code]

definition sd_wait_ready :: "'w board \<Rightarrow> 'w storage \<Rightarrow> (bool \<times> 'w storage) option" where
  "sd_wait_ready b s =
     (let (started, w) = HAL_GetTick b (hw s) in sd_wait_loop b started (s\<lparr>hw := w\<rparr>))"

definition note_sd_error :: "'w board \<Rightarrow> 'w storage \<Rightarrow> 'w storage" where
  "note_sd_error b s = diagnose (sd_error_update (\<lambda>_. hsd1_ErrorCode b (hw s))) s"

fun sd_read_from ::
    "'w board \<Rightarrow> u32 \<Rightarrow> nat \<Rightarrow> u8 list \<Rightarrow> 'w storage \<Rightarrow> (u8 list option \<times> 'w storage) option" where
  "sd_read_from b sector 0 got s = Some (Some got, s)"
| "sd_read_from b sector (Suc n) got s =
     (let ((status, data), w) = HAL_SD_ReadBlocks b sector (hw s);
          s1 = s\<lparr>hw := w\<rparr>
      in if status \<noteq> 0 then Some (None, note_sd_error b s1)
         else (case sd_wait_ready b s1 of
                 None \<Rightarrow> None
               | Some (ready, s2) \<Rightarrow>
                   if \<not> ready then Some (None, note_sd_error b s2)
                   else sd_read_from b (sector + 1) n (got @ take sector_size data) s2))"

definition sd_read :: "'w board \<Rightarrow> u32 \<Rightarrow> u32 \<Rightarrow> 'w storage \<Rightarrow> (u8 list option \<times> 'w storage) option" where
  "sd_read b sector n s = sd_read_from b sector (unat n) [] s"

fun sd_write_from :: "'w board \<Rightarrow> u32 \<Rightarrow> nat \<Rightarrow> u8 list \<Rightarrow> 'w storage \<Rightarrow> (bool \<times> 'w storage) option" where
  "sd_write_from b sector 0 input s = Some (True, s)"
| "sd_write_from b sector (Suc n) input s =
     (let (status, w) = HAL_SD_WriteBlocks b sector (take sector_size input) (hw s);
          s1 = s\<lparr>hw := w\<rparr>
      in if status \<noteq> 0 then Some (False, note_sd_error b s1)
         else (case sd_wait_ready b s1 of
                 None \<Rightarrow> None
               | Some (ready, s2) \<Rightarrow>
                   if \<not> ready then Some (False, note_sd_error b s2)
                   else sd_write_from b (sector + 1) n (drop sector_size input) s2))"

definition sd_write :: "'w board \<Rightarrow> u32 \<Rightarrow> u8 list \<Rightarrow> u32 \<Rightarrow> 'w storage \<Rightarrow> (bool \<times> 'w storage) option" where
  "sd_write b sector source n s = sd_write_from b sector (unat n) source s"

section \<open>Drivers\<close>

text \<open>The SD driver of FileX: the status is \<open>FX_IO_ERROR\<close> unless a branch sets success.\<close>

definition driver_result ::
    "u8 list \<Rightarrow> (u8 list option \<times> 'w storage) option \<Rightarrow> ((fx_status \<times> u8 list) \<times> 'w storage) option" where
  "driver_result old r =
     map_option (\<lambda>(x, s). (case x of None \<Rightarrow> (FX_IO_ERROR, old) | Some data \<Rightarrow> (FX_SUCCESS, data), s)) r"

definition write_result ::
    "u8 list \<Rightarrow> (bool \<times> 'w storage) option \<Rightarrow> ((fx_status \<times> u8 list) \<times> 'w storage) option" where
  "write_result old r = map_option (\<lambda>(ok, s). ((if ok then FX_SUCCESS else FX_IO_ERROR, old), s)) r"

definition sd_boot_read :: "'w board \<Rightarrow> u8 list \<Rightarrow> 'w storage \<Rightarrow> ((fx_status \<times> u8 list) \<times> 'w storage) option" where
  "sd_boot_read b old s =
     (case sd_read b 0 1 s of
        None \<Rightarrow> None
      | Some (None, s1) \<Rightarrow> Some ((FX_IO_ERROR, old), s1)
      | Some (Some block, s1) \<Rightarrow>
          let (status, start) = partition_offset_calculate b block
          in if status \<noteq> FX_SUCCESS then Some ((FX_IO_ERROR, block), s1)
             else if start \<noteq> 0 then driver_result block (sd_read b start 1 s1)
             else Some ((FX_SUCCESS, block), s1))"

definition direct_media_driver :: "'w board \<Rightarrow> 'w media_driver" where
  "direct_media_driver b r s =
     (let first = logical_sector r + hidden_sectors r
      in case request r of
           FX_DRIVER_INIT \<Rightarrow> Some ((FX_SUCCESS, buffer r), s)
         | FX_DRIVER_UNINIT \<Rightarrow> Some ((FX_SUCCESS, buffer r), s)
         | FX_DRIVER_FLUSH \<Rightarrow> Some ((FX_SUCCESS, buffer r), s)
         | FX_DRIVER_ABORT \<Rightarrow> Some ((FX_SUCCESS, buffer r), s)
         | FX_DRIVER_READ \<Rightarrow> driver_result (buffer r) (sd_read b first (sectors r) s)
         | FX_DRIVER_WRITE \<Rightarrow> write_result (buffer r) (sd_write b first (buffer r) (sectors r) s)
         | FX_DRIVER_BOOT_READ \<Rightarrow> sd_boot_read b (buffer r) s
         | FX_DRIVER_BOOT_WRITE \<Rightarrow> write_result (buffer r) (sd_write b (hidden_sectors r) (buffer r) 1 s)
         | FX_DRIVER_RELEASE_SECTORS \<Rightarrow> Some ((FX_IO_ERROR, buffer r), s)
         | FX_DRIVER_OTHER \<Rightarrow> Some ((FX_IO_ERROR, buffer r), s))"

definition nor_driver_read :: "'w board \<Rightarrow> u32 \<Rightarrow> u32 \<Rightarrow> 'w storage \<Rightarrow> (bool \<times> u8 list) \<times> 'w storage" where
  "nor_driver_read b flash_address words s = qspi_read b (byte_offset flash_address) (words * 4) s"

definition nor_driver_write :: "'w board \<Rightarrow> u32 \<Rightarrow> u8 list \<Rightarrow> 'w storage \<Rightarrow> bool \<times> 'w storage" where
  "nor_driver_write b flash_address source s = qspi_write b (byte_offset flash_address) source s"

definition nor_driver_erase :: "'w board \<Rightarrow> u32 \<Rightarrow> 'w storage \<Rightarrow> bool \<times> 'w storage" where
  "nor_driver_erase b block s =
     (if block < flash_blocks then qspi_erase b (block * erase_block_bytes) s else (False, s))"

fun verify_erased :: "'w board \<Rightarrow> u32 \<Rightarrow> nat \<Rightarrow> 'w storage \<Rightarrow> bool \<times> 'w storage" where
  "verify_erased b offset 0 s = (True, s)"
| "verify_erased b offset (Suc n) s =
     (let ((ok, data), s1) = qspi_read b offset 512 s
      in if \<not> ok \<or> \<not> list_all (\<lambda>x. x = 0xFF) data then (False, s1) else verify_erased b (offset + 512) n s1)"

definition nor_driver_verify :: "'w board \<Rightarrow> u32 \<Rightarrow> 'w storage \<Rightarrow> bool \<times> 'w storage" where
  "nor_driver_verify b block s =
     (if block \<ge> flash_blocks then (False, s) else verify_erased b (block * erase_block_bytes) 8 s)"

definition nor_driver_error :: "u32 \<Rightarrow> 'w storage \<Rightarrow> bool \<times> 'w storage" where
  "nor_driver_error e s = (True, diagnose (levelx_status_update (\<lambda>_. e)) s)"

definition nor_driver_initialize :: "'w board \<Rightarrow> 'w nor_driver" where
  "nor_driver_initialize b =
     \<lparr>driver_read = nor_driver_read b, driver_write = nor_driver_write b, driver_erase = nor_driver_erase b,
      driver_verify = nor_driver_verify b, driver_error = nor_driver_error\<rparr>"

definition open_levelx :: "'w board \<Rightarrow> 'w storage \<Rightarrow> u32 \<times> 'w storage" where
  "open_levelx b s =
     (if nor_open s then (0, s)
      else
        let (status, s1) = lx_nor_flash_open b (nor_driver_initialize b) s;
            (status, s2) = (if status = 0 then lx_nor_flash_extended_cache_enable b s1 else (status, s1))
        in (status, diagnose (levelx_status_update (\<lambda>_. status)) (s2\<lparr>nor_open := (status = 0)\<rparr>)))"

definition close_levelx :: "'w board \<Rightarrow> 'w storage \<Rightarrow> u32 \<times> 'w storage" where
  "close_levelx b s =
     (if \<not> nor_open s then (0, s)
      else let (status, s1) = lx_nor_flash_close b s in (status, s1\<lparr>nor_open := False\<rparr>))"

fun levelx_read :: "'w board \<Rightarrow> u32 \<Rightarrow> nat \<Rightarrow> u8 list \<Rightarrow> 'w storage \<Rightarrow> u8 list option \<times> 'w storage" where
  "levelx_read b sector 0 got s = (Some got, s)"
| "levelx_read b sector (Suc n) got s =
     (let ((status, data), s1) = lx_nor_flash_sector_read b sector s
      in if status \<noteq> 0 then (None, s1) else levelx_read b (sector + 1) n (got @ take sector_size data) s1)"

fun levelx_write :: "'w board \<Rightarrow> u32 \<Rightarrow> nat \<Rightarrow> u8 list \<Rightarrow> 'w storage \<Rightarrow> bool \<times> 'w storage" where
  "levelx_write b sector 0 input s = (True, s)"
| "levelx_write b sector (Suc n) input s =
     (let (status, s1) = lx_nor_flash_sector_write b sector (take sector_size input) s
      in if status \<noteq> 0 then (False, s1) else levelx_write b (sector + 1) n (drop sector_size input) s1)"

fun levelx_release :: "'w board \<Rightarrow> u32 \<Rightarrow> nat \<Rightarrow> 'w storage \<Rightarrow> bool \<times> 'w storage" where
  "levelx_release b sector 0 s = (True, s)"
| "levelx_release b sector (Suc n) s =
     (let (status, s1) = lx_nor_flash_sector_release b sector s
      in if status \<noteq> 0 \<and> status \<noteq> LX_SECTOR_NOT_FOUND b then (False, s1)
         else levelx_release b (sector + 1) n s1)"

definition levelx_media_driver :: "'w board \<Rightarrow> 'w media_driver" where
  "levelx_media_driver b r s =
     (let keep = (\<lambda>(ok, s). Some ((if ok then FX_SUCCESS else FX_IO_ERROR, buffer r), s))
      in case request r of
           FX_DRIVER_INIT \<Rightarrow> (let (status, s1) = open_levelx b s in keep (status = 0, s1))
         | FX_DRIVER_UNINIT \<Rightarrow> (let (status, s1) = close_levelx b s in keep (status = 0, s1))
         | FX_DRIVER_READ \<Rightarrow> driver_result (buffer r) (Some (levelx_read b (logical_sector r) (unat (sectors r)) [] s))
         | FX_DRIVER_BOOT_READ \<Rightarrow> driver_result (buffer r) (Some (levelx_read b 0 1 [] s))
         | FX_DRIVER_WRITE \<Rightarrow> keep (levelx_write b (logical_sector r) (unat (sectors r)) (buffer r) s)
         | FX_DRIVER_BOOT_WRITE \<Rightarrow> keep (levelx_write b 0 1 (buffer r) s)
         | FX_DRIVER_RELEASE_SECTORS \<Rightarrow> keep (levelx_release b (logical_sector r) (unat (sectors r)) s)
         | FX_DRIVER_FLUSH \<Rightarrow> keep (True, s)
         | FX_DRIVER_ABORT \<Rightarrow> keep (True, s)
         | FX_DRIVER_OTHER \<Rightarrow> keep (False, s))"

section \<open>Initialisation\<close>

definition mount_flash :: "'w board \<Rightarrow> 'w storage \<Rightarrow> (bool \<times> 'w storage) option" where
  "mount_flash b s =
     (case fx_media_open b Flash (levelx_media_driver b) s of
        None \<Rightarrow> None
      | Some (status, s1) \<Rightarrow>
          let ok = (status = FX_SUCCESS)
          in Some (ok, diagnose (flash_filex_status_update (\<lambda>_. status) \<circ> dg_flash_mounted_update (\<lambda>_. ok))
                     (s1\<lparr>st_flash_mounted := ok\<rparr>)))"

definition format_flash :: "'w board \<Rightarrow> bool \<Rightarrow> 'w storage \<Rightarrow> (bool \<times> 'w storage) option" where
  "format_flash b blank s =
     (if \<not> blank then Some (True, s)
      else (case fx_media_format b (levelx_media_driver b) flash_filex_sectors s of
              None \<Rightarrow> None
            | Some (status, s1) \<Rightarrow>
                if status \<noteq> FX_SUCCESS
                then Some (False, diagnose (flash_filex_status_update (\<lambda>_. status)) s1)
                else Some (True, diagnose (flash_was_formatted_update (\<lambda>_. True)) s1)))"

text \<open>What both builds do once there is a flash.\<close>

definition start_flash :: "'w board \<Rightarrow> 'w storage \<Rightarrow> (bool \<times> 'w storage) option" where
  "start_flash b s =
     (let s2 = lx_nor_flash_initialize b (diagnose (dg_flash_blocks_update (\<lambda>_. flash_blocks)) s);
          (status, s3) = open_levelx b s2
      in if status \<noteq> 0 then Some (False, s3)
         else
           let s4 = diagnose (flash_logical_sectors_update (\<lambda>_. flash_filex_sectors)) s3;
               blank = (lx_mapped_physical_sectors b s4 = 0);
               (status, s5) = close_levelx b s4
           in if status \<noteq> 0 then Some (False, s5)
              else (case format_flash b blank s5 of
                      None \<Rightarrow> None
                    | Some (False, s6) \<Rightarrow> Some (False, s6)
                    | Some (True, s6) \<Rightarrow> mount_flash b s6))"

definition initialize_flash_media :: "'w board \<Rightarrow> 'w storage \<Rightarrow> (bool \<times> 'w storage) option" where
  "initialize_flash_media b s =
     (let (ok, s1) = initialize_qspi b s in if \<not> ok then Some (False, s1) else start_flash b s1)"

text \<open>The build option \<open>RUNTIME_STORAGE_ERASE_FLASH_ON_BOOT\<close> erases the blocks from \<open>block\<close> on in between.\<close>

fun erase_blocks :: "'w board \<Rightarrow> u32 \<Rightarrow> nat \<Rightarrow> 'w storage \<Rightarrow> bool \<times> 'w storage" where
  "erase_blocks b block 0 s = (True, s)"
| "erase_blocks b block (Suc n) s =
     (let (ok, s1) = qspi_erase b (block * erase_block_bytes) s
      in if \<not> ok then (False, s1) else erase_blocks b (block + 1) n s1)"

definition initialize_erased_flash_media :: "'w board \<Rightarrow> 'w storage \<Rightarrow> (bool \<times> 'w storage) option" where
  "initialize_erased_flash_media b s =
     (let (ok, s1) = initialize_qspi b s
      in if \<not> ok then Some (False, s1)
         else
           let (ok, s2) = erase_blocks b 0 (unat flash_blocks) s1
           in if \<not> ok then Some (False, s2) else start_flash b s2)"

definition should_retry_sd_mount_in_one_bit :: "u8 \<Rightarrow> fx_status \<Rightarrow> u32 \<Rightarrow> bool" where
  "should_retry_sd_mount_in_one_bit width status e \<longleftrightarrow> width = 4 \<and> status = FX_BOOT_ERROR \<and> e AND 0x2 \<noteq> 0"

text \<open>Four bits first, then one bit; the block count of the failed attempt is kept if nothing better is known.\<close>

definition bring_up_sd :: "'w board \<Rightarrow> 'w storage \<Rightarrow> bool \<times> 'w storage" where
  "bring_up_sd b s =
     (let (ok, s1) = initialize_sd_card b SDMMC_BUS_WIDE_4B 4 s
      in if ok then (True, s1)
         else
           let four_bit_error = hsd1_ErrorCode b (hw s1);
               four_bit_blocks = hsd1_LogBlockNbr b (hw s1);
               s2 = diagnose (sd_fallback_error_update (\<lambda>_. four_bit_error) \<circ> sd_fallback_used_update (\<lambda>_. True)) s1;
               (ok, s3) = initialize_sd_card b SDMMC_BUS_WIDE_1B 1 (s2\<lparr>hw := HAL_SD_DeInit b (hw s2)\<rparr>)
           in if ok then (True, s3)
              else (False, if sd_blocks (diag s3) = 0 then diagnose (sd_blocks_update (\<lambda>_. four_bit_blocks)) s3 else s3))"

definition finish_sd :: "fx_status \<times> 'w storage \<Rightarrow> bool \<times> 'w storage" where
  "finish_sd r =
     (let (status, s) = r; ok = (status = FX_SUCCESS)
      in (ok, diagnose (sd_filex_status_update (\<lambda>_. status) \<circ> dg_sd_mounted_update (\<lambda>_. ok)) (s\<lparr>st_sd_mounted := ok\<rparr>)))"

definition retry_sd :: "'w board \<Rightarrow> fx_status \<Rightarrow> 'w storage \<Rightarrow> (bool \<times> 'w storage) option" where
  "retry_sd b status s =
     (let four_bit_error = sd_error (diag s);
          four_bit_blocks = sd_blocks (diag s);
          s1 = diagnose (sd_fallback_error_update (\<lambda>_. four_bit_error) \<circ> sd_fallback_used_update (\<lambda>_. True)) s;
          (ok, s2) = initialize_sd_card b SDMMC_BUS_WIDE_1B 1 (prepare_sd_mount_retry b s1)
      in if \<not> ok then
           let s3 = (if sd_blocks (diag s2) = 0 then diagnose (sd_blocks_update (\<lambda>_. four_bit_blocks)) s2 else s2)
           in Some (False, diagnose (sd_filex_status_update (\<lambda>_. status)) s3)
         else map_option finish_sd (fx_media_open b Sd (direct_media_driver b) s2))"

definition initialize_sd_media :: "'w board \<Rightarrow> 'w storage \<Rightarrow> (bool \<times> 'w storage) option" where
  "initialize_sd_media b s =
     (let (ok, s1) = bring_up_sd b (diagnose (sd_detect_level_update (\<lambda>_. SD_CARD_DETECT b (hw s))) s)
      in if \<not> ok then Some (False, s1)
         else (case fx_media_open b Sd (direct_media_driver b) s1 of
                 None \<Rightarrow> None
               | Some (status, s2) \<Rightarrow>
                   if should_retry_sd_mount_in_one_bit (sd_bus_width (diag s2)) status (sd_error (diag s2))
                   then retry_sd b status s2
                   else Some (finish_sd (status, s2))))"

definition initialize :: "'w board \<Rightarrow> 'w storage \<Rightarrow> (bool \<times> 'w storage) option" where
  "initialize b s =
     (case initialize_flash_media b (s\<lparr>diag := empty_diagnostics\<rparr>) of
        None \<Rightarrow> None
      | Some (flash_ok, s1) \<Rightarrow>
          map_option (\<lambda>(sd_ok, s2). (flash_ok \<or> sd_ok, s2)) (initialize_sd_media b s1))"

definition storage_mounted :: "'w storage \<Rightarrow> volume \<Rightarrow> bool" where
  "storage_mounted s v = (if v = Flash then st_flash_mounted s else st_sd_mounted s)"

end
