(* ===== verification/System_Calls.thy ===== *)
theory System_Calls
  imports Directory_Streams Storage
begin

unbundle bit_operations_syntax

text \<open>
  The rest of \<open>platform/runtime/libc/filesystem.cpp\<close>: setting the file system up, volume
  statistics, the time of day, entropy, the reentrant wrappers and the calls the platform
  does not support. The clock and the random generator are drivers of the hardware layer,
  which the calls obtain by a factory: \<open>None\<close> stands for a factory that returns no driver.
\<close>

section \<open>Clock\<close>

record timestamp =
  seconds_since_epoch :: int
  nanoseconds :: u32

type_synonym 'w rtc = "('w \<Rightarrow> timestamp option \<times> 'w) option"

text \<open>\<open>std::chrono::year_month_day\<close> of a day number, with its 16-bit year.\<close>

definition civil :: "int \<Rightarrow> int \<times> int \<times> int" where
  "civil days =
     (let z = days + 719468;
          era = z div 146097;
          doe = z mod 146097;
          yoe = (doe - doe div 1460 + doe div 36524 - doe div 146096) div 365;
          doy = doe - (365 * yoe + yoe div 4 - yoe div 100);
          mp = (5 * doy + 2) div 153;
          d = doy - (153 * mp + 2) div 5 + 1;
          m = (if mp < 10 then mp + 3 else mp - 9)
      in (sint (word_of_int (yoe + era * 400 + (if m \<le> 2 then 1 else 0)) :: u16), m, d))"

record 'w boot_services =
  fx_system_initialize :: "'w \<Rightarrow> 'w"
  fx_system_date_set :: "int \<Rightarrow> int \<Rightarrow> int \<Rightarrow> 'w \<Rightarrow> 'w"
  fx_system_time_set :: "int \<Rightarrow> int \<Rightarrow> int \<Rightarrow> 'w \<Rightarrow> 'w"
  tx_mutex_create :: "'w \<Rightarrow> tx_status \<times> 'w"

definition clamp :: "int \<Rightarrow> int \<Rightarrow> int \<Rightarrow> int" where
  "clamp x lo hi = (if x < lo then lo else if hi < x then hi else x)"

definition initialize_filex_clock :: "'w boot_services \<Rightarrow> 'w rtc \<Rightarrow> 'w \<Rightarrow> 'w" where
  "initialize_filex_clock bs rtc w =
     (case rtc of
        None \<Rightarrow> w
      | Some getTime \<Rightarrow>
          (case getTime w of
             (None, w1) \<Rightarrow> w1
           | (Some t, w1) \<Rightarrow>
               if seconds_since_epoch t < 0 then w1
               else
                 let point = seconds_since_epoch t;
                     date = point div 86400;
                     time = point - date * 86400;
                     (y, m, d) = civil date
                 in fx_system_time_set bs (time div 3600) (time mod 3600 div 60) (time mod 60 div 2 * 2)
                      (fx_system_date_set bs (clamp y 1980 2107) m d w1)))"

section \<open>Initialisation\<close>

text \<open>\<open>None\<close> is \<open>Error_Handler\<close>, which does not return, or a wait that does not end.\<close>

definition runtime_filex_initialize ::
    "'w boot_services \<Rightarrow> 'w board \<Rightarrow> 'w rtc \<Rightarrow> 'w fs \<Rightarrow> 'w fs option" where
  "runtime_filex_initialize bs b rtc s =
     (if filesystem_initialized s then Some s
      else
        let w1 = initialize_filex_clock bs rtc (fx_system_initialize bs (world s));
            (status, w2) = tx_mutex_create bs w1
        in if status \<noteq> TX_SUCCESS then None
           else
             (case initialize b \<lparr>hw = w2, nor_open = False, st_flash_mounted = flash_mounted s,
                     st_sd_mounted = sd_mounted s, diag = empty_diagnostics\<rparr> of
                None \<Rightarrow> None
              | Some (ok, st) \<Rightarrow>
                  if \<not> ok then None
                  else Some (s\<lparr>world := hw st, flash_mounted := storage_mounted st Flash,
                               sd_mounted := storage_mounted st Sd,
                               current_directory := (if storage_mounted st Flash then ''/flash'' else ''/sd''),
                               filesystem_initialized := True\<rparr>)))"

text \<open>The static storage before the first call.\<close>

definition zero_fs :: "'w \<Rightarrow> 'w fs" where
  "zero_fs w =
     \<lparr>world = w, errno_var = None, descriptors = replicate MAXIMUM_OPEN_FILES empty_descriptor,
      directories = replicate MAXIMUM_OPEN_DIRECTORIES empty_stream, current_directory = ''/'',
      filesystem_initialized = False, rename_backup_sequence = 0, flash_mounted = False, sd_mounted = False\<rparr>"

section \<open>Statistics and limits\<close>

record vfs_statistics =
  f_bsize :: u32
  f_frsize :: u32
  f_blocks :: u64
  f_bfree :: u64
  f_bavail :: u64
  f_namemax :: nat

datatype pathconf_name = PC_PATH_MAX | PC_NAME_MAX | PC_OTHER

definition pathconf :: "pathconf_name \<Rightarrow> 'w fs \<Rightarrow> int \<times> 'w fs" where
  "pathconf name s =
     (case name of
        PC_PATH_MAX \<Rightarrow> (int MAXIMUM_PATH, s)
      | PC_NAME_MAX \<Rightarrow> (int MAXIMUM_PATH - 1, s)
      | PC_OTHER \<Rightarrow> (- 1, set_errno EINVAL s))"

text \<open>
  \<open>statvfs\<close> asks three guarded questions one after the other and resolves the last answer
  without the guard.
\<close>

definition statvfs_fill :: "'w filex \<Rightarrow> string \<Rightarrow> u64 \<Rightarrow> 'w fs \<Rightarrow> (int \<times> vfs_statistics option) \<times> 'w fs" where
  "statvfs_fill fx normalized available s =
     (case resolve s normalized of
        Inl _ \<Rightarrow> ((- 1, None), set_errno EINVAL s)
      | Inr r \<Rightarrow>
          if virtual_root r then ((- 1, None), set_errno EINVAL s)
          else ((0, Some \<lparr>f_bsize = SECTOR_SIZE, f_frsize = SECTOR_SIZE,
                  f_blocks = fx_media_total_sectors fx (world s) (media_of r),
                  f_bfree = available div ucast SECTOR_SIZE, f_bavail = available div ucast SECTOR_SIZE,
                  f_namemax = MAXIMUM_PATH - 1\<rparr>), s))"

definition statvfs_call ::
    "'w filex \<Rightarrow> string option \<Rightarrow> bool \<Rightarrow> 'w fs \<Rightarrow> ((int \<times> vfs_statistics option) \<times> 'w fs) option" where
  "statvfs_call fx path null_value s =
     (if null_value then Some ((- 1, None), set_errno EFAULT s)
      else
        (case information fx path s of
           None \<Rightarrow> None
         | Some ((Some e, _), s1) \<Rightarrow> Some ((- 1, None), set_errno e s1)
         | Some ((None, _), s1) \<Rightarrow>
             (case availableSpace fx path s1 of
                None \<Rightarrow> None
              | Some ((Some e, _), s2) \<Rightarrow> Some ((- 1, None), set_errno e s2)
              | Some ((None, available), s2) \<Rightarrow>
                  (case normalizePath fx path s2 of
                     None \<Rightarrow> None
                   | Some ((Some e, _), s3) \<Rightarrow> Some ((- 1, None), set_errno e s3)
                   | Some ((None, normalized), s3) \<Rightarrow> Some (statvfs_fill fx normalized available s3)))))"

section \<open>Time of day and entropy\<close>

definition NANOSECONDS_PER_SECOND :: u32 where
  "NANOSECONDS_PER_SECOND = 1000000000"

text \<open>The result holds seconds and microseconds; \<open>'t\<close> is the width of \<open>time_t\<close>.\<close>

definition gettimeofday_call ::
    "'w rtc \<Rightarrow> bool \<Rightarrow> 'w fs \<Rightarrow> (int \<times> ('t::len word \<times> u32) option) \<times> 'w fs" where
  "gettimeofday_call rtc null_value s =
     (if null_value then ((- 1, None), set_errno EFAULT s)
      else
        (case rtc of
           None \<Rightarrow> ((- 1, None), set_errno ENODEV s)
         | Some getTime \<Rightarrow>
             (case getTime (world s) of
                (None, w) \<Rightarrow> ((- 1, None), set_errno EIO (s\<lparr>world := w\<rparr>))
              | (Some t, w) \<Rightarrow>
                  if nanoseconds t \<ge> NANOSECONDS_PER_SECOND \<or> seconds_since_epoch t < - (2 ^ (LENGTH('t) - 1)) \<or>
                     seconds_since_epoch t \<ge> 2 ^ (LENGTH('t) - 1)
                  then ((- 1, None), set_errno EOVERFLOW (s\<lparr>world := w\<rparr>))
                  else ((0, Some (word_of_int (seconds_since_epoch t), nanoseconds t div 1000)), s\<lparr>world := w\<rparr>))))"

definition word_bytes :: "u32 \<Rightarrow> u8 list" where
  "word_bytes v = map (\<lambda>index. ucast (drop_bit (index * 8) v)) [0..<4]"

function entropy_loop ::
    "('w \<Rightarrow> u32 option \<times> 'w) \<Rightarrow> nat \<Rightarrow> u8 list \<Rightarrow> 'w fs \<Rightarrow> (u8 list option) \<times> 'w fs" where
  "entropy_loop generate len got s =
     (if length got \<ge> len then (Some got, s)
      else
        (case generate (world s) of
           (None, w) \<Rightarrow> (None, set_errno EIO (s\<lparr>world := w\<rparr>))
         | (Some v, w) \<Rightarrow>
             entropy_loop generate len (got @ take (len - length got) (word_bytes v)) (s\<lparr>world := w\<rparr>)))"
  by pat_completeness auto

termination entropy_loop
  by (relation "measure (\<lambda>(generate, len, got, s). len - length got)") (auto simp: word_bytes_def)

declare entropy_loop.simps [simp del]

definition getentropy_call ::
    "'w filex \<Rightarrow> ('w \<Rightarrow> bool) \<Rightarrow> ('w \<Rightarrow> u32 option \<times> 'w) option \<Rightarrow> bool \<Rightarrow> nat \<Rightarrow> 'w fs \<Rightarrow>
     (int \<times> u8 list) \<times> 'w fs" where
  "getentropy_call fx in_thread rng null_buffer len s =
     (if len = 0 then ((0, []), s)
      else if null_buffer then ((- 1, []), set_errno EFAULT s)
      else if len > 256 then ((- 1, []), set_errno EIO s)
      else if get_IPSR fx (world s) \<noteq> 0 \<or> \<not> in_thread (world s) then ((- 1, []), set_errno EPERM s)
      else
        (case rng of
           None \<Rightarrow> ((- 1, []), set_errno ENODEV s)
         | Some generate \<Rightarrow>
             (case entropy_loop generate len [] s of
                (None, s1) \<Rightarrow> ((- 1, []), s1)
              | (Some bytes, s1) \<Rightarrow> ((0, bytes), s1))))"

section \<open>Reentrant wrappers\<close>

text \<open>A \<open>_reent*\<close> is \<open>None\<close> when null, otherwise the \<open>_errno\<close> field of the structure.\<close>

type_synonym reent = "error option"

definition copy_errno_to_reent :: "reent \<Rightarrow> int \<Rightarrow> 'w fs \<Rightarrow> reent" where
  "copy_errno_to_reent ctx result s = (if result < 0 \<and> ctx \<noteq> None then Some (errno_var s) else ctx)"

definition reent_call ::
    "('a \<Rightarrow> int) \<Rightarrow> reent \<Rightarrow> ('a \<times> 'w fs) option \<Rightarrow> (('a \<times> reent) \<times> 'w fs) option" where
  "reent_call result ctx call = map_option (\<lambda>(r, s). ((r, copy_errno_to_reent ctx (result r) s), s)) call"

definition INT_MAX :: nat where
  "INT_MAX = 2 ^ 31 - 1"

definition open_r :: "'w filex \<Rightarrow> reent \<Rightarrow> string option \<Rightarrow> open_flags \<Rightarrow> 'w fs \<Rightarrow> ((int \<times> reent) \<times> 'w fs) option" where
  "open_r fx ctx path flags s = reent_call (\<lambda>r. r) ctx (open_call fx path flags s)"

definition close_r :: "'w filex \<Rightarrow> reent \<Rightarrow> int \<Rightarrow> 'w fs \<Rightarrow> ((int \<times> reent) \<times> 'w fs) option" where
  "close_r fx ctx file s = reent_call (\<lambda>r. r) ctx (close_call fx file s)"

definition read_r ::
    "'w filex \<Rightarrow> reent \<Rightarrow> int \<Rightarrow> bool \<Rightarrow> nat \<Rightarrow> 'w fs \<Rightarrow> (((int \<times> u8 list) \<times> reent) \<times> 'w fs) option" where
  "read_r fx ctx file null_buffer len s =
     reent_call fst ctx (if len > INT_MAX then Some ((- 1, []), set_errno EINVAL s)
                         else read_call fx file null_buffer (int len) s)"

definition write_r ::
    "'w filex \<Rightarrow> reent \<Rightarrow> int \<Rightarrow> u8 list option \<Rightarrow> nat \<Rightarrow> 'w fs \<Rightarrow> ((int \<times> reent) \<times> 'w fs) option" where
  "write_r fx ctx file source len s =
     reent_call (\<lambda>r. r) ctx (if len > INT_MAX then Some (- 1, set_errno EINVAL s)
                             else write_call fx file source (int len) s)"

definition lseek_r ::
    "'w filex \<Rightarrow> reent \<Rightarrow> int \<Rightarrow> 'o::len word \<Rightarrow> seek_origin \<Rightarrow> 'w fs \<Rightarrow> (('o word \<times> reent) \<times> 'w fs) option" where
  "lseek_r fx ctx file offset origin s = reent_call sint ctx (lseek_call fx file offset origin s)"

definition fstat_r ::
    "'w filex \<Rightarrow> reent \<Rightarrow> int \<Rightarrow> bool \<Rightarrow> 'w fs \<Rightarrow> (((int \<times> 'o::len stat option) \<times> reent) \<times> 'w fs) option" where
  "fstat_r fx ctx file null_value s = reent_call fst ctx (fstat_call fx file null_value s)"

definition stat_r ::
    "'w filex \<Rightarrow> reent \<Rightarrow> string option \<Rightarrow> bool \<Rightarrow> 'w fs \<Rightarrow> (((int \<times> 'o::len stat option) \<times> reent) \<times> 'w fs) option" where
  "stat_r fx ctx path null_value s = reent_call fst ctx (stat_call fx path null_value s)"

definition unlink_r :: "'w filex \<Rightarrow> reent \<Rightarrow> string option \<Rightarrow> 'w fs \<Rightarrow> ((int \<times> reent) \<times> 'w fs) option" where
  "unlink_r fx ctx path s = reent_call (\<lambda>r. r) ctx (unlink_call fx path s)"

definition rename_r ::
    "'w filex \<Rightarrow> reent \<Rightarrow> string option \<Rightarrow> string option \<Rightarrow> 'w fs \<Rightarrow> ((int \<times> reent) \<times> 'w fs) option" where
  "rename_r fx ctx old_path new_path s = reent_call (\<lambda>r. r) ctx (rename_call fx old_path new_path s)"

definition gettimeofday_r ::
    "'w rtc \<Rightarrow> reent \<Rightarrow> bool \<Rightarrow> 'w fs \<Rightarrow> (((int \<times> ('t::len word \<times> u32) option) \<times> reent) \<times> 'w fs) option" where
  "gettimeofday_r rtc ctx null_value s = reent_call fst ctx (Some (gettimeofday_call rtc null_value s))"

section \<open>Calls that always answer the same\<close>

definition isatty :: "int \<Rightarrow> int" where
  "isatty file = (if 0 \<le> file \<and> file \<le> 2 then 1 else 0)"

definition unsupported :: "errno \<Rightarrow> 'w fs \<Rightarrow> int \<times> 'w fs" where
  "unsupported e s = (- 1, set_errno e s)"

definition link_call :: "'w fs \<Rightarrow> int \<times> 'w fs" where
  "link_call = unsupported ENOTSUP"

definition symlink_call :: "'w fs \<Rightarrow> int \<times> 'w fs" where
  "symlink_call = unsupported ENOTSUP"

definition readlink_call :: "'w fs \<Rightarrow> int \<times> 'w fs" where
  "readlink_call = unsupported ENOTSUP"

definition kill_call :: "'w fs \<Rightarrow> int \<times> 'w fs" where
  "kill_call = unsupported EINVAL"

definition times_call :: "'w fs \<Rightarrow> int \<times> 'w fs" where
  "times_call = unsupported ENOSYS"

definition dirfd_call :: "'w fs \<Rightarrow> int \<times> 'w fs" where
  "dirfd_call = unsupported ENOTSUP"

end
