(* ===== verification/FileX_Memory.thy ===== *)
theory FileX_Memory
  imports Directory_Streams
begin

text \<open>
  The documented behaviour of FileX that properties of the adapter rely on, as named
  predicates over the parameter record, and one in-memory implementation of the record that
  has this behaviour. The implementation stands for no code of the repository: it shows that
  the predicates can hold together and lets the properties be evaluated on concrete calls.
\<close>

section \<open>Documented behaviour\<close>

text \<open>
  An open file has contents and an offset. A seek beyond the end stops at the end, a write
  overwrites from the offset and extends, releasing truncates; the size is that of the
  contents, below \<open>2 ^ 64\<close>.
\<close>

definition seek_law :: "'w filex \<Rightarrow> ('w \<Rightarrow> nat \<Rightarrow> u8 list) \<Rightarrow> bool" where
  "seek_law fx content \<longleftrightarrow>
     (\<forall>w i p w'. fx_file_extended_seek fx w i p = (FX_SUCCESS, w') \<longrightarrow>
        content w' i = content w i \<and>
        unat (fx_file_current_file_offset fx w' i) = min (unat p) (length (content w i)))"

definition size_law :: "'w filex \<Rightarrow> ('w \<Rightarrow> nat \<Rightarrow> u8 list) \<Rightarrow> bool" where
  "size_law fx content \<longleftrightarrow> (\<forall>w i. unat (fx_file_current_file_size fx w i) = length (content w i))"

definition write_law :: "'w filex \<Rightarrow> ('w \<Rightarrow> nat \<Rightarrow> u8 list) \<Rightarrow> bool" where
  "write_law fx content \<longleftrightarrow>
     (\<forall>w i bs w'. fx_file_write fx w i bs = (FX_SUCCESS, w') \<longrightarrow>
        (let n = unat (fx_file_current_file_offset fx w i)
         in content w' i = take n (content w i) @ bs @ drop (n + length bs) (content w i) \<and>
            unat (fx_file_current_file_offset fx w' i) = n + length bs))"

definition truncate_law :: "'w filex \<Rightarrow> ('w \<Rightarrow> nat \<Rightarrow> u8 list) \<Rightarrow> bool" where
  "truncate_law fx content \<longleftrightarrow>
     (\<forall>w i n w'. fx_file_extended_truncate_release fx w i n = (FX_SUCCESS, w') \<longrightarrow>
        content w' i = take (unat n) (content w i))"

text \<open>No call on an open file reports \<open>FX_END_OF_FILE\<close> or \<open>FX_NO_MORE_ENTRIES\<close> but a read or a scan.\<close>

definition file_status_law :: "'w filex \<Rightarrow> bool" where
  "file_status_law fx \<longleftrightarrow>
     (\<forall>w i p. filex_errno (fst (fx_file_extended_seek fx w i p)) = None \<longrightarrow> fst (fx_file_extended_seek fx w i p) = FX_SUCCESS) \<and>
     (\<forall>w i bs. filex_errno (fst (fx_file_write fx w i bs)) = None \<longrightarrow> fst (fx_file_write fx w i bs) = FX_SUCCESS) \<and>
     (\<forall>w i n. filex_errno (fst (fx_file_extended_truncate_release fx w i n)) = None \<longrightarrow>
        fst (fx_file_extended_truncate_release fx w i n) = FX_SUCCESS)"

text \<open>
  Names on a FAT volume are compared without regard to case. The directory entries of all
  volumes are a map from folded names to entries \<open>'n\<close>; renaming a file moves its entry to a
  free name, deleting removes it, and neither changes anything when it reports an error.
\<close>

definition fat_key :: "volume \<Rightarrow> string \<Rightarrow> volume \<times> u8 list" where
  "fat_key v p = (v, map fold_ascii_case p)"

definition information_law :: "'w filex \<Rightarrow> ('w \<Rightarrow> volume \<times> u8 list \<Rightarrow> 'n option) \<Rightarrow> bool" where
  "information_law fx names \<longleftrightarrow>
     (\<forall>w v p st i w'. fx_directory_information_get fx w v p = (st, i, w') \<longrightarrow>
        names w' = names w \<and> (filex_errno st = Some ENOENT \<longrightarrow> names w (fat_key v p) = None) \<and>
        (filex_errno st = None \<longrightarrow> names w (fat_key v p) \<noteq> None))"

definition flush_law :: "'w filex \<Rightarrow> ('w \<Rightarrow> volume \<times> u8 list \<Rightarrow> 'n option) \<Rightarrow> bool" where
  "flush_law fx names \<longleftrightarrow> (\<forall>w v. names (snd (fx_media_flush fx w v)) = names w)"

definition rename_law :: "'w filex \<Rightarrow> ('w \<Rightarrow> volume \<times> u8 list \<Rightarrow> 'n option) \<Rightarrow> bool" where
  "rename_law fx names \<longleftrightarrow>
     (\<forall>w v old new st w'. fx_file_rename fx w v old new = (st, w') \<longrightarrow> fat_key v old \<noteq> fat_key v new \<longrightarrow>
        (if filex_errno st = None
         then names w' = (names w)(fat_key v new := names w (fat_key v old), fat_key v old := None) \<and>
              names w (fat_key v new) = None
         else names w' = names w))"

definition delete_law :: "'w filex \<Rightarrow> ('w \<Rightarrow> volume \<times> u8 list \<Rightarrow> 'n option) \<Rightarrow> bool" where
  "delete_law fx names \<longleftrightarrow>
     (\<forall>w v p st w'. fx_file_delete fx w v p = (st, w') \<longrightarrow>
        names w' = (if filex_errno st = None then (names w)(fat_key v p := None) else names w))"

section \<open>A file system in memory\<close>

datatype node = File "u8 list" | Directory

record memory =
  nodes :: "((volume \<times> u8 list) \<times> node) list"
  handles :: "nat \<Rightarrow> ((volume \<times> u8 list) \<times> nat) option"
  scan :: "(string \<times> u32) list"
  interrupt :: u32

definition node_information :: "node \<Rightarrow> fx_information" where
  "node_information n =
     \<lparr>fx_attributes = (case n of File _ \<Rightarrow> 0x20 | Directory \<Rightarrow> 0x10),
      fx_size = (case n of File bs \<Rightarrow> of_nat (length bs) | Directory \<Rightarrow> 0),
      fx_year = 2024, fx_month = 2, fx_day = 29, fx_hour = 12, fx_minute = 30, fx_second = 2\<rparr>"

definition mem_information ::
    "memory \<Rightarrow> volume \<Rightarrow> string \<Rightarrow> fx_status \<times> fx_information \<times> memory" where
  "mem_information w v p =
     (case map_of (nodes w) (fat_key v p) of
        None \<Rightarrow> (FX_NOT_FOUND, node_information Directory, w)
      | Some n \<Rightarrow> (FX_SUCCESS, node_information n, w))"

definition mem_rename :: "memory \<Rightarrow> volume \<Rightarrow> string \<Rightarrow> string \<Rightarrow> fx_status \<times> memory" where
  "mem_rename w v old new =
     (case map_of (nodes w) (fat_key v old) of
        None \<Rightarrow> (FX_NOT_FOUND, w)
      | Some n \<Rightarrow>
          if map_of (nodes w) (fat_key v new) \<noteq> None then (FX_ALREADY_CREATED, w)
          else (FX_SUCCESS, w\<lparr>nodes := (fat_key v new, n) # filter (\<lambda>x. fst x \<noteq> fat_key v old) (nodes w)\<rparr>))"

definition mem_delete :: "memory \<Rightarrow> volume \<Rightarrow> string \<Rightarrow> fx_status \<times> memory" where
  "mem_delete w v p =
     (case map_of (nodes w) (fat_key v p) of
        None \<Rightarrow> (FX_NOT_FOUND, w)
      | Some n \<Rightarrow> (FX_SUCCESS, w\<lparr>nodes := filter (\<lambda>x. fst x \<noteq> fat_key v p) (nodes w)\<rparr>))"

definition mem_create :: "node \<Rightarrow> memory \<Rightarrow> volume \<Rightarrow> string \<Rightarrow> fx_status \<times> memory" where
  "mem_create n w v p =
     (if map_of (nodes w) (fat_key v p) \<noteq> None then (FX_ALREADY_CREATED, w)
      else (FX_SUCCESS, w\<lparr>nodes := (fat_key v p, n) # nodes w\<rparr>))"

text \<open>The directory scanned is always the volume's root; names are reported without the slash.\<close>

definition mem_next :: "memory \<Rightarrow> volume \<Rightarrow> fx_status \<times> (string \<times> u32) \<times> memory" where
  "mem_next w v = (case scan w of [] \<Rightarrow> (FX_NO_MORE_ENTRIES, ([], 0), w)
                   | e # es \<Rightarrow> (FX_SUCCESS, e, w\<lparr>scan := es\<rparr>))"

definition mem_first :: "memory \<Rightarrow> volume \<Rightarrow> fx_status \<times> (string \<times> u32) \<times> memory" where
  "mem_first w v =
     mem_next (w\<lparr>scan := (''.'', 0x10) # (''..'', 0x10) #
       map (\<lambda>(k, n). (map (\<lambda>b. char_of (uint b)) (tl (snd k)), fx_attributes (node_information n))) (filter (\<lambda>x. fst (fst x) = v) (nodes w))\<rparr>) v"

definition fits :: "nat \<Rightarrow> bool" where
  "fits n \<longleftrightarrow> int n < 18446744073709551616"

definition mem_content :: "memory \<Rightarrow> nat \<Rightarrow> u8 list" where
  "mem_content w i =
     (case handles w i of
        None \<Rightarrow> []
      | Some (k, n) \<Rightarrow> (case map_of (nodes w) k of Some (File bs) \<Rightarrow> if fits (length bs) then bs else [] | _ \<Rightarrow> []))"

definition mem_offset :: "memory \<Rightarrow> nat \<Rightarrow> u64" where
  "mem_offset w i = (case handles w i of None \<Rightarrow> 0 | Some (k, n) \<Rightarrow> of_nat n)"

definition mem_store :: "memory \<Rightarrow> nat \<Rightarrow> u8 list \<Rightarrow> nat \<Rightarrow> memory" where
  "mem_store w i bs n =
     (case handles w i of
        None \<Rightarrow> w
      | Some (k, _) \<Rightarrow> w\<lparr>nodes := (k, File bs) # filter (\<lambda>x. fst x \<noteq> k) (nodes w), handles := (handles w)(i \<mapsto> (k, n))\<rparr>)"

definition mem_open ::
    "memory \<Rightarrow> volume \<Rightarrow> nat \<Rightarrow> string \<Rightarrow> open_type \<Rightarrow> fx_status \<times> memory" where
  "mem_open w v i p m =
     (case map_of (nodes w) (fat_key v p) of
        Some (File _) \<Rightarrow> (FX_SUCCESS, w\<lparr>handles := (handles w)(i \<mapsto> (fat_key v p, 0))\<rparr>)
      | Some Directory \<Rightarrow> (FX_NOT_A_FILE, w)
      | None \<Rightarrow> (FX_NOT_FOUND, w))"

definition mem_close :: "memory \<Rightarrow> nat \<Rightarrow> fx_status \<times> memory" where
  "mem_close w i = (if handles w i = None then (FX_NOT_OPEN, w) else (FX_SUCCESS, w\<lparr>handles := (handles w)(i := None)\<rparr>))"

definition mem_seek :: "memory \<Rightarrow> nat \<Rightarrow> u64 \<Rightarrow> fx_status \<times> memory" where
  "mem_seek w i p =
     (case handles w i of
        None \<Rightarrow> (FX_NOT_OPEN, w)
      | Some (k, _) \<Rightarrow> (FX_SUCCESS, w\<lparr>handles := (handles w)(i \<mapsto> (k, min (unat p) (length (mem_content w i))))\<rparr>))"

definition mem_read :: "memory \<Rightarrow> nat \<Rightarrow> u32 \<Rightarrow> fx_status \<times> (u8 list \<times> u32) \<times> memory" where
  "mem_read w i n =
     (case handles w i of
        None \<Rightarrow> (FX_NOT_OPEN, ([], 0), w)
      | Some (k, p) \<Rightarrow>
          let bs = take (unat n) (drop p (mem_content w i))
          in if bs = [] then (FX_END_OF_FILE, ([], 0), w)
             else (FX_SUCCESS, (bs, of_nat (length bs)), w\<lparr>handles := (handles w)(i \<mapsto> (k, p + length bs))\<rparr>))"

definition mem_write :: "memory \<Rightarrow> nat \<Rightarrow> u8 list \<Rightarrow> fx_status \<times> memory" where
  "mem_write w i bs =
     (let n = unat (mem_offset w i); c = mem_content w i
      in if handles w i = None then (FX_NOT_OPEN, w)
         else if \<not> fits (n + length bs) \<or> length c < n then (FX_NO_MORE_SPACE, w)
         else (FX_SUCCESS, mem_store w i (take n c @ bs @ drop (n + length bs) c) (n + length bs)))"

definition mem_truncate :: "memory \<Rightarrow> nat \<Rightarrow> u64 \<Rightarrow> fx_status \<times> memory" where
  "mem_truncate w i n =
     (if handles w i = None then (FX_NOT_OPEN, w)
      else (FX_SUCCESS, mem_store w i (take (unat n) (mem_content w i)) (min (unat n) (unat (mem_offset w i)))))"

definition memory_filex :: "memory filex" where
  "memory_filex =
     \<lparr>fx_directory_information_get = mem_information, fx_directory_rename = mem_rename, fx_file_rename = mem_rename,
      fx_directory_delete = mem_delete, fx_file_delete = mem_delete, fx_directory_create = mem_create Directory,
      fx_file_create = mem_create (File []), fx_directory_default_set = (\<lambda>w v p. (FX_SUCCESS, w)),
      fx_directory_first_full_entry_find = mem_first, fx_directory_next_full_entry_find = mem_next,
      fx_media_flush = (\<lambda>w v. (FX_SUCCESS, w)),
      fx_media_extended_space_available = (\<lambda>w v. (FX_SUCCESS, 1048576, w)),
      fx_media_total_sectors = (\<lambda>w v. 24576), fx_file_open = mem_open, fx_file_close = mem_close,
      fx_file_extended_seek = mem_seek, fx_file_read = mem_read, fx_file_write = mem_write,
      fx_file_extended_truncate_release = mem_truncate, fx_file_current_file_offset = mem_offset,
      fx_file_current_file_size = (\<lambda>w i. of_nat (length (mem_content w i))),
      fx_file_zero = (\<lambda>w i. w\<lparr>handles := (handles w)(i := None)\<rparr>),
      tx_mutex_get = (\<lambda>w. (TX_SUCCESS, w)), tx_mutex_put = (\<lambda>w. (TX_SUCCESS, w)),
      get_IPSR = interrupt, io_putchar = None, io_getchar = None\<rparr>"

section \<open>It has the documented behaviour\<close>

lemma fits_iff: "fits n \<longleftrightarrow> n < 2 ^ LENGTH(64)"
  by (simp add: fits_def)

lemma content_fits: "fits (length (mem_content w i))"
  by (auto simp: mem_content_def fits_def split: option.splits node.splits)

lemma unat_content_size: "unat (of_nat (length (mem_content w i)) :: u64) = length (mem_content w i)"
  using content_fits [of w i] by (simp add: unat_of_nat_small fits_iff)

lemma memory_size_law: "size_law memory_filex mem_content"
  by (simp add: size_law_def memory_filex_def unat_content_size)

lemma memory_seek_law: "seek_law memory_filex mem_content"
proof -
  have u: "unat (of_nat (min (unat (p :: u64)) n) :: u64) = min (unat p) n" for p n
  proof (rule unat_of_nat_small)
    have "unat p < 2 ^ LENGTH(64)" by (rule unsigned_less)
    then show "min (unat p) n < 2 ^ LENGTH(64)" by linarith
  qed
  show ?thesis
    by (auto simp: seek_law_def memory_filex_def mem_seek_def mem_content_def mem_offset_def u
        split: option.splits)
qed

lemma mem_store_content:
  "handles w i \<noteq> None \<Longrightarrow> fits (length bs) \<Longrightarrow> mem_content (mem_store w i bs n) i = bs"
  by (auto simp: mem_store_def mem_content_def)

lemma mem_store_offset:
  "handles w i \<noteq> None \<Longrightarrow> fits n \<Longrightarrow> unat (mem_offset (mem_store w i bs n) i) = n"
  by (auto simp: mem_store_def mem_offset_def unat_of_nat_small fits_iff)

lemma memory_write_law: "write_law memory_filex mem_content"
proof -
  have c: "mem_content (mem_store w i (take n c @ bs @ drop (n + length bs) c) m) i =
      take n c @ bs @ drop (n + length bs) c"
    if "handles w i \<noteq> None" "fits (n + length bs)" "c = mem_content w i" for w i n c m and bs :: "u8 list"
    using that content_fits [of w i] by (intro mem_store_content) (auto simp: fits_def min_def)
  show ?thesis
    by (auto simp: write_law_def memory_filex_def mem_write_def Let_def c mem_store_offset split: if_splits)
qed

lemma memory_truncate_law: "truncate_law memory_filex mem_content"
proof -
  have c: "mem_content (mem_store w i (take n (mem_content w i)) m) i = take n (mem_content w i)"
    if "handles w i \<noteq> None" for w i n m
    using that content_fits [of w i] by (intro mem_store_content) (auto simp: fits_def min_def)
  show ?thesis
    by (auto simp: truncate_law_def memory_filex_def mem_truncate_def c split: if_splits)
qed

lemma memory_status_law: "file_status_law memory_filex"
  by (auto simp: file_status_law_def memory_filex_def mem_seek_def mem_write_def mem_truncate_def filex_errno_def
      Let_def split: option.splits)

definition mem_names :: "memory \<Rightarrow> volume \<times> u8 list \<Rightarrow> node option" where
  "mem_names w = map_of (nodes w)"

lemma map_of_without: "map_of (filter (\<lambda>x. fst x \<noteq> k) xs) = (map_of xs)(k := None)"
  by (induction xs) auto

lemma memory_information_law: "information_law memory_filex mem_names"
  by (auto simp: information_law_def memory_filex_def mem_information_def mem_names_def filex_errno_def
      split: option.splits)

lemma memory_flush_law: "flush_law memory_filex mem_names"
  by (simp add: flush_law_def memory_filex_def)

lemma memory_rename_law: "rename_law memory_filex mem_names"
  by (auto simp: rename_law_def memory_filex_def mem_rename_def mem_names_def filex_errno_def map_of_without
      split: option.splits if_splits)

lemma memory_delete_law: "delete_law memory_filex mem_names"
  by (auto simp: delete_law_def memory_filex_def mem_delete_def mem_names_def filex_errno_def map_of_without
      split: option.splits)

lemmas content_laws = memory_size_law memory_seek_law memory_write_law memory_truncate_law memory_status_law

section \<open>A concrete adapter state\<close>

definition sample_memory :: memory where
  "sample_memory =
     \<lparr>nodes = [(fat_key Flash ''/a'', File [1, 2, 3]), (fat_key Flash ''/d'', Directory), (fat_key Flash ''/b'', File [9])],
      handles = (\<lambda>_. None), scan = [], interrupt = 0\<rparr>"

definition sample_fs :: "memory fs" where
  "sample_fs =
     \<lparr>world = sample_memory, errno_var = None, descriptors = replicate 16 empty_descriptor,
      directories = replicate 8 empty_stream, current_directory = ''/flash'', filesystem_initialized = True,
      rename_backup_sequence = 0, flash_mounted = True, sd_mounted = False\<rparr>"

lemma sample_inv: "registry_inv sample_fs"
  by code_simp

end
