(* ===== verification/Stream_Properties.thy ===== *)
theory Stream_Properties
  imports FileX_Memory
begin

text \<open>
  What the directory streams promise: \<open>opendir\<close> takes a complete snapshot of what FileX
  reports, without the dot entries and in its order, it returns whenever FileX ends its
  listing, and \<open>readdir\<close> hands the snapshot out once, from front to back.
\<close>

section \<open>Listings\<close>

text \<open>
  The sequence of entries FileX reports from a given answer on: \<open>reports fx v r es st w\<close> says
  that the answers are \<open>es\<close>, each with status success, and then \<open>st\<close>, leaving FileX in \<open>w\<close>.
\<close>

inductive reports ::
    "'w filex \<Rightarrow> volume \<Rightarrow> fx_status \<times> (string \<times> u32) \<times> 'w \<Rightarrow> (string \<times> u32) list \<Rightarrow> fx_status \<Rightarrow> 'w \<Rightarrow> bool"
  for fx v where
  last: "st \<noteq> FX_SUCCESS \<Longrightarrow> reports fx v (st, e, w) [] st w"
| more: "reports fx v (fx_directory_next_full_entry_find fx w v) es st w' \<Longrightarrow>
         reports fx v (FX_SUCCESS, e, w) (e # es) st w'"

inductive_cases reports_successE: "reports fx v (FX_SUCCESS, e, w) es st w'"

definition listed :: "string \<times> u32 \<Rightarrow> string \<times> dirent_type" where
  "listed e = (fst e, if snd e AND FX_DIRECTORY \<noteq> 0 then DT_DIR else DT_REG)"

definition visible :: "(string \<times> u32) list \<Rightarrow> (string \<times> dirent_type) list" where
  "visible es = map listed (filter (\<lambda>e. \<not> dot_entry (fst e)) es)"

text \<open>A listing of FileX comes to an end: some measure of its state drops with every entry.\<close>

definition listing_ends :: "'w filex \<Rightarrow> ('w \<Rightarrow> nat) \<Rightarrow> bool" where
  "listing_ends fx left \<longleftrightarrow>
     (\<forall>w v e w'. fx_directory_next_full_entry_find fx w v = (FX_SUCCESS, e, w') \<longrightarrow> left w' < left w)"

lemma listing_reported:
  assumes "listing_ends fx left"
  shows "\<exists>es st w'. reports fx v r es st w'"
proof -
  obtain st e w where r: "r = (st, e, w)" by (metis prod_cases3)
  have "\<exists>es st' w'. reports fx v (st, e, w) es st' w'" for st e w
  proof (induction "left w" arbitrary: st e w rule: less_induct)
    case less
    show ?case
    proof (cases "st = FX_SUCCESS")
      case False
      then show ?thesis by (blast intro: reports.last)
    next
      case True
      obtain st1 e1 w1 where n: "fx_directory_next_full_entry_find fx w v = (st1, e1, w1)" by (metis prod_cases3)
      have "\<exists>es st' w'. reports fx v (st1, e1, w1) es st' w'"
      proof (cases "st1 = FX_SUCCESS")
        case True
        with n assms have "left w1 < left w" unfolding listing_ends_def by blast
        from less [OF this] show ?thesis .
      next
        case False
        then show ?thesis by (blast intro: reports.last)
      qed
      with n True show ?thesis by (metis reports.more)
    qed
  qed
  then show ?thesis unfolding r .
qed

section \<open>The scans\<close>

lemma scan_reported:
  assumes "reports fx v r es st w'" and "\<And>n. n < length acc + length es \<Longrightarrow> alloc_ok n"
  shows "scan_entries fx alloc_ok v r acc = Some (Inr (st, acc @ visible es), w')"
  using assms
proof (induction arbitrary: acc rule: reports.induct)
  case (last st e w)
  then show ?case by (subst scan_entries.simps) (auto simp: visible_def split: prod.splits)
next
  case (more w es st w' e)
  show ?case
  proof (cases "dot_entry (fst e)")
    case True
    with more.IH [of acc] more.prems show ?thesis
      by (subst scan_entries.simps) (auto simp: visible_def split: prod.splits)
  next
    case False
    have "scan_entries fx alloc_ok v (fx_directory_next_full_entry_find fx w v) (acc @ [listed e]) =
        Some (Inr (st, (acc @ [listed e]) @ visible es), w')"
      using more.prems by (intro more.IH) simp
    moreover have "alloc_ok (length acc)" using more.prems by simp
    ultimately show ?thesis using False
      by (subst scan_entries.simps) (auto simp: visible_def listed_def split: prod.splits)
  qed
qed

lemma scan_returns:
  assumes "reports fx v r es st w'"
  shows "scan_entries fx alloc_ok v r acc \<noteq> None"
  using assms
proof (induction arbitrary: acc rule: reports.induct)
  case (last st e w)
  then show ?case by (subst scan_entries.simps) (auto split: prod.splits)
next
  case (more w es st w' e)
  then show ?case by (subst scan_entries.simps) (auto split: prod.splits)
qed

lemma skip_returns:
  assumes "reports fx v r es st w'"
  shows "skip_dot_entries fx v r \<noteq> None"
  using assms
proof (induction rule: reports.induct)
  case (last st e w)
  then show ?case by (subst skip_dot_entries.simps) (auto split: prod.splits)
next
  case (more w es st w' e)
  then show ?case by (subst skip_dot_entries.simps) (auto split: prod.splits)
qed

lemma require_empty_returns:
  assumes "listing_ends fx left"
  shows "require_empty_directory_unlocked fx p s \<noteq> None"
proof -
  have "skip_dot_entries fx v r \<noteq> None" for v r
  proof -
    from listing_reported [OF assms, of v r] obtain es st w' where "reports fx v r es st w'" by metis
    then show ?thesis by (rule skip_returns)
  qed
  then have "(skip_dot_entries fx v r = None) = False" for v r by simp
  then show ?thesis
    by (simp add: require_empty_directory_unlocked_def Let_def del: not_None_eq split: sum.splits prod.splits option.splits)
qed

lemma fill_stream_returns:
  assumes "listing_ends fx left"
  shows "fill_stream fx alloc_ok slot n r s \<noteq> None"
proof -
  have "scan_entries fx alloc_ok v a acc \<noteq> None" for v a acc
  proof -
    from listing_reported [OF assms, of v a] obtain es st w' where "reports fx v a es st w'" by metis
    then show ?thesis by (rule scan_returns)
  qed
  then have "(scan_entries fx alloc_ok v a acc = None) = False" for v a acc by simp
  then show ?thesis
    by (simp add: fill_stream_def Let_def del: not_None_eq split: prod.splits option.splits sum.splits)
qed

section \<open>Walking a stream\<close>

fun read_entries :: "nat \<Rightarrow> nat \<Rightarrow> 'w fs \<Rightarrow> dirent option list \<times> 'w fs" where
  "read_entries 0 i s = ([], s)"
| "read_entries (Suc n) i s =
     (let (e, s1) = readdir_body i s; (es, s2) = read_entries n i s1 in (e # es, s2))"

definition entry_of :: "dirent \<Rightarrow> string \<times> dirent_type" where
  "entry_of e = (d_name e, d_type e)"

text \<open>
  \<open>readdir\<close> hands out the snapshot once. From any position of an open stream, \<open>n\<close> calls
  in a row return the next \<open>n\<close> entries of the snapshot in order, by name and type, and the
  null pointer for every call beyond the end, which the stream never leaves again.
\<close>

theorem readdir_enumerates:
  assumes "i < length (directories s)" and "0 \<le> ds_position (directories s ! i)"
  shows "map (map_option entry_of) (fst (read_entries n i s)) =
    (let rest = drop (nat (ds_position (directories s ! i))) (ds_entries (directories s ! i))
     in map Some (take n rest) @ replicate (n - length rest) None)"
  using assms
proof (induction n arbitrary: s)
  case 0
  then show ?case by simp
next
  case (Suc n)
  let ?d = "directories s ! i"
  obtain e s1 where r: "readdir_body i s = (e, s1)" by fastforce
  show ?case
  proof (cases "ds_position ?d < int (length (ds_entries ?d))")
    case True
    define k where "k = nat (ds_position ?d)"
    have k: "k < length (ds_entries ?d)" "ds_position ?d = int k" using True Suc.prems(2) by (simp_all add: k_def)
    obtain nm ty where en: "ds_entries ?d ! k = (nm, ty)" by fastforce
    from r k en True have e: "map_option entry_of e = Some (ds_entries ?d ! k)"
      and s1: "directories s1 ! i = ?d\<lparr>ds_entry := e, ds_position := int k + 1\<rparr>" "length (directories s1) = length (directories s)"
      using Suc.prems(1) by (auto simp: readdir_body_def Let_def entry_of_def)
    have "map (map_option entry_of) (fst (read_entries n i s1)) =
        (let rest = drop (Suc k) (ds_entries ?d) in map Some (take n rest) @ replicate (n - length rest) None)"
      using Suc.IH [of s1] Suc.prems s1 by (simp add: nat_add_distrib)
    with r e k show ?thesis
      by (auto simp: Let_def Cons_nth_drop_Suc [symmetric] split: prod.splits)
  next
    case False
    with r Suc.prems have "e = None" "s1 = s" by (auto simp: readdir_body_def Let_def)
    moreover from False have "drop (nat (ds_position ?d)) (ds_entries ?d) = []" by simp
    ultimately show ?thesis
      using Suc.IH [OF Suc.prems] r by (auto simp: Let_def split: prod.splits)
  qed
qed

definition sample_stream :: "memory fs" where
  "sample_stream = snd (the (opendir_call memory_filex (\<lambda>_. True) (Some ''.'') sample_fs))"

theorem readdir_enumerates_witness:
  "map (map_option entry_of) (fst (read_entries 4 0 sample_stream)) =
     [Some (''A'', DT_REG), Some (''D'', DT_DIR), Some (''B'', DT_REG), None]"
proof -
  have h: "0 < length (directories sample_stream)" "0 \<le> ds_position (directories sample_stream ! 0)"
    by code_simp+
  show ?thesis unfolding readdir_enumerates [OF h] by code_simp
qed

section \<open>Opening a stream\<close>

text \<open>
  \<open>opendir\<close> records exactly what FileX lists. If the listing of the directory consists
  of \<open>es\<close> and ends regularly, and memory suffices, the stream is opened at position 0 with
  the entries of \<open>es\<close> in FileX's order, only \<open>.\<close> and \<open>..\<close> left out, each marked as directory
  or file by its attributes; no other stream changes.
\<close>

theorem opendir_snapshot:
  assumes "fx_directory_default_set fx (world s) (media_of r) (local r) = (FX_SUCCESS, w1)"
    and "reports fx (media_of r) (fx_directory_first_full_entry_find fx w1 (media_of r)) es FX_NO_MORE_ENTRIES w2"
    and "\<And>n. n < length es \<Longrightarrow> alloc_ok n" and "slot < length (directories s)"
  shows "\<exists>s'. fill_stream fx alloc_ok slot normalized r s = Some (Some slot, s') \<and>
    directories s' ! slot = \<lparr>ds_allocated = True, ds_position = 0, ds_path = normalized,
      ds_entries = visible es, ds_entry = None\<rparr> \<and>
    (\<forall>j. j \<noteq> slot \<longrightarrow> directories s' ! j = directories s ! j)"
proof -
  have "scan_entries fx alloc_ok (media_of r) (fx_directory_first_full_entry_find fx w1 (media_of r)) [] =
      Some (Inr (FX_NO_MORE_ENTRIES, [] @ visible es), w2)"
    using assms(2,3) by (intro scan_reported) simp_all
  with assms(1,4) show ?thesis
    by (simp add: fill_stream_def claim_stream_def Let_def)
qed

lemma sample_listing:
  "reports memory_filex Flash (fx_directory_first_full_entry_find memory_filex sample_memory Flash)
     [(''.'', 16), (''..'', 16), (''A'', 32), (''D'', 16), (''B'', 32)] FX_NO_MORE_ENTRIES sample_memory"
proof -
  have n: "fx_directory_next_full_entry_find memory_filex (sample_memory\<lparr>scan := x # xs\<rparr>) Flash =
      (FX_SUCCESS, x, sample_memory\<lparr>scan := xs\<rparr>)" for x xs
    by (simp add: memory_filex_def mem_next_def)
  have e: "fx_directory_next_full_entry_find memory_filex (sample_memory\<lparr>scan := []\<rparr>) Flash =
      (FX_NO_MORE_ENTRIES, ([], 0), sample_memory\<lparr>scan := []\<rparr>)"
    by (simp add: memory_filex_def mem_next_def)
  have s: "sample_memory\<lparr>scan := []\<rparr> = sample_memory" by (simp add: sample_memory_def)
  have l: "map (\<lambda>(k, n). (map (\<lambda>b. char_of (uint b)) (tl (snd k)), fx_attributes (node_information n)))
      (filter (\<lambda>x. fst (fst x) = Flash) (nodes sample_memory)) = [(''A'', 32), (''D'', 16), (''B'', 32)]"
    by code_simp
  have "fx_directory_first_full_entry_find memory_filex sample_memory Flash =
      (FX_SUCCESS, (''.'', 16), sample_memory\<lparr>scan := [(''..'', 16), (''A'', 32), (''D'', 16), (''B'', 32)]\<rparr>)"
    by (simp add: memory_filex_def mem_first_def mem_next_def l)
  then show ?thesis
    by (simp only:) (intro reports.more, simp only: n e, (rule reports.more | simp only: n e)+,
      simp only: s, rule reports.last, simp)
qed

theorem opendir_snapshot_witness:
  "\<exists>s'. fill_stream memory_filex (\<lambda>_. True) 0 ''/flash''
       \<lparr>media = Some Flash, rp_volume = Flash, local = ''/'', virtual_root = False, mount_root = True\<rparr> sample_fs = Some (Some 0, s') \<and>
     ds_entries (directories s' ! 0) = [(''A'', DT_REG), (''D'', DT_DIR), (''B'', DT_REG)]"
proof -
  let ?r = "\<lparr>media = Some Flash, rp_volume = Flash, local = ''/'', virtual_root = False, mount_root = True\<rparr>"
  have m: "media_of ?r = Flash" "world sample_fs = sample_memory"
    by (simp_all add: media_of_def sample_fs_def)
  have d: "fx_directory_default_set memory_filex (world sample_fs) (media_of ?r) (local ?r) = (FX_SUCCESS, sample_memory)"
    by (simp add: memory_filex_def sample_fs_def)
  have l: "reports memory_filex (media_of ?r)
      (fx_directory_first_full_entry_find memory_filex sample_memory (media_of ?r))
      [(''.'', 16), (''..'', 16), (''A'', 32), (''D'', 16), (''B'', 32)] FX_NO_MORE_ENTRIES sample_memory"
    unfolding m by (rule sample_listing)
  have z: "0 < length (directories sample_fs)" by (simp add: sample_fs_def)
  have v: "visible [(''.'', 16), (''..'', 16), (''A'', 32), (''D'', 16), (''B'', 32)] =
      [(''A'', DT_REG), (''D'', DT_DIR), (''B'', DT_REG)]" by code_simp
  from opendir_snapshot [OF d l _ z, of "\<lambda>_. True" "''/flash''"] v show ?thesis by fastforce
qed

end
