(* ===== verification/Storage_Properties.thy ===== *)
theory Storage_Properties
  imports Storage
begin

text \<open>
  What the storage layer promises: page programs stay inside a page and cover the data, no
  command leaves the flash, initialisation reports exactly the volumes it has mounted, and
  the wait for the SD card ends when the tick counter advances.
\<close>

section \<open>Page programs\<close>

function pages :: "u32 \<Rightarrow> u8 list \<Rightarrow> (u32 \<times> u8 list) list" where
  "pages offset input =
     (if input = [] then []
      else
        let n = page_bytes offset input
        in (offset, take n input) # pages (offset + of_nat n) (drop n input))"
  by pat_completeness auto

termination pages
  by (relation "measure (\<lambda>(offset, input). length input)") (auto simp: page_bytes_positive)

declare pages.simps [simp del]

fun run_pages :: "'w board \<Rightarrow> (u32 \<times> u8 list) list \<Rightarrow> 'w storage \<Rightarrow> bool \<times> 'w storage" where
  "run_pages b [] s = (True, s)"
| "run_pages b ((offset, chunk) # ps) s =
     (let (ok, s1) = program_page b offset chunk s in if \<not> ok then (False, s1) else run_pages b ps s1)"

lemma program_pages_run: "program_pages b offset input s = run_pages b (pages offset input) s"
proof (induction b offset input s rule: program_pages.induct)
  case (1 b offset input s)
  show ?case
  proof (cases "input = []")
    case True
    then show ?thesis by (simp add: program_pages.simps pages.simps)
  next
    case False
    then show ?thesis
      using 1 by (subst program_pages.simps, subst pages.simps) (auto simp: Let_def split: prod.splits)
  qed
qed

lemma concat_pages: "concat (map snd (pages offset input)) = input"
  by (induction offset input rule: pages.induct) (subst pages.simps, auto simp: Let_def)

lemma low_byte_bound: "unat (offset AND 0xFF :: u32) \<le> 255"
proof -
  have "offset AND 0xFF \<le> 0xFF" by (rule word_and_le1)
  then show ?thesis by (simp add: word_le_nat_alt)
qed

lemma pages_inside:
  "(o', c) \<in> set (pages offset input) \<Longrightarrow> c \<noteq> [] \<and> unat (o' AND 0xFF) + length c \<le> 256"
proof (induction offset input rule: pages.induct)
  case (1 offset input)
  show ?case
  proof (cases "input = []")
    case True
    with 1(2) show ?thesis by (simp add: pages.simps)
  next
    case False
    have "page_bytes offset input \<le> 256 - unat (offset AND 0xFF)" by (simp add: page_bytes_def)
    with low_byte_bound [of offset] page_bytes_positive [OF False, of offset] 1 False show ?thesis
      by (subst (asm) pages.simps) (auto simp: Let_def)
  qed
qed

lemma pages_addresses:
  "k < length (pages offset input) \<Longrightarrow>
   fst (pages offset input ! k) = offset + of_nat (length (concat (map snd (take k (pages offset input)))))"
proof (induction offset input arbitrary: k rule: pages.induct)
  case (1 offset input)
  let ?n = "page_bytes offset input"
  show ?case
  proof (cases "input = []")
    case True
    with 1(2) show ?thesis by (simp add: pages.simps)
  next
    case False
    have p: "pages offset input = (offset, take ?n input) # pages (offset + of_nat ?n) (drop ?n input)"
      using False by (subst pages.simps) (simp add: Let_def)
    have l: "length (take ?n input) = ?n" by (simp add: page_bytes_def)
    show ?thesis
    proof (cases k)
      case 0
      with p show ?thesis by simp
    next
      case (Suc j)
      with 1(2) p have "j < length (pages (offset + of_nat ?n) (drop ?n input))" by simp
      from "1.IH" [OF False refl this] show ?thesis
        unfolding p Suc using l by (simp add: add.assoc)
    qed
  qed
qed

text \<open>
  C7. \<open>qspi_write\<close> programs the flash page by page. A write inside the device is carried out
  as a sequence of page programs, stopped by the first failure, whose chunks are non-empty,
  lie each inside one 256-byte page (a page program that runs over the end would wrap to
  its start), follow each other without gap from the offset, and together are the data. A
  write that leaves the device is refused before any command is sent.
\<close>

theorem qspi_write_pages:
  "if unat offset + length source \<le> unat flash_bytes
   then \<exists>ps. qspi_write b offset source s = run_pages b ps s \<and> concat (map snd ps) = source \<and>
     (\<forall>k<length ps. fst (ps ! k) = offset + of_nat (length (concat (map snd (take k ps)))) \<and>
        snd (ps ! k) \<noteq> [] \<and> unat (fst (ps ! k) AND 0xFF) + length (snd (ps ! k)) \<le> 256)
   else length source < 2 ^ 32 \<longrightarrow> qspi_write b offset source s = (False, s)"
proof (cases "unat offset + length source \<le> unat flash_bytes")
  case True
  then have o: "offset \<le> flash_bytes" by (simp add: word_le_nat_alt)
  have f: "unat flash_bytes = 16777216" by (simp add: flash_bytes_def)
  have "unat (of_nat (length source) :: u32) = length source"
    using True f by (intro unat_of_nat_small) simp
  moreover have "unat (flash_bytes - offset) = unat flash_bytes - unat offset"
    using o by (simp add: unat_sub)
  ultimately have "\<not> (offset > flash_bytes \<or> of_nat (length source) > flash_bytes - offset)"
    using True o by (simp add: word_less_nat_alt word_le_nat_alt)
  then have "qspi_write b offset source s = run_pages b (pages offset source) s"
    by (simp add: qspi_write_def program_pages_run)
  moreover have "snd (pages offset source ! k) \<noteq> [] \<and>
      unat (fst (pages offset source ! k) AND 0xFF) + length (snd (pages offset source ! k)) \<le> 256"
    if "k < length (pages offset source)" for k
    using pages_inside [of "fst (pages offset source ! k)" "snd (pages offset source ! k)" offset source] that by simp
  ultimately show ?thesis
    using True concat_pages [of offset source] pages_addresses [of _ offset source]
    by (auto intro!: exI [of _ "pages offset source"])
next
  case False
  show ?thesis
  proof (cases "offset > flash_bytes")
    case True
    with False show ?thesis by (simp add: qspi_write_def)
  next
    case o: False
    have "unat (flash_bytes - offset) = unat flash_bytes - unat offset"
      using o by (simp add: unat_sub not_less)
    moreover have "length source < 2 ^ 32 \<Longrightarrow> unat (of_nat (length source) :: u32) = length source"
      by (intro unat_of_nat_small) simp
    ultimately have "length source < 2 ^ 32 \<Longrightarrow> of_nat (length source) > flash_bytes - offset"
      using False o by (simp add: word_less_nat_alt)
    with False show ?thesis by (simp add: qspi_write_def)
  qed
qed

theorem qspi_write_pages_witness:
  "\<forall>(b :: unit board) s. \<exists>ps. qspi_write b 0xFE [1, 2, 3] s = run_pages b ps s \<and> concat (map snd ps) = [1, 2, 3] \<and>
     (\<forall>k<length ps. unat (fst (ps ! k) AND 0xFF) + length (snd (ps ! k)) \<le> 256)"
proof (intro allI)
  fix b :: "unit board" and s
  have f: "unat (0xFE :: u32) + length [1, 2, 3 :: u8] \<le> unat flash_bytes" by (simp add: flash_bytes_def)
  from qspi_write_pages [of "0xFE" "[1, 2, 3]" b s, unfolded if_P [OF f]]
  show "\<exists>ps. qspi_write b 0xFE [1, 2, 3] s = run_pages b ps s \<and> concat (map snd ps) = [1, 2, 3] \<and>
     (\<forall>k<length ps. unat (fst (ps ! k) AND 0xFF) + length (snd (ps ! k)) \<le> 256)" by blast
qed

section \<open>Mounted volumes\<close>

definition mount_flags :: "'w storage \<Rightarrow> (bool \<times> bool) \<times> (bool \<times> bool)" where
  "mount_flags s = ((st_flash_mounted s, dg_flash_mounted (diag s)), (st_sd_mounted s, dg_sd_mounted (diag s)))"

text \<open>
  LevelX and the media services of FileX know nothing of the mount flags: they reach the
  storage state through the drivers only, and no driver writes them.
\<close>

definition flags_law :: "'w board \<Rightarrow> bool" where
  "flags_law b \<longleftrightarrow>
     (\<forall>s. mount_flags (lx_nor_flash_initialize b s) = mount_flags s) \<and>
     (\<forall>s. mount_flags (snd (lx_nor_flash_open b (nor_driver_initialize b) s)) = mount_flags s) \<and>
     (\<forall>s. mount_flags (snd (lx_nor_flash_extended_cache_enable b s)) = mount_flags s) \<and>
     (\<forall>s. mount_flags (snd (lx_nor_flash_close b s)) = mount_flags s) \<and>
     (\<forall>n s r s'. fx_media_format b (levelx_media_driver b) n s = Some (r, s') \<longrightarrow> mount_flags s' = mount_flags s) \<and>
     (\<forall>s r s'. fx_media_open b Flash (levelx_media_driver b) s = Some (r, s') \<longrightarrow> mount_flags s' = mount_flags s) \<and>
     (\<forall>s r s'. fx_media_open b Sd (direct_media_driver b) s = Some (r, s') \<longrightarrow> mount_flags s' = mount_flags s)"

lemma diagnose_flags:
  "dg_flash_mounted (f (diag s)) = dg_flash_mounted (diag s) \<Longrightarrow> dg_sd_mounted (f (diag s)) = dg_sd_mounted (diag s) \<Longrightarrow>
   mount_flags (diagnose f s) = mount_flags s"
  by (simp add: mount_flags_def diagnose_def)

lemma flags_simps [simp]:
  "mount_flags (s\<lparr>hw := w\<rparr>) = mount_flags s"
  "mount_flags (s\<lparr>nor_open := x\<rparr>) = mount_flags s"
  by (simp_all add: mount_flags_def)

lemma flags_checked [simp]: "mount_flags (snd (checked b r s)) = mount_flags s"
  by (auto simp: checked_def note_qspi_error_def diagnose_flags Let_def split: prod.splits)

lemma flags_qspi [simp]:
  "mount_flags (snd (qspi_command b i a am dm n d s)) = mount_flags s"
  "mount_flags (snd (qspi_simple b i s)) = mount_flags s"
  "mount_flags (snd (qspi_write_enable b s)) = mount_flags s"
  "mount_flags (snd (qspi_wait_ready b s)) = mount_flags s"
  by (simp_all add: qspi_command_def qspi_simple_def qspi_write_enable_def qspi_wait_ready_def)

lemma flags_eqD: "f s = (x, s') \<Longrightarrow> (\<And>s. mount_flags (snd (f s)) = mount_flags s) \<Longrightarrow> mount_flags s' = mount_flags s"
  by (metis snd_conv)

lemmas flags_dests = flags_eqD [OF _ flags_qspi(1)] flags_eqD [OF _ flags_qspi(2)] flags_eqD [OF _ flags_qspi(3)]
  flags_eqD [OF _ flags_qspi(4)] flags_eqD [OF _ flags_checked]

lemma flags_receive: "qspi_receive b n s = (r, s') \<Longrightarrow> mount_flags s' = mount_flags s"
  by (auto simp: qspi_receive_def Let_def split: prod.splits dest: flags_dests)

lemma flags_read_register: "qspi_read_register b i s = (r, s') \<Longrightarrow> mount_flags s' = mount_flags s"
  by (auto simp: qspi_read_register_def Let_def split: prod.splits if_splits dest!: flags_dests flags_receive)

lemma flags_enable_quad: "enable_quad b x y s = (r, s') \<Longrightarrow> mount_flags s' = mount_flags s"
  by (auto simp: enable_quad_def Let_def diagnose_flags split: prod.splits if_splits option.splits
      dest!: flags_dests flags_read_register)

lemma flags_check_quad: "check_quad b s = (r, s') \<Longrightarrow> mount_flags s' = mount_flags s"
  by (auto simp: check_quad_def split: prod.splits if_splits option.splits
      dest!: flags_read_register flags_enable_quad)

lemma flags_initialize_qspi: "initialize_qspi b s = (r, s') \<Longrightarrow> mount_flags s' = mount_flags s"
  by (auto simp: initialize_qspi_def Let_def diagnose_flags split: prod.splits if_splits
      dest!: flags_dests flags_check_quad)

lemma flags_sd_card: "initialize_sd_card b w n s = (r, s') \<Longrightarrow> mount_flags s' = mount_flags s"
  by (auto simp: initialize_sd_card_def Let_def diagnose_flags split: prod.splits if_splits)

lemma flags_bring_up: "bring_up_sd b s = (r, s') \<Longrightarrow> mount_flags s' = mount_flags s"
  by (auto simp: bring_up_sd_def Let_def diagnose_flags split: prod.splits if_splits dest!: flags_sd_card)

lemma flags_open_levelx:
  assumes "flags_law b" and "open_levelx b s = (r, s')"
  shows "mount_flags s' = mount_flags s"
  using assms unfolding flags_law_def open_levelx_def
  by (auto simp: Let_def diagnose_flags split: prod.splits if_splits) (metis snd_conv)+

lemma flags_close_levelx:
  assumes "flags_law b" and "close_levelx b s = (r, s')"
  shows "mount_flags s' = mount_flags s"
  using assms unfolding flags_law_def close_levelx_def
  by (auto simp: Let_def split: prod.splits if_splits) (metis snd_conv)

lemma flags_format:
  assumes "flags_law b" and "format_flash b x s = Some (r, s')"
  shows "mount_flags s' = mount_flags s"
  using assms unfolding flags_law_def format_flash_def
  by (fastforce simp: diagnose_flags split: option.splits if_splits)

text \<open>Mounting one volume makes its flag and its diagnostic agree with the answer and leaves the other alone.\<close>

lemma mount_flash_flags:
  assumes "flags_law b" and "mount_flash b s = Some (ok, s')"
  shows "mount_flags s' = ((ok, ok), snd (mount_flags s))"
proof -
  from assms(2) obtain st s1 where "fx_media_open b Flash (levelx_media_driver b) s = Some (st, s1)"
    and e: "ok = (st = FX_SUCCESS)" "s' = diagnose (flash_filex_status_update (\<lambda>_. st) \<circ> dg_flash_mounted_update (\<lambda>_. ok))
                     (s1\<lparr>st_flash_mounted := ok\<rparr>)"
    by (auto simp: mount_flash_def Let_def split: option.splits)
  then have "mount_flags s1 = mount_flags s" using assms(1) by (auto simp: flags_law_def)
  with e show ?thesis by (simp add: mount_flags_def diagnose_def)
qed

lemma start_flash_flags:
  assumes law: "flags_law b" and r: "start_flash b s = Some (ok, s')"
    and start: "fst (mount_flags s) = (False, False)"
  shows "mount_flags s' = ((ok, ok), snd (mount_flags s))"
proof -
  have early: "mount_flags s = ((False, False), snd (mount_flags s))" using start by (metis prod.collapse)
  let ?s2 = "lx_nor_flash_initialize b (diagnose (dg_flash_blocks_update (\<lambda>_. flash_blocks)) s)"
  have f2: "mount_flags ?s2 = mount_flags s" using law by (simp add: flags_law_def diagnose_flags)
  obtain st s3 where o: "open_levelx b ?s2 = (st, s3)" by fastforce
  let ?s4 = "diagnose (flash_logical_sectors_update (\<lambda>_. flash_filex_sectors)) s3"
  have f3: "mount_flags s3 = mount_flags s" "mount_flags ?s4 = mount_flags s"
    using flags_open_levelx [OF law o] f2 by (simp_all add: diagnose_flags)
  obtain st5 s5 where c: "close_levelx b ?s4 = (st5, s5)" by fastforce
  note f5 = flags_close_levelx [OF law c, unfolded f3]
  have m: "mount_flags s' = ((ok, ok), snd (mount_flags s))"
    if "format_flash b x s5 = Some (True, s6)" "mount_flash b s6 = Some (ok, s')" for x s6
    using mount_flash_flags [OF law that(2)] flags_format [OF law that(1)] f5 by simp
  have n: "mount_flags s6 = mount_flags s" if "format_flash b x s5 = Some (y, s6)" for x y s6
    using flags_format [OF law that] f5 by simp
  from r o c early f3 f5 m n show ?thesis
    unfolding start_flash_def
    by (auto simp: Let_def split: if_splits option.splits bool.splits)
qed

lemma initialize_flash_flags:
  assumes law: "flags_law b" and r: "initialize_flash_media b s = Some (ok, s')"
    and start: "fst (mount_flags s) = (False, False)"
  shows "mount_flags s' = ((ok, ok), snd (mount_flags s))"
proof -
  obtain k s1 where q: "initialize_qspi b s = (k, s1)" by fastforce
  have f1: "mount_flags s1 = mount_flags s" using flags_initialize_qspi [OF q] .
  show ?thesis
  proof (cases k)
    case True
    then have "start_flash b s1 = Some (ok, s')" using r q by (simp add: initialize_flash_media_def)
    from start_flash_flags [OF law this] start show ?thesis by (simp add: f1)
  next
    case False
    then show ?thesis using r q f1 start by (auto simp: initialize_flash_media_def) (metis prod.collapse)
  qed
qed

lemma flags_erase: "qspi_erase b p s = (r, s') \<Longrightarrow> mount_flags s' = mount_flags s"
  by (auto simp: qspi_erase_def Let_def split: prod.splits if_splits dest!: flags_dests)

lemma flags_erase_blocks: "erase_blocks b k n s = (r, s') \<Longrightarrow> mount_flags s' = mount_flags s"
  by (induction b k n s rule: erase_blocks.induct) (auto split: prod.splits if_splits dest!: flags_erase)

text \<open>The start that erases the flash first is the other one on an erased flash, or fails at a block that cannot be erased.\<close>

lemma initialize_erased_flash:
  assumes law: "flags_law b" and r: "initialize_erased_flash_media b s = Some (ok, s')"
    and start: "fst (mount_flags s) = (False, False)"
  shows "mount_flags s' = ((ok, ok), snd (mount_flags s))" "ok \<Longrightarrow> \<exists>s1 s2. initialize_qspi b s = (True, s1) \<and>
    erase_blocks b 0 (unat flash_blocks) s1 = (True, s2) \<and> start_flash b s2 = Some (ok, s')"
proof -
  obtain k s1 where q: "initialize_qspi b s = (k, s1)" by fastforce
  obtain e s2 where w: "erase_blocks b 0 (unat flash_blocks) s1 = (e, s2)" by fastforce
  have f: "mount_flags s1 = mount_flags s" "mount_flags s2 = mount_flags s"
    using flags_initialize_qspi [OF q] flags_erase_blocks [OF w] by simp_all
  have early: "mount_flags s = ((False, False), snd (mount_flags s))" using start by (metis prod.collapse)
  show "mount_flags s' = ((ok, ok), snd (mount_flags s))"
    using r q w f early start start_flash_flags [OF law, of s2 ok s']
    by (auto simp: initialize_erased_flash_media_def split: if_splits)
  show "ok \<Longrightarrow> \<exists>s1 s2. initialize_qspi b s = (True, s1) \<and>
    erase_blocks b 0 (unat flash_blocks) s1 = (True, s2) \<and> start_flash b s2 = Some (ok, s')"
    using r q w by (auto simp: initialize_erased_flash_media_def split: if_splits)
qed

lemma finish_sd_flags:
  "mount_flags (snd (finish_sd (st, s))) = (fst (mount_flags s), (fst (finish_sd (st, s)), fst (finish_sd (st, s))))"
  by (simp add: finish_sd_def mount_flags_def diagnose_def Let_def)

lemma retry_sd_flags:
  assumes law: "flags_law b" and r: "retry_sd b st s = Some (ok, s')"
  shows "mount_flags s' = (fst (mount_flags s), (ok, ok))"
proof -
  let ?s1 = "diagnose (sd_fallback_error_update (\<lambda>_. sd_error (diag s)) \<circ> sd_fallback_used_update (\<lambda>_. True)) s"
  let ?p = "prepare_sd_mount_retry b ?s1"
  have p: "mount_flags ?p = (fst (mount_flags s), (False, False))"
    by (simp add: prepare_sd_mount_retry_def mount_flags_def diagnose_def)
  obtain k s2 where i: "initialize_sd_card b SDMMC_BUS_WIDE_1B 1 ?p = (k, s2)" by fastforce
  note f2 = flags_sd_card [OF i, unfolded p]
  show ?thesis
  proof (cases k)
    case False
    with r i f2 show ?thesis by (auto simp: retry_sd_def Let_def diagnose_flags split: if_splits)
  next
    case True
    with r i obtain st' s3 where m: "fx_media_open b Sd (direct_media_driver b) s2 = Some (st', s3)"
      and e: "(ok, s') = finish_sd (st', s3)" by (auto simp: retry_sd_def Let_def)
    have "mount_flags s3 = mount_flags s2" using law m by (auto simp: flags_law_def)
    with finish_sd_flags [of st' s3] e f2 show ?thesis by (metis fst_conv snd_conv)
  qed
qed

lemma initialize_sd_flags:
  assumes law: "flags_law b" and r: "initialize_sd_media b s = Some (ok, s')"
    and start: "snd (mount_flags s) = (False, False)"
  shows "mount_flags s' = (fst (mount_flags s), (ok, ok))"
proof -
  let ?s0 = "diagnose (sd_detect_level_update (\<lambda>_. SD_CARD_DETECT b (hw s))) s"
  obtain k s1 where u: "bring_up_sd b ?s0 = (k, s1)" by fastforce
  have f1: "mount_flags s1 = mount_flags s" using flags_bring_up [OF u] by (simp add: diagnose_flags)
  have early: "mount_flags s = (fst (mount_flags s), (False, False))" using start by (metis prod.collapse)
  show ?thesis
  proof (cases k)
    case False
    with r u f1 early show ?thesis by (auto simp: initialize_sd_media_def Let_def)
  next
    case True
    with r u obtain st s2 where m: "fx_media_open b Sd (direct_media_driver b) s1 = Some (st, s2)"
      and c: "retry_sd b st s2 = Some (ok, s') \<or> (ok, s') = finish_sd (st, s2)"
      by (auto simp: initialize_sd_media_def Let_def split: option.splits if_splits)
    have f2: "mount_flags s2 = mount_flags s" using law m f1 by (auto simp: flags_law_def)
    from c show ?thesis
      using retry_sd_flags [OF law, of st s2] finish_sd_flags [of st s2] f2 by (metis fst_conv snd_conv)
  qed
qed

text \<open>
  Initialisation reports exactly what it mounted. Starting with both volumes unmounted,
  whichever step of either volume fails or falls back, the flags the resolver consults, the
  flags of the diagnostics and the returned value agree: a volume counts as mounted iff its
  FileX media was opened, and the result is true iff at least one is.
\<close>

theorem initialize_reports_mounts:
  assumes law: "flags_law b" and start: "\<not> st_flash_mounted s" "\<not> st_sd_mounted s"
    and r: "initialize b s = Some (ok, s')"
  shows "ok = (storage_mounted s' Flash \<or> storage_mounted s' Sd) \<and>
    dg_flash_mounted (diag s') = storage_mounted s' Flash \<and> dg_sd_mounted (diag s') = storage_mounted s' Sd"
proof -
  let ?s = "s\<lparr>diag := empty_diagnostics\<rparr>"
  have z: "mount_flags ?s = ((False, False), (False, False))"
    using start by (simp add: mount_flags_def empty_diagnostics_def)
  from r obtain f s1 d where i: "initialize_flash_media b ?s = Some (f, s1)"
    and j: "initialize_sd_media b s1 = Some (d, s')" and ok: "ok = (f \<or> d)"
    by (auto simp: initialize_def split: option.splits)
  have f1: "mount_flags s1 = ((f, f), (False, False))"
    using initialize_flash_flags [OF law i] z by simp
  have "mount_flags s' = ((f, f), (d, d))"
    using initialize_sd_flags [OF law j] f1 by simp
  with ok show ?thesis by (auto simp: mount_flags_def storage_mounted_def)
qed

text \<open>A board with a healthy flash and an SD card whose four-bit mount fails with CRC errors.\<close>

definition sample_board :: "nat board" where
  "sample_board =
     \<lparr>HAL_QSPI_Command = (\<lambda>r w. (0, w)), HAL_QSPI_Receive = (\<lambda>n w. ((0, if n = 3 then [0xEF, 0x40, 0x18] else [0x02]), w)),
      HAL_QSPI_Transmit = (\<lambda>d w. (0, w)), HAL_QSPI_AutoPolling = (\<lambda>w. (0, w)), hqspi_ErrorCode = (\<lambda>w. 0),
      MX_QUADSPI_Init = (\<lambda>w. w), HAL_Delay = (\<lambda>n w. w + 1), hsd1_reset = (\<lambda>w. w),
      HAL_SD_Init = (\<lambda>k w. (0, w)), HAL_SD_GetCardInfo = (\<lambda>w. ((0, 131072), w)), HAL_SD_DeInit = (\<lambda>w. w),
      hsd1_ErrorCode = (\<lambda>w. 2), hsd1_LogBlockNbr = (\<lambda>w. 131072),
      HAL_SD_ReadBlocks = (\<lambda>n w. ((0, replicate 512 0), w)), HAL_SD_WriteBlocks = (\<lambda>n d w. (0, w)),
      HAL_SD_card_ready = (\<lambda>w. (False, w)), HAL_GetTick = (\<lambda>w. (of_nat w, w)), tx_thread_sleep = (\<lambda>n w. w + 2500),
      SD_CARD_DETECT = (\<lambda>w. True), partition_offset_calculate = (\<lambda>d. (FX_SUCCESS, 0)),
      lx_nor_flash_initialize = (\<lambda>s. s), lx_nor_flash_open = (\<lambda>d s. (0, s)),
      lx_nor_flash_extended_cache_enable = (\<lambda>s. (0, s)), lx_nor_flash_close = (\<lambda>s. (0, s)),
      lx_nor_flash_sector_read = (\<lambda>n s. ((0, replicate 512 0), s)), lx_nor_flash_sector_write = (\<lambda>n d s. (0, s)),
      lx_nor_flash_sector_release = (\<lambda>n s. (0, s)), lx_mapped_physical_sectors = (\<lambda>s. 0), LX_SECTOR_NOT_FOUND = 7,
      fx_media_format = (\<lambda>d n s. Some (FX_SUCCESS, s)),
      fx_media_open = (\<lambda>v d s. if v = Flash then Some (FX_SUCCESS, s)
        else Some (FX_BOOT_ERROR,
          if sd_bus_width (diag s) = 4 then diagnose (sd_error_update (\<lambda>_. 2)) s else s))\<rparr>"

definition sample_storage :: "nat storage" where
  "sample_storage = \<lparr>hw = 0, nor_open = False, st_flash_mounted = False, st_sd_mounted = False, diag = empty_diagnostics\<rparr>"

lemma sample_flags_law: "flags_law sample_board"
  by (auto simp: flags_law_def sample_board_def diagnose_flags)

theorem initialize_reports_mounts_witness:
  "\<exists>s'. initialize sample_board sample_storage = Some (True, s') \<and> storage_mounted s' Flash \<and>
     \<not> storage_mounted s' Sd \<and> \<not> dg_sd_mounted (diag s') \<and> sd_fallback_used (diag s')"
proof -
  let ?i = "initialize sample_board sample_storage"
  have "map_option (\<lambda>(ok, s'). (ok, st_flash_mounted s', st_sd_mounted s', sd_fallback_used (diag s'))) ?i =
      Some (True, True, False, True)" by code_simp
  then obtain s' where i: "?i = Some (True, s')" and f: "st_flash_mounted s'" "\<not> st_sd_mounted s'" "sd_fallback_used (diag s')"
    by auto
  have s: "\<not> st_flash_mounted sample_storage" "\<not> st_sd_mounted sample_storage" by (simp_all add: sample_storage_def)
  from initialize_reports_mounts [OF sample_flags_law s i] i f show ?thesis
    by (auto simp: storage_mounted_def)
qed

section \<open>Waiting for the SD card\<close>

text \<open>The tick counter shows a clock that moves forward while the thread sleeps, by less than half its range.\<close>

definition tick_law :: "'w board \<Rightarrow> ('w \<Rightarrow> nat) \<Rightarrow> bool" where
  "tick_law b clock \<longleftrightarrow>
     (\<forall>w. fst (HAL_GetTick b w) = of_nat (clock w) \<and> clock (snd (HAL_GetTick b w)) = clock w) \<and>
     (\<forall>w. clock (snd (HAL_SD_card_ready b w)) = clock w) \<and>
     (\<forall>w. clock w < clock (tx_thread_sleep b 1 w) \<and> clock (tx_thread_sleep b 1 w) \<le> clock w + 2 ^ 31)"

lemma elapsed_ticks:
  assumes "c0 \<le> c" and "c - c0 < 2 ^ 32"
  shows "(of_nat c - of_nat c0 :: u32) \<ge> 5000 \<longleftrightarrow> c - c0 \<ge> 5000"
proof -
  have "(of_nat c - of_nat c0 :: u32) = of_nat (c - c0)" using assms(1) by (simp add: of_nat_diff)
  moreover have "unat (of_nat (c - c0) :: u32) = c - c0" using assms(2) by (intro unat_of_nat_small) simp
  ultimately show ?thesis by (simp add: word_le_nat_alt)
qed

lemma sd_wait_loop_returns:
  assumes law: "tick_law b clock"
  shows "c0 \<le> clock (hw s) \<Longrightarrow> clock (hw s) - c0 < 5000 + 2 ^ 31 \<Longrightarrow> sd_wait_loop b (of_nat c0) s \<noteq> None"
proof (induction "5000 - (clock (hw s) - c0)" arbitrary: s rule: less_induct)
  case less
  obtain rd w1 where r: "HAL_SD_card_ready b (hw s) = (rd, w1)" by fastforce
  obtain tk w2 where k: "HAL_GetTick b w1 = (tk, w2)" by fastforce
  have c: "clock w1 = clock (hw s)" "clock w2 = clock (hw s)" "tk = of_nat (clock (hw s))"
    using law r k unfolding tick_law_def by (metis fst_conv snd_conv)+
  let ?w3 = "tx_thread_sleep b 1 w2"
  have n: "clock (hw s) < clock ?w3" "clock ?w3 \<le> clock (hw s) + 2 ^ 31"
    using law c unfolding tick_law_def by metis+
  show ?case
  proof (cases "rd \<or> tk - of_nat c0 \<ge> 5000")
    case True
    with r k show ?thesis by (subst sd_wait_loop.simps) (auto simp: Let_def)
  next
    case False
    have e: "clock (hw s) - c0 < 5000"
      using False elapsed_ticks [of c0 "clock (hw s)"] less.prems c by auto
    have "sd_wait_loop b (of_nat c0) (s\<lparr>hw := ?w3\<rparr>) \<noteq> None"
      using less.prems n e by (intro less.hyps) simp_all
    with False r k show ?thesis by (subst sd_wait_loop.simps) (simp add: Let_def)
  qed
qed

text \<open>
  The wait for the SD card always ends. Even if the card never becomes ready, the loop
  gives up after five seconds of ticks, including across the wrap-around of the 32-bit tick
  counter, so that no read or write can hang the file system.
\<close>

theorem sd_wait_ready_returns:
  assumes "tick_law b clock"
  shows "sd_wait_ready b s \<noteq> None"
proof -
  obtain tk w where k: "HAL_GetTick b (hw s) = (tk, w)" by fastforce
  with assms have "tk = of_nat (clock (hw s))" "clock w = clock (hw s)"
    unfolding tick_law_def by (metis fst_conv snd_conv)+
  with k sd_wait_loop_returns [OF assms, of "clock (hw s)" "s\<lparr>hw := w\<rparr>"] show ?thesis
    by (simp add: sd_wait_ready_def)
qed

theorem sd_wait_ready_returns_witness:
  "sd_wait_ready sample_board sample_storage \<noteq> None \<and> map_option fst (sd_wait_ready sample_board sample_storage) = Some False"
proof -
  have l: "tick_law sample_board (\<lambda>w. w)" by (simp add: tick_law_def sample_board_def)
  have "map_option fst (sd_wait_ready sample_board sample_storage) = Some False" by code_simp
  with sd_wait_ready_returns [OF l, of sample_storage] show ?thesis by simp
qed

end
