(* ===== verification/Filesystem.thy ===== *)
theory Filesystem
  imports System_Calls Stream_Properties Storage_Properties
begin

text \<open>
  The file system as a whole: its calls as one type, a step relation over them, the states
  reachable from start-up, and what holds in all of them. The calls are those of the target,
  with a 32-bit \<open>off_t\<close>. Calls are serialised by the registry mutex, so a run of the system
  is a sequence of calls from whichever threads make them.
\<close>

section \<open>Calls and runs\<close>

datatype fs_call =
    Open "string option" open_flags
  | Close int
  | Read int bool int
  | Write int "u8 list option" int
  | Lseek int "32 word" seek_origin
  | Fstat int bool
  | Stat "string option" bool
  | Unlink "string option"
  | Rename "string option" "string option"
  | Mkdir "string option"
  | Rmdir "string option"
  | Remove "string option"
  | Chdir "string option"
  | Getcwd bool bool nat
  | Fsync int
  | Ftruncate int "32 word"
  | Truncate "string option" "32 word"
  | Statvfs "string option" bool
  | Opendir "nat \<Rightarrow> bool" "string option"
  | Readdir "nat option"
  | Closedir "nat option"
  | Rewinddir "nat option"
  | Telldir "nat option"
  | Seekdir "nat option" int

definition after :: "('a \<times> 'w fs) option \<Rightarrow> 'w fs option" where
  "after = map_option snd"

text \<open>The state a call leaves behind, \<open>None\<close> if it never returns.\<close>

definition invoke :: "'w filex \<Rightarrow> fs_call \<Rightarrow> 'w fs \<Rightarrow> 'w fs option" where
  "invoke fx c s =
     (case c of
        Open path flags \<Rightarrow> after (open_call fx path flags s)
      | Close fd \<Rightarrow> after (close_call fx fd s)
      | Read fd null len \<Rightarrow> after (read_call fx fd null len s)
      | Write fd bytes len \<Rightarrow> after (write_call fx fd bytes len s)
      | Lseek fd offset origin \<Rightarrow> after (lseek_call fx fd offset origin s)
      | Fstat fd null \<Rightarrow> after (fstat_call fx fd null s :: ((int \<times> 32 stat option) \<times> 'w fs) option)
      | Stat path null \<Rightarrow> after (stat_call fx path null s :: ((int \<times> 32 stat option) \<times> 'w fs) option)
      | Unlink path \<Rightarrow> after (unlink_call fx path s)
      | Rename old new \<Rightarrow> after (rename_call fx old new s)
      | Mkdir path \<Rightarrow> after (mkdir_call fx path s)
      | Rmdir path \<Rightarrow> after (rmdir_call fx path s)
      | Remove path \<Rightarrow> after (remove_call fx path s)
      | Chdir path \<Rightarrow> after (chdir_call fx path s)
      | Getcwd malloc_ok null n \<Rightarrow> after (getcwd_call fx malloc_ok null n s)
      | Fsync fd \<Rightarrow> after (fsync_call fx fd s)
      | Ftruncate fd len \<Rightarrow> after (ftruncate_call fx fd len s)
      | Truncate path len \<Rightarrow> after (truncate_call fx path len s)
      | Statvfs path null \<Rightarrow> after (statvfs_call fx path null s)
      | Opendir alloc_ok path \<Rightarrow> after (opendir_call fx alloc_ok path s)
      | Readdir d \<Rightarrow> after (readdir_call fx d s)
      | Closedir d \<Rightarrow> after (closedir_call fx d s)
      | Rewinddir d \<Rightarrow> after (rewinddir_call fx d s)
      | Telldir d \<Rightarrow> after (telldir_call fx d s)
      | Seekdir d p \<Rightarrow> after (seekdir_call fx d p s))"

inductive fs_step :: "'w filex \<Rightarrow> 'w fs \<Rightarrow> 'w fs \<Rightarrow> bool" for fx where
  call: "invoke fx c s = Some s' \<Longrightarrow> fs_step fx s s'"
| other: "fs_step fx s (s\<lparr>world := w, errno_var := e\<rparr>)"

text \<open>Between calls, other threads run: they may change errno and, through interrupts and drivers, the world.\<close>

inductive reachable :: "'w filex \<Rightarrow> 'w boot_services \<Rightarrow> 'w board \<Rightarrow> 'w rtc \<Rightarrow> 'w fs \<Rightarrow> bool"
  for fx bs b rtc where
  start: "reachable fx bs b rtc (zero_fs w)"
| boot: "reachable fx bs b rtc s \<Longrightarrow> runtime_filex_initialize bs b rtc s = Some s' \<Longrightarrow> reachable fx bs b rtc s'"
| step: "reachable fx bs b rtc s \<Longrightarrow> fs_step fx s s' \<Longrightarrow> reachable fx bs b rtc s'"

inductive_cases fs_stepE: "fs_step fx s s'"

section \<open>Invariants\<close>

lemma statvfs_keeps [inv_rules]: "keeps registry_inv (statvfs_call fx path null)"
proof
  fix s r s'
  assume s: "registry_inv s" and r: "statvfs_call fx path null s = Some (r, s')"
  have fill: "registry_inv (snd (statvfs_fill fx n a t))" if "registry_inv t" for n a t
    using that by (auto simp: statvfs_fill_def split: sum.splits)
  show "registry_inv s'"
  proof (cases "information fx path s")
    case None
    with s r show ?thesis by (auto simp: statvfs_call_def split: if_splits)
  next
    case 1: (Some x1)
    obtain e1 i s1 where x1: "x1 = ((e1, i), s1)" by (metis prod.exhaust)
    have s1: "registry_inv s1" using keepsD [OF query_calls_keep(2) s] 1 x1 by blast
    show ?thesis
    proof (cases "null \<or> e1 \<noteq> None")
      case True
      with s s1 r 1 x1 show ?thesis by (auto simp: statvfs_call_def split: if_splits option.splits)
    next
      case False
      with r 1 x1 obtain e2 a s2 where 2: "availableSpace fx path s1 = Some ((e2, a), s2)"
        by (auto simp: statvfs_call_def split: option.splits)
      have s2: "registry_inv s2" using keepsD [OF query_calls_keep(3) s1 2] .
      show ?thesis
      proof (cases "e2 = None")
        case False: False
        with s2 r 1 x1 2 \<open>\<not> (null \<or> e1 \<noteq> None)\<close> show ?thesis by (auto simp: statvfs_call_def)
      next
        case True: True
        with r 1 x1 2 False obtain e3 n s3 where 3: "normalizePath fx path s2 = Some ((e3, n), s3)"
          by (auto simp: statvfs_call_def split: option.splits)
        have s3: "registry_inv s3" using keepsD [OF query_calls_keep(1) s2 3] .
        with fill [OF s3, of n a] r 1 x1 2 3 False True show ?thesis
          by (cases e3) (auto simp: statvfs_call_def)
      qed
    qed
  qed
qed

lemma invoke_keeps:
  assumes "registry_inv s" and "invoke fx c s = Some s'"
  shows "registry_inv s'"
proof -
  have k: "registry_inv s'" if "keeps registry_inv f" "after (f s) = Some s'" for f :: "'a fs \<Rightarrow> ('b \<times> 'a fs) option"
    using that assms(1) by (auto simp: after_def keeps_def)
  show ?thesis
    using assms(2) unfolding invoke_def
    by (cases c) (auto intro: k inv_rules)
qed

lemma stored_mounts: "stored_path ''/flash''" "stored_path ''/sd''" "stored_path ''/''"
  by code_simp+

lemma zero_fs_inv: "registry_inv (zero_fs w)"
  by (simp add: registry_inv_def zero_fs_def stored_mounts list_all_iff)

lemma boot_inv:
  assumes "registry_inv s" and "runtime_filex_initialize bs b rtc s = Some s'"
  shows "registry_inv s'"
  using assms stored_mounts
  by (auto simp: runtime_filex_initialize_def registry_inv_def Let_def split: if_splits prod.splits option.splits)

text \<open>
  C1. The registry invariant holds in every reachable state. From start-up, through any
  sequence of calls with any arguments, whatever FileX answers: the descriptor and stream
  tables keep their sizes; a free slot holds nothing; a used slot holds a normalised path
  that fits its buffer and at least one access right; an open FileX handle is in a mode the
  descriptor was opened for; the working directory is a normalised path that fits; and a
  stream's position is never negative.
\<close>

theorem reachable_registry_inv:
  assumes "reachable fx bs b rtc s"
  shows "registry_inv s"
  using assms
proof (induction rule: reachable.induct)
  case (start w)
  show ?case by (rule zero_fs_inv)
next
  case (boot s s')
  then show ?case by (blast intro: boot_inv)
next
  case (step s s')
  from step.hyps(2) step.IH show ?case
    by (cases rule: fs_step.cases) (auto intro: invoke_keeps)
qed

section \<open>Every call returns\<close>

definition unlock_law :: "'w filex \<Rightarrow> bool" where
  "unlock_law fx \<longleftrightarrow> (\<forall>w. fst (tx_mutex_put fx w) = TX_SUCCESS)"

lemma with_registry_returns:
  assumes "unlock_law fx" and "\<And>s. body s \<noteq> None"
  shows "with_registry fx fail body s \<noteq> None"
proof -
  have u: "registry_unlock fx t \<noteq> None" for t
    using assms(1) unfolding unlock_law_def registry_unlock_def by (auto split: prod.splits) (metis fst_conv)
  obtain e s1 where l: "registry_lock fx s = (e, s1)" by fastforce
  obtain r s2 where "body s1 = Some (r, s2)" using assms(2) [of s1] by auto
  with l u [of s2] show ?thesis by (auto simp: with_registry_def split: option.splits)
qed

lemma guarded_call_returns:
  "unlock_law fx \<Longrightarrow> (\<And>s. body s \<noteq> None) \<Longrightarrow> guarded_call fx bad body s \<noteq> None"
  using with_registry_returns [of fx body "fail_with bad"]
  by (auto simp: guarded_call_def split: prod.splits if_splits)

lemma guarded_some_returns: "unlock_law fx \<Longrightarrow> guarded_call fx bad (\<lambda>s. Some (f s)) s \<noteq> None"
  by (rule guarded_call_returns) simp_all

lemma guarded_query_returns: "unlock_law fx \<Longrightarrow> guarded_query fx bad body s \<noteq> None"
  using with_registry_returns [of fx "\<lambda>s. Some (body s)" "\<lambda>e s. ((Some e, bad), s)"]
  by (auto simp: guarded_query_def split: prod.splits if_splits)

lemma stream_call_returns: "unlock_law fx \<Longrightarrow> stream_call fx bad ba d body s \<noteq> None"
  using with_registry_returns [of fx _ "fail_with bad"]
  by (auto simp: stream_call_def split: prod.splits if_splits option.splits)

lemma rename_body_returns: "listing_ends fx left \<Longrightarrow> rename_body fx old new s \<noteq> None"
  using require_empty_returns [of fx left]
  by (auto simp: rename_body_def rename_resolved_def rename_commit_def Let_def simp del: not_None_eq
      split: sum.splits prod.splits option.splits if_splits)

lemma opendir_body_returns: "listing_ends fx left \<Longrightarrow> opendir_body fx alloc_ok path s \<noteq> None"
  using fill_stream_returns [of fx left]
  by (auto simp: opendir_body_def Let_def simp del: not_None_eq
      split: sum.splits prod.splits option.splits if_splits)

lemma simple_returns:
  assumes "unlock_law fx"
  shows "open_call fx path flags s \<noteq> None" "close_call fx fd s \<noteq> None" "read_call fx fd n len s \<noteq> None"
    "write_call fx fd bytes len s \<noteq> None" "lseek_call fx fd offset origin s \<noteq> None" "fstat_call fx fd n s \<noteq> None"
    "unlink_call fx path s \<noteq> None" "mkdir_call fx path s \<noteq> None" "rmdir_call fx path s \<noteq> None"
    "fsync_call fx fd s \<noteq> None"
  unfolding open_call_def close_call_def read_call_def write_call_def lseek_call_def fstat_call_def
    unlink_call_def mkdir_call_def rmdir_call_def fsync_call_def Let_def
  by (simp_all add: guarded_some_returns [OF assms] del: not_None_eq split: option.splits if_splits)

lemma checked_returns:
  assumes "unlock_law fx"
  shows "stat_call fx path n s \<noteq> None" "ftruncate_call fx fd len s \<noteq> None"
  by (auto simp: stat_call_def ftruncate_call_def with_registry_returns [OF assms] simp del: not_None_eq
      split: prod.splits)

lemma query_returns:
  assumes "unlock_law fx"
  shows "normalizePath fx path s \<noteq> None" "information fx path s \<noteq> None" "availableSpace fx path s \<noteq> None"
    "currentPath fx s \<noteq> None" "setCurrentPath fx path s \<noteq> None"
  by (simp_all add: guarded_query_returns [OF assms] normalizePath_def information_def availableSpace_def currentPath_def setCurrentPath_def
      del: not_None_eq)

lemma composed_returns:
  assumes "unlock_law fx"
  shows "remove_call fx path s \<noteq> None" "truncate_call fx path len s \<noteq> None" "chdir_call fx path s \<noteq> None"
    "getcwd_call fx m n k s \<noteq> None" "statvfs_call fx path n s \<noteq> None"
  by (auto simp: simple_returns [OF assms] checked_returns [OF assms] query_returns [OF assms] remove_call_def truncate_call_def chdir_call_def getcwd_call_def getcwd_buffer_def
      statvfs_call_def simp del: not_None_eq split: option.splits)

lemma stream_calls_return:
  assumes "unlock_law fx"
  shows "readdir_call fx d s \<noteq> None" "closedir_call fx d s \<noteq> None" "rewinddir_call fx d s \<noteq> None"
    "telldir_call fx d s \<noteq> None" "seekdir_call fx d p s \<noteq> None"
  by (simp_all add: stream_call_returns [OF assms] readdir_call_def closedir_call_def rewinddir_call_def telldir_call_def seekdir_call_def
      del: not_None_eq)

text \<open>
  C5. Every call comes back. As long as the registry mutex can be released and FileX ends
  its directory listings, no call on any state runs for ever: neither the zero-filling and
  the backup-name loops nor the directory scans, nor any error path.
\<close>

theorem every_call_returns:
  assumes "unlock_law fx" and "listing_ends fx left"
  shows "\<exists>s'. invoke fx c s = Some s'"
proof -
  have "rename_call fx old new s \<noteq> None" "opendir_call fx alloc_ok path s \<noteq> None" for old new alloc_ok path
    unfolding rename_call_def opendir_call_def
    by (simp_all add: guarded_call_returns [OF assms(1)] rename_body_returns [OF assms(2)]
        opendir_body_returns [OF assms(2)] del: not_None_eq)
  then have "invoke fx c s \<noteq> None"
    unfolding invoke_def after_def
    by (cases c) (simp_all add: simple_returns [OF assms(1)] checked_returns [OF assms(1)]
        composed_returns [OF assms(1)] stream_calls_return [OF assms(1)] del: not_None_eq)
  then show ?thesis by simp
qed

section \<open>Refusal\<close>

text \<open>A call cannot be served in an interrupt handler or before initialisation.\<close>

definition refused :: "'w filex \<Rightarrow> 'w fs \<Rightarrow> bool" where
  "refused fx s \<longleftrightarrow> get_IPSR fx (world s) \<noteq> 0 \<or> \<not> filesystem_initialized s"

definition only_errno :: "'w fs \<Rightarrow> ('a \<times> 'w fs) option \<Rightarrow> bool" where
  "only_errno s r \<longleftrightarrow> (\<exists>a e. r = Some (a, s\<lparr>errno_var := e\<rparr>))"

fun console :: "fs_call \<Rightarrow> bool" where
  "console (Read fd null len) \<longleftrightarrow> fd = 0"
| "console (Write fd bytes len) \<longleftrightarrow> fd = 1 \<or> fd = 2"
| "console c \<longleftrightarrow> False"

lemma only_errno_some [simp]:
  "only_errno s (Some (a, set_errno e s))" "only_errno s (Some (a, s))" "only_errno s (Some (a, assign_errno v s))"
  "only_errno s (Some (a, set_errno e (set_errno e' s)))" "only_errno s (Some (a, assign_errno v (set_errno e' s)))"
  unfolding only_errno_def set_errno_def assign_errno_def
  by (force intro: fs.equality)+

lemma usable_refused:
  "refused fx s \<Longrightarrow> usable fx s = (False, set_errno (if get_IPSR fx (world s) \<noteq> 0 then EPERM else ENODEV) s)"
  by (auto simp: refused_def usable_def)

lemma guarded_refused:
  assumes "refused fx s"
  shows "guarded_call fx bad body s = Some (bad, set_errno (if get_IPSR fx (world s) \<noteq> 0 then EPERM else ENODEV) s)"
    "guarded_query fx bad' query s =
       Some ((Some (if get_IPSR fx (world s) \<noteq> 0 then EPERM else ENODEV), bad'),
         set_errno (if get_IPSR fx (world s) \<noteq> 0 then EPERM else ENODEV) s)"
    "stream_call fx bad'' arg d sbody s = Some (bad'', set_errno (if get_IPSR fx (world s) \<noteq> 0 then EPERM else ENODEV) s)"
  using usable_refused [OF assms]
  by (simp_all add: guarded_call_def guarded_query_def stream_call_def set_errno_def)

lemma after_only_errno: "only_errno s r \<Longrightarrow> \<exists>e. after r = Some (s\<lparr>errno_var := e\<rparr>)"
  by (auto simp: only_errno_def after_def)

lemma refused_calls:
  assumes "refused fx s"
  shows "only_errno s (open_call fx path flags s)" "only_errno s (close_call fx fd s)"
    "fd \<noteq> 0 \<Longrightarrow> only_errno s (read_call fx fd n len s)"
    "fd \<noteq> 1 \<Longrightarrow> fd \<noteq> 2 \<Longrightarrow> only_errno s (write_call fx fd bytes len s)"
    "only_errno s (lseek_call fx fd offset origin s)" "only_errno s (fstat_call fx fd n s)"
    "only_errno s (unlink_call fx path s)" "only_errno s (mkdir_call fx path s)" "only_errno s (rmdir_call fx path s)"
    "only_errno s (fsync_call fx fd s)" "only_errno s (rename_call fx old new s)"
    "only_errno s (opendir_call fx alloc_ok path s)"
  unfolding open_call_def close_call_def read_call_def write_call_def lseek_call_def fstat_call_def
    unlink_call_def mkdir_call_def rmdir_call_def fsync_call_def rename_call_def opendir_call_def Let_def
  by (simp_all add: guarded_refused [OF assms] split: option.splits)

lemma refused_compositions:
  assumes "refused fx s"
  shows "only_errno s (stat_call fx path n s)" "only_errno s (ftruncate_call fx fd len s)"
    "only_errno s (truncate_call fx path len s)" "only_errno s (chdir_call fx path s)"
    "only_errno s (getcwd_call fx m n k s)" "only_errno s (statvfs_call fx path n s)"
  by (simp_all add: stat_call_def ftruncate_call_def truncate_call_def chdir_call_def getcwd_call_def getcwd_buffer_def
      statvfs_call_def setCurrentPath_def currentPath_def information_def open_call_def finish_def
      guarded_refused [OF assms] usable_refused [OF assms])

lemma refused_remove: "refused fx s \<Longrightarrow> only_errno s (remove_call fx path s)"
  by (auto simp: remove_call_def unlink_call_def guarded_refused set_errno_def [of _ s] only_errno_def)

lemma refused_streams:
  assumes "refused fx s"
  shows "only_errno s (readdir_call fx d s)" "only_errno s (closedir_call fx d s)" "only_errno s (rewinddir_call fx d s)"
    "only_errno s (telldir_call fx d s)" "only_errno s (seekdir_call fx d p s)"
  by (simp_all add: readdir_call_def closedir_call_def rewinddir_call_def telldir_call_def seekdir_call_def
      guarded_refused [OF assms])

text \<open>
  Interrupt handlers and code that runs before initialisation cannot touch the file
  system. There every call, except reading and writing the console, returns at once and
  leaves all of the state but errno as it was: no FileX service and no mutex is called.
\<close>

theorem refused_call_has_no_effect:
  assumes "refused fx s" and "\<not> console c"
  shows "\<exists>e. invoke fx c s = Some (s\<lparr>errno_var := e\<rparr>)"
  using assms(2) unfolding invoke_def
  by (cases c)
    (simp_all add: after_only_errno refused_calls [OF assms(1)] refused_compositions [OF assms(1)]
      refused_remove [OF assms(1)] refused_streams [OF assms(1)])

section \<open>A concrete run\<close>

definition quiet_board :: "'w board" where
  "quiet_board =
     \<lparr>HAL_QSPI_Command = (\<lambda>r w. (0, w)), HAL_QSPI_Receive = (\<lambda>n w. ((0, if n = 3 then [0xEF, 0x40, 0x18] else [0x02]), w)),
      HAL_QSPI_Transmit = (\<lambda>d w. (0, w)), HAL_QSPI_AutoPolling = (\<lambda>w. (0, w)), hqspi_ErrorCode = (\<lambda>w. 0),
      MX_QUADSPI_Init = (\<lambda>w. w), HAL_Delay = (\<lambda>n w. w), hsd1_reset = (\<lambda>w. w),
      HAL_SD_Init = (\<lambda>k w. (0, w)), HAL_SD_GetCardInfo = (\<lambda>w. ((0, 131072), w)), HAL_SD_DeInit = (\<lambda>w. w),
      hsd1_ErrorCode = (\<lambda>w. 0), hsd1_LogBlockNbr = (\<lambda>w. 131072),
      HAL_SD_ReadBlocks = (\<lambda>n w. ((0, replicate 512 0), w)), HAL_SD_WriteBlocks = (\<lambda>n d w. (0, w)),
      HAL_SD_card_ready = (\<lambda>w. (True, w)), HAL_GetTick = (\<lambda>w. (0, w)), tx_thread_sleep = (\<lambda>n w. w),
      SD_CARD_DETECT = (\<lambda>w. True), partition_offset_calculate = (\<lambda>d. (FX_SUCCESS, 0)),
      lx_nor_flash_initialize = (\<lambda>s. s), lx_nor_flash_open = (\<lambda>d s. (0, s)),
      lx_nor_flash_extended_cache_enable = (\<lambda>s. (0, s)), lx_nor_flash_close = (\<lambda>s. (0, s)),
      lx_nor_flash_sector_read = (\<lambda>n s. ((0, replicate 512 0), s)), lx_nor_flash_sector_write = (\<lambda>n d s. (0, s)),
      lx_nor_flash_sector_release = (\<lambda>n s. (0, s)), lx_mapped_physical_sectors = (\<lambda>s. 0), LX_SECTOR_NOT_FOUND = 7,
      fx_media_format = (\<lambda>d n s. Some (FX_SUCCESS, s)), fx_media_open = (\<lambda>v d s. Some (FX_SUCCESS, s))\<rparr>"

definition quiet_services :: "'w boot_services" where
  "quiet_services = \<lparr>fx_system_initialize = (\<lambda>w. w), fx_system_date_set = (\<lambda>y m d w. w),
     fx_system_time_set = (\<lambda>h m s w. w), tx_mutex_create = (\<lambda>w. (TX_SUCCESS, w))\<rparr>"

definition booted :: "memory fs" where
  "booted = the (runtime_filex_initialize quiet_services quiet_board None (zero_fs sample_memory))"

definition opened :: "memory fs" where
  "opened = the (invoke memory_filex (Open (Some ''a'') truncate_flags) booted)"

lemma boot_succeeds: "runtime_filex_initialize quiet_services quiet_board None (zero_fs sample_memory) = Some booted"
proof -
  have "runtime_filex_initialize quiet_services quiet_board None (zero_fs sample_memory) \<noteq> None" by code_simp
  then show ?thesis by (auto simp: booted_def)
qed

lemma open_succeeds: "invoke memory_filex (Open (Some ''a'') truncate_flags) booted = Some opened"
proof -
  have "invoke memory_filex (Open (Some ''a'') truncate_flags) booted \<noteq> None" by code_simp
  then show ?thesis by (auto simp: opened_def)
qed

theorem reachable_registry_inv_witness:
  "registry_inv opened \<and> allocated (descriptors opened ! 0) \<and> fd_path (descriptors opened ! 0) = ''/flash/a''"
proof -
  have "reachable memory_filex quiet_services quiet_board None booted"
    by (rule reachable.boot [OF reachable.start boot_succeeds])
  then have "reachable memory_filex quiet_services quiet_board None opened"
    by (rule reachable.step) (rule fs_step.call [OF open_succeeds])
  then have "registry_inv opened" by (rule reachable_registry_inv)
  moreover have "allocated (descriptors opened ! 0)" "fd_path (descriptors opened ! 0) = ''/flash/a''" by code_simp+
  ultimately show ?thesis by simp
qed

lemma memory_unlock_law: "unlock_law memory_filex"
  by (simp add: unlock_law_def memory_filex_def)

lemma memory_listing_ends: "listing_ends memory_filex (\<lambda>w. length (scan w))"
  by (auto simp: listing_ends_def memory_filex_def mem_next_def split: list.splits)

theorem every_call_returns_witness:
  "\<exists>s'. invoke memory_filex (Rename (Some ''/flash/d'') (Some ''/flash/e'')) opened = Some s'"
  using every_call_returns [OF memory_unlock_law memory_listing_ends] .

theorem refused_call_has_no_effect_witness:
  "\<exists>e. invoke memory_filex (Open (Some ''/flash/a'') truncate_flags) (opened\<lparr>filesystem_initialized := False\<rparr>) =
     Some (opened\<lparr>filesystem_initialized := False, errno_var := e\<rparr>)"
proof -
  have r: "refused memory_filex (opened\<lparr>filesystem_initialized := False\<rparr>)" by (simp add: refused_def)
  have "\<exists>e. invoke memory_filex (Open (Some ''/flash/a'') truncate_flags) (opened\<lparr>filesystem_initialized := False\<rparr>) =
     Some (opened\<lparr>filesystem_initialized := False\<rparr>\<lparr>errno_var := e\<rparr>)"
    by (rule refused_call_has_no_effect [OF r]) simp
  then show ?thesis by simp
qed

end
