(* ===== verification/File_Properties.thy ===== *)
theory File_Properties
  imports FileX_Memory
begin

text \<open>
  What the system calls on files promise: which descriptor \<open>_open\<close> hands out and what
  \<open>_close\<close> gives back, the arithmetic of \<open>_lseek\<close>, the contents after \<open>_ftruncate\<close> and after
  an appending \<open>_write\<close>. Properties on contents name the FileX behaviour they rely on.
\<close>

section \<open>Calls and their guard\<close>

lemma registry_lock_frame:
  "registry_lock fx s = (e, s') \<Longrightarrow> \<exists>w. s' = s\<lparr>world := w\<rparr>"
  by (auto simp: registry_lock_def Let_def split: if_splits prod.splits intro: exI [of _ "world s"])

text \<open>A call that returns was refused, leaving everything but errno and FileX's own state, or ran its body.\<close>

lemma guarded_call_cases:
  assumes "guarded_call fx bad body s = Some (r, s')"
  obtains (refused) w e where "r = bad" and "s' = s\<lparr>world := w, errno_var := Some e\<rparr>"
  | (ran) w1 s2 w2 where "body (s\<lparr>world := w1\<rparr>) = Some (r, s2)" and "s' = s2\<lparr>world := w2\<rparr>"
proof (cases "fst (usable fx s)")
  case False
  then have "\<exists>e. s' = s\<lparr>world := world s, errno_var := Some e\<rparr> \<and> r = bad"
    using assms by (auto simp: guarded_call_def usable_def set_errno_def split: if_splits)
  then show ?thesis using refused by blast
next
  case True
  then have u: "usable fx s = (True, s)"
    by (auto simp: usable_def split: if_splits)
  obtain e s1 where l: "registry_lock fx s = (e, s1)" by fastforce
  from registry_lock_frame [OF this] obtain w where s1: "s1 = s\<lparr>world := w\<rparr>" by blast
  show ?thesis
  proof (cases e)
    case None
    with assms u l obtain s2 where "body s1 = Some (r, s2)" and "registry_unlock fx s2 = Some s'"
      by (auto simp: guarded_call_def with_registry_def split: option.splits)
    then show ?thesis using ran s1 by (auto simp: registry_unlock_def split: prod.splits if_splits)
  next
    case (Some err)
    with assms u l s1 have "r = bad" "s' = s\<lparr>world := w, errno_var := Some err\<rparr>"
      by (auto simp: guarded_call_def with_registry_def fail_with_def set_errno_def)
    then show ?thesis using refused by blast
  qed
qed

section \<open>Opening\<close>

text \<open>The descriptor table is as in \<open>s\<close> but for one slot, which has the rights and path of \<open>d\<close>.\<close>

definition claimed :: "nat \<Rightarrow> file_descriptor \<Rightarrow> 'w fs \<Rightarrow> 'w fs \<Rightarrow> bool" where
  "claimed slot d s t \<longleftrightarrow> length (descriptors t) = length (descriptors s) \<and> slot < length (descriptors s) \<and>
     (\<forall>j. j \<noteq> slot \<longrightarrow> descriptors t ! j = descriptors s ! j) \<and> same_slot d (descriptors t ! slot)"

lemma claimed_simps [simp]:
  "claimed slot d s (t\<lparr>world := w\<rparr>) = claimed slot d s t"
  "claimed slot d (s\<lparr>world := w\<rparr>) t = claimed slot d s t"
  by (simp_all add: claimed_def)

lemma claimed_position: "claimed slot d s t \<Longrightarrow> claimed slot d s (set_descriptor slot (position_update f) t)"
  by (simp add: claimed_def set_descriptor_def same_slot_def)

lemma claimed_reset:
  "claimed slot d s t \<Longrightarrow>
   descriptors (set_errno e (reset_descriptor fx slot t)) = (descriptors s)[slot := empty_descriptor]"
  by (auto simp: claimed_def set_errno_def reset_descriptor_def set_descriptor_def nth_list_update
      intro!: nth_equalityI)

lemma open_slot_result:
  assumes "slot < length (descriptors s)" and "open_slot fx slot p flags n s = (r, s')"
  shows "r = - 1 \<and> descriptors s' = (descriptors s)[slot := empty_descriptor] \<or>
    r = FIRST_FILE_DESCRIPTOR + int slot \<and> claimed slot (claim_descriptor p flags n) s s'"
proof -
  let ?d = "claim_descriptor p flags n"
  let ?s1 = "set_descriptor slot (\<lambda>_. ?d) (reset_descriptor fx slot s)"
  let ?m = "if writable ?d then FX_OPEN_FOR_WRITE else FX_OPEN_FOR_READ"
  have d: "descriptors ?s1 = (descriptors s)[slot := ?d]"
    by (simp add: set_descriptor_def reset_descriptor_def)
  obtain e s2 where sw: "switch_mode fx slot ?m ?s1 = (e, s2)" by fastforce
  have s2: "claimed slot ?d s s2"
    using switch_mode_frame(1) [OF sw] assms(1) d by (auto simp: handle_frame_def claimed_def)
  have s3: "claimed slot ?d s (set_descriptor slot (position_update f) (s2\<lparr>world := w\<rparr>))" for f w
    using s2 by (intro claimed_position) simp
  from assms(2) sw d assms(1) s2 s3 show ?thesis
    unfolding open_slot_def
    by (auto simp: Let_def lift_fx_def claimed_reset [of slot ?d s] split: prod.splits if_splits option.splits)
qed

lemma open_body_result:
  assumes inv: "registry_inv s" and r: "open_body fx path flags s = (r, s')"
  shows "r = - 1 \<and> descriptors s' = descriptors s \<or>
    (\<exists>i n k. r = FIRST_FILE_DESCRIPTOR + int i \<and> files.free_slot (descriptors s) = Some i \<and>
      normalize s path = Inr n \<and> claimed i (claim_descriptor n flags k) s s')"
proof (cases "resolve_input s path")
  case (Inl e)
  with r show ?thesis by (auto simp: open_body_def set_errno_def)
next
  case (Inr pr)
  obtain n rp where pr: "pr = (n, rp)" by (cases pr)
  have n: "normalize s path = Inr n"
    using Inr pr by (auto simp: resolve_input_def resolve_path_unlocked_def normalize_def split: sum.splits)
  obtain ir s1 where i: "information_unlocked fx (Some n) s = (ir, s1)" by fastforce
  from information_inv [OF inv i] have s1: "descriptors s1 = descriptors s" by simp
  have slot: "r = - 1 \<and> descriptors s' = descriptors s \<or>
      r = FIRST_FILE_DESCRIPTOR + int slot \<and> claimed slot (claim_descriptor n flags k) s s'"
    if f: "find_index (\<lambda>d. \<not> allocated d) (descriptors s) = Some slot"
      and o: "open_slot fx slot n flags k t = (r, s')" and t: "descriptors t = descriptors s" for slot k t
  proof -
    from f have l: "slot < length (descriptors s)" and free: "\<not> allocated (descriptors s ! slot)"
      by (simp_all add: find_index_Some)
    from registry_inv_descriptor [OF inv l] free have "descriptors s ! slot = empty_descriptor"
      by (simp add: descriptor_ok_def)
    then have "(descriptors s)[slot := empty_descriptor] = descriptors s"
      by (metis list_update_id)
    with open_slot_result [of slot t, OF _ o] l t show ?thesis
      by (auto simp: claimed_def)
  qed
  from r Inr pr i s1 n slot show ?thesis
    unfolding open_body_def files.free_slot_def
    by (fastforce simp: Let_def set_errno_def assign_errno_def
        split: option.splits sum.splits prod.splits if_splits)
qed

lemma claimed_in_use:
  "claimed i d s s' \<Longrightarrow> allocated d \<Longrightarrow>
   files.in_use (descriptors s') = insert i (files.in_use (descriptors s))"
  unfolding claimed_def files.in_use_def same_slot_def by auto

text \<open>
  A descriptor comes from the lowest free slot or from none. If \<open>_open\<close> returns a
  descriptor, it is 3 plus the first slot that was free, that slot alone becomes used, and
  it has the access rights of the flags and the normalised path; every other descriptor is
  untouched. If it returns -1, for whatever reason, the whole table is what it was before.
\<close>

theorem open_call_lowest_slot:
  assumes inv: "registry_inv s" and r: "open_call fx path flags s = Some (fd, s')"
  shows "fd = - 1 \<and> descriptors s' = descriptors s \<or>
    (\<exists>i. fd = FIRST_FILE_DESCRIPTOR + int i \<and> files.free_slot (descriptors s) = Some i \<and>
       files.in_use (descriptors s') = insert i (files.in_use (descriptors s)) \<and>
       (\<forall>j. j \<noteq> i \<longrightarrow> descriptors s' ! j = descriptors s ! j) \<and>
       normalize s path = Inr (fd_path (descriptors s' ! i)) \<and>
       readable (descriptors s' ! i) = (o_accmode flags \<noteq> O_WRONLY) \<and>
       writable (descriptors s' ! i) = (o_accmode flags \<noteq> O_RDONLY) \<and>
       append (descriptors s' ! i) = o_append flags)"
  using r unfolding open_call_def
proof (cases rule: guarded_call_cases)
  case (refused w e)
  then show ?thesis by simp
next
  case (ran w1 s2 w2)
  let ?s = "s\<lparr>world := w1\<rparr>"
  from ran have b: "open_body fx path flags ?s = (fd, s2)" by simp
  have n: "normalize ?s path = normalize s path" by (simp add: normalize_def)
  from open_body_result [OF _ b] inv ran n show ?thesis
    by (auto simp: claimed_in_use claimed_def claim_descriptor_def same_slot_def)
qed

definition append_flags :: open_flags where
  "append_flags = \<lparr>o_accmode = O_RDWR, o_creat = False, o_excl = False, o_trunc = False, o_append = True\<rparr>"

lemma sample_descriptors: "files.in_use (descriptors sample_fs) = {}" "files.free_slot (descriptors sample_fs) = Some 0"
proof -
  show "files.in_use (descriptors sample_fs) = {}"
    by (simp add: sample_fs_def files.in_use_def empty_descriptor_def)
  show "files.free_slot (descriptors sample_fs) = Some 0"
    by (simp add: sample_fs_def files.free_slot_def empty_descriptor_def numeral_eq_Suc)
qed

definition sample_open :: "memory fs" where
  "sample_open = snd (the (open_call memory_filex (Some ''a'') append_flags sample_fs))"

lemma sample_open: "open_call memory_filex (Some ''a'') append_flags sample_fs = Some (3, sample_open)"
proof -
  have "map_option fst (open_call memory_filex (Some ''a'') append_flags sample_fs) = Some 3"
    by code_simp
  then show ?thesis by (auto simp: sample_open_def)
qed

lemma sample_open_inv: "registry_inv sample_open"
  using keepsD [OF file_calls_keep(1) sample_inv sample_open] .

lemma sample_open_slot: "0 < length (descriptors sample_open) \<and> allocated (descriptors sample_open ! 0)"
  by code_simp

theorem open_call_lowest_slot_witness:
  "open_call memory_filex (Some ''a'') append_flags sample_fs = Some (3, sample_open) \<and>
   files.in_use (descriptors sample_open) = {0} \<and> append (descriptors sample_open ! 0)"
  using open_call_lowest_slot [OF sample_inv sample_open] sample_open sample_descriptors
  by (auto simp: append_flags_def)

section \<open>Closing\<close>

text \<open>
  Closing an open descriptor always gives its slot back, even if FileX reports an error
  for the handle: when the call was not refused, the slot is empty afterwards, no other
  descriptor changes, and the number is \<open>EBADF\<close> until it is opened again.
\<close>

theorem close_call_releases:
  assumes inv: "registry_inv s" and open_fd: "i \<in> files.in_use (descriptors s)"
    and r: "close_call fx (FIRST_FILE_DESCRIPTOR + int i) s = Some (x, s')"
  shows "x \<in> {0, - 1} \<and>
    (descriptors s' = descriptors s \<and> x = - 1 \<or>
     descriptors s' = (descriptors s)[i := empty_descriptor] \<and>
     files.in_use (descriptors s') = files.in_use (descriptors s) - {i} \<and>
     descriptor_for (FIRST_FILE_DESCRIPTOR + int i) s' = (None, set_errno EBADF s'))"
proof -
  from open_fd have i: "i < length (descriptors s)" "allocated (descriptors s ! i)"
    by (simp_all add: files.in_use_def)
  from r have "guarded_call fx (- 1) (\<lambda>s. Some (close_body fx (FIRST_FILE_DESCRIPTOR + int i) s)) s = Some (x, s')"
    by (simp add: close_call_def FIRST_FILE_DESCRIPTOR_def)
  then show ?thesis
  proof (cases rule: guarded_call_cases)
    case (refused w e)
    then show ?thesis by simp
  next
    case (ran w1 s2 w2)
    have "descriptor_for (FIRST_FILE_DESCRIPTOR + int i) (s\<lparr>world := w1\<rparr>) = (Some i, s\<lparr>world := w1\<rparr>)"
      by (simp add: descriptor_for_Some i)
    with ran have d: "descriptors s' = (descriptors s)[i := empty_descriptor]" and x: "x \<in> {0, - 1}"
      by (auto simp: close_body_def Let_def reset_descriptor_def set_descriptor_def assign_errno_def
          split: prod.splits if_splits)
    have "descriptor_for (FIRST_FILE_DESCRIPTOR + int i) s' = (None, set_errno EBADF s')"
      using i d by (simp add: descriptor_for_def Let_def empty_descriptor_def)
    with d x show ?thesis by (simp add: files.in_use_release)
  qed
qed

theorem close_call_releases_witness:
  "\<exists>s'. close_call memory_filex 3 sample_open = Some (0, s') \<and>
     0 \<in> files.in_use (descriptors sample_open) \<and> 0 \<notin> files.in_use (descriptors s')"
proof -
  have a: "0 \<in> files.in_use (descriptors sample_open)"
    using sample_open_slot by (simp add: files.in_use_def)
  have "map_option fst (close_call memory_filex (FIRST_FILE_DESCRIPTOR + int 0) sample_open) = Some 0"
    by code_simp
  then obtain s' where c: "close_call memory_filex (FIRST_FILE_DESCRIPTOR + int 0) sample_open = Some (0, s')"
    by auto
  have "0 \<notin> files.in_use (descriptors s')"
    using close_call_releases [OF sample_open_inv a c] by (elim conjE disjE) simp_all
  moreover have "close_call memory_filex 3 sample_open = Some (0, s')"
    using c by (simp add: FIRST_FILE_DESCRIPTOR_def)
  ultimately show ?thesis using a by blast
qed

section \<open>Seeking\<close>

lemma uint_word_of_int_small: "0 \<le> k \<Longrightarrow> k < 2 ^ LENGTH('a::len) \<Longrightarrow> uint (word_of_int k :: 'a word) = k"
  by (simp add: uint_word_of_int take_bit_int_eq_self)

lemma offset_power: "LENGTH('o::len) \<le> 64 \<Longrightarrow> (2::int) ^ (LENGTH('o) - 1) \<le> 2 ^ 63"
  by (rule power_increasing) simp_all

lemma uint_maximum_offset:
  assumes "LENGTH('o::len) \<le> 64"
  shows "uint (maximum_offset TYPE('o)) = 2 ^ (LENGTH('o) - 1) - 1"
proof -
  have "uint (word_of_int (2 ^ (LENGTH('o) - 1) - 1) :: u64) = 2 ^ (LENGTH('o) - 1) - 1"
    using offset_power [OF assms] by (intro uint_word_of_int_small) (simp_all add: le_less_trans)
  then show ?thesis by (simp add: maximum_offset_def)
qed

text \<open>
  The target of \<open>_lseek\<close> is the exact sum. Although the code works in unsigned 64-bit
  arithmetic with a magnitude for negative offsets, for every base and every signed offset
  of an \<open>off_t\<close> of at most 64 bits (the most negative one included) it refuses exactly the
  sums that are negative (\<open>EINVAL\<close>) or beyond the largest \<open>off_t\<close> (\<open>EOVERFLOW\<close>), and otherwise
  yields the sum: no intermediate step wraps around.
\<close>

theorem seek_target_exact:
  fixes offset :: "'o::len word"
  assumes "LENGTH('o) \<le> 64"
  shows "seek_target base offset =
    (let b = uint base; t = b + sint offset; m = 2 ^ (LENGTH('o) - 1) - 1
     in if b > m then Inl EOVERFLOW
        else if t < 0 then Inl EINVAL
        else if t > m then Inl EOVERFLOW
        else Inr (word_of_int t))"
proof -
  define m :: int where "m = 2 ^ (LENGTH('o) - 1) - 1"
  have lim: "uint (maximum_offset TYPE('o)) = m"
    using uint_maximum_offset [OF assms] by (simp add: m_def)
  have m63: "m < 2 ^ 63"
    using offset_power [OF assms] by (simp add: m_def)
  have s: "- (m + 1) \<le> sint offset" "sint offset \<le> m"
    using sint_greater_eq [of offset] sint_less [of offset] by (simp_all add: m_def)
  have b: "0 \<le> uint base" "uint base < 2 ^ 64" using unsigned_less [of base] by simp_all
  have "seek_target base offset =
      (if uint base > m then Inl EOVERFLOW
       else if uint base + sint offset < 0 then Inl EINVAL
       else if uint base + sint offset > m then Inl EOVERFLOW
       else Inr (word_of_int (uint base + sint offset)))"
  proof (cases "uint base \<le> m")
    case False
    then show ?thesis by (simp add: seek_target_def word_less_def lim Let_def)
  next
    case base: True
    have rest: "uint (maximum_offset TYPE('o) - base) = m - uint base"
      using base lim by (simp add: uint_sub_if')
    show ?thesis
    proof (cases "0 \<le> sint offset")
      case True
      have o: "uint (word_of_int (sint offset) :: u64) = sint offset"
        using True s m63 by (intro uint_word_of_int_small) simp_all
      have "base + word_of_int (sint offset) = word_of_int (uint base + sint offset)"
        by simp
      with True o rest lim base show ?thesis
        by (simp add: seek_target_def word_less_def Let_def not_less)
    next
      case False
      let ?k = "word_of_int (- (sint offset + 1)) + 1 :: u64"
      have k: "?k = word_of_int (- sint offset)" by simp
      have o: "uint ?k = - sint offset"
        unfolding k using False s m63 by (intro uint_word_of_int_small) simp_all
      have "base - ?k = word_of_int (uint base + sint offset)"
        unfolding k by simp
      with False o lim base s show ?thesis
        by (simp add: seek_target_def word_less_def Let_def not_less)
    qed
  qed
  then show ?thesis unfolding Let_def m_def .
qed

theorem seek_target_exact_witness:
  "seek_target 10 (- 4 :: 32 word) = Inr 6 \<and> seek_target 3 (- 4 :: 32 word) = Inl EINVAL \<and>
   seek_target 2147483647 (1 :: 32 word) = Inl EOVERFLOW"
proof -
  have l: "LENGTH(32) \<le> 64" by simp
  show ?thesis unfolding seek_target_exact [OF l] by code_simp
qed

section \<open>Contents\<close>

lemma lift_fx_success:
  assumes "lift_fx s r = (None, s')" and "filex_errno (fst r) = None \<Longrightarrow> fst r = FX_SUCCESS"
  shows "r = (FX_SUCCESS, world s')" and "s' = s\<lparr>world := world s'\<rparr>"
  using assms by (auto simp: lift_fx_def split: prod.splits)

lemma write_success:
  assumes "write_law fx content" and "file_status_law fx"
    and "lift_fx s (fx_file_write fx (world s) i bs) = (None, s')"
    and "unat (fx_file_current_file_offset fx (world s) i) = length (content (world s) i)"
  shows "content (world s') i = content (world s) i @ bs"
    and "unat (fx_file_current_file_offset fx (world s') i) = length (content (world s') i)"
proof -
  have "fx_file_write fx (world s) i bs = (FX_SUCCESS, world s')"
    using lift_fx_success(1) [OF assms(3)] assms(2) by (simp add: file_status_law_def)
  with assms(1,4) show "content (world s') i = content (world s) i @ bs"
    and "unat (fx_file_current_file_offset fx (world s') i) = length (content (world s') i)"
    by (simp_all add: write_law_def Let_def)
qed

lemma seek_success:
  assumes "seek_law fx content" and "file_status_law fx"
    and "lift_fx s (fx_file_extended_seek fx (world s) i p) = (None, s')"
  shows "content (world s') i = content (world s) i"
    and "unat (fx_file_current_file_offset fx (world s') i) = min (unat p) (length (content (world s) i))"
proof -
  have "fx_file_extended_seek fx (world s) i p = (FX_SUCCESS, world s')"
    using lift_fx_success(1) [OF assms(3)] assms(2) by (simp add: file_status_law_def)
  with assms(1) show "content (world s') i = content (world s) i"
    and "unat (fx_file_current_file_offset fx (world s') i) = min (unat p) (length (content (world s) i))"
    by (simp_all add: seek_law_def)
qed

lemma chunk_split: "unat (min n 64) + unat (n - min n 64) = unat (n :: u64)"
  by (simp add: unat_sub min_def word_le_nat_alt)

lemma extend_with_zeroes_content:
  assumes "write_law fx content" and "file_status_law fx"
  shows "extend_with_zeroes fx i n s = (None, s') \<Longrightarrow>
    unat (fx_file_current_file_offset fx (world s) i) = length (content (world s) i) \<Longrightarrow>
    content (world s') i = content (world s) i @ replicate (unat n) 0"
  using assms
proof (induction fx i n s arbitrary: s' rule: extend_with_zeroes.induct)
  case (1 fx i n s)
  show ?case
  proof (cases "n = 0")
    case True
    with 1(2) show ?thesis by (simp add: extend_with_zeroes.simps)
  next
    case False
    obtain e s1 where w: "lift_fx s (fx_file_write fx (world s) i (replicate (unat (min n 64)) 0)) = (e, s1)"
      by fastforce
    with False 1(2) have e: "e = None" and rest: "extend_with_zeroes fx i (n - min n 64) s1 = (None, s')"
      by (subst (asm) extend_with_zeroes.simps, auto simp: Let_def split: if_splits)+
    note ws = write_success [OF 1(4,5) w [unfolded e] 1(3)]
    from "1.IH" [OF False refl w [symmetric] _ _ rest ws(2) 1(4,5)] e ws(1) show ?thesis
      by (simp add: replicate_add [symmetric] chunk_split)
  qed
qed

text \<open>
  C4. Resizing leaves exactly the requested contents. If \<open>_ftruncate\<close> reports success for
  the resize step, the file holds the first \<open>len\<close> bytes it held before, followed by as many
  zero bytes as are missing: shrinking keeps a prefix, growing appends zeros only, in chunks
  of 64 whose sum is exact.
\<close>

theorem resize_file_contents:
  assumes laws: "size_law fx content" "seek_law fx content" "write_law fx content" "truncate_law fx content"
      "file_status_law fx"
    and r: "resize_file fx i len s = (None, s')"
  shows "content (world s') i =
    take (unat len) (content (world s) i) @ replicate (unat len - length (content (world s) i)) 0"
proof -
  let ?c = "content (world s) i" and ?n = "fx_file_current_file_size fx (world s) i"
  have n: "unat ?n = length ?c"
    using laws(1) by (simp add: size_law_def)
  consider "len < ?n" | "len = ?n" | "?n < len" by force
  then show ?thesis
  proof cases
    case 1
    then have t: "lift_fx s (fx_file_extended_truncate_release fx (world s) i len) = (None, s')"
      using r by (simp add: resize_file_def)
    have "fx_file_extended_truncate_release fx (world s) i len = (FX_SUCCESS, world s')"
      using lift_fx_success(1) [OF t] laws(5) by (simp add: file_status_law_def)
    with laws(4) 1 n show ?thesis by (simp add: truncate_law_def word_less_nat_alt)
  next
    case 2
    with r n show ?thesis by (simp add: resize_file_def)
  next
    case 3
    then have "\<not> len < ?n" by simp
    with 3 r obtain s1 where k: "lift_fx s (fx_file_extended_seek fx (world s) i ?n) = (None, s1)"
      and x: "extend_with_zeroes fx i (len - ?n) s1 = (None, s')"
      by (auto simp: resize_file_def Let_def split: prod.splits option.splits)
    note sk = seek_success [OF laws(2,5) k]
    have "content (world s') i = ?c @ replicate (unat (len - ?n)) 0"
      using extend_with_zeroes_content [OF laws(3,5) x] sk n by simp
    with 3 n show ?thesis
      by (simp add: unat_sub word_le_nat_alt word_less_nat_alt)
  qed
qed

theorem resize_file_contents_witness:
  "resize_file memory_filex 0 70 sample_open = (None, snd (resize_file memory_filex 0 70 sample_open)) \<and>
   mem_content (world (snd (resize_file memory_filex 0 70 sample_open))) 0 = [1, 2, 3] @ replicate 67 0"
proof -
  have "fst (resize_file memory_filex 0 70 sample_open) = None" by code_simp
  then have r: "resize_file memory_filex 0 70 sample_open = (None, snd (resize_file memory_filex 0 70 sample_open))"
    by (metis prod.collapse)
  have c: "mem_content (world sample_open) 0 = [1, 2, 3]" by code_simp
  from resize_file_contents [OF content_laws r] r c show ?thesis by simp
qed

text \<open>
  \<open>O_APPEND\<close> writes at the end. Whatever the stored position is, and wherever other
  descriptors have moved the file's end, a successful \<open>_write\<close> on an appending descriptor
  whose handle is open for writing adds the bytes behind the present contents, and the
  position is the new end.
\<close>

theorem append_write_at_end:
  assumes laws: "size_law fx content" "seek_law fx content" "write_law fx content" "file_status_law fx"
    and d: "descriptor_for file s = (Some i, s)" "append (descriptors s ! i)" "writable (descriptors s ! i)"
      "open_mode (descriptors s ! i) = Some FX_OPEN_FOR_WRITE"
    and r: "write_body fx file buffer len s = (len, s')" and len: "0 < len"
  shows "content (world s') i = content (world s) i @ take (nat len) buffer \<and>
    unat (position (descriptors s' ! i)) = length (content (world s') i)"
proof -
  let ?n = "fx_file_current_file_size fx (world s) i"
  let ?s1 = "set_descriptor i (position_update (\<lambda>_. ?n)) s"
  have i: "i < length (descriptors s)" using d(1) by (simp add: descriptor_for_Some)
  have w: "world ?s1 = world s" "position (descriptors ?s1 ! i) = ?n"
    using i by (simp_all add: set_descriptor_def)
  have sw: "switch_mode fx i FX_OPEN_FOR_WRITE s = (None, s)"
    using d(4) by (simp add: switch_mode_def)
  obtain e s3 where k: "lift_fx ?s1 (fx_file_extended_seek fx (world ?s1) i ?n) = (e, s3)" by fastforce
  obtain st w4 where wr: "fx_file_write fx (world s3) i (take (nat len) buffer) = (st, w4)" by fastforce
  from r d sw k w wr len have e: "e = None" and st: "st = FX_SUCCESS"
    and s': "s' = set_descriptor i (position_update (\<lambda>_. fx_file_current_file_offset fx w4 i)) (s3\<lparr>world := w4\<rparr>)"
    by (auto simp: write_body_def Let_def split: option.splits if_splits)
  have n: "unat ?n = length (content (world s) i)" using laws(1) by (simp add: size_law_def)
  note sk = seek_success [OF laws(2,4) k [unfolded e]]
  have "lift_fx s3 (fx_file_write fx (world s3) i (take (nat len) buffer)) = (None, s3\<lparr>world := w4\<rparr>)"
    using wr st by (simp add: lift_fx_def)
  from write_success [OF laws(3,4) this] sk n w(1)
  have "content w4 i = content (world s) i @ take (nat len) buffer"
    "unat (fx_file_current_file_offset fx w4 i) = length (content w4 i)" by simp_all
  moreover have "i < length (descriptors s3)"
    using lift_fx_frame [OF k] i by (auto simp: set_descriptor_def)
  ultimately show ?thesis
    using s' by (simp add: set_descriptor_def)
qed

theorem append_write_at_end_witness:
  "descriptor_for 3 sample_open = (Some 0, sample_open) \<and>
   (\<exists>s'. write_body memory_filex 3 [7, 8, 9] 2 sample_open = (2, s') \<and> mem_content (world s') 0 = [1, 2, 3, 7, 8])"
proof -
  have d: "descriptor_for 3 sample_open = (Some 0, sample_open)"
    using sample_open_slot by (simp add: descriptor_for_Some FIRST_FILE_DESCRIPTOR_def)
  have f: "append (descriptors sample_open ! 0)" "writable (descriptors sample_open ! 0)"
    "open_mode (descriptors sample_open ! 0) = Some FX_OPEN_FOR_WRITE"
    by code_simp+
  have "fst (write_body memory_filex 3 [7, 8, 9] 2 sample_open) = 2" by code_simp
  then obtain s' where r: "write_body memory_filex 3 [7, 8, 9] 2 sample_open = (2, s')"
    by (metis prod.collapse)
  have c: "mem_content (world sample_open) 0 = [1, 2, 3]" by code_simp
  have "mem_content (world s') 0 = mem_content (world sample_open) 0 @ take (nat 2) [7, 8, 9]"
    using append_write_at_end [OF memory_size_law memory_seek_law memory_write_law memory_status_law d f r] by simp
  with c d r show ?thesis by simp
qed

end
