(* ===== verification/Rename_Properties.thy ===== *)
theory Rename_Properties
  imports FileX_Memory
begin

text \<open>
  What \<open>_rename\<close> promises: the names reserved for backups, the entries after a successful and
  after a failed rename of a file, and the moves that are refused.
\<close>

section \<open>Backup names\<close>

lemma nibble_bound: "unat (q AND 0xF :: u32) < 16"
proof -
  have "q AND 0xF \<le> 0xF" by (rule word_and_le1)
  then show ?thesis by (simp add: word_le_nat_alt)
qed

lemma hexadecimal_digits: "length hexadecimal = 16" "distinct hexadecimal"
  by (simp_all add: hexadecimal_def)

lemma hex_digit_in: "hex_digit q k \<in> set hexadecimal"
  unfolding hex_digit_def by (intro nth_mem) (simp only: hexadecimal_digits nibble_bound)

lemma hex_digit_inject: "hex_digit q k = hex_digit q' k \<longleftrightarrow> drop_bit k q AND 0xF = drop_bit k q' AND 0xF"
  unfolding hex_digit_def
  by (simp add: nth_eq_iff_index_eq hexadecimal_digits nibble_bound word_unat_eq_iff)

lemma nibble_bit: "bit (drop_bit k q AND 0xF :: u32) r \<longleftrightarrow> r < 4 \<and> bit q (k + r)"
proof -
  have m: "(0xF :: u32) = mask 4" by (simp add: mask_eq_exp_minus_1)
  show ?thesis unfolding m by (auto simp: bit_simps add.commute)
qed

lemma nibbles_determine:
  assumes "\<forall>d<5. drop_bit (4 * d) q AND 0xF = (drop_bit (4 * d) q' AND 0xF :: u32)"
  shows "q AND 0xFFFFF = (q' AND 0xFFFFF :: u32)"
proof -
  have m: "(0xFFFFF :: u32) = mask 20" by (simp add: mask_eq_exp_minus_1)
  have "bit q n = bit q' n" if "n < 20" for n
  proof -
    from that have "n div 4 < 5" by simp
    with assms have "bit (drop_bit (4 * (n div 4)) q AND 0xF) (n mod 4) = bit (drop_bit (4 * (n div 4)) q' AND 0xF) (n mod 4)"
      by simp
    then show ?thesis by (simp only: nibble_bit) simp
  qed
  then show ?thesis unfolding m by (intro bit_eqI) (auto simp: bit_simps)
qed

lemma backup_name_inject:
  assumes "backup_name v q = backup_name v q'"
  shows "q AND 0xFFFFF = q' AND 0xFFFFF"
proof (rule nibbles_determine, intro allI impI)
  fix d :: nat assume "d < 5"
  from assms have "map (\<lambda>digit. hex_digit q ((5 - digit - 1) * 4)) [0..<5] =
      map (\<lambda>digit. hex_digit q' ((5 - digit - 1) * 4)) [0..<5]"
    by (simp add: backup_name_def)
  then have "hex_digit q ((5 - x - 1) * 4) = hex_digit q' ((5 - x - 1) * 4)" if "x < 5" for x
    using that by (auto simp: list_eq_iff_nth_eq)
  from this [of "4 - d"] have "hex_digit q ((5 - (4 - d) - 1) * 4) = hex_digit q' ((5 - (4 - d) - 1) * 4)"
    by simp
  then show "drop_bit (4 * d) q AND 0xF = drop_bit (4 * d) q' AND 0xF"
    using \<open>d < 5\<close> by (simp add: hex_digit_inject mult.commute)
qed

lemma backup_name_canonical: "canonical (backup_name v q)" "length (backup_name v q) < MAXIMUM_PATH"
proof -
  let ?ds = "map (\<lambda>digit. hex_digit q ((5 - digit - 1) * 4)) [0..<5]"
  let ?c = "''FXR'' @ ?ds @ ''.TMP''"
  have "\<forall>x\<in>set hexadecimal. \<not> is_separator x" by code_simp
  then have "\<forall>x\<in>set ?ds. \<not> is_separator x" using hex_digit_in by auto
  then have "valid_component ?c"
    by (auto simp: valid_component_def plain_component_def list_all_iff is_separator_def)
  moreover have "valid_component (tl (mount_name v))"
    by (cases v) (simp_all add: mount_name_def valid_component_def plain_component_def is_separator_def)
  moreover have "backup_name v q = join_path [tl (mount_name v), ?c]"
    by (cases v) (simp_all add: backup_name_def mount_name_def join_path_tail)
  ultimately show "canonical (backup_name v q)" by (simp add: canonical_join)
  show "length (backup_name v q) < MAXIMUM_PATH"
    by (cases v) (simp_all add: backup_name_def mount_name_def MAXIMUM_PATH_def)
qed

section \<open>Entries\<close>

text \<open>The folded name of a resolved path on its volume.\<close>

definition entry_key :: "resolved_path \<Rightarrow> volume \<times> u8 list" where
  "entry_key r = fat_key (media_of r) (local r)"

lemma resolve_frame: "entries_frame s s' \<Longrightarrow> resolve s' p = resolve s p"
  by (simp add: entries_frame_def resolve_def mounted_def [abs_def])

lemma mounted_frame: "entries_frame s s' \<Longrightarrow> mounted s' v = mounted s v"
  by (simp add: entries_frame_def mounted_def)

lemma resolve_shape:
  assumes "resolve s p = Inr r" and "\<not> virtual_root r" and "\<not> mount_root r"
  shows "media r = Some (media_of r) \<and> fold_path p = fold_path (mount_name (media_of r)) @ fold_path (local r)"
proof -
  have "fold_path p = fold_path (mount_name v) @ fold_path (drop (length (mount_name v)) p)"
    if "path_has_prefix p (mount_name v) True" for v
  proof -
    from that obtain a b where ab: "p = a @ b" "fold_path a = fold_path (mount_name v)"
      by (auto simp: path_has_prefix_iff)
    then have "length a = length (mount_name v)" by (metis length_map)
    with ab show ?thesis by simp
  qed
  with assms show ?thesis
    by (auto simp: resolve_def resolve_normalized_path_def media_of_def Let_def split: if_splits)
qed

lemma entry_key_inject:
  assumes "resolve s p = Inr r" "\<not> virtual_root r" "\<not> mount_root r"
    and "resolve s p' = Inr r'" "\<not> virtual_root r'" "\<not> mount_root r'"
    and "media r = media r'"
  shows "entry_key r = entry_key r' \<longleftrightarrow> paths_equal p p'"
proof -
  note a = resolve_shape [OF assms(1-3)] and b = resolve_shape [OF assms(4-6)]
  from a b assms(7) have "media_of r = media_of r'" by simp
  with a b show ?thesis by (auto simp: entry_key_def fat_key_def paths_equal_iff)
qed

definition entries_law :: "'w filex \<Rightarrow> ('w \<Rightarrow> volume \<times> u8 list \<Rightarrow> 'n option) \<Rightarrow> bool" where
  "entries_law fx names \<longleftrightarrow> information_law fx names \<and> flush_law fx names \<and> rename_law fx names \<and> delete_law fx names"

lemma entries_lawD:
  assumes "entries_law fx names"
  shows "information_law fx names" "flush_law fx names" "rename_law fx names" "delete_law fx names"
  using assms by (simp_all add: entries_law_def)

lemma information_names:
  assumes laws: "entries_law fx names" and "registry_inv s" and "stored_path p" and "resolve s p = Inr r" "\<not> virtual_root r" "\<not> mount_root r"
    and "information_unlocked fx (Some p) s = (i, s')"
  shows "names (world s') = names (world s) \<and> (i = Inl ENOENT \<longrightarrow> names (world s) (entry_key r) = None) \<and>
    (\<forall>info. i = Inr info \<longrightarrow> names (world s) (entry_key r) \<noteq> None)"
proof -
  have n: "normalize s (Some p) = Inr p"
    using assms(3) registry_inv_cwd [OF assms(2)]
    by (simp add: normalize_def stored_path_def normalize_path_fixpoint)
  have "p \<noteq> ''/''"
    using assms(4,5) resolve_virtual_root [of "mounted s" p r] by (auto simp: resolve_def)
  moreover obtain st inf w where f: "fx_directory_information_get fx (world s) (media_of r) (local r) = (st, inf, w)"
    by (metis prod_cases3)
  moreover note entries_lawD(1) [OF laws, unfolded information_law_def, rule_format, OF f]
  ultimately show ?thesis
    using assms(4-7) n unfolding entry_key_def information_unlocked_def
    by (auto simp: Let_def split: option.splits if_splits)
qed

lemma information_names_same:
  assumes laws: "entries_law fx names" and "information_unlocked fx p s = (i, s')"
  shows "names (world s') = names (world s)"
  using assms(2) entries_lawD(1) [OF laws] unfolding information_law_def information_unlocked_def
  by (auto simp: Let_def split: sum.splits if_splits prod.splits option.splits)

lemma rename_entry_names:
  assumes laws: "entries_law fx names" and "resolve s p = Inr r" and "resolve s p' = Inr r'" and "media r = media r'"
    and "entry_key r \<noteq> entry_key r'" and "media r = Some v"
    and "rename_entry_unlocked fx False p p' s = (e, s')"
  shows "if e = None
    then names (world s') = (names (world s))(entry_key r' := names (world s) (entry_key r), entry_key r := None) \<and>
         names (world s) (entry_key r') = None
    else names (world s') = names (world s)"
proof -
  from assms(4,6) have v: "media_of r = v" "media_of r' = v" by (auto simp: media_of_def split: option.splits)
  obtain st w where f: "fx_file_rename fx (world s) v (local r) (local r') = (st, w)" by fastforce
  have "fat_key v (local r) \<noteq> fat_key v (local r')" using assms(5) v by (simp add: entry_key_def)
  note l = entries_lawD(3) [OF laws, unfolded rename_law_def, rule_format, OF f this]
  from assms(2-4,7) v f have "e = filex_errno st" "world s' = w"
    by (auto simp: rename_entry_unlocked_def lift_fx_def)
  with l v show ?thesis by (simp add: entry_key_def)
qed

lemma delete_entry_names:
  assumes laws: "entries_law fx names" and "resolve s p = Inr r" and "delete_entry_unlocked fx False p s = (e, s')"
  shows "names (world s') = (if e = None then (names (world s))(entry_key r := None) else names (world s))"
proof -
  obtain st w where f: "fx_file_delete fx (world s) (media_of r) (local r) = (st, w)" by fastforce
  note l = entries_lawD(4) [OF laws, unfolded delete_law_def, rule_format, OF f]
  from assms(2,3) f have "e = filex_errno st" "world s' = w"
    by (auto simp: delete_entry_unlocked_def lift_fx_def)
  with l show ?thesis by (simp add: entry_key_def)
qed

lemma resolve_backup:
  assumes "mounted s v"
  shows "\<exists>r. resolve s (backup_name v q) = Inr r \<and> media r = Some v \<and> \<not> virtual_root r \<and> \<not> mount_root r"
proof -
  have sf: "fold_ascii_case CHR ''s'' \<noteq> fold_ascii_case CHR ''f''" by code_simp
  from assms show ?thesis
    by (cases v) (simp_all add: resolve_def resolve_normalized_path_def backup_name_def mount_name_def sf Let_def)
qed

text \<open>A reserved backup name is free on its volume, and looking for it changes no entry.\<close>

lemma backup_attempts_names:
  assumes laws: "entries_law fx names"
  shows "backup_attempts n fx v s = (rb, s') \<Longrightarrow> registry_inv s \<Longrightarrow> mounted s v \<Longrightarrow>
    names (world s') = names (world s) \<and>
    (\<forall>b. rb = Inr b \<longrightarrow> (\<exists>r. resolve s b = Inr r \<and> media r = Some v \<and> names (world s) (entry_key r) = None))"
proof (induction n arbitrary: s)
  case 0
  then show ?case by auto
next
  case (Suc n)
  let ?b = "backup_name v (rename_backup_sequence s AND 0xFFFFF)"
  let ?s1 = "s\<lparr>rename_backup_sequence := rename_backup_sequence s + 1\<rparr>"
  obtain i s2 where i: "information_unlocked fx (Some ?b) ?s1 = (i, s2)" by fastforce
  have m1: "mounted ?s1 v" using Suc.prems(3) by (simp add: mounted_def)
  then obtain r where r: "resolve ?s1 ?b = Inr r" "media r = Some v" "\<not> virtual_root r" "\<not> mount_root r"
    using resolve_backup by blast
  have "stored_path ?b" by (simp add: stored_path_def backup_name_canonical)
  from information_names [OF laws _ this r(1,3,4) i] Suc.prems(2)
  have n: "names (world s2) = names (world s)" "i = Inl ENOENT \<Longrightarrow> names (world s) (entry_key r) = None" by simp_all
  have rs: "resolve ?s1 p = resolve s p" for p by (simp add: resolve_def mounted_def [abs_def])
  show ?case
  proof (cases i)
    case (Inl e)
    with Suc.prems(1) i have "s' = s2" "\<And>b. rb = Inr b \<Longrightarrow> e = ENOENT \<and> b = ?b"
      by (auto simp: Let_def split: if_splits)
    with n r rs Inl show ?thesis by auto
  next
    case (Inr info)
    with Suc.prems(1) i have b: "backup_attempts n fx v s2 = (rb, s')" by (simp add: Let_def)
    note f = entries_frames(1) [OF i]
    from f Suc.prems(2) have inv2: "registry_inv s2" by (simp add: entries_frame_inv)
    have m2: "mounted s2 v" using m1 by (simp only: mounted_frame [OF f])
    have "resolve s2 b = resolve s b" for b using resolve_frame [OF f] rs by simp
    with Suc.IH [OF b inv2 m2] n show ?thesis by simp
  qed
qed

text \<open>
  The three ends of an exchange: everything as before (or the restoration itself failed and
  its error is reported), the entry moved with the replaced one gone, or moved with the
  replaced one left under its backup name because it could not be deleted.
\<close>

definition moved_entry ::
    "(volume \<times> u8 list \<Rightarrow> 'n option) \<Rightarrow> resolved_path \<Rightarrow> resolved_path \<Rightarrow> volume \<times> u8 list \<Rightarrow> 'n option" where
  "moved_entry m ro rn = m(entry_key rn := m (entry_key ro), entry_key ro := None)"

lemma exchange_plain_names:
  assumes laws: "entries_law fx names"
    and ro: "resolve s old = Inr ro" "media ro = Some v" and rn: "resolve s new = Inr rn" "media rn = Some v"
    and keys: "entry_key ro \<noteq> entry_key rn"
    and x: "exchange_entries fx v old new False False False s = ((e, renamed), s')"
  shows "if renamed then e = None \<and> names (world s') = moved_entry (names (world s)) ro rn
    else e \<noteq> None \<and> names (world s') = names (world s)"
proof -
  obtain e1 s1 where r: "rename_entry_unlocked fx False old new s = (e1, s1)" by fastforce
  have m: "media ro = media rn" using ro rn by simp
  from rename_entry_names [OF laws ro(1) rn(1) m keys ro(2) r] r x show ?thesis
    by (auto simp: exchange_entries_def moved_entry_def Let_def split: if_splits)
qed

lemma exchange_replace_names:
  assumes laws: "entries_law fx names" and inv: "registry_inv s" and mnt: "mounted s v"
    and ro: "resolve s old = Inr ro" "media ro = Some v" and rn: "resolve s new = Inr rn" "media rn = Some v"
    and keys: "entry_key ro \<noteq> entry_key rn"
    and present: "names (world s) (entry_key ro) \<noteq> None" "names (world s) (entry_key rn) \<noteq> None"
    and x: "exchange_entries fx v old new False True False s = ((e, renamed), s')"
  shows "if renamed
    then (if e = None then names (world s') = moved_entry (names (world s)) ro rn
          else \<exists>kb. names (world s) kb = None \<and> names (world s') =
            (moved_entry (names (world s)) ro rn)(kb := names (world s) (entry_key rn)))
    else e \<noteq> None \<and> (names (world s') = names (world s) \<or>
      (\<exists>kb. names (world s) kb = None \<and> names (world s') =
        (names (world s))(kb := names (world s) (entry_key rn), entry_key rn := None)))"
proof -
  obtain rb s0 where fb: "find_rename_backup_unlocked fx v s = (rb, s0)" by fastforce
  note b0 = backup_attempts_names [OF laws fb [unfolded find_rename_backup_unlocked_def] inv mnt]
  note f0 = entries_frames(7) [OF fb]
  show ?thesis
  proof (cases rb)
    case (Inl err)
    with x fb b0 show ?thesis by (auto simp: exchange_entries_def)
  next
    case (Inr b)
    with b0 obtain r where r: "resolve s b = Inr r" "media r = Some v" and free: "names (world s) (entry_key r) = None"
      and n0: "names (world s0) = names (world s)" by auto
    have kb: "entry_key r \<noteq> entry_key rn" "entry_key r \<noteq> entry_key ro" using present free by auto
    obtain e1 s1 where c1: "rename_entry_unlocked fx False new b s0 = (e1, s1)" by fastforce
    note f1 = entries_frame_trans [OF f0 entries_frames(3) [OF c1]]
    obtain e2 s2 where c2: "rename_entry_unlocked fx False old new s1 = (e2, s2)" by fastforce
    note f2 = entries_frame_trans [OF f1 entries_frames(3) [OF c2]]
    obtain e3 s3 where c3: "rename_entry_unlocked fx False b new s2 = (e3, s3)" by fastforce
    obtain e4 s4 where c4: "delete_entry_unlocked fx False b s2 = (e4, s4)" by fastforce
    note res = resolve_frame [OF f0] resolve_frame [OF f1] resolve_frame [OF f2] ro(1) rn(1) r(1)
    have eq: "media rn = media r" "media ro = media rn" "media r = media rn" using ro rn r by simp_all
    note n1 = rename_entry_names [OF laws _ _ eq(1) kb(1) [symmetric] rn(2) c1, unfolded res, OF refl refl]
    note n2 = rename_entry_names [OF laws _ _ eq(2) keys ro(2) c2, unfolded res, OF refl refl]
    note n3 = rename_entry_names [OF laws _ _ eq(3) kb(1) r(2) c3, unfolded res, OF refl refl]
    note n4 = delete_entry_names [OF laws _ c4, unfolded res, OF refl]
    show ?thesis
    proof (cases "e1 = None \<and> e2 = None")
      case True
      then have "names (world s2) = (moved_entry (names (world s)) ro rn)(entry_key r := names (world s) (entry_key rn))"
        using n0 n1 n2 kb keys by (auto simp: moved_entry_def)
      moreover have "moved_entry (names (world s)) ro rn (entry_key r) = None"
        using kb free by (simp add: moved_entry_def)
      ultimately show ?thesis
        using True x fb Inr c1 c2 c4 n4 free by (auto simp: exchange_entries_def fun_upd_idem simp del: split_paired_Ex)
    next
      case False
      have "names (world s3) = (if e3 = None then names (world s) else
          (names (world s))(entry_key r := names (world s) (entry_key rn), entry_key rn := None))"
        if "e1 = None" "e2 \<noteq> None"
        using that n0 n1 n2 n3 free kb by auto
      with False x fb Inr c1 c2 c3 n0 n1 free show ?thesis
        by (cases e1; cases e2; cases e3) (auto simp: exchange_entries_def simp del: split_paired_Ex)
    qed
  qed
qed

text \<open>How a call that renames a file can end, in terms of the entries before and after.\<close>

definition rename_outcome ::
    "('w \<Rightarrow> volume \<times> u8 list \<Rightarrow> 'n option) \<Rightarrow> resolved_path \<Rightarrow> resolved_path \<Rightarrow>
     'w fs \<Rightarrow> error \<Rightarrow> 'w fs \<Rightarrow> bool" where
  "rename_outcome names ro rn s e s' \<longleftrightarrow>
     (if e = None then names (world s') = moved_entry (names (world s)) ro rn
      else names (world s') = names (world s) \<or>
        (\<exists>kb. names (world s) kb = None \<and> names (world s') =
          (names (world s))(kb := names (world s) (entry_key rn), entry_key rn := None)) \<or>
        (\<exists>kb. names (world s) kb = None \<and> names (world s') =
          (moved_entry (names (world s)) ro rn)(kb := names (world s) (entry_key rn))))"

lemma examine_destination_names:
  assumes laws: "entries_law fx names" and inv: "registry_inv s" and new: "stored_path new"
    and rn: "resolve s new = Inr rn" "\<not> virtual_root rn" "\<not> mount_root rn"
    and x: "examine_destination fx new False False s = (r, s')"
  shows "names (world s') = names (world s) \<and>
    (\<forall>de dd. r = Inr (de, dd) \<longrightarrow> \<not> dd \<and> (de \<longrightarrow> names (world s) (entry_key rn) \<noteq> None))"
proof -
  obtain i s1 where i: "information_unlocked fx (Some new) s = (i, s1)" by fastforce
  from information_names [OF laws inv new rn i] x i show ?thesis
    by (auto simp: examine_destination_def Let_def split: sum.splits if_splits)
qed

lemma exchange_names:
  assumes laws: "entries_law fx names" and inv: "registry_inv s" and mnt: "mounted s v"
    and ro: "resolve s old = Inr ro" "media ro = Some v" and rn: "resolve s new = Inr rn" "media rn = Some v"
    and keys: "entry_key ro \<noteq> entry_key rn"
    and present: "names (world s) (entry_key ro) \<noteq> None" "de \<longrightarrow> names (world s) (entry_key rn) \<noteq> None"
    and x: "exchange_entries fx v old new False de False s = ((e, renamed), s')"
  shows "rename_outcome names ro rn s e s' \<and> (e = None \<longrightarrow> renamed)"
proof (cases de)
  case True
  have "exchange_entries fx v old new False True False s = ((e, renamed), s')" using x True by simp
  from exchange_replace_names [OF laws inv mnt ro rn keys present(1) _ this] True present show ?thesis
    by (auto simp: rename_outcome_def simp del: split_paired_Ex split: if_splits)
next
  case False
  have "exchange_entries fx v old new False False False s = ((e, renamed), s')" using x False by simp
  from exchange_plain_names [OF laws ro rn keys this] show ?thesis
    by (auto simp: rename_outcome_def split: if_splits)
qed

lemma migrate_paths_world [simp]: "world (migrate_paths old new b s) = world s"
  by (simp add: migrate_paths_def Let_def)

lemma rename_outcome_world:
  "world t = world s \<Longrightarrow> world t' = world s' \<Longrightarrow> rename_outcome names ro rn s e s' \<Longrightarrow>
   rename_outcome names ro rn t e t'"
  by (simp only: rename_outcome_def)

lemma rename_outcome_names:
  "names (world t) = names (world s) \<Longrightarrow> rename_outcome names ro rn t e s' \<Longrightarrow>
   rename_outcome names ro rn s e s'"
  by (simp only: rename_outcome_def)

lemma rename_outcome_refused: "names (world s') = names (world s) \<Longrightarrow> rename_outcome names ro rn s (Some e) s'"
  by (simp add: rename_outcome_def)

lemma flush_names:
  assumes "entries_law fx names" and "lift_fx s (fx_media_flush fx (world s) v) = (e, s')"
  shows "names (world s') = names (world s)"
  using assms(2) entries_lawD(2) [OF assms(1), unfolded flush_law_def, rule_format, of "world s" v]
  by (auto simp: lift_fx_def split: prod.splits)

lemma rename_commit_names:
  assumes laws: "entries_law fx names" and inv: "registry_inv s" and mnt: "mounted s v"
    and ro: "resolve s old = Inr ro" "media ro = Some v" and rn: "resolve s new = Inr rn" "media rn = Some v"
    and keys: "entry_key ro \<noteq> entry_key rn"
    and present: "names (world s) (entry_key ro) \<noteq> None" "de \<longrightarrow> names (world s) (entry_key rn) \<noteq> None"
    and x: "rename_commit fx v old new False False de False s = Some (e, s')"
  shows "rename_outcome names ro rn s e s' \<and>
    (e = None \<longrightarrow> descriptors s' = map (migrate_descriptor old new False) (descriptors s))"
proof -
  obtain e1 s1 where fl: "(if source_is_open s old False then lift_fx s (fx_media_flush fx (world s) v) else (None, s)) = (e1, s1)"
    by fastforce
  have n1: "names (world s1) = names (world s)" and f1: "entries_frame s s1"
    using fl flush_names [OF laws, of s v e1 s1] entries_frames(2) [of s "fx_media_flush fx (world s) v" e1 s1]
    by (auto split: if_splits)
  show ?thesis
  proof (cases e1)
    case (Some err)
    with x fl n1 show ?thesis by (auto simp: rename_commit_def rename_outcome_def)
  next
    case None
    obtain e2 rd s2 where ex: "exchange_entries fx v old new False de False s1 = ((e2, rd), s2)"
      by (metis prod.exhaust)
    from x fl None ex have e: "e = e2" and s': "s' = (if rd then migrate_paths old new False s2 else s2)"
      by (auto simp: rename_commit_def Let_def)
    have i1: "registry_inv s1" "mounted s1 v" "resolve s1 old = Inr ro" "resolve s1 new = Inr rn"
      using inv mnt ro rn by (simp_all only: entries_frame_inv [OF f1] resolve_frame [OF f1] mounted_frame [OF f1])
    have o: "rename_outcome names ro rn s1 e2 s2 \<and> (e2 = None \<longrightarrow> rd)"
      using exchange_names [OF laws i1(1,2,3) ro(2) i1(4) rn(2) keys _ _ ex] present n1 by simp
    have "rename_outcome names ro rn s e s'"
    proof (rule rename_outcome_names [OF n1], rule rename_outcome_world [OF refl])
      show "world s' = world s2" using s' by simp
      show "rename_outcome names ro rn s1 e s2" using o e by simp
    qed
    moreover have "descriptors s2 = descriptors s"
      using exchange_entries_frame [OF ex] f1 by (simp add: entries_frame_def)
    ultimately show ?thesis using o e s' by (auto simp: migrate_paths_def Let_def)
  qed
qed

lemma resolve_input_resolve: "resolve_input s p = Inr (n, r) \<Longrightarrow> resolve s n = Inr r"
  by (auto simp: resolve_input_def resolve_path_unlocked_def resolve_def split: sum.splits)

lemma resolve_mounted_volume:
  "resolve s p = Inr r \<Longrightarrow> media r = Some v \<Longrightarrow> mounted s v"
  by (auto simp: resolve_def resolve_normalized_path_def empty_resolved_def Let_def split: if_splits)

lemma rename_body_names:
  assumes laws: "entries_law fx names" and inv: "registry_inv s"
    and old: "resolve_input s old_path = Inr (old, ro)" and new: "resolve_input s new_path = Inr (new, rn)"
    and diff: "\<not> paths_equal old new"
    and src: "information_unlocked fx (Some old) s = (Inr info, s1)" "\<not> is_directory info"
    and x: "rename_body fx old_path new_path s = Some (e, s')"
  shows "rename_outcome names ro rn s e s' \<and>
    (e = None \<longrightarrow> descriptors s' = map (migrate_descriptor old new False) (descriptors s))"
proof -
  note f1 = entries_frames(1) [OF src(1)]
  have stored: "stored_path old" "stored_path new" using resolve_input_stored [OF inv] old new by blast+
  note res = resolve_input_resolve [OF old] resolve_input_resolve [OF new]
  note n1 = information_names_same [OF laws src(1)]
  have neq: "old \<noteq> new" using diff by (auto simp: paths_equal_iff)
  consider (roots) "virtual_root ro \<or> mount_root ro \<or> virtual_root rn \<or> mount_root rn"
    | (media) "media ro \<noteq> media rn" | (plain) "\<not> virtual_root ro" "\<not> mount_root ro" "\<not> virtual_root rn"
      "\<not> mount_root rn" "media ro = media rn" by blast
  then show ?thesis
  proof cases
    case roots
    with x old new src n1 show ?thesis by (auto simp: rename_body_def rename_outcome_def)
  next
    case media
    with x old new src n1 show ?thesis by (auto simp: rename_body_def rename_outcome_def split: if_splits)
  next
    case plain
    note i1 = information_names [OF laws inv stored(1) res(1) plain(1,2) src(1)]
    obtain v where v: "media ro = Some v" "media rn = Some v" "media_of ro = v"
      using resolve_shape [OF res(1) plain(1,2)] plain(5) by auto
    have keys: "entry_key ro \<noteq> entry_key rn"
      using entry_key_inject [OF res(1) plain(1,2) res(2) plain(3,4,5)] diff by simp
    obtain d s2 where ed: "examine_destination fx new False False s1 = (d, s2)" by fastforce
    have inv1: "registry_inv s1" and res1: "resolve s1 new = Inr rn"
      using inv res by (simp_all only: entries_frame_inv [OF f1] resolve_frame [OF f1])
    note n2 = examine_destination_names [OF laws inv1 stored(2) res1 plain(3,4) ed]
    have x': "rename_resolved fx old new ro rn False s1 = Some (e, s')"
      using x old new src plain by (simp add: rename_body_def)
    show ?thesis
    proof (cases "rename_precheck s1 old new False")
      case (Some err)
      with x' i1 show ?thesis by (auto simp: rename_resolved_def rename_outcome_def Let_def)
    next
      case None
      note f2 = entries_frame_trans [OF f1 entries_frames(6) [OF ed]]
      have inv2: "registry_inv s2" "mounted s2 v" "resolve s2 old = Inr ro" "resolve s2 new = Inr rn"
        using inv res resolve_mounted_volume [OF res(1) v(1)]
        by (simp_all only: entries_frame_inv [OF f2] resolve_frame [OF f2] mounted_frame [OF f2])
      show ?thesis
      proof (cases d)
        case (Inl err)
        with x' None ed neq diff n2 i1 show ?thesis
          by (auto simp: rename_resolved_def rename_outcome_def Let_def)
      next
        case (Inr p)
        obtain de dd where p: "p = (de, dd)" by (cases p)
        have dd: "dd = False" and pres: "de \<longrightarrow> names (world s2) (entry_key rn) \<noteq> None"
          and n: "names (world s2) = names (world s)"
          using n2 i1 Inr p by auto
        have "rename_commit fx v old new False False de False s2 = Some (e, s')"
          using x' None ed neq diff Inr p dd v by (simp add: rename_resolved_def Let_def)
        from rename_commit_names [OF laws inv2(1,2,3) v(1) inv2(4) v(2) keys _ pres this] i1 n
        have "rename_outcome names ro rn s2 e s' \<and>
          (e = None \<longrightarrow> descriptors s' = map (migrate_descriptor old new False) (descriptors s2))" by simp
        moreover have "descriptors s2 = descriptors s" using f2 by (simp add: entries_frame_def)
        ultimately show ?thesis using rename_outcome_names [OF n] by simp
      qed
    qed
  qed
qed

section \<open>Properties\<close>

lemma memory_entries_law: "entries_law memory_filex mem_names"
  by (simp add: entries_law_def memory_information_law memory_flush_law memory_rename_law memory_delete_law)

lemma migrate_descriptor_path:
  assumes "allocated d"
  shows "fd_path (migrate_descriptor old new False d) = (if paths_equal (fd_path d) old then new else fd_path d)"
proof (cases "path_has_prefix (fd_path d) old False")
  case True
  with assms migrate_path_exact [OF True] show ?thesis by (simp add: migrate_descriptor_def paths_equal_def)
next
  case False
  with assms show ?thesis by (simp add: migrate_descriptor_def paths_equal_def migrate_path_def)
qed

text \<open>
  C2. A successful rename of a file is one move. When \<open>_rename\<close> reports success for a source
  that is a file and a destination under a different name, the directory entries of all
  volumes are exactly those before with the source's entry now under the destination's
  name: a replaced destination is gone, the backup name it passed through is free again and
  nothing else has changed. Every descriptor open on the source now has the new path, every
  other one keeps its path.
\<close>

theorem rename_file_moves:
  assumes laws: "entries_law fx names" and inv: "registry_inv s"
    and old: "resolve_input s old_path = Inr (old, ro)" and new: "resolve_input s new_path = Inr (new, rn)"
    and diff: "\<not> paths_equal old new"
    and src: "information_unlocked fx (Some old) s = (Inr info, s1)" "\<not> is_directory info"
    and x: "rename_body fx old_path new_path s = Some (None, s')"
  shows "names (world s') =
      (names (world s))(entry_key rn := names (world s) (entry_key ro), entry_key ro := None) \<and>
    (\<forall>i. i < length (descriptors s) \<and> allocated (descriptors s ! i) \<longrightarrow>
       fd_path (descriptors s' ! i) =
         (if paths_equal (fd_path (descriptors s ! i)) old then new else fd_path (descriptors s ! i)))"
  using rename_body_names [OF assms]
  by (auto simp: rename_outcome_def moved_entry_def migrate_descriptor_path)

definition sample_renamed :: "memory fs" where
  "sample_renamed = snd (the (rename_body memory_filex (Some ''a'') (Some ''b'') sample_fs))"

lemma sample_resolve:
  "resolve_input sample_fs (Some ''a'') = Inr (''/flash/a'',
     \<lparr>media = Some Flash, rp_volume = Flash, local = ''/a'', virtual_root = False, mount_root = False\<rparr>)"
  "resolve_input sample_fs (Some ''b'') = Inr (''/flash/b'',
     \<lparr>media = Some Flash, rp_volume = Flash, local = ''/b'', virtual_root = False, mount_root = False\<rparr>)"
  by code_simp+

theorem rename_file_moves_witness:
  "rename_body memory_filex (Some ''a'') (Some ''b'') sample_fs = Some (None, sample_renamed) \<and>
   mem_names (world sample_renamed) =
     (mem_names sample_memory)(fat_key Flash ''/b'' := Some (File [1, 2, 3]), fat_key Flash ''/a'' := None)"
proof -
  have "map_option fst (rename_body memory_filex (Some ''a'') (Some ''b'') sample_fs) = Some None"
    by code_simp
  then have x: "rename_body memory_filex (Some ''a'') (Some ''b'') sample_fs = Some (None, sample_renamed)"
    by (auto simp: sample_renamed_def)
  have d: "\<not> paths_equal ''/flash/a'' ''/flash/b''" by code_simp
  let ?i = "information_unlocked memory_filex (Some ''/flash/a'') sample_fs"
  have i: "?i = (Inr (projr (fst ?i)), snd ?i)"
  proof -
    have "isl (fst ?i) = False" by code_simp
    then show ?thesis by (simp add: prod_eq_iff)
  qed
  have f: "\<not> is_directory (projr (fst ?i))" by code_simp
  have a: "mem_names sample_memory (fat_key Flash ''/a'') = Some (File [1, 2, 3])" by code_simp
  have w: "world sample_fs = sample_memory" by (simp add: sample_fs_def)
  from rename_file_moves [OF memory_entries_law sample_inv sample_resolve d i f x] x a w show ?thesis
    by (simp add: entry_key_def media_of_def)
qed





text \<open>
  A directory is never moved into its own subtree. If the destination's components are
  those of the source directory, up to case, followed by at least one more, the call fails
  with \<open>EINVAL\<close> after looking the source up: FileX is asked for nothing else, which matters
  because it would carry the move out and lose the subtree.
\<close>

theorem rename_refuses_own_subtree:
  assumes inv: "registry_inv s"
    and old: "resolve_input s old_path = Inr (old, ro)" "\<not> virtual_root ro" "\<not> mount_root ro"
    and new: "resolve_input s new_path = Inr (new, rn)" "\<not> mount_root rn" "media rn = media ro"
    and src: "information_unlocked fx (Some old) s = (Inr info, s1)" "is_directory info"
    and below: "map fold_path (split_path new) = map fold_path (split_path old) @ c # cs"
  shows "rename_body fx old_path new_path s = Some (Some EINVAL, s1)"
proof -
  have st: "canonical old" "canonical new"
    using resolve_input_stored [OF inv] old(1) new(1) by (auto simp: stored_path_def)
  have o: "old \<noteq> ''/''" using resolve_input_root old(1,2) by blast
  have n: "new \<noteq> ''/''" using below by (auto simp: split_path.simps)
  have p: "path_has_prefix new old True"
    using below path_has_prefix_components [OF st(2,1) o] by auto
  have "\<not> paths_equal old new"
  proof
    assume "paths_equal old new"
    then have "path_has_prefix old new True" by (auto simp: paths_equal_iff path_has_prefix_iff)
    then obtain ds where "map fold_path (split_path old) = map fold_path (split_path new) @ ds"
      using path_has_prefix_components [OF st n] by auto
    from arg_cong [OF this, of length] arg_cong [OF below, of length] show False by simp
  qed
  moreover have "\<not> virtual_root rn" using resolve_input_root [OF new(1)] n by simp
  ultimately show ?thesis
    using old new src p by (simp add: rename_body_def rename_resolved_def rename_precheck_def)
qed

theorem rename_refuses_own_subtree_witness:
  "map_option fst (rename_body memory_filex (Some ''d'') (Some ''/FLASH/D/x/y'') sample_fs) = Some (Some EINVAL)"
proof -
  let ?ro = "\<lparr>media = Some Flash, rp_volume = Flash, local = ''/d'', virtual_root = False, mount_root = False\<rparr>"
  let ?rn = "\<lparr>media = Some Flash, rp_volume = Flash, local = ''/D/x/y'', virtual_root = False, mount_root = False\<rparr>"
  have o: "resolve_input sample_fs (Some ''d'') = Inr (''/flash/d'', ?ro)" by code_simp
  have n: "resolve_input sample_fs (Some ''/FLASH/D/x/y'') = Inr (''/FLASH/D/x/y'', ?rn)" by code_simp
  let ?i = "information_unlocked memory_filex (Some ''/flash/d'') sample_fs"
  have i: "?i = (Inr (projr (fst ?i)), snd ?i)"
  proof -
    have "isl (fst ?i) = False" by code_simp
    then show ?thesis by (simp add: prod_eq_iff)
  qed
  have d: "is_directory (projr (fst ?i))" by code_simp
  have b: "map fold_path (split_path ''/FLASH/D/x/y'') =
      map fold_path (split_path ''/flash/d'') @ fold_path ''x'' # [fold_path ''y'']" by code_simp
  from rename_refuses_own_subtree [OF sample_inv o _ _ n _ _ i d b] show ?thesis by simp
qed

lemma backup_sequence_inject:
  assumes "(q + of_nat i) AND 0xFFFFF = (q + of_nat j) AND (0xFFFFF :: u32)" and "i < 256" "j < 256"
  shows "i = j"
proof -
  have m: "(0xFFFFF :: u32) = mask 20" by (simp add: mask_eq_exp_minus_1)
  have u: "unat ((q + of_nat k) AND 0xFFFFF) = (unat q + k) mod 1048576" for k
  proof -
    have "unat (take_bit 20 (q + of_nat k)) = take_bit 20 (take_bit 32 (unat q + take_bit 32 k))"
      by (simp add: unsigned_take_bit_eq unat_word_ariths unat_of_nat take_bit_eq_mod)
    also have "\<dots> = take_bit 20 (unat q + k)"
      by (simp add: take_bit_eq_mod mod_mod_cancel mod_simps)
    finally show ?thesis unfolding m by (simp add: take_bit_eq_mask [symmetric] take_bit_eq_mod)
  qed
  have "(unat q + i) mod 1048576 = (unat q + j) mod 1048576"
    using assms(1) u [of i] u [of j] by simp
  then have "int ((unat q + i) mod 1048576) = int ((unat q + j) mod 1048576)" by (rule arg_cong)
  then have "(int (unat q) + int i) mod 1048576 = (int (unat q) + int j) mod 1048576"
    by (simp only: zmod_int of_nat_add of_nat_numeral)
  from mod_diff_cong [OF this refl, of "int (unat q)"] assms(2,3) show ?thesis by simp
qed

text \<open>
  The search for a backup name makes progress and yields usable paths: starting from any
  value of the counter, even across its wrap-around, the 256 candidates on a volume are 256
  different names, each normalised and short enough to be stored.
\<close>

theorem backup_candidates_distinct:
  "distinct (map (\<lambda>k. backup_name v ((q + of_nat k) AND 0xFFFFF)) [0..<256]) \<and>
   list_all (\<lambda>k. stored_path (backup_name v ((q + of_nat k) AND 0xFFFFF))) [0..<256]"
proof -
  have "i = j" if "backup_name v ((q + of_nat i) AND 0xFFFFF) = backup_name v ((q + of_nat j) AND 0xFFFFF)"
    and "i < 256" "j < 256" for i j
    using backup_name_inject [OF that(1)] that(2,3) backup_sequence_inject [of q i j] by simp
  then have "inj_on (\<lambda>k. backup_name v ((q + of_nat k) AND 0xFFFFF)) (set [0..<256])"
    by (intro inj_onI) (simp only: set_upt atLeastLessThan_iff)
  then have "distinct (map (\<lambda>k. backup_name v ((q + of_nat k) AND 0xFFFFF)) [0..<256])"
    by (simp only: distinct_map distinct_upt simp_thms)
  moreover have "list_all (\<lambda>k. stored_path (backup_name v ((q + of_nat k) AND 0xFFFFF))) [0..<256]"
    unfolding list_all_iff stored_path_def by (intro ballI conjI backup_name_canonical)
  ultimately show ?thesis ..
qed

end
