(* ===== verification/Runtime_Context.thy ===== *)
theory Runtime_Context
  imports Prelude
begin

text \<open>
  Where a call of the C++ runtime comes from (\<open>platform/runtime/libstdcxx/backend.cpp\<close>): every
  entry point first asks whether the runtime is initialised and whether it runs in a thread.
  \<open>tx_thread_identify\<close> is the calling thread, \<open>None\<close> the null pointer.
\<close>

record call_context =
  initialized :: bool
  interrupt_context :: bool
  tx_thread_identify :: "nat option"

definition require_thread_context :: "call_context \<Rightarrow> error" where
  "require_thread_context x =
     (if \<not> initialized x then Some EAGAIN
      else if interrupt_context x \<or> tx_thread_identify x = None then Some EPERM
      else None)"

definition in_thread_context :: "call_context \<Rightarrow> bool" where
  "in_thread_context x \<longleftrightarrow> initialized x \<and> \<not> interrupt_context x \<and> tx_thread_identify x \<noteq> None"

lemma thread_context_iff: "require_thread_context x = None \<longleftrightarrow> in_thread_context x"
  by (simp add: require_thread_context_def in_thread_context_def)

end
