(* ===== verification/Runtime_Clock.thy ===== *)
theory Runtime_Clock
  imports Runtime_Context
begin

unbundle bit_operations_syntax

text \<open>
  The clocks of the C++ runtime (\<open>platform/runtime/libstdcxx/backend.cpp\<close>, \<open>sleep.cpp\<close>):
  the 64-bit extension of the ThreadX tick counter, the steady and the system clock, the
  high-resolution correction by a hardware counter, conversions between ticks and
  nanoseconds, sleeping and waiting for a deadline. Unsigned quantities are words of their
  width; a \<open>std::int64_t\<close> is a 64-bit word read by \<open>sint\<close>. ThreadX, the real-time clock and
  the hardware timer are parameters over the state \<open>'w\<close> of the rest of the machine.
\<close>

section \<open>Constants and state\<close>

type_synonym s64 = "64 word"

definition TICK_RATE :: u64 where
  "TICK_RATE = 1000"

definition NANOS :: u64 where
  "NANOS = 1000000000"

definition INT64_MAX :: u64 where
  "INT64_MAX = 0x7FFFFFFFFFFFFFFF"

definition MAX_FINITE_WAIT :: u32 where
  "MAX_FINITE_WAIT = 0xFFFFFFFF - 1"

record high_resolution_counter =
  hr_ticks :: u64
  hr_ticks_per_second :: u64
  hr_modulus :: u64
  hr_state_version :: u32

record 'w timer =
  getStateVersion :: "'w \<Rightarrow> u32"
  isRunning :: "'w \<Rightarrow> bool"
  getCounter :: "'w \<Rightarrow> u32"
  getTickFrequencyHz :: "'w \<Rightarrow> u32"
  getAutoReload :: "'w \<Rightarrow> u32"

record 'w clock =
  machine :: 'w
  last_tick :: u32
  tick_epoch :: u64
  epoch_nanoseconds :: s64
  epoch_ticks :: u64
  last_system_time :: s64
  counter_epoch :: high_resolution_counter
  epoch_available :: bool
  counter_available :: bool

text \<open>
  \<open>tx_time_get\<close>, the high-resolution timer (absent if its factory failed), and sleeping.
  \<open>meanwhile\<close> is what interrupts and other threads do to the machine while the timer is read.
\<close>

record 'w clock_services =
  tx_time_get :: "'w \<Rightarrow> u32"
  high_resolution_timer :: "'w timer option"
  meanwhile :: "'w \<Rightarrow> 'w"
  tx_thread_sleep :: "u32 \<Rightarrow> 'w \<Rightarrow> tx_status \<times> 'w"

section \<open>Conversions\<close>

definition ticks_to_nanoseconds :: "u64 \<Rightarrow> s64" where
  "ticks_to_nanoseconds ticks =
     (let seconds = ticks div TICK_RATE;
          remainder = ticks mod TICK_RATE;
          fractional_nanoseconds = remainder * NANOS div TICK_RATE
      in if seconds > (INT64_MAX - fractional_nanoseconds) div NANOS then INT64_MAX
         else seconds * NANOS + fractional_nanoseconds)"

definition thread_ticks_to_counter_ticks :: "u64 \<Rightarrow> u64 \<Rightarrow> u64 option" where
  "thread_ticks_to_counter_ticks ticks frequency =
     (let seconds = ticks div TICK_RATE;
          remainder = ticks mod TICK_RATE;
          fractional_ticks = remainder * frequency div TICK_RATE
      in if seconds > (- 1 - fractional_ticks) div frequency then None
         else Some (seconds * frequency + fractional_ticks))"

definition counter_ticks_to_nanoseconds :: "u64 \<Rightarrow> u64 \<Rightarrow> s64 option" where
  "counter_ticks_to_nanoseconds ticks frequency =
     (let seconds = ticks div frequency;
          remainder = ticks mod frequency;
          fractional_nanoseconds = remainder * NANOS div frequency
      in if seconds > (INT64_MAX - fractional_nanoseconds) div NANOS then None
         else Some (seconds * NANOS + fractional_nanoseconds))"

definition duration_to_ticks :: "u64 \<Rightarrow> u32" where
  "duration_to_ticks nanoseconds =
     (if nanoseconds = 0 then 0
      else
        let whole_seconds = nanoseconds div NANOS;
            remainder = nanoseconds mod NANOS
        in if whole_seconds > 0xFFFFFFFF div TICK_RATE then MAX_FINITE_WAIT
           else
             let ticks = whole_seconds * TICK_RATE + (remainder * TICK_RATE + NANOS - 1) div NANOS
             in ucast (min ticks (ucast MAX_FINITE_WAIT)))"

text \<open>\<open>timespec\<close>: seconds and nanoseconds are signed integers of the C library.\<close>

record time_point =
  tv_sec :: int
  tv_nsec :: int

definition timespec_to_nanoseconds :: "time_point \<Rightarrow> s64" where
  "timespec_to_nanoseconds t =
     (if tv_sec t \<ge> 0x7FFFFFFFFFFFFFFF div 1000000000 then INT64_MAX
      else if tv_sec t < 0 then - 1
      else word_of_int (tv_sec t * 1000000000 + max 0 (min (tv_nsec t) 999999999)))"

section \<open>The tick counter\<close>

definition extend_tick_counter :: "u64 \<Rightarrow> u32 \<Rightarrow> u32 \<Rightarrow> u64 \<times> u64 \<times> u32" where
  "extend_tick_counter epoch previous current =
     (let epoch1 = (if current < previous then epoch + push_bit 32 1 else epoch)
      in (epoch1 OR ucast current, epoch1, current))"

definition steady_ticks :: "'w clock_services \<Rightarrow> 'w clock \<Rightarrow> u64 \<times> 'w clock" where
  "steady_ticks cs c =
     (let (result, epoch, previous) = extend_tick_counter (tick_epoch c) (last_tick c) (tx_time_get cs (machine c))
      in (result, c\<lparr>tick_epoch := epoch, last_tick := previous\<rparr>))"

definition steady_time_nanoseconds :: "'w clock_services \<Rightarrow> 'w clock \<Rightarrow> s64 \<times> 'w clock" where
  "steady_time_nanoseconds cs c =
     (let (ticks, c1) = steady_ticks cs c in (ticks_to_nanoseconds ticks, c1))"

section \<open>The high-resolution counter\<close>

definition valid_high_resolution_counter :: "high_resolution_counter \<Rightarrow> bool" where
  "valid_high_resolution_counter h \<longleftrightarrow>
     hr_ticks_per_second h \<noteq> 0 \<and> hr_ticks_per_second h \<le> NANOS \<and>
     (hr_modulus h = 0 \<or> hr_ticks h < hr_modulus h)"

text \<open>
  The counter and the configuration are read between two reads of the state version, and the
  timer must run before and after: a reading torn by a change of the timer is refused.
\<close>

definition read_high_resolution_counter :: "'w clock_services \<Rightarrow> 'w \<Rightarrow> high_resolution_counter option \<times> 'w" where
  "read_high_resolution_counter cs w =
     (case high_resolution_timer cs of
        None \<Rightarrow> (None, w)
      | Some timer \<Rightarrow>
          let state_version = getStateVersion timer w
          in if \<not> isRunning timer w then (None, w)
             else
               let w1 = meanwhile cs w;
                   counter = \<lparr>hr_ticks = ucast (getCounter timer w1),
                              hr_ticks_per_second = ucast (getTickFrequencyHz timer w1),
                              hr_modulus = ucast (getAutoReload timer w1) + 1,
                              hr_state_version = state_version\<rparr>;
                   w2 = meanwhile cs w1
               in (if isRunning timer w2 \<and> getStateVersion timer w2 = state_version \<and>
                      valid_high_resolution_counter counter then Some counter else None, w2))"

text \<open>
  The number of counter ticks since the epoch: the modular difference, and as many whole
  turns of the counter as bring it closest to the elapsed time of the coarse tick counter.
\<close>

definition count_wraps :: "u64 \<Rightarrow> u64 \<Rightarrow> u64 \<Rightarrow> u64 option" where
  "count_wraps coarse_elapsed modular_elapsed modulus =
     (if coarse_elapsed \<ge> modular_elapsed then
        let difference = coarse_elapsed - modular_elapsed;
            wraps = difference div modulus;
            remainder = difference mod modulus
        in Some (if remainder \<ge> modulus - remainder then wraps + 1 else wraps)
      else if modular_elapsed - coarse_elapsed > modulus div 2 then None
      else Some 0)"

definition elapsed_modular :: "u64 \<Rightarrow> high_resolution_counter \<Rightarrow> high_resolution_counter \<Rightarrow> u64 option" where
  "elapsed_modular elapsed_thread_ticks epoch current =
     (let modular_elapsed =
            (if hr_ticks current \<ge> hr_ticks epoch then hr_ticks current - hr_ticks epoch
             else hr_modulus current - hr_ticks epoch + hr_ticks current)
      in case thread_ticks_to_counter_ticks elapsed_thread_ticks (hr_ticks_per_second current) of
           None \<Rightarrow> None
         | Some coarse_elapsed \<Rightarrow>
             (case count_wraps coarse_elapsed modular_elapsed (hr_modulus current) of
                None \<Rightarrow> None
              | Some wraps \<Rightarrow>
                  if wraps > (- 1 - modular_elapsed) div hr_modulus current then None
                  else Some (modular_elapsed + wraps * hr_modulus current)))"

definition elapsed_counter_ticks :: "u64 \<Rightarrow> high_resolution_counter \<Rightarrow> high_resolution_counter \<Rightarrow> u64 option" where
  "elapsed_counter_ticks elapsed_thread_ticks epoch current =
     (if hr_modulus current = 0 then
        (if hr_ticks current < hr_ticks epoch then None else Some (hr_ticks current - hr_ticks epoch))
      else elapsed_modular elapsed_thread_ticks epoch current)"

definition high_resolution_elapsed_nanoseconds ::
    "'w clock_services \<Rightarrow> u64 \<Rightarrow> 'w clock \<Rightarrow> s64 option \<times> 'w clock" where
  "high_resolution_elapsed_nanoseconds cs current_thread_ticks c =
     (if \<not> counter_available c then (None, c)
      else
        (case read_high_resolution_counter cs (machine c) of
           (None, w) \<Rightarrow> (None, c\<lparr>machine := w, counter_available := False\<rparr>)
         | (Some current, w) \<Rightarrow>
             if hr_state_version current \<noteq> hr_state_version (counter_epoch c) \<or>
                hr_ticks_per_second current \<noteq> hr_ticks_per_second (counter_epoch c) \<or>
                hr_modulus current \<noteq> hr_modulus (counter_epoch c)
             then (None, c\<lparr>machine := w, counter_available := False\<rparr>)
             else
               (case elapsed_counter_ticks (current_thread_ticks - epoch_ticks c) (counter_epoch c) current of
                  None \<Rightarrow> (None, c\<lparr>machine := w\<rparr>)
                | Some ticks \<Rightarrow> (counter_ticks_to_nanoseconds ticks (hr_ticks_per_second current), c\<lparr>machine := w\<rparr>))))"

section \<open>The system clock\<close>

text \<open>
  The compare-and-exchange loop of \<open>publish_system_time\<close>. Each attempt meets the variable in
  some state, which other threads may have changed since the last one, and a weak exchange
  may fail although it finds the expected value. \<open>None\<close>: the attempts given are not enough.
  The result is the returned time and the value stored, if any.
\<close>

record exchange_attempt =
  found :: s64
  spurious :: bool

fun publish_loop :: "s64 \<Rightarrow> s64 \<Rightarrow> exchange_attempt list \<Rightarrow> (s64 \<times> s64 option) option" where
  "publish_loop candidate previous [] =
     (if sint candidate > sint previous then None else Some (previous, None))"
| "publish_loop candidate previous (a # as) =
     (if \<not> sint candidate > sint previous then Some (previous, None)
      else if found a = previous \<and> \<not> spurious a then Some (candidate, Some candidate)
      else publish_loop candidate (found a) as)"

text \<open>A call during which no other thread publishes: the first exchange succeeds.\<close>

definition publish_system_time :: "s64 \<Rightarrow> 'w clock \<Rightarrow> s64 \<times> 'w clock" where
  "publish_system_time candidate c =
     (let previous = last_system_time c
      in case publish_loop candidate previous [\<lparr>found = previous, spurious = False\<rparr>] of
           Some (result, Some stored) \<Rightarrow> (result, c\<lparr>last_system_time := stored\<rparr>)
         | Some (result, None) \<Rightarrow> (result, c)
         | None \<Rightarrow> (previous, c))"

definition system_time_nanoseconds :: "'w clock_services \<Rightarrow> 'w clock \<Rightarrow> s64 \<times> 'w clock" where
  "system_time_nanoseconds cs c =
     (let (current_ticks, c1) = steady_ticks cs c
      in if \<not> epoch_available c1 then publish_system_time (ticks_to_nanoseconds current_ticks) c1
         else
           let (precise, c2) = high_resolution_elapsed_nanoseconds cs current_ticks c1;
               elapsed = (case precise of
                            Some e \<Rightarrow> e
                          | None \<Rightarrow> ticks_to_nanoseconds (current_ticks - epoch_ticks c2))
           in if elapsed = INT64_MAX \<or> sint (epoch_nanoseconds c2) > sint (INT64_MAX - elapsed)
              then publish_system_time INT64_MAX c2
              else publish_system_time (epoch_nanoseconds c2 + elapsed) c2)"

text \<open>
  The clock part of \<open>runtime::initialize\<close>. \<open>rtc_time\<close> is what the real-time clock answers,
  \<open>None\<close> if there is none or it fails; the timer has been started if \<open>timer_started\<close>.
\<close>

definition initialize_clock :: "'w clock_services \<Rightarrow> (int \<times> u32) option \<Rightarrow> bool \<Rightarrow> 'w clock \<Rightarrow> 'w clock" where
  "initialize_clock cs rtc_time timer_started c =
     (let (ticks, c1) = steady_ticks cs (c\<lparr>last_tick := tx_time_get cs (machine c), tick_epoch := 0\<rparr>);
          c2 = c1\<lparr>epoch_ticks := ticks\<rparr>;
          available =
            (case rtc_time of
               None \<Rightarrow> False
             | Some (seconds, nanoseconds) \<Rightarrow>
                 seconds \<ge> 0 \<and> unat nanoseconds < 1000000000 \<and>
                 seconds \<le> (2 ^ 63 - 1) div 1000000000 \<and>
                 (seconds \<noteq> (2 ^ 63 - 1) div 1000000000 \<or> unat nanoseconds \<le> (2 ^ 63 - 1) mod 1000000000));
          c3 = c2\<lparr>epoch_available := available\<rparr>;
          c4 = (case rtc_time of
                  Some (seconds, nanoseconds) \<Rightarrow>
                    if available
                    then c3\<lparr>epoch_nanoseconds := word_of_int (seconds * 1000000000) + ucast nanoseconds\<rparr> else c3
                | None \<Rightarrow> c3)
      in if \<not> timer_started then c4\<lparr>counter_available := False\<rparr>
         else
           (case read_high_resolution_counter cs (machine c4) of
              (None, w) \<Rightarrow> c4\<lparr>machine := w, counter_available := False\<rparr>
            | (Some counter, w) \<Rightarrow> c4\<lparr>machine := w, counter_epoch := counter, counter_available := True\<rparr>))"

section \<open>Sleeping and deadlines\<close>

text \<open>\<open>None\<close> is \<open>fatal_error\<close>, which does not return.\<close>

function sleep_ticks :: "'w clock_services \<Rightarrow> u64 \<Rightarrow> 'w \<Rightarrow> 'w option" where
  "sleep_ticks cs ticks w =
     (if ticks = 0 then Some w
      else
        let chunk = ucast (min ticks (ucast (MAX_FINITE_WAIT - 1))) :: u32;
            (status, w1) = tx_thread_sleep cs (chunk + 1) w
        in if status \<noteq> TX_SUCCESS then None else sleep_ticks cs (ticks - ucast chunk) w1)"
  by pat_completeness auto

lemma sleep_chunk:
  fixes ticks :: u64 and chunk :: u32
  assumes "chunk = ucast (min ticks (ucast (MAX_FINITE_WAIT - 1)))"
  shows "unat chunk = min (unat ticks) (2 ^ 32 - 3)" and "unat (ticks - ucast chunk) = unat ticks - unat chunk"
    and "unat (chunk + 1) = unat chunk + 1"
proof -
  have l: "unat (ucast (MAX_FINITE_WAIT - 1) :: u64) = 2 ^ 32 - 3" by (simp add: MAX_FINITE_WAIT_def)
  have m: "unat (min ticks (ucast (MAX_FINITE_WAIT - 1))) = min (unat ticks) (2 ^ 32 - 3)"
    by (auto simp: min_def word_le_nat_alt l)
  then show c: "unat chunk = min (unat ticks) (2 ^ 32 - 3)"
    by (simp add: assms unsigned_ucast_eq take_bit_nat_eq_self)
  have "unat (ucast chunk :: u64) = unat chunk" by (rule unat_ucast_32_64)
  then show "unat (ticks - ucast chunk) = unat ticks - unat chunk" using c by (simp add: unat_sub_small)
  show "unat (chunk + 1) = unat chunk + 1" using c by (simp add: unat_add_small)
qed

termination sleep_ticks
proof (relation "measure (\<lambda>(cs, ticks, w). unat ticks)")
  fix cs :: "'w clock_services" and ticks :: u64 and w and chunk :: u32 and x xa y
  assume nz: "ticks \<noteq> 0" and c: "chunk = ucast (min ticks (ucast (MAX_FINITE_WAIT - 1)))"
  from nz have "0 < unat ticks" by (simp add: unat_gt_0)
  then show "((cs, ticks - ucast chunk, y), cs, ticks, w) \<in> measure (\<lambda>(cs, ticks, w). unat ticks)"
    using sleep_chunk(1, 2) [OF c] by simp
qed simp

declare sleep_ticks.simps [simp del]

definition sleep_for :: "'w clock_services \<Rightarrow> call_context \<Rightarrow> u64 \<Rightarrow> 'w \<Rightarrow> 'w option" where
  "sleep_for cs x nanoseconds w =
     (if require_thread_context x \<noteq> None \<or> nanoseconds = 0 then Some w
      else
        let whole_seconds = nanoseconds div NANOS;
            remainder = nanoseconds mod NANOS;
            ticks = whole_seconds * TICK_RATE + (remainder * TICK_RATE + NANOS - 1) div NANOS
        in sleep_ticks cs ticks w)"

text \<open>\<open>std::this_thread::__sleep_for\<close>; both counts are signed 64-bit.\<close>

definition std_sleep_for :: "'w clock_services \<Rightarrow> call_context \<Rightarrow> s64 \<Rightarrow> s64 \<Rightarrow> 'w \<Rightarrow> 'w option" where
  "std_sleep_for cs x seconds nanoseconds w =
     (if sint seconds < 0 \<or> sint nanoseconds < 0 then Some w
      else if seconds > - 1 div NANOS then sleep_for cs x (- 1) w
      else sleep_for cs x (seconds * NANOS + nanoseconds) w)"

definition deadline_wait_ticks :: "'w clock_services \<Rightarrow> time_point option \<Rightarrow> 'w clock \<Rightarrow> u32 \<times> 'w clock" where
  "deadline_wait_ticks cs deadline c =
     (case deadline of
        None \<Rightarrow> (0, c)
      | Some d \<Rightarrow>
          let deadline_ns = timespec_to_nanoseconds d;
              (now_ns, c1) = system_time_nanoseconds cs c
          in if sint deadline_ns \<le> sint now_ns then (0, c1)
             else (min (duration_to_ticks (deadline_ns - now_ns)) MAX_FINITE_WAIT, c1))"

text \<open>\<open>wait_function\<close> is a ThreadX service with a timeout in ticks, 0 for no wait.\<close>

partial_function (option) wait_until ::
    "'w clock_services \<Rightarrow> time_point option \<Rightarrow> (u32 \<Rightarrow> 'w \<Rightarrow> tx_status \<times> 'w) \<Rightarrow> 'w clock \<Rightarrow> (error \<times> 'w clock) option" where
  "wait_until cs deadline wait_function c =
     (let (wait_ticks, c1) = deadline_wait_ticks cs deadline c;
          (status, w) = wait_function wait_ticks (machine c1);
          c2 = c1\<lparr>machine := w\<rparr>
      in if wait_ticks = 0 then Some (if status = TX_SUCCESS then None else Some ETIMEDOUT, c2)
         else if status = TX_SUCCESS then Some (None, c2)
         else if status \<noteq> TX_NO_INSTANCE \<and> status \<noteq> TX_NOT_AVAILABLE then Some (Some EINVAL, c2)
         else wait_until cs deadline wait_function c2)"

declare wait_until.simps [code]

section \<open>Exactness of the conversions\<close>

lemma clock_constants [simp]:
  "unat TICK_RATE = 1000" "unat NANOS = 1000000000" "unat INT64_MAX = 2 ^ 63 - 1"
  "unat MAX_FINITE_WAIT = 2 ^ 32 - 2"
  by (simp_all add: TICK_RATE_def NANOS_def INT64_MAX_def MAX_FINITE_WAIT_def)

lemma ticks_to_nanoseconds_unat:
  "unat (ticks_to_nanoseconds ticks) = min (unat ticks * 1000000) (2 ^ 63 - 1)"
proof -
  have s: "unat ticks * unat NANOS div unat TICK_RATE = unat ticks * 1000000" by simp
  show ?thesis
    using scaled_word [of TICK_RATE NANOS INT64_MAX ticks]
    unfolding ticks_to_nanoseconds_def Let_def s by (auto simp: min_def)
qed

lemma counter_ticks_to_nanoseconds_exact:
  assumes "0 < unat f" and "unat f \<le> 1000000000"
  shows "map_option unat (counter_ticks_to_nanoseconds ticks f) =
    (let ns = unat ticks * 1000000000 div unat f in if ns < 2 ^ 63 then Some ns else None)"
proof -
  have "unat f * unat NANOS \<le> 1000000000 * 1000000000" using assms(2) by simp
  then have "unat f * unat NANOS < 2 ^ 64" by simp
  with assms scaled_word [of f NANOS INT64_MAX ticks] show ?thesis
    unfolding counter_ticks_to_nanoseconds_def Let_def by auto
qed

lemma thread_ticks_to_counter_ticks_exact:
  assumes "0 < unat f" and "unat f \<le> 1000000000"
  shows "map_option unat (thread_ticks_to_counter_ticks ticks f) =
    (let n = unat ticks * unat f div 1000 in if n < 2 ^ 64 then Some n else None)"
proof -
  have m: "unat (- 1 :: u64) = 2 ^ 64 - 1" by (simp add: unsigned_minus_1_eq_mask mask_eq_exp_minus_1)
  have "unat TICK_RATE * unat f < 2 ^ 64" using assms(2) by simp
  with assms scaled_word [of TICK_RATE f "- 1" ticks] m show ?thesis
    unfolding thread_ticks_to_counter_ticks_def Let_def by auto
qed

lemma rounded_up:
  fixes n :: nat
  shows "n div 1000000000 * 1000 + (n mod 1000000000 * 1000 + 999999999) div 1000000000 = (n + 999999) div 1000000"
proof -
  let ?a = "n div 1000000000" and ?b = "n mod 1000000000"
  have "(?b * 1000 + 999999999) div 1000000000 = (?b * 1000 + 999999999) div 1000 div 1000000"
    by (simp flip: div_mult2_eq)
  also have "(?b * 1000 + 999999999) div 1000 = ?b + 999999" by simp
  finally have b: "(?b * 1000 + 999999999) div 1000000000 = (?b + 999999) div 1000000" .
  have "n + 999999 = ?b + 999999 + ?a * 1000 * 1000000" by simp
  also have "\<dots> div 1000000 = ?a * 1000 + (?b + 999999) div 1000000" by (subst div_mult_self1) simp_all
  finally show ?thesis using b by simp
qed

lemma duration_parts:
  fixes ns :: u64
  shows "unat (ns div NANOS * TICK_RATE + (ns mod NANOS * TICK_RATE + NANOS - 1) div NANOS) =
    (unat ns + 999999) div 1000000"
proof -
  have n: "unat ns < 2 ^ LENGTH(64)" by (rule unsigned_less)
  then have q: "unat ns div 1000000000 < 18446744074" by simp
  have r: "unat ns mod 1000000000 < 1000000000" by simp
  have q1: "unat (ns div NANOS * TICK_RATE) = unat ns div 1000000000 * 1000"
    using q by (subst unat_mult_small) (simp_all add: unat_div)
  have r1: "unat (ns mod NANOS * TICK_RATE) = unat ns mod 1000000000 * 1000"
    using r by (subst unat_mult_small) (simp_all add: unat_mod)
  have r2: "unat (ns mod NANOS * TICK_RATE + NANOS) = unat ns mod 1000000000 * 1000 + 1000000000"
    using r r1 by (subst unat_add_small) simp_all
  have r3: "unat (ns mod NANOS * TICK_RATE + NANOS - 1) = unat ns mod 1000000000 * 1000 + 999999999"
    using r2 by (subst unat_sub_small) simp_all
  have "unat (ns div NANOS * TICK_RATE + (ns mod NANOS * TICK_RATE + NANOS - 1) div NANOS) =
      unat ns div 1000000000 * 1000 + (unat ns mod 1000000000 * 1000 + 999999999) div 1000000000"
    using q r q1 r3 by (subst unat_add_small) (simp_all add: unat_div)
  also have "\<dots> = (unat ns + 999999) div 1000000" by (rule rounded_up)
  finally show ?thesis .
qed

lemma duration_to_ticks_unat:
  "unat (duration_to_ticks ns) = min ((unat ns + 999999) div 1000000) (2 ^ 32 - 2)"
proof (cases "0xFFFFFFFF div TICK_RATE < ns div NANOS")
  case True
  then have "4294967 < unat ns div 1000000000"
    by (simp add: word_less_nat_alt unat_div)
  then have "4294968 * 1000000000 \<le> unat ns" by linarith
  then show ?thesis using True by (auto simp: duration_to_ticks_def Let_def)
next
  case False
  let ?t = "ns div NANOS * TICK_RATE + (ns mod NANOS * TICK_RATE + NANOS - 1) div NANOS"
  have m: "unat (min ?t (ucast MAX_FINITE_WAIT)) = min ((unat ns + 999999) div 1000000) (2 ^ 32 - 2)"
    using duration_parts [of ns] by (auto simp: min_def word_le_nat_alt unat_ucast_32_64)
  then have "unat (ucast (min ?t (ucast MAX_FINITE_WAIT)) :: u32) = min ((unat ns + 999999) div 1000000) (2 ^ 32 - 2)"
    by (simp add: unsigned_ucast_eq take_bit_nat_eq_self)
  with False show ?thesis by (simp add: duration_to_ticks_def Let_def)
qed

end
