(* ===== verification/Clock_Properties.thy ===== *)
theory Clock_Properties
  imports Runtime_Clock
begin

unbundle bit_operations_syntax

text \<open>
  What the clocks promise: the 64-bit tick count is the true one although ThreadX counts in
  32 bits, the high-resolution counter is unwrapped correctly, the system clock never goes
  back whatever other threads do, conversions are exact or saturate, and sleeping and timed
  waiting end, never early.
\<close>

section \<open>The extended tick counter\<close>

text \<open>The clock last sampled the counter when the true number of ticks was \<open>n\<close>.\<close>

definition sampled_at :: "'w clock \<Rightarrow> nat \<Rightarrow> bool" where
  "sampled_at c n \<longleftrightarrow> tick_epoch c = of_nat (n div 2 ^ 32 * 2 ^ 32) \<and> last_tick c = of_nat n"

lemma extend_or:
  fixes q :: nat and x :: u32
  shows "(of_nat (q * 2 ^ 32) :: u64) OR ucast x = of_nat (q * 2 ^ 32 + unat x)"
proof -
  have p: "(of_nat (q * 2 ^ 32) :: u64) = push_bit 32 (of_nat q)" by (simp add: push_bit_eq_mult)
  have d: "push_bit 32 (of_nat q :: u64) AND ucast x = 0"
    by (rule bit_eqI) (auto simp: bit_simps dest: bit_imp_le_length)
  have u: "(of_nat (unat x) :: u64) = ucast x" by simp
  show ?thesis using disjunctive_add_eq_or [OF d] p by (simp add: u)
qed

lemma tick_wraps:
  fixes q q' r r' B :: nat
  assumes le: "q * B + r \<le> q' * B + r'" and less: "q' * B + r' < q * B + r + B" and r: "r < B" "r' < B"
  shows "q' = q + (if r' < r then 1 else 0)"
proof -
  have "q' < Suc (Suc q)"
  proof (rule ccontr)
    assume "\<not> q' < Suc (Suc q)"
    then have "Suc (Suc q) * B \<le> q' * B" by (intro mult_le_mono1) simp
    then show False using less r by simp
  qed
  moreover have "q \<le> q'"
  proof (rule ccontr)
    assume "\<not> q \<le> q'"
    then have "Suc q' * B \<le> q * B" by (intro mult_le_mono1) simp
    then show False using le r by simp
  qed
  ultimately have "q' = q \<or> q' = Suc q" by linarith
  then show ?thesis using le less by auto
qed

text \<open>
  The extended tick counter is the true one. ThreadX counts ticks in 32 bits. If the
  clock last sampled the counter at tick \<open>n\<close> and samples it again before another \<open>2\<^sup>3\<^sup>2\<close> ticks
  have passed, which the rollover timer sees to, then \<open>steady_ticks\<close> returns the true count
  \<open>n'\<close> in 64 bits, and the clock is left as sampled at \<open>n'\<close>.
\<close>

theorem steady_ticks_extends:
  assumes "sampled_at c n" and "n \<le> n'" and "n' < n + 2 ^ 32" and "tx_time_get cs (machine c) = of_nat n'"
  shows "\<exists>c'. steady_ticks cs c = (of_nat n', c') \<and> sampled_at c' n'"
proof -
  let ?B = "2 ^ 32 :: nat"
  have w: "n' div ?B = n div ?B + (if n' mod ?B < n mod ?B then 1 else 0)"
    using assms(2,3) by (intro tick_wraps [of _ ?B "n mod ?B"]) simp_all
  have u: "unat (of_nat m :: u32) = m mod ?B" for m by (simp add: unat_of_nat take_bit_eq_mod)
  have e: "(if (of_nat n' :: u32) < last_tick c then tick_epoch c + push_bit 32 1 else tick_epoch c) =
      of_nat (n' div ?B * ?B)"
    using assms(1) w by (simp add: sampled_at_def word_less_nat_alt u)
  have "of_nat (n' div ?B * ?B) OR ucast (of_nat n' :: u32) = (of_nat n' :: u64)"
    unfolding extend_or u by simp
  with e assms(4) show ?thesis
    by (auto simp: steady_ticks_def extend_tick_counter_def sampled_at_def Let_def)
qed

section \<open>Unwrapping the high-resolution counter\<close>

text \<open>The coarse count \<open>k\<close> is within half a turn \<open>m\<close> of the true count \<open>n\<close>.\<close>

definition within_half_turn :: "nat \<Rightarrow> nat \<Rightarrow> nat \<Rightarrow> bool" where
  "within_half_turn m n k \<longleftrightarrow> 2 * n \<le> 2 * k + m \<and> 2 * k < 2 * n + m"

lemma nearest_turns_above:
  fixes m n k :: nat
  assumes "within_half_turn m n k" and "n mod m \<le> k"
  shows "(if m - (k - n mod m) mod m \<le> (k - n mod m) mod m then (k - n mod m) div m + 1 else (k - n mod m) div m) =
    n div m"
proof (cases "n \<le> k")
  case True
  have d: "k - n mod m = (k - n) + n div m * m" using True div_mult_mod_eq [of n m] by linarith
  have "k - n < m" "2 * (k - n) < m" using assms(1) True by (auto simp: within_half_turn_def)
  then show ?thesis unfolding d by simp
next
  case False
  with assms have "0 < n div m" by (cases "n < m") (auto simp: div_greater_zero_iff within_half_turn_def)
  then obtain q where q: "n div m = Suc q" using gr0_implies_Suc by blast
  have "n = n mod m + m + q * m" using div_mult_mod_eq [of n m] q by simp
  moreover have h: "0 < n - k" "2 * (n - k) \<le> m" using assms(1) False by (auto simp: within_half_turn_def)
  moreover define r where "r = m - (n - k)"
  ultimately have d: "k - n mod m = r + q * m" and r: "r < m" "m - r \<le> r" using assms(2) False by auto
  then show ?thesis unfolding d q by simp
qed

lemma nearest_turns_below:
  fixes m n k :: nat
  assumes "within_half_turn m n k" and "\<not> n mod m \<le> k"
  shows "n mod m - k \<le> m div 2" and "n div m = 0"
proof -
  have "n < m"
  proof (rule ccontr)
    assume "\<not> n < m"
    moreover have "m \<noteq> 0" using assms by (auto simp: within_half_turn_def)
    ultimately have "1 * m \<le> n div m * m" by (intro mult_le_mono1) (simp add: Suc_le_eq div_greater_zero_iff)
    then have "m + n mod m \<le> n" using div_mult_mod_eq [of n m] by linarith
    then show False using assms by (auto simp: within_half_turn_def)
  qed
  then show "n div m = 0" "n mod m - k \<le> m div 2" using assms by (auto simp: within_half_turn_def)
qed

lemma modular_difference:
  fixes e c m :: u64
  assumes "unat e < unat m" and "unat c = (unat e + n) mod unat m"
  shows "unat (if c \<ge> e then c - e else m - e + c) = n mod unat m"
proof -
  have c: "unat c < unat m" using assms by simp
  have "(unat c + (unat m - unat e)) mod unat m = (unat e + n + (unat m - unat e)) mod unat m"
    using assms(2) by (simp add: mod_add_left_eq)
  also have "\<dots> = n mod unat m" using assms(1) by simp
  finally have n: "(unat c + (unat m - unat e)) mod unat m = n mod unat m" .
  have m: "unat m < 2 ^ LENGTH(64)" by (rule unsigned_less)
  show ?thesis
  proof (cases "unat e \<le> unat c")
    case True
    then have "unat c + (unat m - unat e) = unat c - unat e + unat m" using assms(1) by simp
    then have "n mod unat m = (unat c - unat e) mod unat m" using n by simp
    then show ?thesis using True c by (simp add: word_le_nat_alt unat_sub_small)
  next
    case False
    then have s: "unat c + (unat m - unat e) < unat m" using assms(1) by simp
    have d: "unat (m - e) = unat m - unat e" using assms(1) by (simp add: unat_sub_small)
    then have "unat (m - e + c) = unat m - unat e + unat c" using s m by (subst unat_add_small) simp_all
    with False s n show ?thesis by (simp add: word_le_nat_alt add.commute)
  qed
qed

lemma count_wraps_exact:
  fixes d k m :: u64
  assumes m: "m \<noteq> 0" and n: "n < 2 ^ 64" and d: "unat d = n mod unat m"
    and near: "within_half_turn (unat m) n (unat k)"
  shows "map_option unat (count_wraps k d m) = Some (n div unat m)"
proof (cases "d \<le> k")
  case True
  have mp: "0 < unat m" using m by (simp add: unat_gt_0)
  from True have le: "n mod unat m \<le> unat k" by (simp add: word_le_nat_alt d)
  have u: "unat (k - d) = unat k - n mod unat m" using True by (simp add: unat_sub_small word_le_nat_alt d)
  have r: "unat (m - (k - d) mod m) = unat m - (unat k - n mod unat m) mod unat m"
    using mp by (subst unat_sub_small) (simp_all add: unat_mod u)
  have big: "unat ((k - d) div m + 1) = (unat k - n mod unat m) div unat m + 1"
    if "unat m - (unat k - n mod unat m) mod unat m \<le> (unat k - n mod unat m) mod unat m"
  proof -
    have "n div unat m = (unat k - n mod unat m) div unat m + 1" using nearest_turns_above [OF near le] that by simp
    moreover have "n div unat m \<le> n" by simp
    ultimately have "(unat k - n mod unat m) div unat m + 1 < 2 ^ 64" using n by linarith
    then show ?thesis by (subst unat_add_small) (simp_all add: unat_div u)
  qed
  show ?thesis
    using nearest_turns_above [OF near le] True big
    by (auto simp: count_wraps_def Let_def word_le_nat_alt r unat_mod unat_div u)
next
  case False
  then have nle: "\<not> n mod unat m \<le> unat k" by (simp add: word_le_nat_alt d)
  have "unat (d - k) = n mod unat m - unat k" using nle by (simp add: unat_sub_small d)
  then show ?thesis using False nearest_turns_below [OF near nle]
    by (simp add: count_wraps_def word_less_nat_alt unat_div)
qed

text \<open>
  C8. The high-resolution counter is unwrapped correctly. Let the hardware counter, which
  counts modulo its period, have advanced by \<open>n\<close> since the epoch. If the elapsed time by the
  ThreadX tick counter, scaled to the counter's frequency, is off by no more than half a
  period, then \<open>elapsed_counter_ticks\<close> is \<open>n\<close>: the number of whole turns the counter has made
  meanwhile is recovered, rounding to the nearest, and no step overflows.
\<close>

theorem elapsed_counter_exact:
  assumes m: "hr_modulus current \<noteq> 0" and e: "unat (hr_ticks epoch) < unat (hr_modulus current)"
    and c: "unat (hr_ticks current) = (unat (hr_ticks epoch) + n) mod unat (hr_modulus current)"
    and f: "0 < unat (hr_ticks_per_second current)" "unat (hr_ticks_per_second current) \<le> 1000000000"
    and k: "unat ticks * unat (hr_ticks_per_second current) div 1000 < 2 ^ 64" and n: "n < 2 ^ 64"
    and near: "within_half_turn (unat (hr_modulus current)) n
      (unat ticks * unat (hr_ticks_per_second current) div 1000)"
  shows "elapsed_counter_ticks ticks epoch current = Some (of_nat n)"
proof -
  let ?m = "hr_modulus current" and ?k = "unat ticks * unat (hr_ticks_per_second current) div 1000"
  define d where "d = (if hr_ticks current \<ge> hr_ticks epoch then hr_ticks current - hr_ticks epoch
    else ?m - hr_ticks epoch + hr_ticks current)"
  have d: "unat d = n mod unat ?m" unfolding d_def by (rule modular_difference [OF e c])
  obtain k' where k': "thread_ticks_to_counter_ticks ticks (hr_ticks_per_second current) = Some k'" "unat k' = ?k"
    using thread_ticks_to_counter_ticks_exact [OF f, of ticks] k by (auto simp: Let_def)
  have mp: "0 < unat ?m" using m by (simp add: unat_gt_0)
  obtain t where t: "count_wraps k' d ?m = Some t" "unat t = n div unat ?m"
    using count_wraps_exact [OF m n d, of k'] near k'(2) by (cases "count_wraps k' d ?m") auto
  have total: "unat d + unat t * unat ?m = n" using d t by simp
  have "\<not> (- 1 - d) div ?m < t"
  proof -
    have "unat d < 2 ^ LENGTH(64)" by (rule unsigned_less)
    then have s: "unat (- 1 - d) = 2 ^ 64 - 1 - unat d"
      by (subst unat_sub_small) (simp_all add: unsigned_minus_1_eq_mask mask_eq_exp_minus_1)
    have "unat t * unat ?m \<le> 2 ^ 64 - 1 - unat d" using total n by linarith
    then have "unat t \<le> (2 ^ 64 - 1 - unat d) div unat ?m" using mp by (simp add: less_eq_div_iff_mult_less_eq)
    then show ?thesis by (simp add: word_less_nat_alt unat_div s)
  qed
  moreover have "d + t * ?m = of_nat n"
    unfolding total [symmetric] by simp
  ultimately show ?thesis
    using m t(1) k'(1) unfolding elapsed_counter_ticks_def elapsed_modular_def Let_def d_def by simp
qed

theorem steady_ticks_extends_witness:
  "\<exists>c'. steady_ticks \<lparr>tx_time_get = (\<lambda>w. w), high_resolution_timer = None, meanwhile = (\<lambda>w. w), tx_thread_sleep = (\<lambda>n w. (TX_SUCCESS, w))\<rparr>
       \<lparr>machine = 5, last_tick = 0xFFFFFFF0, tick_epoch = 0, epoch_nanoseconds = 0, epoch_ticks = 0, last_system_time = 0,
        counter_epoch = \<lparr>hr_ticks = 0, hr_ticks_per_second = 1, hr_modulus = 0, hr_state_version = 0\<rparr>,
        epoch_available = False, counter_available = False\<rparr> = (0x100000005, c') \<and> sampled_at c' 0x100000005"
  using steady_ticks_extends [of
      "\<lparr>machine = 5, last_tick = 0xFFFFFFF0, tick_epoch = 0, epoch_nanoseconds = 0, epoch_ticks = 0, last_system_time = 0,
        counter_epoch = \<lparr>hr_ticks = 0, hr_ticks_per_second = 1, hr_modulus = 0, hr_state_version = 0\<rparr>,
        epoch_available = False, counter_available = False\<rparr>" "0xFFFFFFF0" "0x100000005"
      "\<lparr>tx_time_get = (\<lambda>w. w), high_resolution_timer = None, meanwhile = (\<lambda>w. w), tx_thread_sleep = (\<lambda>n w. (TX_SUCCESS, w))\<rparr>"]
  by (simp add: sampled_at_def)

text \<open>A 16-bit counter at 1 MHz that has turned twice: 140000 counts in 140 ticks of the coarse clock.\<close>

theorem elapsed_counter_exact_witness:
  "elapsed_counter_ticks 139
     \<lparr>hr_ticks = 100, hr_ticks_per_second = 1000000, hr_modulus = 65536, hr_state_version = 0\<rparr>
     \<lparr>hr_ticks = 9028, hr_ticks_per_second = 1000000, hr_modulus = 65536, hr_state_version = 0\<rparr> = Some 140000"
  using elapsed_counter_exact [of
      "\<lparr>hr_ticks = 9028, hr_ticks_per_second = 1000000, hr_modulus = 65536, hr_state_version = 0\<rparr>"
      "\<lparr>hr_ticks = 100, hr_ticks_per_second = 1000000, hr_modulus = 65536, hr_state_version = 0\<rparr>" 140000 139]
  by (simp add: within_half_turn_def)

section \<open>The system clock\<close>

lemma publish_sequential:
  "publish_system_time t c =
    (if sint t > sint (last_system_time c) then (t, c\<lparr>last_system_time := t\<rparr>) else (last_system_time c, c))"
  by (simp add: publish_system_time_def)

lemma publish_result:
  assumes "publish_system_time t c = (r, c')"
  shows "sint r = max (sint (last_system_time c)) (sint t)" and "c' = c\<lparr>last_system_time := r\<rparr>"
  using assms by (auto simp: publish_sequential split: if_splits)

text \<open>
  Publishing a time is atomic maximum, whatever other threads do meanwhile. However
  often the exchange of \<open>publish_system_time\<close> fails, and whatever values it finds, the time
  returned is not before the candidate; a value is stored only if it is the candidate and
  larger than the value it replaces, which the last exchange found; otherwise the value
  returned is one that was found and nothing is stored. So the stored time never decreases.
\<close>

theorem publish_loop_maximum:
  assumes "publish_loop candidate previous attempts = Some (r, stored)"
  shows "sint candidate \<le> sint r \<and>
    (case stored of
       None \<Rightarrow> r = previous \<or> r \<in> found ` set attempts
     | Some v \<Rightarrow> v = candidate \<and> r = candidate \<and>
         (\<exists>a\<in>set attempts. \<not> spurious a \<and> sint (found a) < sint v))"
  using assms
proof (induction attempts arbitrary: previous)
  case Nil
  then show ?case by (simp split: if_splits)
next
  case (Cons a as)
  show ?case
  proof (cases "sint candidate > sint previous \<and> \<not> (found a = previous \<and> \<not> spurious a)")
    case True
    with Cons.prems have "publish_loop candidate (found a) as = Some (r, stored)" by (auto split: if_splits)
    from Cons.IH [OF this] show ?thesis by (auto split: option.splits)
  next
    case False
    with Cons.prems show ?thesis by (auto split: if_splits)
  qed
qed

theorem publish_loop_maximum_witness:
  "publish_loop 9 4 [\<lparr>found = 4, spurious = True\<rparr>, \<lparr>found = 6, spurious = False\<rparr>, \<lparr>found = 6, spurious = False\<rparr>] =
     Some (9, Some 9) \<and>
   (\<exists>a\<in>set [\<lparr>found = 4, spurious = True\<rparr>, \<lparr>found = 6, spurious = False\<rparr>, \<lparr>found = 6, spurious = False\<rparr>].
      \<not> spurious a \<and> sint (found a) < sint (9 :: s64))"
  using publish_loop_maximum [of 9 4 "[\<lparr>found = 4, spurious = True\<rparr>, \<lparr>found = 6, spurious = False\<rparr>, \<lparr>found = 6, spurious = False\<rparr>]" 9 "Some 9"]
  by simp

text \<open>The time the tick counter alone gives when the true count is \<open>n\<close>, saturated at the largest time.\<close>

definition coarse_time :: "'w clock \<Rightarrow> nat \<Rightarrow> int" where
  "coarse_time c n =
     min (if epoch_available c then sint (epoch_nanoseconds c) + int (n - unat (epoch_ticks c)) * 1000000
          else int n * 1000000) (2 ^ 63 - 1)"

definition coarse_clock :: "'w clock \<Rightarrow> nat \<Rightarrow> bool" where
  "coarse_clock c n \<longleftrightarrow>
     \<not> counter_available c \<and> n < 2 ^ 64 \<and> (\<exists>m. sampled_at c m \<and> m \<le> n \<and> n < m + 2 ^ 32) \<and>
     (epoch_available c \<longrightarrow> 0 \<le> sint (epoch_nanoseconds c) \<and> unat (epoch_ticks c) \<le> n)"

lemma ticks_to_nanoseconds_sint: "sint (ticks_to_nanoseconds t) = int (min (unat t * 1000000) (2 ^ 63 - 1))"
proof -
  have "unat (ticks_to_nanoseconds t) < 2 ^ 63" by (simp add: ticks_to_nanoseconds_unat)
  from sint_small [OF this] show ?thesis by (simp only: ticks_to_nanoseconds_unat)
qed

lemma elapsed_sum:
  fixes e t :: s64
  assumes "0 \<le> sint e"
  shows "(if ticks_to_nanoseconds t = INT64_MAX \<or> sint e > sint (INT64_MAX - ticks_to_nanoseconds t)
      then sint INT64_MAX else sint (e + ticks_to_nanoseconds t)) = min (sint e + int (unat t) * 1000000) (2 ^ 63 - 1)"
proof -
  let ?t = "ticks_to_nanoseconds t"
  have big: "2 ^ 63 - 1 \<le> x \<Longrightarrow> 2 ^ 63 - 1 \<le> int x" and small: "x \<le> 2 ^ 63 - 1 \<Longrightarrow> int x \<le> 2 ^ 63 - 1" for x :: nat
    by simp_all
  have e: "unat e < 2 ^ 63" "sint e = int (unat e)" using unat_nonneg [OF assms] sint_small by auto
  have t: "unat ?t = min (unat t * 1000000) (2 ^ 63 - 1)" by (rule ticks_to_nanoseconds_unat)
  have m: "sint INT64_MAX = 2 ^ 63 - 1" by (simp add: INT64_MAX_def)
  have d: "unat (INT64_MAX - ?t) = 2 ^ 63 - 1 - unat ?t" using t by (subst unat_sub_small) simp_all
  then have ds: "sint (INT64_MAX - ?t) = int (2 ^ 63 - 1 - unat ?t)" by (subst sint_small) simp_all
  have q: "?t = INT64_MAX \<longleftrightarrow> 2 ^ 63 - 1 \<le> unat t * 1000000"
    unfolding word_unat_eq_iff t by auto
  show ?thesis
  proof (cases "?t = INT64_MAX \<or> sint e > sint (INT64_MAX - ?t)")
    case True
    then have "2 ^ 63 - 1 \<le> unat t * 1000000 \<or> 2 ^ 63 - 1 - unat ?t < unat e"
      by (simp only: q ds e(2) of_nat_less_iff)
    then have "2 ^ 63 - 1 \<le> unat e + unat t * 1000000" unfolding t by linarith
    then have "(2 ^ 63 - 1 :: int) \<le> int (unat e + unat t * 1000000)" by (rule big)
    with True show ?thesis unfolding m e(2) by simp
  next
    case False
    then have "\<not> 2 ^ 63 - 1 \<le> unat t * 1000000" "\<not> 2 ^ 63 - 1 - unat ?t < unat e"
      by (simp_all only: q ds e(2) of_nat_less_iff de_Morgan_disj not_False_eq_True)
    then have s: "unat ?t = unat t * 1000000" "unat e + unat t * 1000000 \<le> 2 ^ 63 - 1" unfolding t by linarith+
    then have u: "unat (e + ?t) = unat e + unat t * 1000000" by (subst unat_add_small) simp_all
    then have "sint (e + ?t) = int (unat e + unat t * 1000000)" using s by (subst sint_small) simp_all
    moreover have "int (unat e + unat t * 1000000) \<le> 2 ^ 63 - 1" using s(2) by (rule small)
    ultimately show ?thesis using False unfolding e(2) by simp
  qed
qed

lemma system_time_coarse:
  assumes c: "coarse_clock c n" and g: "tx_time_get cs (machine c) = of_nat n"
  obtains t c' where "system_time_nanoseconds cs c = (t, c')"
    and "sint t = max (sint (last_system_time c)) (coarse_time c n)" and "last_system_time c' = t"
    and "sampled_at c' n" and "machine c' = machine c" and "counter_available c' = counter_available c"
    and "epoch_available c' = epoch_available c" and "epoch_nanoseconds c' = epoch_nanoseconds c"
    and "epoch_ticks c' = epoch_ticks c"
proof -
  from c obtain m where m: "sampled_at c m" "m \<le> n" "n < m + 2 ^ 32" by (auto simp: coarse_clock_def)
  obtain c1 where s: "steady_ticks cs c = (of_nat n, c1)" "sampled_at c1 n"
    using steady_ticks_extends [OF m g] by auto
  have f: "machine c1 = machine c" "counter_available c1 = counter_available c" "epoch_available c1 = epoch_available c"
    "epoch_nanoseconds c1 = epoch_nanoseconds c" "epoch_ticks c1 = epoch_ticks c" "last_system_time c1 = last_system_time c"
    using s(1) by (auto simp: steady_ticks_def Let_def split: prod.splits)
  have n: "unat (of_nat n :: u64) = n" using c by (simp add: coarse_clock_def unat_of_nat_small)
  define v where "v = (if epoch_available c then
      let e = ticks_to_nanoseconds (of_nat n - epoch_ticks c)
      in if e = INT64_MAX \<or> sint (epoch_nanoseconds c) > sint (INT64_MAX - e) then INT64_MAX
         else epoch_nanoseconds c + e
    else ticks_to_nanoseconds (of_nat n))"
  have v: "sint v = coarse_time c n"
  proof (cases "epoch_available c")
    case True
    with c have e: "0 \<le> sint (epoch_nanoseconds c)" "unat (epoch_ticks c) \<le> n" by (auto simp: coarse_clock_def)
    have "unat (of_nat n - epoch_ticks c :: u64) = n - unat (epoch_ticks c)" using e(2) n by (simp add: unat_sub_small)
    with elapsed_sum [OF e(1), of "of_nat n - epoch_ticks c"] True show ?thesis
      by (simp add: v_def coarse_time_def Let_def if_distrib [of sint])
  next
    case False
    then show ?thesis using n by (simp add: v_def coarse_time_def ticks_to_nanoseconds_sint)
  qed
  have h: "high_resolution_elapsed_nanoseconds cs t c1 = (None, c1)" for t
    using c f by (simp add: high_resolution_elapsed_nanoseconds_def coarse_clock_def)
  obtain t c' where p: "publish_system_time v c1 = (t, c')" by fastforce
  have "system_time_nanoseconds cs c = (t, c')"
    using p by (auto simp: system_time_nanoseconds_def s h f v_def Let_def split: if_splits)
  moreover note publish_result [OF p]
  ultimately show thesis using s(2) f v by (intro that [of t c']) (simp_all add: sampled_at_def)
qed

text \<open>
  The system clock is exact to the tick. Without the high-resolution counter, a reading
  at the true tick count \<open>n\<close> is the real-time clock's value at start-up plus the elapsed ticks,
  or the ticks since start if there is no real-time clock, in nanoseconds, saturated at the
  largest 64-bit time and never before an earlier reading. No signed addition overflows.
\<close>

theorem system_time_exact:
  assumes "coarse_clock c n" and "tx_time_get cs (machine c) = of_nat n"
  shows "sint (fst (system_time_nanoseconds cs c)) = max (sint (last_system_time c)) (coarse_time c n)"
  using system_time_coarse [OF assms] by (metis fst_conv)

text \<open>A clock at tick 5 whose real-time clock said one second at start-up.\<close>

definition sample_clock :: "nat clock" where
  "sample_clock =
     \<lparr>machine = 5, last_tick = 0, tick_epoch = 0, epoch_nanoseconds = 1000000000, epoch_ticks = 0, last_system_time = 0,
      counter_epoch = \<lparr>hr_ticks = 0, hr_ticks_per_second = 1, hr_modulus = 0, hr_state_version = 0\<rparr>,
      epoch_available = True, counter_available = False\<rparr>"

definition sample_services :: "nat clock_services" where
  "sample_services =
     \<lparr>tx_time_get = of_nat, high_resolution_timer = None, meanwhile = (\<lambda>w. w), tx_thread_sleep = (\<lambda>n w. (TX_SUCCESS, w + unat n))\<rparr>"

lemma sample_coarse: "coarse_clock sample_clock 5" "tx_time_get sample_services (machine sample_clock) = of_nat 5"
  by (auto simp: coarse_clock_def sample_clock_def sample_services_def sampled_at_def intro: exI [of _ 0])

theorem system_time_exact_witness: "sint (fst (system_time_nanoseconds sample_services sample_clock)) = 1005000000"
  using system_time_exact [OF sample_coarse] by (simp add: coarse_time_def sample_clock_def)

section \<open>Durations and sleeping\<close>

text \<open>
  A duration turned into ticks and back is rounded up to the next tick: as long as the
  ticks fit a finite ThreadX wait, the result is not shorter than the duration and longer by
  less than one tick of a millisecond.
\<close>

theorem duration_round_trip:
  assumes "unat ns \<le> (2 ^ 32 - 2) * 1000000"
  shows "unat ns \<le> unat (ticks_to_nanoseconds (ucast (duration_to_ticks ns))) \<and>
    unat (ticks_to_nanoseconds (ucast (duration_to_ticks ns))) < unat ns + 1000000"
proof -
  let ?q = "(unat ns + 999999) div 1000000"
  have q: "?q * 1000000 \<le> unat ns + 999999" "unat ns \<le> ?q * 1000000"
    using div_mult_mod_eq [of "unat ns + 999999" 1000000] mod_less_divisor [of 1000000 "unat ns + 999999"] by linarith+
  have "?q \<le> ((2 ^ 32 - 2) * 1000000 + 999999) div 1000000" using assms by (intro div_le_mono) simp
  then have l: "?q \<le> 2 ^ 32 - 2" by simp
  then have "unat (duration_to_ticks ns) = ?q" unfolding duration_to_ticks_unat by simp
  then have "unat (ticks_to_nanoseconds (ucast (duration_to_ticks ns))) = min (?q * 1000000) (2 ^ 63 - 1)"
    unfolding ticks_to_nanoseconds_unat unat_ucast_32_64 by simp
  also have "\<dots> = ?q * 1000000" using l by simp
  finally show ?thesis using q by simp
qed

theorem duration_round_trip_witness:
  "ticks_to_nanoseconds (ucast (duration_to_ticks 1500001)) = 2000000 \<and> unat (1500001 :: u64) \<le> 2000000"
proof -
  have v: "ticks_to_nanoseconds (ucast (duration_to_ticks 1500001)) = 2000000" by code_simp
  have "unat (1500001 :: u64) \<le> unat (ticks_to_nanoseconds (ucast (duration_to_ticks 1500001)))"
    using duration_round_trip [of 1500001] by simp
  with v show ?thesis by simp
qed

text \<open>
  ThreadX sleeps for \<open>n\<close> ticks from the next tick boundary, so \<open>n - 1\<close> full periods at least;
  \<open>now\<close> is the time in nanoseconds.
\<close>

definition sleep_law :: "'w clock_services \<Rightarrow> ('w \<Rightarrow> nat) \<Rightarrow> bool" where
  "sleep_law cs now \<longleftrightarrow>
     (\<forall>n w. fst (tx_thread_sleep cs n w) = TX_SUCCESS \<and>
            now w + (unat n - 1) * 1000000 \<le> now (snd (tx_thread_sleep cs n w)))"

lemma sleep_ticks_advances:
  assumes "sleep_law cs now"
  shows "\<exists>w'. sleep_ticks cs ticks w = Some w' \<and> now w + unat ticks * 1000000 \<le> now w'"
proof (induction "unat ticks" arbitrary: ticks w rule: less_induct)
  case less
  show ?case
  proof (cases "ticks = 0")
    case True
    then show ?thesis by (simp add: sleep_ticks.simps)
  next
    case False
    define chunk :: u32 where "chunk = ucast (min ticks (ucast (MAX_FINITE_WAIT - 1)))"
    note c = sleep_chunk [OF chunk_def]
    obtain w1 where w1: "tx_thread_sleep cs (chunk + 1) w = (TX_SUCCESS, w1)" "now w + unat chunk * 1000000 \<le> now w1"
      using assms c(3) unfolding sleep_law_def by (metis add_diff_cancel_right' prod.collapse)
    have "0 < unat ticks" using False by (simp add: unat_gt_0)
    then have "unat (ticks - ucast chunk) < unat ticks" using c(1,2) by simp
    from less [OF this, of w1] obtain w' where
      "sleep_ticks cs (ticks - ucast chunk) w1 = Some w'" "now w1 + (unat ticks - unat chunk) * 1000000 \<le> now w'"
      unfolding c(2) by auto
    moreover have "unat ticks * 1000000 = unat chunk * 1000000 + (unat ticks - unat chunk) * 1000000"
      using c(1) by (simp flip: add_mult_distrib)
    ultimately show ?thesis
      using False w1 by (subst sleep_ticks.simps) (auto simp: Let_def simp flip: chunk_def)
  qed
qed

text \<open>
  C9. \<open>sleep_for\<close> returns, and never early. In a thread, if ThreadX sleeps at least \<open>n - 1\<close>
  full tick periods when asked for \<open>n\<close> ticks, then at least the requested time has passed
  when \<open>sleep_for\<close> returns, also for durations longer than one ThreadX wait.
\<close>

theorem sleep_for_not_early:
  assumes "sleep_law cs now" and "in_thread_context x"
  shows "\<exists>w'. sleep_for cs x ns w = Some w' \<and> now w + unat ns \<le> now w'"
proof (cases "ns = 0")
  case True
  then show ?thesis by (simp add: sleep_for_def)
next
  case False
  let ?t = "ns div NANOS * TICK_RATE + (ns mod NANOS * TICK_RATE + NANOS - 1) div NANOS"
  obtain w' where w': "sleep_ticks cs ?t w = Some w'" "now w + unat ?t * 1000000 \<le> now w'"
    using sleep_ticks_advances [OF assms(1)] by blast
  have "unat ns \<le> (unat ns + 999999) div 1000000 * 1000000"
    using div_mult_mod_eq [of "unat ns + 999999" 1000000] mod_less_divisor [of 1000000 "unat ns + 999999"] by linarith
  with w' have "now w + unat ns \<le> now w'" unfolding duration_parts by linarith
  with w'(1) False assms(2) show ?thesis by (simp add: sleep_for_def Let_def flip: thread_context_iff)
qed

definition thread_call :: call_context where
  "thread_call = \<lparr>initialized = True, interrupt_context = False, tx_thread_identify = Some 1\<rparr>"

theorem sleep_for_not_early_witness:
  "\<exists>w'. sleep_for sample_services thread_call 1500000 7 = Some w' \<and> 7 * 1000000 + 1500000 \<le> w' * 1000000"
proof -
  have "sleep_law sample_services (\<lambda>w. w * 1000000)" by (simp add: sleep_law_def sample_services_def algebra_simps)
  moreover have "in_thread_context thread_call" by (simp add: in_thread_context_def thread_call_def)
  ultimately show ?thesis using sleep_for_not_early [of sample_services _ thread_call 1500000 7] by fastforce
qed

section \<open>Waiting for a deadline\<close>

lemma system_time_published:
  assumes "system_time_nanoseconds cs c = (t, c')"
  shows "last_system_time c' = t"
  using assms
  by (auto simp: system_time_nanoseconds_def Let_def split: prod.splits if_splits dest: publish_result(2))

lemma deadline_passed:
  assumes "deadline_wait_ticks cs (Some d) c = (0, c')"
  shows "sint (timespec_to_nanoseconds d) \<le> sint (last_system_time c')"
proof -
  obtain t c1 where t: "system_time_nanoseconds cs c = (t, c1)" by fastforce
  show ?thesis
  proof (cases "sint (timespec_to_nanoseconds d) \<le> sint t")
    case True
    with assms t system_time_published [OF t] show ?thesis by (simp add: deadline_wait_ticks_def)
  next
    case False
    let ?r = "timespec_to_nanoseconds d - t"
    have "?r \<noteq> 0" using False by auto
    then have "0 < unat ?r" by (simp add: unat_gt_0)
    then have "0 < unat (duration_to_ticks ?r)" unfolding duration_to_ticks_unat by simp
    then have "duration_to_ticks ?r \<noteq> 0" by auto
    moreover have "MAX_FINITE_WAIT \<noteq> 0" by (simp add: MAX_FINITE_WAIT_def)
    ultimately show ?thesis using assms t False by (auto simp: deadline_wait_ticks_def min_def Let_def split: if_splits)
  qed
qed

text \<open>
  C10. A timed wait never reports a timeout early. If \<open>wait_until\<close> answers \<open>ETIMEDOUT\<close>, then
  the last reading of the system clock it took, after which it tried once more without
  waiting, is not before the deadline, whatever ThreadX and the clock have done.
\<close>

theorem wait_until_not_early:
  assumes "wait_until cs (Some d) wait_function c = Some (Some ETIMEDOUT, c')"
  shows "sint (timespec_to_nanoseconds d) \<le> sint (last_system_time c')"
proof -
  let ?P = "\<lambda>cs dl wf c y. \<forall>d. dl = Some d \<longrightarrow> fst y = Some ETIMEDOUT \<longrightarrow>
    sint (timespec_to_nanoseconds d) \<le> sint (last_system_time (snd y))"
  have "?P cs (Some d) wait_function c (Some ETIMEDOUT, c')"
  proof (rule wait_until.raw_induct [OF _ assms, where P = ?P])
    fix wu cs dl wf c y
    assume IH: "\<And>cs dl wf c y. wu cs dl wf c = Some y \<Longrightarrow> ?P cs dl wf c y"
      and body: "(let (wait_ticks, c1) = deadline_wait_ticks cs dl c; (status, w) = wf wait_ticks (machine c1);
            c2 = c1\<lparr>machine := w\<rparr>
        in if wait_ticks = 0 then Some (if status = TX_SUCCESS then None else Some ETIMEDOUT, c2)
           else if status = TX_SUCCESS then Some (None, c2)
           else if status \<noteq> TX_NO_INSTANCE \<and> status \<noteq> TX_NOT_AVAILABLE then Some (Some EINVAL, c2)
           else wu cs dl wf c2) = Some y"
    obtain t c1 where t: "deadline_wait_ticks cs dl c = (t, c1)" by fastforce
    obtain st w where w: "wf t (machine c1) = (st, w)" by fastforce
    show "?P cs dl wf c y"
    proof (cases "t = 0")
      case True
      with body t w show ?thesis by (auto dest: deadline_passed split: if_splits)
    next
      case False
      with body t w show ?thesis using IH [of cs dl wf "c1\<lparr>machine := w\<rparr>" y]
        by (auto simp: Let_def split: if_splits)
    qed
  qed
  then show ?thesis by simp
qed

text \<open>
  ThreadX shows the low 32 bits of the tick count \<open>now\<close>, and a wait of one tick or more that
  times out lasts past the next tick, and less than a turn of that counter.
\<close>

definition timeout_law :: "'w clock_services \<Rightarrow> ('w \<Rightarrow> nat) \<Rightarrow> (u32 \<Rightarrow> 'w \<Rightarrow> tx_status \<times> 'w) \<Rightarrow> bool" where
  "timeout_law cs now wait_function \<longleftrightarrow>
     (\<forall>w. tx_time_get cs w = of_nat (now w)) \<and>
     (\<forall>t w st w'. t \<noteq> 0 \<longrightarrow> wait_function t w = (st, w') \<longrightarrow> st = TX_NO_INSTANCE \<or> st = TX_NOT_AVAILABLE \<longrightarrow>
        now w < now w' \<and> now w' < now w + 2 ^ 32)"

lemma timespec_bound: "sint (timespec_to_nanoseconds d) < 2 ^ 63"
  using sint_less [of "timespec_to_nanoseconds d"] by simp

lemma coarse_time_step:
  assumes "coarse_time c n < D" and "D < 2 ^ 63" and "n < n'" and "epoch_available c \<Longrightarrow> unat (epoch_ticks c) \<le> n"
  shows "coarse_time c n < coarse_time c n'"
  using assms by (auto simp: coarse_time_def min_def of_nat_diff split: if_splits)

lemma coarse_time_bound:
  assumes "coarse_time c n < 2 ^ 63 - 1" and "epoch_available c \<Longrightarrow> 0 \<le> sint (epoch_nanoseconds c)"
    and "unat (epoch_ticks c) < 2 ^ 62"
  shows "n < 2 ^ 63"
  using assms by (auto simp: coarse_time_def min_def split: if_splits)

lemma deadline_wait_coarse:
  assumes "coarse_clock c n" and "tx_time_get cs (machine c) = of_nat n"
    and w: "deadline_wait_ticks cs (Some d) c = (t, c1)" and "t \<noteq> 0"
  shows "coarse_time c n < sint (timespec_to_nanoseconds d)" and "sampled_at c1 n" and "machine c1 = machine c"
    and "\<not> counter_available c1" and "coarse_time c1 = coarse_time c"
    and "epoch_available c1 = epoch_available c" and "epoch_nanoseconds c1 = epoch_nanoseconds c"
    and "epoch_ticks c1 = epoch_ticks c"
proof -
  obtain v c' where v: "system_time_nanoseconds cs c = (v, c')" "sint v = max (sint (last_system_time c)) (coarse_time c n)"
    "sampled_at c' n" "machine c' = machine c" "counter_available c' = counter_available c"
    "epoch_available c' = epoch_available c" "epoch_nanoseconds c' = epoch_nanoseconds c" "epoch_ticks c' = epoch_ticks c"
    using system_time_coarse [OF assms(1,2)] by metis
  have d: "\<not> sint (timespec_to_nanoseconds d) \<le> sint v" and c1: "c1 = c'"
    using w \<open>t \<noteq> 0\<close> v(1) by (auto simp: deadline_wait_ticks_def Let_def split: if_splits)
  from d v(2) show "coarse_time c n < sint (timespec_to_nanoseconds d)" by simp
  show "sampled_at c1 n" "machine c1 = machine c" "\<not> counter_available c1" "coarse_time c1 = coarse_time c"
    "epoch_available c1 = epoch_available c" "epoch_nanoseconds c1 = epoch_nanoseconds c" "epoch_ticks c1 = epoch_ticks c"
    using v assms(1) by (auto simp: c1 coarse_clock_def coarse_time_def)
qed

text \<open>
  A timed wait comes back. Let the clock run on the tick counter, and let every wait of
  at least one tick that times out last past the next tick. Then \<open>wait_until\<close> returns for
  every deadline: it recomputes the remaining time only as often as the clock needs to reach
  the deadline.
\<close>

theorem wait_until_returns:
  assumes law: "timeout_law cs now wait_function" and c: "coarse_clock c (now (machine c))"
    and e: "unat (epoch_ticks c) < 2 ^ 62"
  shows "\<exists>r c'. wait_until cs deadline wait_function c = Some (r, c')"
proof (cases deadline)
  case None
  then show ?thesis
    by (subst wait_until.simps) (auto simp: deadline_wait_ticks_def Let_def split: prod.splits)
next
  case (Some d)
  let ?D = "sint (timespec_to_nanoseconds d)"
  have "\<exists>r c'. wait_until cs (Some d) wait_function c = Some (r, c')"
    using c e
  proof (induction "nat (?D - coarse_time c (now (machine c)))" arbitrary: c rule: less_induct)
    case less
    let ?n = "now (machine c)"
    have g: "tx_time_get cs (machine c) = of_nat ?n" using law by (simp add: timeout_law_def)
    obtain t c1 where t: "deadline_wait_ticks cs (Some d) c = (t, c1)" by fastforce
    obtain st w where w: "wait_function t (machine c1) = (st, w)" by fastforce
    show ?case
    proof (cases "t \<noteq> 0 \<and> (st = TX_NO_INSTANCE \<or> st = TX_NOT_AVAILABLE)")
      case True
      note k = deadline_wait_coarse [OF less.prems(1) g t] True
      have n': "?n < now w" "now w < ?n + 2 ^ 32" using law k w unfolding timeout_law_def by metis+
      have b: "coarse_time c ?n < ?D" "?D < 2 ^ 63" using k timespec_bound by auto
      have p: "coarse_clock (c1\<lparr>machine := w\<rparr>) (now w)"
      proof -
        have "?n < 2 ^ 63" using b less.prems by (intro coarse_time_bound [of c]) (auto simp: coarse_clock_def)
        with k n' less.prems show ?thesis by (auto simp: coarse_clock_def sampled_at_def intro!: exI [of _ ?n])
      qed
      have "coarse_time c ?n < coarse_time c (now w)"
        using b n' less.prems by (intro coarse_time_step [of c ?n ?D]) (auto simp: coarse_clock_def)
      moreover have "coarse_time (c1\<lparr>machine := w\<rparr>) = coarse_time c1" by (simp add: coarse_time_def fun_eq_iff)
      ultimately have "nat (?D - coarse_time (c1\<lparr>machine := w\<rparr>) (now w)) < nat (?D - coarse_time c ?n)"
        using b k by simp
      with less.hyps [of "c1\<lparr>machine := w\<rparr>"] p k less.prems(2)
      obtain r c' where "wait_until cs (Some d) wait_function (c1\<lparr>machine := w\<rparr>) = Some (r, c')" by auto
      then show ?thesis using t w True by (subst wait_until.simps) (auto simp: Let_def)
    next
      case False
      then show ?thesis using t w by (subst wait_until.simps) (auto simp: Let_def)
    qed
  qed
  with Some show ?thesis by simp
qed

definition absent_wait :: "u32 \<Rightarrow> nat \<Rightarrow> tx_status \<times> nat" where
  "absent_wait t w = (TX_NO_INSTANCE, w + unat t)"

lemma sample_timeout_law: "timeout_law sample_services (\<lambda>w. w) absent_wait"
proof -
  have "unat t < 2 ^ LENGTH(32)" for t :: u32 by (rule unsigned_less)
  then show ?thesis by (auto simp: timeout_law_def sample_services_def absent_wait_def unat_gt_0)
qed

theorem wait_until_returns_witness:
  "\<exists>r c'. wait_until sample_services (Some \<lparr>tv_sec = 1, tv_nsec = 8500000\<rparr>) absent_wait sample_clock = Some (r, c')"
  by (rule wait_until_returns [OF sample_timeout_law]) (use sample_coarse in \<open>simp_all add: sample_clock_def\<close>)

theorem wait_until_not_early_witness:
  "\<exists>c'. wait_until sample_services (Some \<lparr>tv_sec = 1, tv_nsec = 8500000\<rparr>) absent_wait sample_clock =
     Some (Some ETIMEDOUT, c') \<and> 1008500000 \<le> sint (last_system_time c')"
proof -
  let ?w = "wait_until sample_services (Some \<lparr>tv_sec = 1, tv_nsec = 8500000\<rparr>) absent_wait sample_clock"
  have "map_option fst ?w = Some (Some ETIMEDOUT)" by code_simp
  then obtain c' where w: "?w = Some (Some ETIMEDOUT, c')" by auto
  moreover have "sint (timespec_to_nanoseconds \<lparr>tv_sec = 1, tv_nsec = 8500000\<rparr>) = 1008500000" by code_simp
  ultimately show ?thesis using wait_until_not_early [OF w] by auto
qed

end
