(* ===== verification/Thread_Keys.thy ===== *)
theory Thread_Keys
  imports Runtime_Context
begin

unbundle bit_operations_syntax

text \<open>
  Thread-specific keys of the C++ runtime (\<open>platform/runtime/libstdcxx/backend.cpp\<close>). A key is
  a 32-bit handle made of a slot number and the generation of the slot, so that a handle of a
  deleted key is told from that of its successor. Pointers are numbers, 0 the null pointer; a
  destructor is the address of a function. The table is guarded by \<open>initialization_mutex\<close>,
  so every access is one step.
\<close>

section \<open>State\<close>

definition RUNTIME_THREAD_KEY_COUNT :: nat where
  "RUNTIME_THREAD_KEY_COUNT = 16"

definition KEY_INDEX_BITS :: nat where
  "KEY_INDEX_BITS = 8"

definition KEY_INDEX_MASK :: u32 where
  "KEY_INDEX_MASK = push_bit KEY_INDEX_BITS 1 - 1"

definition KEY_GENERATION_MASK :: u32 where
  "KEY_GENERATION_MASK = NOT KEY_INDEX_MASK"

record key_definition =
  destructor :: "nat option"
  generation :: u32
  key_allocated :: bool

text \<open>The fields of \<open>TX_THREAD\<close> that hold a thread's values.\<close>

record thread_values =
  tls_values :: "nat list"
  tls_generations :: "u32 list"

record 'w key_state =
  keys :: "key_definition list"
  thread_tls :: "nat \<Rightarrow> thread_values"
  outside :: 'w

section \<open>Handles\<close>

definition make_key :: "nat \<Rightarrow> u32 \<Rightarrow> u32" where
  "make_key index g = push_bit KEY_INDEX_BITS g OR of_nat index"

definition key_index :: "u32 \<Rightarrow> nat" where
  "key_index key = unat (key AND KEY_INDEX_MASK)"

definition key_generation :: "u32 \<Rightarrow> u32" where
  "key_generation key = drop_bit KEY_INDEX_BITS key"

definition next_generation :: "u32 \<Rightarrow> u32" where
  "next_generation g =
     (let g1 = (g + 1) AND drop_bit KEY_INDEX_BITS KEY_GENERATION_MASK
      in if g1 = 0 then g1 + 1 else g1)"

section \<open>Operations\<close>

definition set_key :: "nat \<Rightarrow> key_definition \<Rightarrow> 'w key_state \<Rightarrow> 'w key_state" where
  "set_key i k s = s\<lparr>keys := (keys s)[i := k]\<rparr>"

text \<open>\<open>key_create\<close> answers an error and the handle it has stored, if any.\<close>

definition key_create :: "call_context \<Rightarrow> bool \<Rightarrow> nat option \<Rightarrow> 'w key_state \<Rightarrow> (error \<times> u32 option) \<times> 'w key_state" where
  "key_create x null_key d s =
     (if require_thread_context x \<noteq> None then ((require_thread_context x, None), s)
      else if null_key then ((Some EINVAL, None), s)
      else
        (case find_index (\<lambda>k. \<not> key_allocated k) (keys s) of
           None \<Rightarrow> ((Some EAGAIN, None), s)
         | Some index \<Rightarrow>
             let g = next_generation (generation (keys s ! index))
             in ((None, Some (make_key index g)),
                 set_key index \<lparr>destructor = d, generation = g, key_allocated = True\<rparr> s)))"

definition key_live :: "u32 \<Rightarrow> 'w key_state \<Rightarrow> bool" where
  "key_live key s \<longleftrightarrow>
     key_allocated (keys s ! key_index key) \<and> generation (keys s ! key_index key) = key_generation key"

definition bad_key :: "u32 \<Rightarrow> bool" where
  "bad_key key \<longleftrightarrow> key_index key \<ge> RUNTIME_THREAD_KEY_COUNT \<or> key_generation key = 0"

definition key_delete :: "call_context \<Rightarrow> u32 \<Rightarrow> 'w key_state \<Rightarrow> error \<times> 'w key_state" where
  "key_delete x key s =
     (if require_thread_context x \<noteq> None then (require_thread_context x, s)
      else if bad_key key then (Some EINVAL, s)
      else if \<not> key_live key s then (Some EINVAL, s)
      else (None, set_key (key_index key) ((keys s ! key_index key)\<lparr>key_allocated := False, destructor := None\<rparr>) s))"

definition key_get :: "call_context \<Rightarrow> u32 \<Rightarrow> 'w key_state \<Rightarrow> nat" where
  "key_get x key s =
     (if require_thread_context x \<noteq> None \<or> bad_key key then 0
      else
        let current = thread_tls s (the (tx_thread_identify x))
        in if \<not> key_live key s \<or> tls_generations current ! key_index key \<noteq> key_generation key then 0
           else tls_values current ! key_index key)"

definition key_set :: "call_context \<Rightarrow> u32 \<Rightarrow> nat \<Rightarrow> 'w key_state \<Rightarrow> error \<times> 'w key_state" where
  "key_set x key v s =
     (if require_thread_context x \<noteq> None then (require_thread_context x, s)
      else if bad_key key then (Some EINVAL, s)
      else if \<not> key_live key s then (Some EINVAL, s)
      else
        let t = the (tx_thread_identify x);
            current = thread_tls s t;
            i = key_index key
        in (None, s\<lparr>thread_tls := (thread_tls s)(t :=
             current\<lparr>tls_generations := (tls_generations current)[i := key_generation key],
                     tls_values := (tls_values current)[i := v]\<rparr>)\<rparr>))"

text \<open>The part of \<open>runtime_libstdcxx_thread_create\<close> that clears a new thread's values.\<close>

definition clear_values :: "nat \<Rightarrow> 'w key_state \<Rightarrow> 'w key_state" where
  "clear_values t s = s\<lparr>thread_tls := (thread_tls s)(t :=
     \<lparr>tls_values = replicate RUNTIME_THREAD_KEY_COUNT 0, tls_generations = replicate RUNTIME_THREAD_KEY_COUNT 0\<rparr>)\<rparr>"

section \<open>Destructors at thread exit\<close>

text \<open>\<open>call d v\<close> is the effect of calling the destructor at address \<open>d\<close> with \<open>v\<close>; it may use the keys.\<close>

definition destroy_value ::
    "(nat \<Rightarrow> nat \<Rightarrow> 'w key_state \<Rightarrow> 'w key_state) \<Rightarrow> nat \<Rightarrow> nat \<Rightarrow> bool \<times> 'w key_state \<Rightarrow> bool \<times> 'w key_state" where
  "destroy_value call thread index r =
     (let (invoked, s) = r;
          k = keys s ! index;
          d = (if key_allocated k then destructor k else None);
          current = thread_tls s thread;
          v = tls_values current ! index
      in case d of
           None \<Rightarrow> (invoked, s)
         | Some f \<Rightarrow>
             if v \<noteq> 0 \<and> tls_generations current ! index = generation k
             then (True, call f v (s\<lparr>thread_tls := (thread_tls s)(thread :=
                     current\<lparr>tls_values := (tls_values current)[index := 0]\<rparr>)\<rparr>))
             else (invoked, s))"

definition destructor_pass ::
    "(nat \<Rightarrow> nat \<Rightarrow> 'w key_state \<Rightarrow> 'w key_state) \<Rightarrow> nat \<Rightarrow> 'w key_state \<Rightarrow> bool \<times> 'w key_state" where
  "destructor_pass call thread s = fold (destroy_value call thread) [0..<RUNTIME_THREAD_KEY_COUNT] (False, s)"

fun destructor_passes ::
    "(nat \<Rightarrow> nat \<Rightarrow> 'w key_state \<Rightarrow> 'w key_state) \<Rightarrow> nat \<Rightarrow> nat \<Rightarrow> 'w key_state \<Rightarrow> 'w key_state" where
  "destructor_passes call thread 0 s = s"
| "destructor_passes call thread (Suc n) s =
     (let (invoked, s1) = destructor_pass call thread s
      in if \<not> invoked then s1 else destructor_passes call thread n s1)"

definition run_thread_specific_destructors ::
    "(nat \<Rightarrow> nat \<Rightarrow> 'w key_state \<Rightarrow> 'w key_state) \<Rightarrow> bool \<Rightarrow> nat option \<Rightarrow> 'w key_state \<Rightarrow> 'w key_state" where
  "run_thread_specific_destructors call is_initialized thread s =
     (case thread of
        Some t \<Rightarrow> if is_initialized then destructor_passes call t 4 s else s
      | None \<Rightarrow> s)"

section \<open>The handle encoding\<close>

lemma key_constants [simp]: "KEY_INDEX_MASK = 0xFF" "drop_bit KEY_INDEX_BITS KEY_GENERATION_MASK = 0xFFFFFF"
  by (simp_all add: KEY_INDEX_MASK_def KEY_INDEX_BITS_def KEY_GENERATION_MASK_def)

lemma mask_numerals: "(0xFF :: u32) = mask 8" "(0xFFFFFF :: u32) = mask 24"
  by (simp_all add: mask_eq_exp_minus_1)

lemma key_index_make:
  assumes "i < 256"
  shows "key_index (make_key i g) = i"
proof -
  have "take_bit 8 i = i" using assms by (simp add: take_bit_nat_eq_self)
  then have "take_bit 8 (push_bit 8 g OR of_nat i :: u32) = of_nat i"
    by (simp add: take_bit_push_bit take_bit_of_nat)
  then have "make_key i g AND 0xFF = of_nat i"
    by (simp add: make_key_def KEY_INDEX_BITS_def mask_numerals take_bit_eq_mask)
  then show ?thesis using assms by (simp add: key_index_def unat_of_nat_small)
qed

lemma key_generation_make:
  assumes "i < 256" and "unat g < 16777216"
  shows "key_generation (make_key i g) = g"
proof -
  have g: "take_bit 24 g = g" using assms(2) by (simp add: word_unat_eq_iff unsigned_take_bit_eq take_bit_nat_eq_self)
  have "drop_bit 8 (of_nat i :: u32) = 0"
    using assms(1) by (simp add: drop_bit_eq_div word_unat_eq_iff unat_div unat_of_nat_small)
  moreover have "drop_bit 8 (push_bit 8 g) = g"
  proof (rule bit_word_eqI)
    fix n
    have "bit g n \<longleftrightarrow> n < 24 \<and> bit g n" using g by (metis bit_take_bit_iff)
    then show "bit (drop_bit 8 (push_bit 8 g)) n \<longleftrightarrow> bit g n" by (auto simp: bit_simps)
  qed
  ultimately show ?thesis by (simp add: key_generation_def make_key_def KEY_INDEX_BITS_def)
qed

lemma unat_next_generation:
  assumes "unat g < 16777216"
  shows "unat (next_generation g) = (if unat g = 16777215 then 1 else unat g + 1)"
proof -
  have s: "unat (g + 1) = unat g + 1" using assms by (simp add: unat_add_small)
  have "unat ((g + 1) AND 0xFFFFFF) = (unat g + 1) mod 2 ^ 24"
    unfolding mask_numerals take_bit_eq_mask [symmetric] unsigned_take_bit_eq s by (simp add: take_bit_eq_mod)
  moreover have "(unat g + 1) mod 2 ^ 24 = (if unat g = 16777215 then 0 else unat g + 1)" using assms by auto
  ultimately show ?thesis
    by (cases "(g + 1) AND 0xFFFFFF = 0") (auto simp: next_generation_def Let_def unat_eq_zero split: if_splits)
qed

section \<open>Invariant\<close>

definition values_ok :: "thread_values \<Rightarrow> bool" where
  "values_ok v \<longleftrightarrow> length (tls_values v) = RUNTIME_THREAD_KEY_COUNT \<and>
     length (tls_generations v) = RUNTIME_THREAD_KEY_COUNT"

definition keys_inv :: "'w key_state \<Rightarrow> bool" where
  "keys_inv s \<longleftrightarrow>
     length (keys s) = RUNTIME_THREAD_KEY_COUNT \<and>
     list_all (\<lambda>k. unat (generation k) < 16777216 \<and> (key_allocated k \<longrightarrow> generation k \<noteq> 0)) (keys s) \<and>
     (\<forall>t. values_ok (thread_tls s t))"

text \<open>The abstract view: the set of handles that name a key.\<close>

definition live_keys :: "'w key_state \<Rightarrow> u32 set" where
  "live_keys s = {make_key i (generation (keys s ! i)) | i. i < RUNTIME_THREAD_KEY_COUNT \<and> key_allocated (keys s ! i)}"

interpretation key_table: slot_table key_allocated "\<lparr>destructor = None, generation = 0, key_allocated = False\<rparr>" RUNTIME_THREAD_KEY_COUNT
  by unfold_locales simp

lemma keys_inv_generation:
  "keys_inv s \<Longrightarrow> i < RUNTIME_THREAD_KEY_COUNT \<Longrightarrow> unat (generation (keys s ! i)) < 16777216"
  by (auto simp: keys_inv_def list_all_length)

lemma make_key_parts:
  assumes "keys_inv s" and "i < RUNTIME_THREAD_KEY_COUNT"
  shows "key_index (make_key i (generation (keys s ! i))) = i"
    and "key_generation (make_key i (generation (keys s ! i))) = generation (keys s ! i)"
  using assms keys_inv_generation [OF assms]
  by (simp_all add: key_index_make key_generation_make RUNTIME_THREAD_KEY_COUNT_def)

text \<open>The code accepts exactly the handles of the abstract view.\<close>

lemma make_key_id: "make_key (key_index k) (key_generation k) = k"
proof (rule bit_word_eqI)
  fix n
  have "(of_nat (unat (k AND 0xFF)) :: u32) = k AND mask 8" by (simp add: mask_numerals)
  then show "bit (make_key (key_index k) (key_generation k)) n \<longleftrightarrow> bit k n"
    by (auto simp: make_key_def key_index_def key_generation_def KEY_INDEX_BITS_def bit_simps simp del: word_of_nat_eq_iff
        dest: bit_imp_le_length)
qed

lemma accepted_iff:
  assumes "keys_inv s"
  shows "\<not> bad_key k \<and> key_live k s \<longleftrightarrow> k \<in> live_keys s"
proof
  assume "\<not> bad_key k \<and> key_live k s"
  then show "k \<in> live_keys s"
    using make_key_id [of k] by (auto simp: live_keys_def bad_key_def key_live_def not_le intro!: exI [of _ "key_index k"])
next
  assume "k \<in> live_keys s"
  then obtain i where i: "k = make_key i (generation (keys s ! i))" "i < RUNTIME_THREAD_KEY_COUNT" "key_allocated (keys s ! i)"
    by (auto simp: live_keys_def)
  with assms make_key_parts [OF assms i(2)] show "\<not> bad_key k \<and> key_live k s"
    by (auto simp: bad_key_def key_live_def keys_inv_def list_all_length)
qed

section \<open>What the operations do to the set of keys\<close>

text \<open>The set of live keys depends on the slots only; a slot in use contributes one handle.\<close>

lemma live_keys_update:
  assumes s: "keys_inv s" and i: "i < RUNTIME_THREAD_KEY_COUNT" and k: "unat (generation k) < 16777216"
  shows "live_keys (set_key i k s) =
    live_keys s - (if key_allocated (keys s ! i) then {make_key i (generation (keys s ! i))} else {}) \<union>
      (if key_allocated k then {make_key i (generation k)} else {})"
proof -
  have l: "length (keys s) = RUNTIME_THREAD_KEY_COUNT" using s by (simp add: keys_inv_def)
  have "make_key i g \<noteq> make_key j (generation (keys s ! j))" if "j < RUNTIME_THREAD_KEY_COUNT" "j \<noteq> i" for j g
    using that i key_index_make [of i g] key_index_make [of j "generation (keys s ! j)"]
    by (auto simp: RUNTIME_THREAD_KEY_COUNT_def)
  then show ?thesis using i l by (auto simp: live_keys_def set_key_def nth_list_update) metis+
qed

lemma set_key_inv:
  assumes "keys_inv s" and "unat (generation k) < 16777216" and "key_allocated k \<longrightarrow> generation k \<noteq> 0"
  shows "keys_inv (set_key i k s)"
  using assms by (auto simp: keys_inv_def set_key_def intro: list_all_update)

lemma next_generation_ok:
  assumes "unat g < 16777216"
  shows "unat (next_generation g) < 16777216" and "next_generation g \<noteq> 0" and "next_generation g \<noteq> g"
proof -
  show "unat (next_generation g) < 16777216" using unat_next_generation [OF assms] assms by (auto split: if_splits)
  have "unat (next_generation g) \<noteq> 0" "unat (next_generation g) \<noteq> unat g"
    using unat_next_generation [OF assms] by (auto split: if_splits)
  then show "next_generation g \<noteq> 0" "next_generation g \<noteq> g" by auto
qed

lemma key_create_error: "key_create x null d s = ((Some e, r), s') \<Longrightarrow> r = None \<and> s' = s"
  by (auto simp: key_create_def Let_def split: if_splits option.splits)

lemma key_create_ok:
  "key_create x null d s = ((None, r), s') \<Longrightarrow>
   \<exists>i. find_index (\<lambda>k. \<not> key_allocated k) (keys s) = Some i \<and>
     r = Some (make_key i (next_generation (generation (keys s ! i)))) \<and>
     s' = set_key i \<lparr>destructor = d, generation = next_generation (generation (keys s ! i)), key_allocated = True\<rparr> s"
  by (simp add: key_create_def Let_def split: if_splits option.splits)

lemma key_delete_ok:
  "key_delete x k s = (None, s') \<Longrightarrow> \<not> bad_key k \<and> key_live k s \<and>
     s' = set_key (key_index k) ((keys s ! key_index k)\<lparr>key_allocated := False, destructor := None\<rparr>) s"
  by (simp add: key_delete_def split: if_splits)

lemma key_delete_error:
  "key_delete x k s = (Some e, s') \<Longrightarrow> s' = s \<and> (require_thread_context x = None \<longrightarrow> bad_key k \<or> \<not> key_live k s)"
  by (auto simp: key_delete_def split: if_splits)

lemma key_create_keeps: "keys_inv s \<Longrightarrow> keys_inv (snd (key_create x null d s))"
proof -
  assume s: "keys_inv s"
  obtain e r s' where c: "key_create x null d s = ((e, r), s')" by (metis prod.exhaust)
  show ?thesis
  proof (cases e)
    case None
    then obtain i where i: "find_index (\<lambda>k. \<not> key_allocated k) (keys s) = Some i"
      "s' = set_key i \<lparr>destructor = d, generation = next_generation (generation (keys s ! i)), key_allocated = True\<rparr> s"
      using key_create_ok c by blast
    moreover have "length (keys s) = RUNTIME_THREAD_KEY_COUNT" using s by (simp add: keys_inv_def)
    ultimately have "unat (generation (keys s ! i)) < 16777216"
      using keys_inv_generation [OF s] by (simp add: find_index_Some)
    with i(2) next_generation_ok s show ?thesis by (simp add: c set_key_inv)
  next
    case (Some e')
    then show ?thesis using key_create_error [of x null d s e' r s'] c s by simp
  qed
qed

lemma key_delete_keeps: "keys_inv s \<Longrightarrow> keys_inv (snd (key_delete x k s))"
  by (auto simp: key_delete_def bad_key_def not_le keys_inv_generation intro!: set_key_inv split: if_splits)

lemma key_set_keeps: "keys_inv s \<Longrightarrow> keys_inv (snd (key_set x k v s))"
  by (auto simp: key_set_def keys_inv_def values_ok_def Let_def)

lemma clear_values_keeps: "keys_inv s \<Longrightarrow> keys_inv (clear_values t s)"
  by (auto simp: clear_values_def keys_inv_def values_ok_def)

lemmas keys_keep = key_create_keeps key_delete_keeps key_set_keeps clear_values_keeps

end
