(* ===== verification/Key_Properties.thy ===== *)
theory Key_Properties
  imports Thread_Keys
begin

text \<open>
  What the thread-specific keys promise: the table implements a set of handles, a value is
  read back under its key and in its thread only, a new key reads null everywhere and its
  handle has not been issued before, and the destructors run once for every value left.
\<close>

section \<open>The set of keys\<close>

text \<open>
  C11. The key table implements a set of handles. While a slot is free, \<open>key_create\<close> adds one
  new handle to the set; when all sixteen are taken it answers \<open>EAGAIN\<close> and changes nothing.
  \<open>key_delete\<close> removes exactly the handle it is given, and answers \<open>EINVAL\<close> and changes
  nothing for every other number, such as the handle of a key deleted before.
\<close>

theorem key_table_refines:
  assumes s: "keys_inv s" and x: "in_thread_context x"
  shows "(if \<exists>i<RUNTIME_THREAD_KEY_COUNT. \<not> key_allocated (keys s ! i)
          then \<exists>k s'. key_create x False d s = ((None, Some k), s') \<and> k \<notin> live_keys s \<and> live_keys s' = insert k (live_keys s)
          else key_create x False d s = ((Some EAGAIN, None), s)) \<and>
    (if k \<in> live_keys s
     then \<exists>s'. key_delete x k s = (None, s') \<and> live_keys s' = live_keys s - {k}
     else key_delete x k s = (Some EINVAL, s))"
proof -
  have x': "require_thread_context x = None" using x by (simp add: thread_context_iff)
  have l: "length (keys s) = RUNTIME_THREAD_KEY_COUNT" using s by (simp add: keys_inv_def)
  have create: "\<exists>k s'. key_create x False d s = ((None, Some k), s') \<and> k \<notin> live_keys s \<and> live_keys s' = insert k (live_keys s)"
    if "\<exists>i<RUNTIME_THREAD_KEY_COUNT. \<not> key_allocated (keys s ! i)"
  proof -
    from that l obtain i where i: "find_index (\<lambda>k. \<not> key_allocated k) (keys s) = Some i"
      by (cases "find_index (\<lambda>k. \<not> key_allocated k) (keys s)") (auto simp: find_index_None list_all_length)
    then have il: "i < RUNTIME_THREAD_KEY_COUNT" "\<not> key_allocated (keys s ! i)" using l by (simp_all add: find_index_Some)
    let ?g = "next_generation (generation (keys s ! i))"
    have g: "unat ?g < 16777216" using next_generation_ok keys_inv_generation [OF s il(1)] by simp
    have "key_index (make_key i ?g) = i" using il(1) by (simp add: key_index_make RUNTIME_THREAD_KEY_COUNT_def)
    then have "make_key i ?g \<notin> live_keys s" using accepted_iff [OF s, of "make_key i ?g"] il(2) by (auto simp: key_live_def)
    with il g show ?thesis
      by (simp add: key_create_def x' i Let_def live_keys_update [OF s il(1)])
  qed
  have full: "key_create x False d s = ((Some EAGAIN, None), s)" if "\<not> (\<exists>i<RUNTIME_THREAD_KEY_COUNT. \<not> key_allocated (keys s ! i))"
  proof -
    have "find_index (\<lambda>k. \<not> key_allocated k) (keys s) = None" using that l by (simp add: find_index_None list_all_length)
    then show ?thesis by (simp add: key_create_def x')
  qed
  have delete: "\<exists>s'. key_delete x k s = (None, s') \<and> live_keys s' = live_keys s - {k}" if "k \<in> live_keys s"
  proof -
    from that accepted_iff [OF s] have k: "\<not> bad_key k" "key_live k s" by auto
    then have i: "key_index k < RUNTIME_THREAD_KEY_COUNT" by (simp add: bad_key_def)
    have "unat (key_generation k) < 16777216" using keys_inv_generation [OF s i] k(2) by (simp add: key_live_def)
    with k i live_keys_update [OF s i, of "(keys s ! key_index k)\<lparr>key_allocated := False, destructor := None\<rparr>"] show ?thesis
      by (simp add: key_delete_def x' key_live_def make_key_id)
  qed
  have "key_delete x k s = (Some EINVAL, s)" if "k \<notin> live_keys s"
    using that accepted_iff [OF s, of k] by (auto simp: key_delete_def x')
  with create full delete show ?thesis by auto
qed

text \<open>
  A value is read back under its key, in its thread, and nowhere else. After a
  successful \<open>key_set\<close> of \<open>k\<close>, reading \<open>k\<close> in the same thread gives the value, and every other
  read, of another handle or in another thread, gives what it gave before.
\<close>

theorem key_get_set:
  assumes s: "keys_inv s" and x: "in_thread_context x" and y: "in_thread_context y" and k: "k \<in> live_keys s"
  shows "key_get y k' (snd (key_set x k v s)) =
    (if k' = k \<and> tx_thread_identify y = tx_thread_identify x then v else key_get y k' s)"
proof -
  have c: "require_thread_context x = None" "require_thread_context y = None" using x y by (simp_all add: thread_context_iff)
  obtain t u where t: "tx_thread_identify x = Some t" "tx_thread_identify y = Some u"
    using x y by (auto simp: in_thread_context_def)
  from k accepted_iff [OF s] have k1: "\<not> bad_key k" "key_live k s" by auto
  have i: "key_index k < RUNTIME_THREAD_KEY_COUNT" using k1 by (simp add: bad_key_def)
  have len: "length (tls_values (thread_tls s t)) = RUNTIME_THREAD_KEY_COUNT"
    "length (tls_generations (thread_tls s t)) = RUNTIME_THREAD_KEY_COUNT" using s by (auto simp: keys_inv_def values_ok_def)
  have same: "k' = k" if "key_index k' = key_index k" "key_live k' s"
    using that k1 by (metis key_live_def make_key_id)
  have live: "key_live j (s\<lparr>thread_tls := f\<rparr>) = key_live j s" for j f by (simp add: key_live_def)
  show ?thesis
  proof (cases "k' = k")
    case True
    then show ?thesis using c t k1 i len by (auto simp: key_get_def key_set_def Let_def live)
  next
    case False
    with same have "key_index k' = key_index k \<Longrightarrow> \<not> key_live k' s" by blast
    with False show ?thesis using c t k1 by (cases "key_index k' = key_index k") (auto simp: key_get_def key_set_def Let_def live)
  qed
qed

section \<open>New keys\<close>

definition start_keys :: "'w \<Rightarrow> 'w key_state" where
  "start_keys w =
     \<lparr>keys = replicate RUNTIME_THREAD_KEY_COUNT \<lparr>destructor = None, generation = 0, key_allocated = False\<rparr>,
      thread_tls = (\<lambda>_. \<lparr>tls_values = replicate RUNTIME_THREAD_KEY_COUNT 0,
                        tls_generations = replicate RUNTIME_THREAD_KEY_COUNT 0\<rparr>),
      outside = w\<rparr>"

text \<open>
  The states the operations lead to, in any order and from any thread, with the handles
  issued so far. \<open>null\<close> is the step of thread exit that clears a value before its destructor
  runs, \<open>other\<close> anything outside the table.
\<close>

inductive keys_reachable :: "u32 list \<Rightarrow> 'w key_state \<Rightarrow> bool" where
  start: "keys_reachable [] (start_keys w)"
| create: "keys_reachable h s \<Longrightarrow> key_create x nk d s = ((None, Some k), s') \<Longrightarrow> keys_reachable (k # h) s'"
| delete: "keys_reachable h s \<Longrightarrow> key_delete x k s = (e, s') \<Longrightarrow> keys_reachable h s'"
| set: "keys_reachable h s \<Longrightarrow> key_set x k v s = (e, s') \<Longrightarrow> keys_reachable h s'"
| thread: "keys_reachable h s \<Longrightarrow> keys_reachable h (clear_values t s)"
| null: "keys_reachable h s \<Longrightarrow> keys_reachable h (s\<lparr>thread_tls := (thread_tls s)(t :=
    (thread_tls s t)\<lparr>tls_values := (tls_values (thread_tls s t))[i := 0]\<rparr>)\<rparr>)"
| other: "keys_reachable h s \<Longrightarrow> keys_reachable h (s\<lparr>outside := w\<rparr>)"

definition slot_generation :: "nat \<Rightarrow> 'w key_state \<Rightarrow> nat" where
  "slot_generation i s = unat (generation (keys s ! i))"

definition history_inv :: "u32 list \<Rightarrow> 'w key_state \<Rightarrow> bool" where
  "history_inv h s \<longleftrightarrow>
     keys_inv s \<and> (\<forall>i<RUNTIME_THREAD_KEY_COUNT. slot_generation i s \<le> length h) \<and>
     (\<forall>t. \<forall>i<RUNTIME_THREAD_KEY_COUNT. unat (tls_generations (thread_tls s t) ! i) \<le> slot_generation i s) \<and>
     (\<forall>k\<in>set h. key_index k < RUNTIME_THREAD_KEY_COUNT \<and> unat (key_generation k) \<le> slot_generation (key_index k) s)"

lemma start_history: "history_inv [] (start_keys w)"
  by (auto simp: history_inv_def start_keys_def keys_inv_def values_ok_def slot_generation_def list_all_iff)

lemma create_step:
  assumes h: "history_inv h s" and n: "length h < 16777215" and c: "key_create x nk d s = ((None, Some k), s')"
  obtains i where "i < RUNTIME_THREAD_KEY_COUNT" and "key_index k = i" and "unat (key_generation k) = slot_generation i s + 1"
    and "s' = set_key i \<lparr>destructor = d, generation = key_generation k, key_allocated = True\<rparr> s"
proof -
  have s: "keys_inv s" using h by (simp add: history_inv_def)
  obtain i where i: "find_index (\<lambda>k. \<not> key_allocated k) (keys s) = Some i"
    "k = make_key i (next_generation (generation (keys s ! i)))"
    "s' = set_key i \<lparr>destructor = d, generation = next_generation (generation (keys s ! i)), key_allocated = True\<rparr> s"
    using key_create_ok [OF c] by auto
  have il: "i < RUNTIME_THREAD_KEY_COUNT" using i(1) s by (simp add: find_index_Some keys_inv_def)
  then have g: "unat (generation (keys s ! i)) < 16777216" "slot_generation i s \<noteq> 16777215"
    using keys_inv_generation [OF s] h n by (auto simp: history_inv_def)
  have "unat (next_generation (generation (keys s ! i))) = slot_generation i s + 1"
    using unat_next_generation [OF g(1)] g(2) by (simp add: slot_generation_def)
  with i il g next_generation_ok(1) [OF g(1)] show thesis
    by (intro that [of i]) (simp_all add: key_index_make key_generation_make RUNTIME_THREAD_KEY_COUNT_def)
qed

lemma create_history:
  assumes h: "history_inv h s" and n: "length h < 16777215" and c: "key_create x nk d s = ((None, Some k), s')"
  shows "history_inv (k # h) s'"
proof -
  obtain i where i: "i < RUNTIME_THREAD_KEY_COUNT" "key_index k = i" "unat (key_generation k) = slot_generation i s + 1"
    and s': "s' = set_key i \<lparr>destructor = d, generation = key_generation k, key_allocated = True\<rparr> s"
    using create_step [OF h n c] by blast
  have k: "keys_inv s'" using key_create_keeps [of s x nk d] h c by (simp add: history_inv_def)
  have l: "length (keys s) = RUNTIME_THREAD_KEY_COUNT" using h by (simp add: history_inv_def keys_inv_def)
  have g: "slot_generation j s' = (if j = i then slot_generation i s + 1 else slot_generation j s)" for j
    using i l by (simp add: s' set_key_def slot_generation_def)
  have t: "thread_tls s' = thread_tls s" by (simp add: s' set_key_def)
  show ?thesis using h k i by (auto simp: history_inv_def g t le_Suc_eq)
qed

lemma history:
  assumes "keys_reachable h s" and "length h \<le> 16777215"
  shows "history_inv h s"
  using assms
proof (induction rule: keys_reachable.induct)
  case (start w)
  show ?case by (rule start_history)
next
  case (create h s x nk d k s')
  then show ?case by (auto intro: create_history)
next
  case (delete h s x k e s')
  then have h: "history_inv h s" by simp
  then have k: "keys_inv s'" using key_delete_keeps [of s x k] delete.hyps(2) by (simp add: history_inv_def)
  have "slot_generation j s' = slot_generation j s" "thread_tls s' = thread_tls s" for j
    using delete.hyps(2) by (auto simp: key_delete_def set_key_def slot_generation_def nth_list_update split: if_splits)
      (cases "key_index k < length (keys s)"; cases "j = key_index k"; simp)+
  with h k show ?case by (simp add: history_inv_def)
next
  case (set h s x k v e s')
  then have h: "history_inv h s" by simp
  then have k: "keys_inv s'" using key_set_keeps [of s x k v] set.hyps(2) by (simp add: history_inv_def)
  have "slot_generation j s' = slot_generation j s" for j
    using set.hyps(2) by (auto simp: key_set_def slot_generation_def Let_def split: if_splits)
  moreover have "unat (tls_generations (thread_tls s' t) ! i) \<le> slot_generation i s" if "i < RUNTIME_THREAD_KEY_COUNT" for t i
  proof -
    have "tls_generations (thread_tls s' t) ! i = tls_generations (thread_tls s t) ! i \<or>
        i = key_index k \<and> key_live k s \<and> tls_generations (thread_tls s' t) ! i = key_generation k"
      using set.hyps(2) h that
      by (cases "i = key_index k")
        (auto simp: key_set_def Let_def history_inv_def keys_inv_def values_ok_def split: if_splits)
    then show ?thesis using h that by (auto simp: history_inv_def key_live_def slot_generation_def)
  qed
  ultimately show ?case using h k by (simp add: history_inv_def)
next
  case (thread h s t)
  then show ?case
    by (auto simp: history_inv_def clear_values_def keys_inv_def values_ok_def slot_generation_def)
next
  case (null h s t i)
  then show ?case
    by (auto simp: history_inv_def keys_inv_def values_ok_def slot_generation_def)
next
  case (other h s w)
  then show ?case by (simp add: history_inv_def keys_inv_def slot_generation_def)
qed

text \<open>
  A new key is new. In every state the operations lead to, within the first
  \<open>2\<^sup>2\<^sup>4 - 1\<close> keys ever created, \<open>key_create\<close> issues a handle that has not been issued before,
  though its slot may have been used many times, and the key reads null in every thread,
  though the threads may still hold values of the slot's earlier keys.
\<close>

theorem new_key_is_new:
  assumes "keys_reachable h s" and "length h < 16777215" and c: "key_create x nk d s = ((None, Some k), s')"
  shows "k \<notin> set h \<and> key_get y k s' = 0"
proof -
  have h: "history_inv h s" using history [OF assms(1)] assms(2) by simp
  obtain i where i: "i < RUNTIME_THREAD_KEY_COUNT" "key_index k = i" "unat (key_generation k) = slot_generation i s + 1"
    and s': "s' = set_key i \<lparr>destructor = d, generation = key_generation k, key_allocated = True\<rparr> s"
    using create_step [OF h assms(2) c] by blast
  have "k \<notin> set h" using h i by (auto simp: history_inv_def)
  moreover have "tls_generations (thread_tls s t) ! i \<noteq> key_generation k" for t
  proof -
    have "unat (tls_generations (thread_tls s t) ! i) \<le> slot_generation i s" using h i(1) by (simp add: history_inv_def)
    then show ?thesis using i(3) by auto
  qed
  ultimately show ?thesis using i by (auto simp: key_get_def Let_def s' set_key_def)
qed

section \<open>Destructors\<close>

definition is_pending :: "nat \<Rightarrow> 'w key_state \<Rightarrow> nat \<Rightarrow> bool" where
  "is_pending t s i \<longleftrightarrow>
     key_allocated (keys s ! i) \<and> destructor (keys s ! i) \<noteq> None \<and> tls_values (thread_tls s t) ! i \<noteq> 0 \<and>
     tls_generations (thread_tls s t) ! i = generation (keys s ! i)"

text \<open>The destructor calls a thread owes at its exit, in the order of the slots.\<close>

definition pending_calls :: "nat \<Rightarrow> 'w key_state \<Rightarrow> nat list \<Rightarrow> (nat \<times> nat) list" where
  "pending_calls t s is =
     map (\<lambda>i. (the (destructor (keys s ! i)), tls_values (thread_tls s t) ! i)) (filter (is_pending t s) is)"

text \<open>A destructor that leaves the keys alone; \<open>f\<close> is its effect on the rest.\<close>

definition plain_call :: "(nat \<Rightarrow> nat \<Rightarrow> 'w \<Rightarrow> 'w) \<Rightarrow> nat \<Rightarrow> nat \<Rightarrow> 'w key_state \<Rightarrow> 'w key_state" where
  "plain_call f d v s = s\<lparr>outside := f d v (outside s)\<rparr>"

definition zero_value :: "nat \<Rightarrow> nat \<Rightarrow> 'w key_state \<Rightarrow> 'w key_state" where
  "zero_value t i s = s\<lparr>thread_tls := (thread_tls s)(t :=
     (thread_tls s t)\<lparr>tls_values := (tls_values (thread_tls s t))[i := 0]\<rparr>)\<rparr>"

lemma pending_frame [simp]:
  "is_pending t (plain_call f d v s) = is_pending t s"
  "thread_tls (plain_call f d v s) = thread_tls s" "keys (plain_call f d v s) = keys s"
  "outside (plain_call f d v s) = f d v (outside s)"
  "keys (zero_value t i s) = keys s" "outside (zero_value t i s) = outside s"
  "tls_generations (thread_tls (zero_value t i s) t) = tls_generations (thread_tls s t)"
  "tls_values (thread_tls (zero_value t i s) t) = (tls_values (thread_tls s t))[i := 0]"
  by (simp_all add: plain_call_def zero_value_def is_pending_def fun_eq_iff)

lemma pending_zero:
  "i < length (tls_values (thread_tls s t)) \<Longrightarrow> is_pending t (zero_value t i s) j \<longleftrightarrow> is_pending t s j \<and> j \<noteq> i"
  by (cases "j = i") (auto simp: is_pending_def)

lemma pending_calls_cong:
  assumes "\<And>i. i \<in> set is \<Longrightarrow> is_pending t s' i = is_pending t s i" and "keys s' = keys s"
    and "\<And>i. i \<in> set is \<Longrightarrow> tls_values (thread_tls s' t) ! i = tls_values (thread_tls s t) ! i"
  shows "pending_calls t s' is = pending_calls t s is"
  using assms(1,3) unfolding pending_calls_def assms(2) by (induction "is") auto

lemma destroy_value_plain:
  "destroy_value (plain_call f) t i (b, s) =
    (if is_pending t s i
     then (True, plain_call f (the (destructor (keys s ! i))) (tls_values (thread_tls s t) ! i) (zero_value t i s))
     else (b, s))"
  by (auto simp: destroy_value_def is_pending_def zero_value_def Let_def split: option.splits)

lemma destroy_values_plain:
  assumes "distinct is" and "\<forall>i\<in>set is. i < length (tls_values (thread_tls s t))"
  shows "\<exists>s'. fold (destroy_value (plain_call f) t) is (b, s) = (b \<or> pending_calls t s is \<noteq> [], s') \<and>
    keys s' = keys s \<and> outside s' = fold (\<lambda>(d, v). f d v) (pending_calls t s is) (outside s) \<and>
    (\<forall>i. is_pending t s' i \<longleftrightarrow> is_pending t s i \<and> i \<notin> set is) \<and>
    (pending_calls t s is = [] \<longrightarrow> s' = s) \<and>
    length (tls_values (thread_tls s' t)) = length (tls_values (thread_tls s t))"
  using assms
proof (induction "is" arbitrary: s b)
  case Nil
  then show ?case by (simp add: pending_calls_def)
next
  case (Cons i "is")
  show ?case
  proof (cases "is_pending t s i")
    case False
    then have "pending_calls t s (i # is) = pending_calls t s is" by (simp add: pending_calls_def)
    with Cons.IH [of s b] Cons.prems False show ?thesis by (auto simp: destroy_value_plain)
  next
    case True
    let ?d = "the (destructor (keys s ! i))" and ?v = "tls_values (thread_tls s t) ! i"
    let ?s = "plain_call f ?d ?v (zero_value t i s)"
    have i: "i < length (tls_values (thread_tls s t))" using Cons.prems by simp
    have p: "pending_calls t ?s is = pending_calls t s is"
    proof (rule pending_calls_cong)
      fix j assume "j \<in> set is"
      with Cons.prems(1) have "i \<noteq> j" by auto
      then show "is_pending t ?s j = is_pending t s j" "tls_values (thread_tls ?s t) ! j = tls_values (thread_tls s t) ! j"
        by (simp_all add: pending_zero [OF i])
    qed simp
    have c: "pending_calls t s (i # is) = (?d, ?v) # pending_calls t s is" using True by (simp add: pending_calls_def)
    obtain s' where "fold (destroy_value (plain_call f) t) is (True, ?s) = (True, s')" "keys s' = keys s"
      "outside s' = fold (\<lambda>(d, v). f d v) (pending_calls t s is) (f ?d ?v (outside s))"
      "\<forall>j. is_pending t s' j \<longleftrightarrow> is_pending t (zero_value t i s) j \<and> j \<notin> set is"
      "length (tls_values (thread_tls s' t)) = length (tls_values (thread_tls s t))"
      using Cons.IH [of ?s True] Cons.prems p by auto
    with True show ?thesis unfolding c by (auto simp: destroy_value_plain pending_zero [OF i])
  qed
qed

text \<open>
  Destructors run once. At the exit of a thread every value it still holds under a key
  with a destructor is passed to that destructor exactly once, in the order of the slots, and
  afterwards no such value is left; destructors that use no keys need no second pass. Values
  of deleted keys and of keys without a destructor are passed to nothing.
\<close>

theorem destructors_run_once:
  assumes "keys_inv s"
  shows "\<exists>s'. run_thread_specific_destructors (plain_call f) True (Some t) s = s' \<and>
    outside s' = fold (\<lambda>(d, v). f d v) (pending_calls t s [0..<RUNTIME_THREAD_KEY_COUNT]) (outside s) \<and>
    pending_calls t s' [0..<RUNTIME_THREAD_KEY_COUNT] = []"
proof -
  let ?is = "[0..<RUNTIME_THREAD_KEY_COUNT]"
  have l: "length (tls_values (thread_tls s t)) = RUNTIME_THREAD_KEY_COUNT" using assms by (simp add: keys_inv_def values_ok_def)
  have empty: "pending_calls t u ?is = []" if "\<forall>i. is_pending t u i \<longrightarrow> i \<notin> set ?is" for u
    using that by (auto simp: pending_calls_def filter_empty_conv)
  obtain s1 where s1: "destructor_pass (plain_call f) t s = (pending_calls t s ?is \<noteq> [], s1)" "keys s1 = keys s"
    "outside s1 = fold (\<lambda>(d, v). f d v) (pending_calls t s ?is) (outside s)"
    "\<forall>i. is_pending t s1 i \<longleftrightarrow> is_pending t s i \<and> i \<notin> set ?is"
    "length (tls_values (thread_tls s1 t)) = RUNTIME_THREAD_KEY_COUNT"
    using destroy_values_plain [of ?is s t f False] l by (auto simp: destructor_pass_def)
  from s1(4) have e: "pending_calls t s1 ?is = []" by (intro empty) simp
  then have s2: "destructor_pass (plain_call f) t s1 = (False, s1)"
    using destroy_values_plain [of ?is s1 t f False] s1(5) by (auto simp: destructor_pass_def)
  have "run_thread_specific_destructors (plain_call f) True (Some t) s = s1"
    using s1(1) s2 by (simp add: run_thread_specific_destructors_def eval_nat_numeral)
  with s1(3) e show ?thesis by blast
qed

section \<open>Concrete keys\<close>

definition from_thread :: "nat \<Rightarrow> call_context" where
  "from_thread t = \<lparr>initialized = True, interrupt_context = False, tx_thread_identify = Some t\<rparr>"

text \<open>Key 0 with a destructor at address 77 and the value 5 in thread 1, key 1 created and deleted.\<close>

definition sample_keys :: "nat list key_state" where
  "sample_keys = snd (key_set (from_thread 1) 0x100 5 (snd (key_delete (from_thread 1) 0x101
     (snd (key_create (from_thread 2) False None (snd (key_create (from_thread 1) False (Some 77) (start_keys []))))))))"

lemma sample_thread: "in_thread_context (from_thread t)"
  by (simp add: in_thread_context_def from_thread_def)

lemma sample_keys_inv: "keys_inv sample_keys"
proof -
  have "keys_inv (start_keys w)" for w :: "nat list" using start_history [of w] by (simp add: history_inv_def)
  then show ?thesis unfolding sample_keys_def by (intro keys_keep)
qed

lemma sample_live: "0x100 \<in> live_keys sample_keys" "0x101 \<notin> live_keys sample_keys"
proof -
  have "\<not> bad_key 0x100 \<and> key_live 0x100 sample_keys" "\<not> (\<not> bad_key 0x101 \<and> key_live 0x101 sample_keys)" by code_simp+
  then show "0x100 \<in> live_keys sample_keys" "0x101 \<notin> live_keys sample_keys"
    unfolding accepted_iff [OF sample_keys_inv] .
qed

theorem key_table_refines_witness:
  "key_delete (from_thread 1) 0x101 sample_keys = (Some EINVAL, sample_keys)"
  using key_table_refines [OF sample_keys_inv sample_thread, where k = "0x101"] sample_live by simp

theorem key_get_set_witness:
  "key_get (from_thread 1) 0x100 (snd (key_set (from_thread 1) 0x100 9 sample_keys)) = 9 \<and>
   key_get (from_thread 2) 0x100 (snd (key_set (from_thread 1) 0x100 9 sample_keys)) = key_get (from_thread 2) 0x100 sample_keys"
proof -
  note k = key_get_set [OF sample_keys_inv sample_thread sample_thread sample_live(1), where k' = "0x100" and v = 9]
  have "tx_thread_identify (from_thread 1) \<noteq> tx_thread_identify (from_thread 2)" by (simp add: from_thread_def)
  then show ?thesis unfolding k by simp
qed

theorem new_key_is_new_witness:
  "\<exists>s'. key_create (from_thread 1) False None (start_keys (0 :: nat)) = ((None, Some 0x100), s') \<and>
     key_get (from_thread 1) 0x100 s' = 0"
proof -
  let ?c = "key_create (from_thread 1) False None (start_keys (0 :: nat))"
  have "fst ?c = (None, Some 0x100)" by code_simp
  then obtain s' where c: "?c = ((None, Some 0x100), s')" by (metis prod.collapse)
  with new_key_is_new [OF keys_reachable.start _ c] show ?thesis by simp
qed

theorem destructors_run_once_witness:
  "outside (run_thread_specific_destructors (plain_call (\<lambda>d v log. log @ [d + v])) True (Some 1) sample_keys) = [82]"
proof -
  have "fold (\<lambda>(d, v). (\<lambda>log. log @ [d + v])) (pending_calls 1 sample_keys [0..<RUNTIME_THREAD_KEY_COUNT]) (outside sample_keys) = [82]"
    by code_simp
  with destructors_run_once [OF sample_keys_inv, of "\<lambda>d v log. log @ [d + v]" 1] show ?thesis by auto
qed

end
