(* ===== verification/Thread_Lifecycle.thy ===== *)
theory Thread_Lifecycle
  imports Runtime_Context
begin

unbundle bit_operations_syntax

text \<open>
  Creation, joining, detaching and cleaning up of threads
  (\<open>platform/runtime/libstdcxx/backend.cpp\<close>, \<open>thread.cpp\<close>). A control block lives at an address;
  \<open>controls\<close> maps the addresses in use. The registry's linked list is the list of its
  addresses, head first. Every section that runs under \<open>initialization_mutex\<close> or the
  \<open>lifecycle_mutex\<close> of a thread is one function on the state; the order in which threads run
  them is the step relation at the end. \<open>TX_MINIMUM_STACK\<close> and \<open>TX_MAX_PRIORITIES\<close> belong to
  ThreadX and are parameters.
\<close>

section \<open>Attributes\<close>

definition STACK_ALIGNMENT :: u32 where
  "STACK_ALIGNMENT = 8"

definition RUNTIME_STD_THREAD_STACK_SIZE :: u32 where
  "RUNTIME_STD_THREAD_STACK_SIZE = 4096"

definition RUNTIME_STD_THREAD_PRIORITY :: int where
  "RUNTIME_STD_THREAD_PRIORITY = 16"

definition CLEANUP_QUEUE_DEPTH :: nat where
  "CLEANUP_QUEUE_DEPTH = 16"

record attributes =
  priority :: "32 word"
  stack_size :: u32

record thread_limits =
  TX_MINIMUM_STACK :: u32
  TX_MAX_PRIORITIES :: u32

definition default_attributes :: attributes where
  "default_attributes = \<lparr>priority = - 1, stack_size = 0\<rparr>"

definition validate_thread_priority :: "thread_limits \<Rightarrow> 32 word \<Rightarrow> u32 option" where
  "validate_thread_priority limits requested_prio =
     (let prio = (if requested_prio = - 1 then word_of_int RUNTIME_STD_THREAD_PRIORITY else requested_prio)
      in if sint prio < 0 \<or> sint prio \<ge> sint (TX_MAX_PRIORITIES limits) then None else Some prio)"

text \<open>\<open>std::size_t\<close> and \<open>ULONG\<close> have 32 bits on the target, so the last test never fails there.\<close>

definition normalize_thread_stack_size :: "thread_limits \<Rightarrow> u32 \<Rightarrow> u32 option" where
  "normalize_thread_stack_size limits requested =
     (let size = (if requested = 0 then RUNTIME_STD_THREAD_STACK_SIZE else requested);
          alignment_mask = STACK_ALIGNMENT - 1
      in if size < TX_MINIMUM_STACK limits \<or> size > - 1 - alignment_mask then None
         else Some ((size + alignment_mask) AND NOT alignment_mask))"

text \<open>The attributes published for the next thread a thread creates: set, and taken once.\<close>

definition publish_attributes :: "attributes \<Rightarrow> attributes option \<Rightarrow> attributes option" where
  "publish_attributes a pending = Some a"

definition consume_attributes :: "attributes option \<Rightarrow> attributes option \<times> attributes option" where
  "consume_attributes pending = (pending, None)"

section \<open>State\<close>

text \<open>Where a thread is in \<open>thread_entry\<close>, and where the owner of its handle is.\<close>

datatype thread_stage =
    Starting | Running | Finished bool | Queueing | Completed

datatype owner_stage =
    Absent | Holding | Joining | Acquired | Join_Queueing | Detach_Queueing

record thread_control =
  registry_id :: u32
  stack :: nat
  completion :: nat
  cleanup_ack :: "nat option"
  detached :: bool
  finished :: bool
  cleanup_queued :: bool

record lifecycle =
  controls :: "nat \<Rightarrow> thread_control option"
  stacks :: "nat set"
  registry :: "nat list"
  next_registry_id :: u32
  next_thread_number :: u32
  cleanup_queue :: "u32 list"
  acknowledgements :: "nat list"
  reaping :: "nat option"
  thread_at :: "nat \<Rightarrow> thread_stage"
  owner_at :: "nat \<Rightarrow> owner_stage"

definition control :: "nat \<Rightarrow> lifecycle \<Rightarrow> thread_control" where
  "control a s = the (controls s a)"

definition set_control :: "nat \<Rightarrow> (thread_control \<Rightarrow> thread_control) \<Rightarrow> lifecycle \<Rightarrow> lifecycle" where
  "set_control a f s = s\<lparr>controls := (controls s)(a := map_option f (controls s a))\<rparr>"

definition set_thread :: "nat \<Rightarrow> thread_stage \<Rightarrow> lifecycle \<Rightarrow> lifecycle" where
  "set_thread a t s = s\<lparr>thread_at := (thread_at s)(a := t)\<rparr>"

definition set_owner :: "nat \<Rightarrow> owner_stage \<Rightarrow> lifecycle \<Rightarrow> lifecycle" where
  "set_owner a t s = s\<lparr>owner_at := (owner_at s)(a := t)\<rparr>"

section \<open>The registry\<close>

definition register_thread :: "nat \<Rightarrow> lifecycle \<Rightarrow> lifecycle" where
  "register_thread a s =
     (let s1 = set_control a (\<lambda>c. c\<lparr>registry_id := next_registry_id s\<rparr>) s;
          next = next_registry_id s + 1
      in s1\<lparr>next_registry_id := (if next = 0 then 1 else next), registry := a # registry s1\<rparr>)"

text \<open>Unlinking the first occurrence of the block, if there is one.\<close>

definition unregister_thread :: "nat \<Rightarrow> lifecycle \<Rightarrow> lifecycle" where
  "unregister_thread a s = s\<lparr>registry := remove1 a (registry s)\<rparr>"

fun find_from :: "u32 \<Rightarrow> lifecycle \<Rightarrow> nat list \<Rightarrow> nat option" where
  "find_from i s [] = None"
| "find_from i s (a # as) = (if registry_id (control a s) \<noteq> i then find_from i s as else Some a)"

definition find_thread :: "u32 \<Rightarrow> lifecycle \<Rightarrow> nat option" where
  "find_thread i s = find_from i s (registry s)"

text \<open>Sending to the queue, which blocks while it is full: the step is not possible then.\<close>

definition enqueue_cleanup :: "nat \<Rightarrow> lifecycle \<Rightarrow> lifecycle option" where
  "enqueue_cleanup a s =
     (if length (cleanup_queue s) < CLEANUP_QUEUE_DEPTH
      then Some (s\<lparr>cleanup_queue := cleanup_queue s @ [registry_id (control a s)]\<rparr>) else None)"

section \<open>Creation\<close>

text \<open>What the allocator and ThreadX answer to the calls of \<open>thread_create\<close>.\<close>

record creation =
  control_memory :: "nat option"
  stack_memory :: "nat option"
  mutex_created :: bool
  semaphore_created :: bool
  thread_created :: bool

definition new_control :: "nat \<Rightarrow> thread_control" where
  "new_control stk = \<lparr>registry_id = 0, stack = stk, completion = 0, cleanup_ack = None,
     detached = False, finished = False, cleanup_queued = False\<rparr>"

definition free_control :: "nat \<Rightarrow> lifecycle \<Rightarrow> lifecycle" where
  "free_control a s = s\<lparr>controls := (controls s)(a := None)\<rparr>"

definition free_stack :: "nat \<Rightarrow> lifecycle \<Rightarrow> lifecycle" where
  "free_stack stk s = s\<lparr>stacks := stacks s - {stk}\<rparr>"

definition thread_create ::
    "call_context \<Rightarrow> thread_limits \<Rightarrow> bool \<Rightarrow> attributes \<Rightarrow> creation \<Rightarrow> lifecycle \<Rightarrow> (error \<times> nat option) \<times> lifecycle" where
  "thread_create x limits null_argument attrs env s =
     (if require_thread_context x \<noteq> None then ((require_thread_context x, None), s)
      else if null_argument then ((Some EINVAL, None), s)
      else if normalize_thread_stack_size limits (stack_size attrs) = None then ((Some EINVAL, None), s)
      else if validate_thread_priority limits (priority attrs) = None then ((Some EINVAL, None), s)
      else
        (case control_memory env of
           None \<Rightarrow> ((Some EAGAIN, None), s)
         | Some a \<Rightarrow>
             (case stack_memory env of
                None \<Rightarrow> ((Some EAGAIN, None), free_control a s)
              | Some stk \<Rightarrow>
                  let s1 = s\<lparr>controls := (controls s)(a := Some (new_control stk)), stacks := insert stk (stacks s),
                             next_thread_number := next_thread_number s + 1\<rparr>
                  in if \<not> mutex_created env \<or> \<not> semaphore_created env
                     then ((Some EAGAIN, None), free_control a (free_stack stk s1))
                     else
                       let s2 = register_thread a s1
                       in if \<not> thread_created env
                          then ((Some EAGAIN, None), free_control a (free_stack stk (unregister_thread a s2)))
                          else ((None, Some a), set_thread a Starting s2))))"

section \<open>The sections of a thread's end\<close>

text \<open>The locked section of \<open>thread_entry\<close> after the entry function has returned.\<close>

definition finish_section :: "nat \<Rightarrow> lifecycle \<Rightarrow> bool \<times> lifecycle" where
  "finish_section a s =
     (let enqueue = detached (control a s) \<and> \<not> cleanup_queued (control a s)
      in (enqueue, set_control a (\<lambda>c. c\<lparr>finished := True, cleanup_queued := cleanup_queued c \<or> enqueue\<rparr>) s))"

definition post_completion :: "nat \<Rightarrow> lifecycle \<Rightarrow> lifecycle" where
  "post_completion a = set_control a (\<lambda>c. c\<lparr>completion := completion c + 1\<rparr>)"

text \<open>
  \<open>thread_join\<close> after its checks: it takes the completion semaphore, creates the
  acknowledgement semaphore \<open>ack\<close>, and enters the locked section.
\<close>

definition take_completion :: "nat \<Rightarrow> lifecycle \<Rightarrow> lifecycle option" where
  "take_completion a s =
     (if 0 < completion (control a s) then Some (set_control a (\<lambda>c. c\<lparr>completion := completion c - 1\<rparr>) s) else None)"

definition join_section :: "nat \<Rightarrow> nat \<Rightarrow> lifecycle \<Rightarrow> error \<times> lifecycle" where
  "join_section a ack s =
     (if detached (control a s) \<or> cleanup_queued (control a s) then (Some EINVAL, s)
      else (None, set_control a (\<lambda>c. c\<lparr>cleanup_ack := Some ack, cleanup_queued := True\<rparr>) s))"

text \<open>The locked section of \<open>thread_detach\<close>; the value says whether to enqueue the thread.\<close>

definition detach_section :: "nat \<Rightarrow> lifecycle \<Rightarrow> (error \<times> bool) \<times> lifecycle" where
  "detach_section a s =
     (if detached (control a s) \<or> cleanup_queued (control a s) then ((Some EINVAL, False), s)
      else
        let enqueue = finished (control a s)
        in ((None, enqueue), set_control a (\<lambda>c. c\<lparr>detached := True, cleanup_queued := cleanup_queued c \<or> enqueue\<rparr>) s))"

text \<open>One turn of \<open>reaper_entry\<close>: the block found for a message, and its deletion.\<close>

definition reaper_receive :: "lifecycle \<Rightarrow> (nat option \<times> lifecycle) option" where
  "reaper_receive s =
     (case cleanup_queue s of
        [] \<Rightarrow> None
      | message # rest \<Rightarrow> Some (find_thread message s, s\<lparr>cleanup_queue := rest\<rparr>))"

definition reaper_delete :: "nat \<Rightarrow> lifecycle \<Rightarrow> lifecycle" where
  "reaper_delete a s =
     (let ack = cleanup_ack (control a s);
          stk = stack (control a s);
          s1 = free_stack stk (free_control a (unregister_thread a s))
      in case ack of None \<Rightarrow> s1 | Some k \<Rightarrow> s1\<lparr>acknowledgements := k # acknowledgements s1\<rparr>)"

section \<open>Steps\<close>

text \<open>
  The owner of a handle is the one \<open>std::thread\<close> object that holds it: it joins or detaches,
  one call at a time, and gives the handle up when the call succeeds. Otherwise all steps
  interleave freely. An address is given out only when it is free.
\<close>

inductive life_step :: "lifecycle \<Rightarrow> lifecycle \<Rightarrow> bool" where
  create: "control_memory env = Some a \<Longrightarrow> controls s a = None \<Longrightarrow>
    (\<forall>b c. controls s b = Some c \<longrightarrow> stack_memory env \<noteq> Some (stack c)) \<Longrightarrow>
    thread_create x limits n attrs env s = ((None, Some a), s') \<Longrightarrow> life_step s (set_owner a Holding s')"
| create_fails: "(\<forall>a. control_memory env = Some a \<longrightarrow> controls s a = None) \<Longrightarrow>
    (\<forall>k. stack_memory env = Some k \<longrightarrow> k \<notin> stacks s) \<Longrightarrow>
    thread_create x limits n attrs env s = ((Some e, None), s') \<Longrightarrow> life_step s s'"
| start: "thread_at s a = Starting \<Longrightarrow> find_thread (registry_id (control a s)) s = Some a \<Longrightarrow>
    life_step s (set_thread a Running s)"
| finish: "thread_at s a = Running \<Longrightarrow> finish_section a s = (e, s') \<Longrightarrow> life_step s (set_thread a (Finished e) s')"
| post: "thread_at s a = Finished e \<Longrightarrow>
    life_step s (set_thread a (if e then Queueing else Completed) (post_completion a s))"
| thread_enqueue: "thread_at s a = Queueing \<Longrightarrow> enqueue_cleanup a s = Some s' \<Longrightarrow>
    life_step s (set_thread a Completed s')"
| join: "owner_at s a = Holding \<Longrightarrow> life_step s (set_owner a Joining s)"
| join_acquire: "owner_at s a = Joining \<Longrightarrow> take_completion a s = Some s' \<Longrightarrow> life_step s (set_owner a Acquired s')"
| join_refused: "owner_at s a = Acquired \<Longrightarrow> life_step s (set_owner a Holding s)"
| join_error: "owner_at s a = Acquired \<Longrightarrow> join_section a k s = (Some e, s') \<Longrightarrow> life_step s (set_owner a Holding s')"
| join_commit: "owner_at s a = Acquired \<Longrightarrow> join_section a k s = (None, s') \<Longrightarrow> life_step s (set_owner a Join_Queueing s')"
| join_enqueue: "owner_at s a = Join_Queueing \<Longrightarrow> enqueue_cleanup a s = Some s' \<Longrightarrow> life_step s (set_owner a Absent s')"
| detach_error: "owner_at s a = Holding \<Longrightarrow> detach_section a s = ((Some e, q), s') \<Longrightarrow> life_step s s'"
| detach: "owner_at s a = Holding \<Longrightarrow> detach_section a s = ((None, q), s') \<Longrightarrow>
    life_step s (set_owner a (if q then Detach_Queueing else Absent) s')"
| detach_enqueue: "owner_at s a = Detach_Queueing \<Longrightarrow> enqueue_cleanup a s = Some s' \<Longrightarrow> life_step s (set_owner a Absent s')"
| receive: "reaping s = None \<Longrightarrow> reaper_receive s = Some (Some a, s') \<Longrightarrow> life_step s (s'\<lparr>reaping := Some a\<rparr>)"
| reap: "reaping s = Some a \<Longrightarrow> thread_at s a = Completed \<Longrightarrow> life_step s ((reaper_delete a s)\<lparr>reaping := None\<rparr>)"

definition no_threads :: lifecycle where
  "no_threads =
     \<lparr>controls = (\<lambda>_. None), stacks = {}, registry = [], next_registry_id = 1, next_thread_number = 0,
      cleanup_queue = [], acknowledgements = [], reaping = None, thread_at = (\<lambda>_. Completed), owner_at = (\<lambda>_. Absent)\<rparr>"

text \<open>The states the steps lead to, with the number of registry ids given out so far.\<close>

inductive life_reachable :: "nat \<Rightarrow> lifecycle \<Rightarrow> bool" where
  init: "life_reachable 0 no_threads"
| step: "life_reachable n s \<Longrightarrow> life_step s s' \<Longrightarrow>
    life_reachable (if next_registry_id s' = next_registry_id s then n else Suc n) s'"

inductive_cases life_stepE: "life_step s s'"

end
