(* ===== verification/Lifecycle_Properties.thy ===== *)
theory Lifecycle_Properties
  imports Thread_Lifecycle
begin

text \<open>
  The life of a thread's control block. A block queued for clean-up holds one token, which
  is in exactly one place: with the ending thread, with the owner of the handle, in the
  queue, or with the reaper. From that follow that no actor touches a freed block, that the
  reaper finds every block it is told to delete, and that nothing is left when all is done.
\<close>

section \<open>The invariant\<close>

text \<open>One block: its flags, the stage of its thread and of its owner, its entries in the queue.\<close>

definition stage_ok :: "thread_control \<Rightarrow> thread_stage \<Rightarrow> owner_stage \<Rightarrow> nat \<Rightarrow> bool \<Rightarrow> bool" where
  "stage_ok c t own queued reaped \<longleftrightarrow>
     of_bool (t = Finished True \<or> t = Queueing) + of_bool (own = Join_Queueing \<or> own = Detach_Queueing) +
       queued + of_bool reaped = (of_bool (cleanup_queued c) :: nat) \<and>
     (finished c \<longleftrightarrow> t \<noteq> Starting \<and> t \<noteq> Running) \<and>
     (own = Holding \<or> own = Joining \<or> own = Acquired \<longrightarrow> \<not> detached c \<and> \<not> cleanup_queued c) \<and>
     (own = Join_Queueing \<longrightarrow> \<not> detached c) \<and> (own = Detach_Queueing \<longrightarrow> detached c) \<and>
     (own = Absent \<longrightarrow> detached c \<or> cleanup_queued c) \<and>
     (detached c \<and> finished c \<longrightarrow> cleanup_queued c)"

text \<open>A field of the blocks in use that tells them apart: their ids, their stacks.\<close>

definition used :: "(thread_control \<Rightarrow> 'k) \<Rightarrow> (nat \<Rightarrow> thread_control option) \<Rightarrow> 'k \<Rightarrow> bool" where
  "used f h k \<longleftrightarrow> (\<exists>a c. h a = Some c \<and> f c = k)"

definition unique :: "(thread_control \<Rightarrow> 'k) \<Rightarrow> (nat \<Rightarrow> thread_control option) \<Rightarrow> bool" where
  "unique f h \<longleftrightarrow> (\<forall>a b c d. h a = Some c \<longrightarrow> h b = Some d \<longrightarrow> f c = f d \<longrightarrow> a = b)"

lemma used_change: "h a = Some c \<Longrightarrow> f c' = f c \<Longrightarrow> used f (h(a \<mapsto> c')) k = used f h k"
  unfolding used_def by (metis map_upd_Some_unfold)

lemma unique_change: "h a = Some c \<Longrightarrow> f c' = f c \<Longrightarrow> unique f h \<Longrightarrow> unique f (h(a \<mapsto> c'))"
  unfolding unique_def by (metis map_upd_Some_unfold)

lemma used_insert: "h a = None \<Longrightarrow> used f (h(a \<mapsto> c)) k \<longleftrightarrow> k = f c \<or> used f h k"
  unfolding used_def by (metis map_upd_Some_unfold option.distinct(1))

lemma unique_insert: "h a = None \<Longrightarrow> \<not> used f h (f c) \<Longrightarrow> unique f h \<Longrightarrow> unique f (h(a \<mapsto> c))"
  unfolding unique_def used_def by (metis map_upd_Some_unfold)

lemma used_remove:
  assumes "unique f h" and "h a = Some c"
  shows "used f (h(a := None)) k \<longleftrightarrow> used f h k \<and> k \<noteq> f c"
proof -
  have "(\<exists>b d. (h(a := None)) b = Some d \<and> f d = k) \<longleftrightarrow> (\<exists>b d. b \<noteq> a \<and> h b = Some d \<and> f d = k)"
    by (simp add: fun_upd_apply) blast
  also have "\<dots> \<longleftrightarrow> (\<exists>b d. h b = Some d \<and> f d = k \<and> k \<noteq> f c)"
    using assms unfolding unique_def by (metis option.inject)
  finally show ?thesis unfolding used_def by blast
qed

lemma unique_remove: "unique f h \<Longrightarrow> unique f (h(a := None))"
  unfolding unique_def by (auto simp: fun_upd_apply split: if_splits)

lemma unique_neq: "unique f h \<Longrightarrow> h a = Some c \<Longrightarrow> h b = Some d \<Longrightarrow> a \<noteq> b \<Longrightarrow> f c \<noteq> f d"
  unfolding unique_def by blast

definition ids_ok :: "nat \<Rightarrow> lifecycle \<Rightarrow> bool" where
  "ids_ok n s \<longleftrightarrow>
     unat (next_registry_id s) = n + 1 \<and> (\<forall>i. used registry_id (controls s) i \<longrightarrow> unat i \<le> n) \<and>
     unique registry_id (controls s)"

definition registry_ok :: "lifecycle \<Rightarrow> bool" where
  "registry_ok s \<longleftrightarrow>
     distinct (registry s) \<and> set (registry s) = dom (controls s) \<and>
     (\<forall>i\<in>set (cleanup_queue s). used registry_id (controls s) i)"

definition stacks_ok :: "lifecycle \<Rightarrow> bool" where
  "stacks_ok s \<longleftrightarrow> stacks s = Collect (used stack (controls s)) \<and> unique stack (controls s)"

definition life_inv :: "nat \<Rightarrow> lifecycle \<Rightarrow> bool" where
  "life_inv n s \<longleftrightarrow>
     ids_ok n s \<and> registry_ok s \<and> stacks_ok s \<and>
     (\<forall>a. controls s a = None \<longrightarrow> thread_at s a = Completed \<and> owner_at s a = Absent \<and> reaping s \<noteq> Some a) \<and>
     (\<forall>a c. controls s a = Some c \<longrightarrow>
        stage_ok c (thread_at s a) (owner_at s a) (count_list (cleanup_queue s) (registry_id c)) (reaping s = Some a))"

lemmas life_parts = life_inv_def ids_ok_def registry_ok_def stacks_ok_def

lemma inv_stage:
  "life_inv n s \<Longrightarrow> controls s a = Some c \<Longrightarrow>
   stage_ok c (thread_at s a) (owner_at s a) (count_list (cleanup_queue s) (registry_id c)) (reaping s = Some a)"
  by (simp add: life_inv_def)

lemma inv_live:
  assumes "life_inv n s" and "thread_at s a \<noteq> Completed \<or> owner_at s a \<noteq> Absent \<or> reaping s = Some a"
  shows "controls s a = Some (control a s)"
  using assms by (cases "controls s a") (auto simp: life_inv_def control_def)

section \<open>Steps of one block\<close>

text \<open>
  A step that changes one block and its stages, and may put its id into the queue, keeps the
  invariant if the block is in order afterwards.
\<close>

lemma local_step:
  assumes s: "life_inv n s" and a: "controls s a = Some c"
    and c': "controls s' = (controls s)(a \<mapsto> c')" "registry_id c' = registry_id c" "stack c' = stack c"
    and t: "thread_at s' = (thread_at s)(a := t)" and own: "owner_at s' = (owner_at s)(a := own)"
    and q: "cleanup_queue s' = cleanup_queue s @ (if e then [registry_id c] else [])"
    and same: "registry s' = registry s" "next_registry_id s' = next_registry_id s" "stacks s' = stacks s" "reaping s' = reaping s"
    and ok: "stage_ok c' t own (count_list (cleanup_queue s) (registry_id c) + of_bool e) (reaping s = Some a)"
  shows "life_inv n s'"
proof -
  have ids: "ids_ok n s'" using s a by (auto simp: life_parts c' same used_change unique_change)
  have stk: "stacks_ok s'" using s a by (auto simp: life_parts c' same used_change unique_change)
  have "used registry_id (controls s) (registry_id c)" using a by (auto simp: used_def)
  then have reg: "registry_ok s'" using s a by (auto simp: life_parts c' same q used_change)
  have cnt: "count_list (cleanup_queue s') (registry_id d) = count_list (cleanup_queue s) (registry_id d)"
    if "controls s b = Some d" "b \<noteq> a" for b d
    using s a that unique_neq [of registry_id "controls s" a c b d] by (auto simp: q life_parts)
  have "stage_ok d (thread_at s' b) (owner_at s' b) (count_list (cleanup_queue s') (registry_id d)) (reaping s' = Some b)"
    if d: "controls s' b = Some d" for b d
  proof (cases "b = a")
    case True
    then have "d = c'" using d c'(1) by simp
    with True ok c'(2) show ?thesis by (cases e) (simp_all add: t own q same)
  next
    case False
    then show ?thesis using d inv_stage [OF s, of b d] cnt [of b d] by (simp add: c' t own same)
  qed
  moreover have "thread_at s' b = Completed \<and> owner_at s' b = Absent \<and> reaping s' \<noteq> Some b"
    if "controls s' b = None" for b
    using that s a by (auto simp: c' t own same life_inv_def split: if_splits)
  ultimately show ?thesis using ids stk reg by (simp add: life_inv_def)
qed

text \<open>What a step of one block may do to its flags and stages.\<close>

definition local_change ::
    "lifecycle \<Rightarrow> nat \<Rightarrow> (thread_control \<Rightarrow> thread_control) \<Rightarrow> thread_stage \<Rightarrow> owner_stage \<Rightarrow> bool \<Rightarrow> lifecycle" where
  "local_change s a f t own e =
     s\<lparr>controls := (controls s)(a := map_option f (controls s a)), thread_at := (thread_at s)(a := t),
       owner_at := (owner_at s)(a := own),
       cleanup_queue := cleanup_queue s @ (if e then [registry_id (control a s)] else [])\<rparr>"

lemma local_change_inv:
  assumes s: "life_inv n s" and a: "controls s a = Some c"
    and f: "registry_id (f c) = registry_id c" "stack (f c) = stack c"
    and ok: "stage_ok (f c) t own (count_list (cleanup_queue s) (registry_id c) + of_bool e) (reaping s = Some a)"
  shows "life_inv n (local_change s a f t own e)"
  using a by (intro local_step [OF s a _ f _ _ _ _ _ _ _ ok]) (simp_all add: local_change_def control_def)

lemma enqueue_change:
  "enqueue_cleanup a s = Some s' \<Longrightarrow> s' = local_change s a (\<lambda>c. c) (thread_at s a) (owner_at s a) True"
  by (auto simp: enqueue_cleanup_def local_change_def map_option.identity split: if_splits)

text \<open>The steps of one block, as changes of it.\<close>

lemma set_thread_change:
  "set_thread a t (local_change s a f u own e) = local_change s a f t own e"
  "set_owner a o' (local_change s a f u own e) = local_change s a f u o' e"
  by (simp_all add: local_change_def set_thread_def set_owner_def)

lemma set_control_change:
  "set_control a f s = local_change s a f (thread_at s a) (owner_at s a) False"
  by (simp add: set_control_def local_change_def)

lemma unchanged: "s = local_change s a (\<lambda>c. c) (thread_at s a) (owner_at s a) False"
  by (simp add: local_change_def map_option.identity)

section \<open>Every step keeps the invariant\<close>

lemma thread_steps:
  assumes s: "life_inv n s"
  shows "thread_at s a = Starting \<Longrightarrow> life_inv n (set_thread a Running s)"
    and "thread_at s a = Running \<Longrightarrow> finish_section a s = (e, s') \<Longrightarrow> life_inv n (set_thread a (Finished e) s')"
    and "thread_at s a = Finished e \<Longrightarrow>
      life_inv n (set_thread a (if e then Queueing else Completed) (post_completion a s))"
    and "thread_at s a = Queueing \<Longrightarrow> enqueue_cleanup a s = Some s' \<Longrightarrow> life_inv n (set_thread a Completed s')"
proof -
  have change: "life_inv n (local_change s a f t (owner_at s a) q)"
    if here: "thread_at s a \<noteq> Completed" and "\<And>c. registry_id (f c) = registry_id c" "\<And>c. stack (f c) = stack c"
      and "\<And>c k r. controls s a = Some c \<Longrightarrow> control a s = c \<Longrightarrow> stage_ok c (thread_at s a) (owner_at s a) k r \<Longrightarrow>
        stage_ok (f c) t (owner_at s a) (k + of_bool q) r" for f t q
  proof -
    obtain c where c: "controls s a = Some c" "control a s = c" using inv_live [OF s, of a] here by blast
    show ?thesis using that(2-) c inv_stage [OF s c(1)] by (intro local_change_inv [OF s c(1)]) auto
  qed
  show "life_inv n (set_thread a Running s)" if "thread_at s a = Starting"
    using that by (subst unchanged [of s a], unfold set_thread_change) (rule change; auto simp: stage_ok_def of_bool_def)
  show "life_inv n (set_thread a (Finished e) s')" if "thread_at s a = Running" "finish_section a s = (e, s')"
    using that by (auto simp: finish_section_def Let_def set_control_change set_thread_change intro!: change;
      cases e; auto simp: stage_ok_def of_bool_def split: if_splits)
  show "life_inv n (set_thread a (if e then Queueing else Completed) (post_completion a s))" if "thread_at s a = Finished e"
    using that by (auto simp: post_completion_def set_control_change set_thread_change stage_ok_def of_bool_def intro!: change)
  show "life_inv n (set_thread a Completed s')" if "thread_at s a = Queueing" "enqueue_cleanup a s = Some s'"
    using that by (auto simp: set_thread_change stage_ok_def of_bool_def dest!: enqueue_change intro!: change)
qed

lemma owner_steps:
  assumes s: "life_inv n s"
  shows "owner_at s a = Holding \<Longrightarrow> life_inv n (set_owner a Joining s)"
    and "owner_at s a = Joining \<Longrightarrow> take_completion a s = Some s' \<Longrightarrow> life_inv n (set_owner a Acquired s')"
    and "owner_at s a = Acquired \<Longrightarrow> life_inv n (set_owner a Holding s)"
    and "owner_at s a = Acquired \<Longrightarrow> join_section a k s = (Some err, s') \<Longrightarrow> life_inv n (set_owner a Holding s')"
    and "owner_at s a = Acquired \<Longrightarrow> join_section a k s = (None, s') \<Longrightarrow> life_inv n (set_owner a Join_Queueing s')"
    and "owner_at s a = Join_Queueing \<Longrightarrow> enqueue_cleanup a s = Some s' \<Longrightarrow> life_inv n (set_owner a Absent s')"
    and "owner_at s a = Holding \<Longrightarrow> detach_section a s = ((Some err, e), s') \<Longrightarrow> life_inv n s'"
    and "owner_at s a = Holding \<Longrightarrow> detach_section a s = ((None, e), s') \<Longrightarrow>
      life_inv n (set_owner a (if e then Detach_Queueing else Absent) s')"
    and "owner_at s a = Detach_Queueing \<Longrightarrow> enqueue_cleanup a s = Some s' \<Longrightarrow> life_inv n (set_owner a Absent s')"
proof -
  have change: "life_inv n (local_change s a f (thread_at s a) own q)"
    if here: "owner_at s a \<noteq> Absent" and "\<And>c. registry_id (f c) = registry_id c" "\<And>c. stack (f c) = stack c"
      and "\<And>c k r. controls s a = Some c \<Longrightarrow> control a s = c \<Longrightarrow> stage_ok c (thread_at s a) (owner_at s a) k r \<Longrightarrow>
        stage_ok (f c) (thread_at s a) own (k + of_bool q) r" for f own q
  proof -
    obtain c where c: "controls s a = Some c" "control a s = c" using inv_live [OF s, of a] here by blast
    show ?thesis using that(2-) c inv_stage [OF s c(1)] by (intro local_change_inv [OF s c(1)]) auto
  qed
  show "life_inv n (set_owner a Joining s)" if "owner_at s a = Holding"
    using that by (subst unchanged [of s a], unfold set_thread_change) (rule change; auto simp: stage_ok_def of_bool_def)
  show "life_inv n (set_owner a Acquired s')" if "owner_at s a = Joining" "take_completion a s = Some s'"
    using that by (auto simp: take_completion_def set_control_change set_thread_change stage_ok_def of_bool_def intro!: change split: if_splits)
  show retry: "life_inv n (set_owner a Holding s)" if "owner_at s a = Acquired"
    using that by (subst unchanged [of s a], unfold set_thread_change) (rule change; auto simp: stage_ok_def of_bool_def)
  show "life_inv n (set_owner a Holding s')" if "owner_at s a = Acquired" "join_section a k s = (Some err, s')"
    using that retry by (auto simp: join_section_def split: if_splits)
  show "life_inv n (set_owner a Join_Queueing s')" if "owner_at s a = Acquired" "join_section a k s = (None, s')"
    using that by (auto simp: join_section_def set_control_change set_thread_change stage_ok_def of_bool_def intro!: change split: if_splits)
  show "life_inv n (set_owner a Absent s')" if "owner_at s a = Join_Queueing" "enqueue_cleanup a s = Some s'"
    using that by (auto simp: set_thread_change stage_ok_def of_bool_def dest!: enqueue_change intro!: change)
  show "life_inv n s'" if "owner_at s a = Holding" "detach_section a s = ((Some err, e), s')"
    using that s by (auto simp: detach_section_def Let_def split: if_splits)
  show "life_inv n (set_owner a (if e then Detach_Queueing else Absent) s')"
    if "owner_at s a = Holding" "detach_section a s = ((None, e), s')"
    using that by (auto simp: detach_section_def Let_def set_control_change set_thread_change stage_ok_def of_bool_def intro!: change split: if_splits)
  show "life_inv n (set_owner a Absent s')" if "owner_at s a = Detach_Queueing" "enqueue_cleanup a s = Some s'"
    using that by (auto simp: set_thread_change stage_ok_def of_bool_def dest!: enqueue_change intro!: change)
qed

lemma find_from_Some: "find_from i s as = Some a \<Longrightarrow> a \<in> set as \<and> registry_id (control a s) = i"
  by (induction as) (auto split: if_splits)

lemma find_from_None: "find_from i s as = None \<longleftrightarrow> (\<forall>a\<in>set as. registry_id (control a s) \<noteq> i)"
  by (induction as) auto

lemma find_thread_live:
  assumes s: "life_inv n s" and f: "find_thread i s = Some a"
  shows "controls s a = Some (control a s)" and "registry_id (control a s) = i"
proof -
  from f have "a \<in> set (registry s)" "registry_id (control a s) = i"
    using find_from_Some by (auto simp: find_thread_def)
  with s show "controls s a = Some (control a s)" "registry_id (control a s) = i"
    by (auto simp: life_parts control_def)
qed

lemma receive_inv:
  assumes s: "life_inv n s" and idle: "reaping s = None" and r: "reaper_receive s = Some (Some a, s')"
  shows "life_inv n (s'\<lparr>reaping := Some a\<rparr>)"
proof -
  from r obtain i rest where q: "cleanup_queue s = i # rest" "find_thread i s = Some a" "s' = s\<lparr>cleanup_queue := rest\<rparr>"
    by (auto simp: reaper_receive_def split: list.splits)
  note a = find_thread_live [OF s q(2)]
  have "stage_ok c (thread_at s b) (owner_at s b) (count_list rest (registry_id c)) (a = b)"
    if "controls s b = Some c" for b c
  proof (cases "a = b")
    case True
    then show ?thesis using inv_stage [OF s that] a that q(1) idle by (simp add: stage_ok_def control_def)
  next
    case False
    then have "i \<noteq> registry_id c" using s a that unique_neq [of registry_id "controls s" a _ b c] by (auto simp: life_parts)
    then show ?thesis using inv_stage [OF s that] q(1) idle False by simp
  qed
  then show ?thesis using s a q by (auto simp: life_parts)
qed

lemma reap_inv:
  assumes s: "life_inv n s" and r: "reaping s = Some a" and t: "thread_at s a = Completed"
  shows "life_inv n ((reaper_delete a s)\<lparr>reaping := None\<rparr>)"
proof -
  obtain c where c: "controls s a = Some c" "control a s = c" using inv_live [OF s, of a] r by blast
  have k: "owner_at s a = Absent" "count_list (cleanup_queue s) (registry_id c) = 0"
    using inv_stage [OF s c(1)] r t by (cases "owner_at s a"; auto simp: stage_ok_def of_bool_def split: if_splits)+
  let ?s = "(reaper_delete a s)\<lparr>reaping := None\<rparr>"
  have f: "controls ?s = (controls s)(a := None)" "stacks ?s = stacks s - {stack c}" "registry ?s = remove1 a (registry s)"
    "next_registry_id ?s = next_registry_id s" "cleanup_queue ?s = cleanup_queue s" "thread_at ?s = thread_at s" "owner_at ?s = owner_at s"
    by (simp_all add: reaper_delete_def Let_def c free_stack_def free_control_def unregister_thread_def split: option.splits)
  have u: "unique registry_id (controls s)" "unique stack (controls s)" using s by (simp_all add: life_parts)
  have "registry_id c \<notin> set (cleanup_queue s)" using k(2) by (simp add: count_list_0_iff)
  then have "registry_ok ?s" using s c u by (auto simp: life_parts f used_remove set_remove1_eq)
  moreover have "ids_ok n ?s" "stacks_ok ?s" using s c u by (auto simp: life_parts f used_remove unique_remove)
  moreover have "\<forall>b d. controls ?s b = Some d \<longrightarrow> stage_ok d (thread_at ?s b) (owner_at ?s b)
      (count_list (cleanup_queue ?s) (registry_id d)) (reaping ?s = Some b)"
  proof (intro allI impI)
    fix b d assume "controls ?s b = Some d"
    then have "controls s b = Some d" "b \<noteq> a" by (auto simp: f split: if_splits)
    with inv_stage [OF s, of b d] r show "stage_ok d (thread_at ?s b) (owner_at ?s b)
      (count_list (cleanup_queue ?s) (registry_id d)) (reaping ?s = Some b)" by (simp add: f)
  qed
  ultimately show ?thesis using s t k(1) r by (auto simp: life_inv_def f)
qed

section \<open>Creation\<close>

lemma create_success:
  assumes "thread_create x limits z attrs env s = ((None, Some a), s')"
  obtains k where "control_memory env = Some a" "stack_memory env = Some k"
    and "controls s' = (controls s)(a \<mapsto> (new_control k)\<lparr>registry_id := next_registry_id s\<rparr>)"
    and "stacks s' = insert k (stacks s)" "registry s' = a # registry s"
    and "next_registry_id s' = (if next_registry_id s + 1 = 0 then 1 else next_registry_id s + 1)"
    and "thread_at s' = (thread_at s)(a := Starting)" "owner_at s' = owner_at s"
    and "cleanup_queue s' = cleanup_queue s" "reaping s' = reaping s"
  using assms
  by (auto simp: thread_create_def register_thread_def set_control_def set_thread_def Let_def
      split: if_splits option.splits)

lemma create_failure:
  assumes "thread_create x limits z attrs env s = ((Some e, h), s')"
    and "\<forall>a. control_memory env = Some a \<longrightarrow> controls s a = None"
    and "\<forall>k. stack_memory env = Some k \<longrightarrow> k \<notin> stacks s"
  shows "h = None" and "\<exists>n. s' = s\<lparr>next_registry_id := next_registry_id s', next_thread_number := n\<rparr>"
    and "next_registry_id s' = next_registry_id s \<or>
      next_registry_id s' = (if next_registry_id s + 1 = 0 then 1 else next_registry_id s + 1)"
proof -
  have "(controls s)(a := None) = controls s" if "control_memory env = Some a" for a
    using that assms(2) by (simp add: fun_upd_idem)
  then show "h = None" and "\<exists>n. s' = s\<lparr>next_registry_id := next_registry_id s', next_thread_number := n\<rparr>"
    and "next_registry_id s' = next_registry_id s \<or>
      next_registry_id s' = (if next_registry_id s + 1 = 0 then 1 else next_registry_id s + 1)"
    using assms(1,3)
    by (auto simp: thread_create_def register_thread_def unregister_thread_def free_control_def free_stack_def
      set_control_def Let_def require_thread_context_def intro!: lifecycle.equality split: if_splits option.splits)
qed

lemma next_id:
  fixes i :: u32
  assumes "unat i = n + 1" and "n + 2 < 2 ^ 32"
  shows "unat (if i + 1 = 0 then 1 else i + 1) = n + 2"
proof -
  have u: "unat (i + 1) = n + 2" using assms by (simp add: unat_word_ariths(1))
  then have "i + 1 \<noteq> 0" by (intro notI) simp
  with u show ?thesis by simp
qed

lemma create_inv:
  assumes s: "life_inv n s" and n: "n + 2 < 2 ^ 32" and fresh: "controls s a = None"
    and k: "\<forall>b c. controls s b = Some c \<longrightarrow> stack_memory env \<noteq> Some (stack c)"
    and r: "thread_create x limits z attrs env s = ((None, Some a), s')"
  shows "life_inv (n + 1) (set_owner a Holding s')"
proof -
  obtain k where k': "stack_memory env = Some k"
    and f: "controls s' = (controls s)(a \<mapsto> (new_control k)\<lparr>registry_id := next_registry_id s\<rparr>)"
      "stacks s' = insert k (stacks s)" "registry s' = a # registry s"
      "next_registry_id s' = (if next_registry_id s + 1 = 0 then 1 else next_registry_id s + 1)"
      "thread_at s' = (thread_at s)(a := Starting)" "owner_at s' = owner_at s"
      "cleanup_queue s' = cleanup_queue s" "reaping s' = reaping s"
    by (rule create_success [OF r])
  let ?i = "next_registry_id s"
  have new_id: "\<not> used registry_id (controls s) ?i" using s by (auto simp: life_parts)
  have new_stack: "\<not> used stack (controls s) k" using k k' by (auto simp: used_def)
  have "unat (next_registry_id s') = n + 2" unfolding f by (rule next_id) (use s n in \<open>auto simp: life_parts\<close>)
  then have "ids_ok (n + 1) s'"
    using s fresh new_id by (auto simp: life_parts f used_insert new_control_def intro!: unique_insert)
  moreover have "stacks_ok s'"
    using s fresh new_stack by (auto simp: life_parts f used_insert new_control_def intro!: unique_insert)
  moreover have "registry_ok s'" using s fresh by (auto simp: life_parts f used_insert)
  moreover have "stage_ok c (thread_at s' b) (owner_at (set_owner a Holding s') b)
      (count_list (cleanup_queue s') (registry_id c)) (reaping s' = Some b)" if c: "controls s' b = Some c" for b c
  proof (cases "b = a")
    case True
    have "?i \<notin> set (cleanup_queue s)" using s new_id by (auto simp: life_parts)
    moreover have "reaping s \<noteq> Some a" using s fresh by (auto simp: life_parts)
    ultimately show ?thesis using True c
      by (auto simp: f set_owner_def stage_ok_def new_control_def count_list_0_iff of_bool_def)
  next
    case False
    then show ?thesis using c inv_stage [OF s, of b c] by (simp add: f set_owner_def)
  qed
  ultimately show ?thesis using s fresh
    by (auto simp: life_inv_def ids_ok_def registry_ok_def stacks_ok_def set_owner_def f)
qed

lemma create_fails_inv:
  assumes s: "life_inv n s" and n: "n + 2 < 2 ^ 32"
    and i: "s' = s\<lparr>next_registry_id := next_registry_id s', next_thread_number := m\<rparr>"
      "next_registry_id s' = next_registry_id s \<or>
       next_registry_id s' = (if next_registry_id s + 1 = 0 then 1 else next_registry_id s + 1)"
  shows "life_inv (if next_registry_id s' = next_registry_id s then n else n + 1) s'"
proof -
  have "unat (if next_registry_id s + 1 = 0 then 1 else next_registry_id s + 1) = n + 2"
    by (rule next_id) (use s n in \<open>auto simp: life_parts\<close>)
  then have u: "unat (next_registry_id s') = (if next_registry_id s' = next_registry_id s then n else n + 1) + 1"
    using i(2) s by (auto simp: life_parts)
  have "controls s' = controls s \<and> stacks s' = stacks s \<and> registry s' = registry s \<and> thread_at s' = thread_at s \<and>
      owner_at s' = owner_at s \<and> cleanup_queue s' = cleanup_queue s \<and> reaping s' = reaping s"
    by (subst i(1), subst (2) i(1), subst (3) i(1), subst (4) i(1), subst (5) i(1), subst (6) i(1), subst (7) i(1)) simp
  then show ?thesis using s u by (auto simp: life_inv_def ids_ok_def registry_ok_def stacks_ok_def split: if_splits)
qed

section \<open>Reachable states\<close>

lemma same_count: "life_inv n s \<Longrightarrow> life_inv n s' \<Longrightarrow> next_registry_id s' = next_registry_id s"
  by (simp add: life_inv_def ids_ok_def word_unat_eq_iff)

lemma step_inv:
  assumes s: "life_inv n s" and n: "n + 2 < 2 ^ 32" and step: "life_step s s'"
  shows "life_inv (if next_registry_id s' = next_registry_id s then n else n + 1) s'"
proof -
  have same: ?thesis if "life_inv n s'" using that same_count [OF s that] by simp
  from step show ?thesis
  proof cases
    case (create env a x limits z attrs s1)
    then have inv: "life_inv (n + 1) s'" using create_inv [OF s n] by simp
    then have "unat (next_registry_id s') = n + 2" "unat (next_registry_id s) = n + 1"
      using s by (simp_all add: life_parts)
    then have "next_registry_id s' \<noteq> next_registry_id s" by auto
    with inv show ?thesis by simp
  next
    case (create_fails env x limits z attrs e)
    then obtain m where "s' = s\<lparr>next_registry_id := next_registry_id s', next_thread_number := m\<rparr>"
      using create_failure(2) by blast
    then show ?thesis using create_failure(3) create_fails by (intro create_fails_inv [OF s n]) blast+
  next
    case (start a) then show ?thesis using thread_steps(1) [OF s] by (intro same) blast
  next
    case (finish a e s1) then show ?thesis using thread_steps(2) [OF s] by (intro same) blast
  next
    case (post a e) then show ?thesis using thread_steps(3) [OF s] by (intro same) blast
  next
    case (thread_enqueue a s1) then show ?thesis using thread_steps(4) [OF s] by (intro same) blast
  next
    case (join a) then show ?thesis using owner_steps(1) [OF s] by (intro same) blast
  next
    case (join_acquire a s1) then show ?thesis using owner_steps(2) [OF s] by (intro same) blast
  next
    case (join_refused a) then show ?thesis using owner_steps(3) [OF s] by (intro same) blast
  next
    case (join_error a k e s1) then show ?thesis using owner_steps(4) [OF s] by (intro same) blast
  next
    case (join_commit a k s1) then show ?thesis using owner_steps(5) [OF s] by (intro same) blast
  next
    case (join_enqueue a s1) then show ?thesis using owner_steps(6) [OF s] by (intro same) blast
  next
    case (detach_error a e q) then show ?thesis using owner_steps(7) [OF s] by (intro same) blast
  next
    case (detach a q s1) then show ?thesis using owner_steps(8) [OF s] by (intro same) blast
  next
    case (detach_enqueue a s1) then show ?thesis using owner_steps(9) [OF s] by (intro same) blast
  next
    case (receive a s1) then show ?thesis using receive_inv [OF s] by (intro same) blast
  next
    case (reap a) then show ?thesis using reap_inv [OF s] by (intro same) blast
  qed
qed

lemma no_threads_inv: "life_inv 0 no_threads"
  by (simp add: life_parts no_threads_def used_def unique_def)

lemma reachable_life_inv: "life_reachable n s \<Longrightarrow> n + 2 < 2 ^ 32 \<Longrightarrow> life_inv n s"
proof (induction rule: life_reachable.induct)
  case init
  show ?case by (rule no_threads_inv)
next
  case (step n s s')
  have inv: "life_inv n s" using step by (auto split: if_splits)
  moreover have "n + 2 < 2 ^ 32" using step.prems by (auto split: if_splits)
  ultimately show ?case using step_inv [OF _ _ step(2)] unfolding Suc_eq_plus1 by blast
qed

lemma find_thread_self:
  assumes s: "life_inv n s" and a: "controls s a = Some c"
  shows "find_thread (registry_id c) s = Some a"
proof (cases "find_thread (registry_id c) s")
  case None
  have "a \<in> set (registry s)" using s a by (auto simp: life_parts)
  with None a show ?thesis by (auto simp: find_thread_def find_from_None control_def)
next
  case (Some b)
  note b = find_thread_live [OF s Some]
  then show ?thesis using s a Some by (auto simp: life_parts unique_def)
qed

lemma queued_found:
  assumes s: "life_inv n s" and i: "i \<in> set (cleanup_queue s)"
  obtains a where "find_thread i s = Some a" "controls s a = Some (control a s)"
proof -
  obtain a c where "controls s a = Some c" "registry_id c = i"
    using s i by (auto simp: life_parts used_def)
  then show ?thesis using that find_thread_self [OF s] by (metis control_def option.sel)
qed

text \<open>
  C12. No actor touches a block that has been freed, and the two registry look-ups whose
  failure would stop the system succeed: a thread that has not left \<open>thread_entry\<close>, a
  \<open>std::thread\<close> that still holds its handle or is inside join or detach, and the reaper deleting a block all
  have their block and its stack; a starting thread finds its own block; every message in
  the clean-up queue names a block.\<close>

theorem no_use_after_free:
  assumes "life_reachable n s" and "n + 2 < 2 ^ 32"
  shows "((thread_at s a = Completed \<and> owner_at s a = Absent \<and> reaping s \<noteq> Some a) \<or>
      (controls s a = Some (control a s) \<and> stack (control a s) \<in> stacks s)) \<and>
    (thread_at s a = Completed \<or> find_thread (registry_id (control a s)) s = Some a) \<and>
    (\<forall>i\<in>set (cleanup_queue s).
      \<exists>b. find_thread i s = Some b \<and> controls s b = Some (control b s) \<and> registry_id (control b s) = i)"
proof (intro conjI ballI)
  note s = reachable_life_inv [OF assms]
  have stk: "controls s a = Some (control a s) \<Longrightarrow> stack (control a s) \<in> stacks s"
    using s by (auto simp: life_parts used_def)
  show "(thread_at s a = Completed \<and> owner_at s a = Absent \<and> reaping s \<noteq> Some a) \<or>
      (controls s a = Some (control a s) \<and> stack (control a s) \<in> stacks s)"
    using inv_live [OF s, of a] stk by blast
  show "thread_at s a = Completed \<or> find_thread (registry_id (control a s)) s = Some a"
    using inv_live [OF s, of a] find_thread_self [OF s, of a] by blast
  show "\<exists>b. find_thread i s = Some b \<and> controls s b = Some (control b s) \<and> registry_id (control b s) = i"
    if "i \<in> set (cleanup_queue s)" for i
    using queued_found [OF s that] find_thread_live [OF s] by metis
qed

text \<open>
  Nothing leaks: once all threads have ended, all handles are given up, and the reaper has
  emptied its queue, no control block, no stack and no registry entry is left.\<close>

theorem no_thread_leaks:
  assumes "life_reachable n s" and "n + 2 < 2 ^ 32"
    and "\<forall>a. thread_at s a = Completed \<and> owner_at s a = Absent" and "cleanup_queue s = []" and "reaping s = None"
  shows "controls s = Map.empty \<and> stacks s = {} \<and> registry s = []"
proof -
  note s = reachable_life_inv [OF assms(1,2)]
  have "controls s a = None" for a
    using inv_stage [OF s, of a] assms(3-5) by (cases "controls s a") (auto simp: stage_ok_def of_bool_def split: if_splits)
  then have e: "controls s = Map.empty" by auto
  then have "set (registry s) = {}" "stacks s = {}" using s by (auto simp: life_parts used_def)
  with e show ?thesis by simp
qed

section \<open>Arguments and failures of \<open>thread_create\<close>\<close>

text \<open>
  The stack size a thread gets is a multiple of 8, not below ThreadX's minimum, and at most 7
  bytes more than asked for (a request of 0 asks for the default); a request is refused
  exactly when it is below the minimum or rounding it up would not fit \<open>ULONG\<close>.\<close>

theorem stack_size_exact:
  "let asked = unat (if r = 0 then RUNTIME_STD_THREAD_STACK_SIZE else r)
   in case normalize_thread_stack_size limits r of
        None \<Rightarrow> asked < unat (TX_MINIMUM_STACK limits) \<or> 2 ^ 32 - 8 < asked
      | Some k \<Rightarrow> unat k mod 8 = 0 \<and> unat (TX_MINIMUM_STACK limits) \<le> asked \<and> asked \<le> unat k \<and>
          unat k < asked + 8 \<and> asked \<le> 2 ^ 32 - 8"
proof -
  have lim: "\<not> (- 1 - (8 - 1) < w) \<longleftrightarrow> unat w \<le> 2 ^ 32 - 8" for w :: u32
    by (simp add: word_less_nat_alt not_less)
  let ?r = "if r = 0 then RUNTIME_STD_THREAD_STACK_SIZE else r"
  have up: "unat ((w + 7) AND NOT 7) = (unat w + 7) div 8 * 8" if "unat w \<le> 2 ^ 32 - 8" for w :: u32
  proof -
    have "unat (8 :: u32) = 2 ^ 3" by simp
    from round_up [OF this, of w] that have "unat ((7 + w) AND NOT 7) = (7 + unat w) div 8 * 8" by simp
    then show ?thesis by (simp only: add.commute [of w 7] add.commute [of "unat w" 7])
  qed
  show ?thesis
    using up [of ?r] round_up_bounds [of 8 "unat ?r"]
    by (auto simp: normalize_thread_stack_size_def Let_def STACK_ALIGNMENT_def lim word_less_nat_alt not_less)
qed


section \<open>A thread's life as an example\<close>

definition example_context :: call_context where
  "example_context = \<lparr>initialized = True, interrupt_context = False, tx_thread_identify = Some 0\<rparr>"

definition example_limits :: thread_limits where
  "example_limits = \<lparr>TX_MINIMUM_STACK = 200, TX_MAX_PRIORITIES = 32\<rparr>"

definition example_grant :: creation where
  "example_grant = \<lparr>control_memory = Some 1, stack_memory = Some 2, mutex_created = True, semaphore_created = True,
     thread_created = True\<rparr>"

definition created_state :: lifecycle where
  "created_state = snd (thread_create example_context example_limits False default_attributes example_grant no_threads)"

definition held_state :: lifecycle where
  "held_state = set_owner 1 Holding created_state"

definition ended_state :: lifecycle where
  "ended_state = set_thread 1 Completed (post_completion 1
     (set_thread 1 (Finished False) (snd (finish_section 1 (set_thread 1 Running held_state)))))"

definition queued_state :: lifecycle where
  "queued_state = set_owner 1 Absent (the (enqueue_cleanup 1 (set_owner 1 Detach_Queueing (snd (detach_section 1 ended_state)))))"

definition reaping_state :: lifecycle where
  "reaping_state = (snd (the (reaper_receive queued_state)))\<lparr>reaping := Some 1\<rparr>"

definition reaped_state :: lifecycle where
  "reaped_state = (reaper_delete 1 reaping_state)\<lparr>reaping := None\<rparr>"

lemmas example_defs =
  example_context_def example_limits_def example_grant_def default_attributes_def thread_create_def
  require_thread_context_def normalize_thread_stack_size_def validate_thread_priority_def STACK_ALIGNMENT_def
  RUNTIME_STD_THREAD_STACK_SIZE_def RUNTIME_STD_THREAD_PRIORITY_def register_thread_def set_control_def control_def
  set_thread_def set_owner_def new_control_def no_threads_def

lemma created_state: "created_state = no_threads
    \<lparr>controls := [1 \<mapsto> (new_control 2)\<lparr>registry_id := 1\<rparr>], stacks := {2}, registry := [1], next_registry_id := 2,
     next_thread_number := 1, thread_at := (\<lambda>_. Completed)(1 := Starting)\<rparr>"
  by (simp add: created_state_def example_defs)

lemma created: "thread_create example_context example_limits False default_attributes example_grant no_threads =
    ((None, Some 1), created_state)"
  by (simp add: created_state_def example_defs)

lemma held_reachable: "life_reachable 1 held_state"
proof -
  have "life_step no_threads held_state" unfolding held_state_def
    by (rule life_step.create [OF _ _ _ created]) (simp_all add: example_grant_def no_threads_def)
  from life_reachable.step [OF life_reachable.init this] show ?thesis
    by (simp add: held_state_def set_owner_def created_state no_threads_def)
qed

lemma quiet_step: "life_reachable n s \<Longrightarrow> life_step s s' \<Longrightarrow> next_registry_id s' = next_registry_id s \<Longrightarrow> life_reachable n s'"
  by (drule (1) life_reachable.step) simp

lemmas run_defs = held_state_def created_state no_threads_def set_owner_def set_thread_def set_control_def control_def
  new_control_def finish_section_def post_completion_def detach_section_def Let_def find_thread_def

lemma ended_reachable: "life_reachable 1 ended_state"
proof -
  have 1: "life_reachable 1 (set_thread 1 Running held_state)"
    by (rule quiet_step [OF held_reachable life_step.start]) (simp_all add: run_defs)
  have 2: "life_reachable 1 (set_thread 1 (Finished False) (snd (finish_section 1 (set_thread 1 Running held_state))))"
    by (rule quiet_step [OF 1 life_step.finish]) (simp_all add: run_defs)
  show ?thesis unfolding ended_state_def
    by (rule quiet_step [OF 2 life_step.post [of _ _ False, unfolded if_False]]) (simp_all add: run_defs)
qed

lemma reaped_reachable: "life_reachable 1 reaping_state" "life_reachable 1 reaped_state"
proof -
  have 1: "life_reachable 1 (set_owner 1 Detach_Queueing (snd (detach_section 1 ended_state)))"
    by (rule quiet_step [OF ended_reachable life_step.detach [of _ _ True, unfolded if_True]])
      (simp_all add: ended_state_def run_defs)
  have 2: "life_reachable 1 queued_state" unfolding queued_state_def
    by (rule quiet_step [OF 1 life_step.detach_enqueue])
      (simp_all add: enqueue_cleanup_def CLEANUP_QUEUE_DEPTH_def ended_state_def run_defs)
  show 3: "life_reachable 1 reaping_state" unfolding reaping_state_def
    by (rule quiet_step [OF 2 life_step.receive])
      (simp_all add: reaper_receive_def queued_state_def enqueue_cleanup_def CLEANUP_QUEUE_DEPTH_def ended_state_def run_defs)
  show "life_reachable 1 reaped_state" unfolding reaped_state_def
    by (rule quiet_step [OF 3 life_step.reap])
      (simp_all add: reaper_delete_def free_stack_def free_control_def unregister_thread_def
        reaping_state_def reaper_receive_def queued_state_def enqueue_cleanup_def CLEANUP_QUEUE_DEPTH_def ended_state_def run_defs)
qed

lemma no_use_after_free_witness:
  "controls held_state 1 \<noteq> None \<and> find_thread (registry_id (control 1 held_state)) held_state = Some 1"
  using no_use_after_free [OF held_reachable, of 1] by (simp add: run_defs)

lemma no_thread_leaks_witness: "controls reaped_state = Map.empty \<and> stacks reaped_state = {} \<and> registry reaped_state = []"
  by (rule no_thread_leaks [OF reaped_reachable(2)])
    (simp_all add: reaped_state_def reaper_delete_def free_stack_def free_control_def unregister_thread_def
      reaping_state_def reaper_receive_def queued_state_def enqueue_cleanup_def CLEANUP_QUEUE_DEPTH_def ended_state_def run_defs)


end
