(* ===== verification/Thread_Cleanup.thy ===== *)
theory Thread_Cleanup
  imports Lifecycle_Properties
begin

text \<open>
  Clean-up makes progress: from every reachable state, with no further creation, the threads,
  their owners and the reaper can take steps that give back every block and stack. The
  one exception is a join that was refused after it had taken the completion semaphore: a second
  join of the same thread never returns.
\<close>

section \<open>What is left to do\<close>

fun thread_weight :: "thread_stage \<Rightarrow> nat" where
  "thread_weight Starting = 7"
| "thread_weight Running = 6"
| "thread_weight (Finished e) = 5"
| "thread_weight Queueing = 4"
| "thread_weight Completed = 0"

fun owner_weight :: "owner_stage \<Rightarrow> nat" where
  "owner_weight Absent = 0"
| "owner_weight Acquired = 5"
| "owner_weight Holding = 6"
| "owner_weight Joining = 6"
| "owner_weight t = 4"

definition work_left :: "lifecycle \<Rightarrow> nat" where
  "work_left s = (\<Sum>a\<in>dom (controls s). thread_weight (thread_at s a) + owner_weight (owner_at s a)) +
     2 * length (cleanup_queue s) + of_bool (reaping s \<noteq> None)"

text \<open>Every joining owner waits for a completion that has been posted or will be.\<close>

definition joins_served :: "lifecycle \<Rightarrow> bool" where
  "joins_served s \<longleftrightarrow> (\<forall>a. owner_at s a = Joining \<longrightarrow>
     0 < completion (control a s) \<or> thread_at s a \<noteq> Queueing \<and> thread_at s a \<noteq> Completed)"

definition advances :: "lifecycle \<Rightarrow> lifecycle \<Rightarrow> bool" where
  "advances s s' \<longleftrightarrow> life_step s s' \<and> work_left s' < work_left s \<and> joins_served s' \<and>
     next_registry_id s' = next_registry_id s"

lemma finite_controls: "life_inv n s \<Longrightarrow> finite (dom (controls s))"
  by (metis finite_set life_inv_def registry_ok_def)

lemma work_local:
  assumes s: "life_inv n s" and a: "controls s a = Some c"
  shows "work_left (local_change s a f t own e) + thread_weight (thread_at s a) + owner_weight (owner_at s a) =
    work_left s + thread_weight t + owner_weight own + 2 * of_bool e"
proof -
  let ?D = "dom (controls s)" and ?w = "\<lambda>s b. thread_weight (thread_at s b) + owner_weight (owner_at s b)"
  let ?s = "local_change s a f t own e"
  have dom: "dom (controls ?s) = ?D" using a by (auto simp: local_change_def split: if_splits)
  have fin: "finite ?D" "a \<in> ?D" using finite_controls [OF s] a by auto
  have "(\<Sum>b\<in>?D - {a}. ?w ?s b) = (\<Sum>b\<in>?D - {a}. ?w s b)" by (rule sum.cong) (auto simp: local_change_def)
  moreover have "?w ?s a = thread_weight t + owner_weight own" by (simp add: local_change_def)
  ultimately show ?thesis
    unfolding work_left_def dom sum.remove [OF fin] by (simp add: local_change_def)
qed

lemma local_advances:
  assumes s: "life_inv n s" and j: "joins_served s" and a: "controls s a = Some c"
    and step: "life_step s (local_change s a f t own e)"
    and w: "thread_weight t + owner_weight own + 2 * of_bool e < thread_weight (thread_at s a) + owner_weight (owner_at s a)"
    and k: "own = Joining \<Longrightarrow> 0 < completion (f c) \<or> t \<noteq> Queueing \<and> t \<noteq> Completed"
  shows "\<exists>s'. advances s s'"
proof -
  have "joins_served (local_change s a f t own e)"
    using j k a by (auto simp: joins_served_def local_change_def control_def)
  then have "advances s (local_change s a f t own e)"
    using step work_local [OF s a, of f t own e] w by (simp add: advances_def local_change_def)
  then show ?thesis by blast
qed

section \<open>Some step always advances\<close>

lemma enqueue_possible:
  "length (cleanup_queue s) < CLEANUP_QUEUE_DEPTH \<Longrightarrow>
   enqueue_cleanup a s = Some (local_change s a (\<lambda>c. c) (thread_at s a) (owner_at s a) True)"
  using enqueue_change [of a s] by (cases "enqueue_cleanup a s") (auto simp: enqueue_cleanup_def split: if_splits)

lemma thread_advances:
  assumes s: "life_inv n s" and j: "joins_served s" and t: "thread_at s a \<noteq> Completed"
    and q: "thread_at s a = Queueing \<Longrightarrow> length (cleanup_queue s) < CLEANUP_QUEUE_DEPTH"
  shows "\<exists>s'. advances s s'"
proof -
  obtain c where c: "controls s a = Some c" "control a s = c" using inv_live [OF s, of a] t by blast
  note adv = local_advances [OF s j c(1)]
  have served: "owner_at s a = Joining \<Longrightarrow> 0 < completion c \<or> thread_at s a \<noteq> Queueing \<and> thread_at s a \<noteq> Completed"
    using j c(2) by (auto simp: joins_served_def)
  show ?thesis
  proof (cases "thread_at s a")
    case Starting
    then have "life_step s (set_thread a Running s)"
      using find_thread_self [OF s c(1)] c(2) by (intro life_step.start) simp_all
    then show ?thesis using Starting
      by (subst (asm) unchanged [of s a], unfold set_thread_change) (erule adv; simp)
  next
    case Running
    then have "life_step s (set_thread a (Finished (fst (finish_section a s))) (snd (finish_section a s)))"
      by (intro life_step.finish) simp_all
    then show ?thesis using Running
      by (simp add: finish_section_def Let_def set_control_change set_thread_change) (erule adv; simp)
  next
    case (Finished e)
    note life_step.post [OF Finished]
    then show ?thesis using Finished
      by (simp add: post_completion_def set_control_change set_thread_change) (erule adv; simp)
  next
    case Queueing
    note life_step.thread_enqueue [OF Queueing enqueue_possible [OF q [OF Queueing]]]
    then show ?thesis using Queueing served
      by (simp add: set_thread_change) (erule adv; simp)
  qed (use t in simp)
qed

lemma owner_advances:
  assumes s: "life_inv n s" and j: "joins_served s" and o: "owner_at s a \<noteq> Absent" and t: "thread_at s a = Completed"
    and q: "length (cleanup_queue s) < CLEANUP_QUEUE_DEPTH"
  shows "\<exists>s'. advances s s'"
proof -
  obtain c where c: "controls s a = Some c" "control a s = c" using inv_live [OF s, of a] o by blast
  note adv = local_advances [OF s j c(1)]
  have served: "owner_at s a = Joining \<Longrightarrow> 0 < completion c" using j c(2) t by (auto simp: joins_served_def)
  have free: "owner_at s a = Holding \<or> owner_at s a = Acquired \<Longrightarrow> \<not> detached c \<and> \<not> cleanup_queued c"
    using inv_stage [OF s c(1)] by (auto simp: stage_ok_def)
  show ?thesis
  proof (cases "owner_at s a")
    case Holding
    then have "detach_section a s = ((None, finished c), snd (detach_section a s))"
      using free c(2) by (simp add: detach_section_def Let_def)
    note life_step.detach [OF Holding this]
    then show ?thesis using Holding free c(2)
      by (simp add: detach_section_def Let_def set_control_change set_thread_change)
        (erule adv; simp split: if_splits)
  next
    case Joining
    then have "take_completion a s = Some (set_control a (\<lambda>c. c\<lparr>completion := completion c - 1\<rparr>) s)"
      using served c(2) by (simp add: take_completion_def)
    note life_step.join_acquire [OF Joining this]
    then show ?thesis using Joining
      by (simp add: set_control_change set_thread_change) (erule adv; simp)
  next
    case Acquired
    then have "join_section a 0 s = (None, snd (join_section a 0 s))"
      using free c(2) by (simp add: join_section_def)
    note life_step.join_commit [OF Acquired this]
    then show ?thesis using Acquired free c(2)
      by (simp add: join_section_def set_control_change set_thread_change) (erule adv; simp)
  next
    case Join_Queueing
    note life_step.join_enqueue [OF Join_Queueing enqueue_possible [OF q]]
    then show ?thesis using Join_Queueing by (simp add: set_thread_change) (erule adv; simp)
  next
    case Detach_Queueing
    note life_step.detach_enqueue [OF Detach_Queueing enqueue_possible [OF q]]
    then show ?thesis using Detach_Queueing by (simp add: set_thread_change) (erule adv; simp)
  qed (use o in simp)
qed

lemma receive_advances:
  assumes s: "life_inv n s" and j: "joins_served s" and idle: "reaping s = None" and q: "cleanup_queue s = i # rest"
  shows "\<exists>s'. advances s s'"
proof -
  obtain a where "find_thread i s = Some a" using queued_found [OF s, of i] q by auto
  then have r: "reaper_receive s = Some (Some a, s\<lparr>cleanup_queue := rest\<rparr>)" by (simp add: reaper_receive_def q)
  have "advances s (s\<lparr>cleanup_queue := rest, reaping := Some a\<rparr>)"
    using life_step.receive [OF idle r] j q idle by (simp add: advances_def work_left_def joins_served_def control_def)
  then show ?thesis by blast
qed

lemma reap_advances:
  assumes s: "life_inv n s" and j: "joins_served s" and r: "reaping s = Some a" and t: "thread_at s a = Completed"
  shows "\<exists>s'. advances s s'"
proof -
  obtain c where c: "controls s a = Some c" "control a s = c" using inv_live [OF s, of a] r by blast
  have own: "owner_at s a = Absent"
    using inv_stage [OF s c(1)] r t by (cases "owner_at s a") (auto simp: stage_ok_def of_bool_def split: if_splits)
  let ?s = "(reaper_delete a s)\<lparr>reaping := None\<rparr>"
  have f: "controls ?s = (controls s)(a := None)" "cleanup_queue ?s = cleanup_queue s" "thread_at ?s = thread_at s"
    "owner_at ?s = owner_at s" "reaping ?s = None" "next_registry_id ?s = next_registry_id s"
    by (simp_all add: reaper_delete_def Let_def free_stack_def free_control_def unregister_thread_def split: option.splits)
  have "joins_served ?s" using j own by (auto simp: joins_served_def f control_def)
  moreover have "work_left ?s < work_left s"
  proof -
    have "sum w (dom (controls s) - {a}) \<le> sum w (dom (controls s))" for w :: "nat \<Rightarrow> nat"
      by (rule sum_mono2 [OF finite_controls [OF s]]) auto
    then show ?thesis unfolding work_left_def f using r by (simp add: le_imp_less_Suc)
  qed
  ultimately have "advances s ?s" using life_step.reap [OF r t] f by (simp add: advances_def)
  then show ?thesis by blast
qed

lemma some_step_advances:
  assumes s: "life_inv n s" and j: "joins_served s" and c: "controls s \<noteq> Map.empty"
  shows "\<exists>s'. advances s s'"
proof (cases "reaping s")
  case (Some a)
  then obtain d where d: "controls s a = Some d" using inv_live [OF s, of a] by blast
  have "thread_at s a \<noteq> Queueing" using inv_stage [OF s d] Some by (auto simp: stage_ok_def of_bool_def split: if_splits)
  then show ?thesis using reap_advances [OF s j Some] thread_advances [OF s j, of a] by blast
next
  case idle: None
  show ?thesis
  proof (cases "cleanup_queue s")
    case (Cons i rest)
    then show ?thesis by (rule receive_advances [OF s j idle])
  next
    case Nil
    then have q: "length (cleanup_queue s) < CLEANUP_QUEUE_DEPTH" by (simp add: CLEANUP_QUEUE_DEPTH_def)
    obtain a d where d: "controls s a = Some d" using c by fastforce
    have "thread_at s a \<noteq> Completed \<or> owner_at s a \<noteq> Absent"
      using inv_stage [OF s d] idle Nil by (auto simp: stage_ok_def of_bool_def split: if_splits)
    then show ?thesis using thread_advances [OF s j _ q, of a] owner_advances [OF s j _ _ q, of a] by blast
  qed
qed

text \<open>
  C13. From every reachable state in which no joining owner waits for a completion that is
  already spent, some run of steps, none of which creates a thread, ends with every control block and
  every stack given back.\<close>

theorem threads_can_be_cleaned_up:
  assumes "life_reachable n s" and "n + 2 < 2 ^ 32" and "joins_served s"
  shows "\<exists>s'. life_step\<^sup>*\<^sup>* s s' \<and> controls s' = Map.empty \<and> stacks s' = {} \<and> registry s' = [] \<and>
    next_registry_id s' = next_registry_id s"
proof -
  have "\<exists>s'. life_step\<^sup>*\<^sup>* s s' \<and> controls s' = Map.empty \<and> stacks s' = {} \<and> registry s' = [] \<and>
      next_registry_id s' = next_registry_id s" if "life_inv n s" "joins_served s" for s
    using that
  proof (induction "work_left s" arbitrary: s rule: less_induct)
    case less
    show ?case
    proof (cases "controls s = Map.empty")
      case True
      then have "stacks s = {} \<and> registry s = []" using less.prems(1) by (auto simp: life_parts used_def)
      with True show ?thesis by blast
    next
      case False
      then obtain s1 where a: "advances s s1" using some_step_advances [OF less.prems] by blast
      then have "life_inv n s1" using step_inv [OF less.prems(1) assms(2), of s1] by (simp add: advances_def)
      with a less.hyps [of s1] obtain s' where "life_step\<^sup>*\<^sup>* s1 s'" "controls s' = Map.empty" "stacks s' = {}"
        "registry s' = []" "next_registry_id s' = next_registry_id s1" by (auto simp: advances_def)
      with a show ?thesis by (metis advances_def converse_rtranclp_into_rtranclp)
    qed
  qed
  then show ?thesis using reachable_life_inv [OF assms(1,2)] assms(3) by blast
qed

lemma threads_can_be_cleaned_up_witness:
  "\<exists>s'. life_step\<^sup>*\<^sup>* held_state s' \<and> controls s' = Map.empty \<and> stacks s' = {}"
proof -
  have "joins_served held_state" by (auto simp: joins_served_def run_defs)
  from threads_can_be_cleaned_up [OF held_reachable _ this] show ?thesis by auto
qed

section \<open>A join that can never return\<close>

definition spent :: "nat \<Rightarrow> lifecycle \<Rightarrow> bool" where
  "spent a s \<longleftrightarrow> owner_at s a = Joining \<and> thread_at s a = Completed \<and> completion (control a s) = 0"

text \<open>After the thread has ended, and once a refused join has taken its completion, a further join waits for ever.\<close>

lemma spent_reachable: "\<exists>s. life_reachable 1 s \<and> spent 1 s"
proof -
  let ?taken = "set_owner 1 Acquired (the (take_completion 1 (set_owner 1 Joining ended_state)))"
  have 1: "life_reachable 1 (set_owner 1 Joining ended_state)"
    by (rule quiet_step [OF ended_reachable life_step.join]) (simp_all add: ended_state_def run_defs)
  have 2: "life_reachable 1 ?taken"
    by (rule quiet_step [OF 1 life_step.join_acquire]) (simp_all add: take_completion_def ended_state_def run_defs)
  have 3: "life_reachable 1 (set_owner 1 Holding ?taken)"
    by (rule quiet_step [OF 2 life_step.join_refused]) (simp_all add: take_completion_def ended_state_def run_defs)
  have 4: "life_reachable 1 (set_owner 1 Joining (set_owner 1 Holding ?taken))"
    by (rule quiet_step [OF 3 life_step.join]) (simp_all add: take_completion_def ended_state_def run_defs)
  have "spent 1 (set_owner 1 Joining (set_owner 1 Holding ?taken))"
    by (simp add: spent_def take_completion_def ended_state_def run_defs)
  with 4 show ?thesis by blast
qed

lemmas spent_moves = spent_def control_def set_owner_def set_thread_def set_control_def finish_section_def
  post_completion_def take_completion_def join_section_def detach_section_def enqueue_cleanup_def Let_def

lemma spent_stays:
  assumes s: "life_inv n s" and sp: "spent a s" and step: "life_step s s'"
  shows "spent a s'"
proof -
  obtain c where live: "controls s a = Some c" using inv_live [OF s, of a] sp by (auto simp: spent_def)
  have idle: "reaping s \<noteq> Some a" using inv_stage [OF s live] sp by (auto simp: stage_ok_def of_bool_def spent_def)
  from step show ?thesis
  proof cases
    case (create env b x limits z attrs s1)
    from create_success [OF create(5)] obtain k where "controls s1 = (controls s)(b \<mapsto> k)"
      "thread_at s1 = (thread_at s)(b := Starting)" "owner_at s1 = owner_at s" by metis
    then show ?thesis using create live sp by (auto simp: spent_def set_owner_def control_def)
  next
    case (create_fails env x limits z attrs e)
    then obtain i m where "s' = s\<lparr>next_registry_id := i, next_thread_number := m\<rparr>" using create_failure(2) by blast
    then show ?thesis using sp by (simp add: spent_def control_def)
  next
    case (receive b s1)
    then show ?thesis using sp by (auto simp: spent_def control_def reaper_receive_def split: list.splits)
  next
    case (reap b)
    then show ?thesis using sp idle
      by (auto simp: spent_def control_def reaper_delete_def Let_def free_stack_def free_control_def unregister_thread_def
        split: option.splits)
  next
    case (start b)
    then show ?thesis using sp live by (auto simp: spent_moves split: if_splits)
  next
    case (finish b e s1)
    then show ?thesis using sp live by (auto simp: spent_moves split: if_splits)
  next
    case (post b e)
    then show ?thesis using sp live by (auto simp: spent_moves split: if_splits)
  next
    case (thread_enqueue b s1)
    then show ?thesis using sp live by (auto simp: spent_moves split: if_splits)
  next
    case (join b)
    then show ?thesis using sp live by (auto simp: spent_moves split: if_splits)
  next
    case (join_acquire b s1)
    then show ?thesis using sp live by (auto simp: spent_moves split: if_splits)
  next
    case (join_refused b)
    then show ?thesis using sp live by (auto simp: spent_moves split: if_splits)
  next
    case (join_error b k e s1)
    then show ?thesis using sp live by (auto simp: spent_moves split: if_splits)
  next
    case (join_commit b k s1)
    then show ?thesis using sp live by (auto simp: spent_moves split: if_splits)
  next
    case (join_enqueue b s1)
    then show ?thesis using sp live by (auto simp: spent_moves split: if_splits)
  next
    case (detach_error b e q)
    then show ?thesis using sp live by (auto simp: spent_moves split: if_splits)
  next
    case (detach b q s1)
    then show ?thesis using sp live by (auto simp: spent_moves split: if_splits)
  next
    case (detach_enqueue b s1)
    then show ?thesis using sp live by (auto simp: spent_moves split: if_splits)
  qed
qed

end
