(* ===== verification/Waiter_List.thy ===== *)
theory Waiter_List
  imports Runtime_Context
begin

text \<open>
  The waiters of a condition variable (\<open>platform/runtime/libstdcxx/backend.cpp\<close>): a doubly linked
  list of \<open>Waiter\<close> objects that live on the stacks of the waiting threads. The
  pointer operations are shown to append to and remove from the list they represent. A waiter's semaphore
  is the number of permits it holds.
\<close>

section \<open>The objects and the pointer operations\<close>

record waiter =
  previous :: "nat option"
  next_waiter :: "nat option"
  linked :: bool
  permits :: nat

record condition =
  waiters :: "nat \<Rightarrow> waiter"
  first_waiter :: "nat option"
  last_waiter :: "nat option"

definition set_waiter :: "nat \<Rightarrow> (waiter \<Rightarrow> waiter) \<Rightarrow> condition \<Rightarrow> condition" where
  "set_waiter w f c = c\<lparr>waiters := (waiters c)(w := f (waiters c w))\<rparr>"

definition append_waiter :: "nat \<Rightarrow> condition \<Rightarrow> condition" where
  "append_waiter w c =
     (let c1 = set_waiter w (\<lambda>x. x\<lparr>previous := last_waiter c, next_waiter := None, linked := True\<rparr>) c;
          c2 = (case last_waiter c1 of
                  Some l \<Rightarrow> set_waiter l (\<lambda>x. x\<lparr>next_waiter := Some w\<rparr>) c1
                | None \<Rightarrow> c1\<lparr>first_waiter := Some w\<rparr>)
      in c2\<lparr>last_waiter := Some w\<rparr>)"

definition remove_waiter :: "nat \<Rightarrow> condition \<Rightarrow> condition" where
  "remove_waiter w c =
     (if \<not> linked (waiters c w) then c
      else
        let c1 = (case previous (waiters c w) of
                    Some p \<Rightarrow> set_waiter p (\<lambda>x. x\<lparr>next_waiter := next_waiter (waiters c w)\<rparr>) c
                  | None \<Rightarrow> c\<lparr>first_waiter := next_waiter (waiters c w)\<rparr>);
            c2 = (case next_waiter (waiters c1 w) of
                    Some n \<Rightarrow> set_waiter n (\<lambda>x. x\<lparr>previous := previous (waiters c1 w)\<rparr>) c1
                  | None \<Rightarrow> c1\<lparr>last_waiter := previous (waiters c1 w)\<rparr>)
        in set_waiter w (\<lambda>x. x\<lparr>linked := False\<rparr>) c2)"

section \<open>The list a condition represents\<close>

definition head_or :: "nat option \<Rightarrow> nat list \<Rightarrow> nat option" where
  "head_or n ws = (case ws of [] \<Rightarrow> n | w # _ \<Rightarrow> Some w)"

definition last_or :: "nat option \<Rightarrow> nat list \<Rightarrow> nat option" where
  "last_or p ws = (if ws = [] then p else Some (last ws))"

text \<open>The waiters \<open>ws\<close> are linked one after the other, between \<open>p\<close> and \<open>n\<close>.\<close>

fun links :: "(nat \<Rightarrow> waiter) \<Rightarrow> nat option \<Rightarrow> nat list \<Rightarrow> nat option \<Rightarrow> bool" where
  "links W p [] n \<longleftrightarrow> True"
| "links W p (w # ws) n \<longleftrightarrow>
     previous (W w) = p \<and> next_waiter (W w) = head_or n ws \<and> links W (Some w) ws n"

definition queue_of :: "condition \<Rightarrow> nat list \<Rightarrow> bool" where
  "queue_of c ws \<longleftrightarrow>
     distinct ws \<and> first_waiter c = head_or None ws \<and> last_waiter c = last_or None ws \<and>
     links (waiters c) None ws None \<and> (\<forall>w. linked (waiters c w) \<longleftrightarrow> w \<in> set ws)"

lemma head_or_simps [simp]: "head_or n [] = n" "head_or n (w # ws) = Some w"
  by (simp_all add: head_or_def)

lemma last_or_simps [simp]: "last_or p [] = p" "last_or p (ws @ [w]) = Some w" "last_or p (w # ws) = last_or (Some w) ws"
  by (simp_all add: last_or_def)

lemma head_or_append [simp]: "head_or n (xs @ ys) = head_or (head_or n ys) xs"
  by (cases xs) simp_all

lemma last_or_append [simp]: "last_or p (xs @ ys) = last_or (last_or p xs) ys"
  by (simp add: last_or_def)

lemma links_append: "links W p (xs @ ys) n \<longleftrightarrow> links W p xs (head_or n ys) \<and> links W (last_or p xs) ys n"
  by (induction xs arbitrary: p) auto

lemma links_cong:
  "(\<And>w. w \<in> set ws \<Longrightarrow> previous (V w) = previous (W w) \<and> next_waiter (V w) = next_waiter (W w)) \<Longrightarrow>
   links V p ws n = links W p ws n"
  by (induction ws arbitrary: p) auto

lemma links_end:
  assumes "links W p (xs @ [v]) n" and "distinct (xs @ [v])"
  shows "links (W(v := (W v)\<lparr>next_waiter := m\<rparr>)) p (xs @ [v]) m"
proof -
  have "links (W(v := (W v)\<lparr>next_waiter := m\<rparr>)) p xs (Some v) = links W p xs (Some v)"
    by (rule links_cong) (use assms(2) in auto)
  then show ?thesis using assms(1) by (simp add: links_append)
qed

lemma links_start:
  assumes "links W p (v # ys) n" and "distinct (v # ys)"
  shows "links (W(v := (W v)\<lparr>previous := q\<rparr>)) q (v # ys) n"
proof -
  have "links (W(v := (W v)\<lparr>previous := q\<rparr>)) (Some v) ys n = links W (Some v) ys n"
    by (rule links_cong) (use assms(2) in auto)
  then show ?thesis using assms(1) by simp
qed

section \<open>The operations on the list\<close>

lemma append_waiter_queue:
  assumes q: "queue_of c ws" and w: "w \<notin> set ws"
  shows "queue_of (append_waiter w c) (ws @ [w])"
proof (cases ws rule: rev_cases)
  case Nil
  then show ?thesis using q
    by (auto simp: queue_of_def append_waiter_def set_waiter_def)
next
  case (snoc xs l)
  let ?W = "(waiters c)(w := (waiters c w)\<lparr>previous := Some l, next_waiter := None, linked := True\<rparr>)"
  have ne: "l \<noteq> w" using w snoc by auto
  have "links ?W None ws None" using q w by (subst links_cong [of _ _ "waiters c"]) (auto simp: queue_of_def)
  then have "links (?W(l := (?W l)\<lparr>next_waiter := Some w\<rparr>)) None (xs @ [l]) (Some w)"
    using q snoc by (intro links_end [where n = None]) (auto simp: queue_of_def)
  then show ?thesis using q w snoc ne
    by (auto simp: queue_of_def append_waiter_def set_waiter_def links_append Let_def)
qed

lemma remove_waiter_queue:
  assumes q: "queue_of c (xs @ w # ys)"
  shows "queue_of (remove_waiter w c) (xs @ ys)"
proof -
  let ?W = "waiters c"
  have d: "distinct (xs @ w # ys)" and l: "links ?W None xs (Some w)" "links ?W (Some w) ys None"
    and n: "previous (?W w) = last_or None xs" "next_waiter (?W w) = head_or None ys" "linked (?W w)"
    using q by (auto simp: queue_of_def links_append)
  define V where "V = (case last_or None xs of Some p \<Rightarrow> ?W(p := (?W p)\<lparr>next_waiter := head_or None ys\<rparr>) | None \<Rightarrow> ?W)"
  define U where "U = (case head_or None ys of Some v \<Rightarrow> V(v := (V v)\<lparr>previous := last_or None xs\<rparr>) | None \<Rightarrow> V)"
  have V: "links V None xs (head_or None ys)" "links V (Some w) ys None" "V w = ?W w" "\<And>v. linked (V v) = linked (?W v)"
  proof -
    show "links V None xs (head_or None ys)"
      using l d by (cases xs rule: rev_cases) (auto simp: V_def intro!: links_end [where n = "Some w"])
    show "links V (Some w) ys None"
      using l(2) d by (subst links_cong [of _ _ ?W]) (cases xs rule: rev_cases; auto simp: V_def)+
    show "V w = ?W w" "\<And>v. linked (V v) = linked (?W v)"
      using d by (cases xs rule: rev_cases; auto simp: V_def)+
  qed
  have U: "links U None xs (head_or None ys)" "links U (last_or None xs) ys None" "U w = ?W w" "\<And>v. linked (U v) = linked (?W v)"
  proof -
    show "links U None xs (head_or None ys)"
      using V(1) d by (subst links_cong [of _ _ V]) (cases ys; auto simp: U_def)+
    show "links U (last_or None xs) ys None"
      using V(2) d links_start [of V "Some w" "hd ys" "tl ys" None "last_or None xs"] by (cases ys) (auto simp: U_def)
    show "U w = ?W w" "\<And>v. linked (U v) = linked (?W v)"
      using d V by (cases ys; auto simp: U_def)+
  qed
  have "remove_waiter w c = c\<lparr>waiters := U(w := (U w)\<lparr>linked := False\<rparr>),
      first_waiter := head_or None (xs @ ys), last_waiter := last_or None (xs @ ys)\<rparr>"
    using q d n by (cases xs rule: rev_cases; cases ys)
      (auto simp: remove_waiter_def set_waiter_def U_def V_def Let_def queue_of_def fun_upd_twist split: option.splits)
  moreover have "links (U(w := (U w)\<lparr>linked := False\<rparr>)) None (xs @ ys) None"
    using U(1,2) d by (subst links_cong [of _ _ U]) (auto simp: links_append)
  ultimately show ?thesis using q d U(3,4) by (auto simp: queue_of_def)
qed

end
