(* ===== verification/Condition_Variable.thy ===== *)
theory Condition_Variable
  imports Waiter_List
begin

text \<open>
  Waiting on, signalling and destroying a condition variable
  (\<open>platform/runtime/libstdcxx/backend.cpp\<close>). Each section under the condition's mutex is one
  function; the waiter's way through \<open>condition_wait_common\<close> is a stage, and the step relation
  interleaves any number of waiters with signals and broadcasts. The counters at the end of the state
  record what happened and are read by the theorems only.
\<close>

section \<open>The sections\<close>

definition new_waiter :: waiter where
  "new_waiter = \<lparr>previous = None, next_waiter = None, linked = False, permits = 0\<rparr>"

definition tx_semaphore_put :: "nat \<Rightarrow> condition \<Rightarrow> condition" where
  "tx_semaphore_put w = set_waiter w (\<lambda>x. x\<lparr>permits := permits x + 1\<rparr>)"

definition tx_semaphore_get :: "nat \<Rightarrow> condition \<Rightarrow> condition option" where
  "tx_semaphore_get w c =
     (if 0 < permits (waiters c w) then Some (set_waiter w (\<lambda>x. x\<lparr>permits := permits x - 1\<rparr>) c) else None)"

definition tx_semaphore_delete :: "nat \<Rightarrow> condition \<Rightarrow> condition" where
  "tx_semaphore_delete w = set_waiter w (\<lambda>x. x\<lparr>permits := 0\<rparr>)"

text \<open>A fresh \<open>Waiter\<close> with its semaphore, appended under the condition's mutex.\<close>

definition enter_section :: "nat \<Rightarrow> condition \<Rightarrow> condition" where
  "enter_section w c = append_waiter w (set_waiter w (\<lambda>_. new_waiter) c)"

text \<open>The section after a failed wait: a waiter that was signalled meanwhile takes its permit.\<close>

definition settle_section :: "nat \<Rightarrow> errno \<Rightarrow> condition \<Rightarrow> error \<times> condition" where
  "settle_section w e c =
     (if linked (waiters c w) then (Some e, remove_waiter w c)
      else case tx_semaphore_get w c of Some c' \<Rightarrow> (None, c') | None \<Rightarrow> (Some e, c))"

definition signal_section :: "condition \<Rightarrow> condition" where
  "signal_section c =
     (case first_waiter c of
        Some w \<Rightarrow> tx_semaphore_put w (remove_waiter w c)
      | None \<Rightarrow> c)"

partial_function (option) broadcast_section :: "condition \<Rightarrow> condition option" where
  "broadcast_section c =
     (case first_waiter c of
        None \<Rightarrow> Some c
      | Some w \<Rightarrow> broadcast_section (tx_semaphore_put w (remove_waiter w c)))"

definition wait_result :: "error \<Rightarrow> error \<Rightarrow> error" where
  "wait_result lock_status wait_status = (if lock_status = None then wait_status else lock_status)"

section \<open>Interleaving\<close>

datatype wait_stage = Away | Refused errno | Waiting | Failing errno | Leaving error

record cv =
  cond :: condition
  destroyed :: bool
  stage :: "nat \<Rightarrow> wait_stage"
  signalled :: nat
  woken :: nat
  dropped :: nat

definition at :: "nat \<Rightarrow> wait_stage \<Rightarrow> cv \<Rightarrow> cv" where
  "at w t s = s\<lparr>stage := (stage s)(w := t)\<rparr>"

text \<open>
  \<open>refuse\<close>: the caller's mutex could not be unlocked. \<open>fail\<close>: the deadline has passed, or the
  semaphore failed. \<open>destroy\<close>: \<open>condition_destroy\<close> found no waiter linked; no thread starts a
  wait on a destroyed condition, or signals it.
\<close>

inductive cv_step :: "cv \<Rightarrow> cv \<Rightarrow> bool" where
  wait: "stage s w = Away \<Longrightarrow> \<not> destroyed s \<Longrightarrow> cv_step s (at w Waiting (s\<lparr>cond := enter_section w (cond s)\<rparr>))"
| refuse: "stage s w = Away \<Longrightarrow> \<not> destroyed s \<Longrightarrow> cv_step s (at w (Refused e) (s\<lparr>cond := enter_section w (cond s)\<rparr>))"
| refused: "stage s w = Refused e \<Longrightarrow>
    cv_step s (at w Away (s\<lparr>cond := tx_semaphore_delete w (remove_waiter w (cond s)), dropped := dropped s + permits (waiters (cond s) w)\<rparr>))"
| acquire: "stage s w = Waiting \<Longrightarrow> tx_semaphore_get w (cond s) = Some c \<Longrightarrow>
    cv_step s (at w (Leaving None) (s\<lparr>cond := c, woken := woken s + 1\<rparr>))"
| fail: "stage s w = Waiting \<Longrightarrow> cv_step s (at w (Failing e) s)"
| settle: "stage s w = Failing e \<Longrightarrow> settle_section w e (cond s) = (r, c) \<Longrightarrow>
    cv_step s (at w (Leaving r) (s\<lparr>cond := c, woken := woken s + of_bool (r = None)\<rparr>))"
| leave: "stage s w = Leaving r \<Longrightarrow> cv_step s (at w Away (s\<lparr>cond := tx_semaphore_delete w (cond s)\<rparr>))"
| signal: "\<not> destroyed s \<Longrightarrow>
    cv_step s (s\<lparr>cond := signal_section (cond s), signalled := signalled s + of_bool (first_waiter (cond s) \<noteq> None)\<rparr>)"
| broadcast: "\<not> destroyed s \<Longrightarrow> broadcast_section (cond s) = Some c \<Longrightarrow>
    cv_step s (s\<lparr>cond := c, signalled := signalled s + card {w. linked (waiters (cond s) w)}\<rparr>)"
| destroy: "first_waiter (cond s) = None \<Longrightarrow> cv_step s (s\<lparr>destroyed := True\<rparr>)"

definition no_waiters :: cv where
  "no_waiters = \<lparr>cond = \<lparr>waiters = (\<lambda>_. new_waiter), first_waiter = None, last_waiter = None\<rparr>, destroyed = False,
     stage = (\<lambda>_. Away), signalled = 0, woken = 0, dropped = 0\<rparr>"

definition cv_reachable :: "cv \<Rightarrow> bool" where
  "cv_reachable s \<longleftrightarrow> cv_step\<^sup>*\<^sup>* no_waiters s"

inductive_cases cv_stepE: "cv_step s s'"

section \<open>Signals and broadcasts\<close>

lemma permits_append [simp]: "permits (waiters (append_waiter w c) v) = permits (waiters c v)"
  by (auto simp: append_waiter_def set_waiter_def Let_def split: option.splits)

lemma permits_remove [simp]: "permits (waiters (remove_waiter w c) v) = permits (waiters c v)"
  by (auto simp: remove_waiter_def set_waiter_def Let_def split: option.splits)

lemma permits_put [simp]:
  "permits (waiters (tx_semaphore_put w c) v) = permits (waiters c v) + of_bool (v = w)"
  by (simp add: tx_semaphore_put_def set_waiter_def)

lemma queue_of_set:
  assumes "\<And>x. previous (f x) = previous x" and "\<And>x. next_waiter (f x) = next_waiter x" and "\<And>x. linked (f x) = linked x"
  shows "queue_of (set_waiter w f c) ws = queue_of c ws"
proof -
  have "links ((waiters c)(w := f (waiters c w))) None ws None = links (waiters c) None ws None"
    by (rule links_cong) (auto simp: assms)
  then show ?thesis by (auto simp: queue_of_def set_waiter_def assms)
qed

lemma put_queue [simp]: "queue_of (tx_semaphore_put w c) ws = queue_of c ws"
  by (simp add: tx_semaphore_put_def queue_of_set)

lemma get_queue: "tx_semaphore_get w c = Some c' \<Longrightarrow> queue_of c' ws = queue_of c ws"
  by (auto simp: tx_semaphore_get_def queue_of_set split: if_splits)

lemma signal_queue:
  assumes "queue_of c (w # ws)"
  shows "first_waiter c = Some w" and "queue_of (signal_section c) ws"
    and "permits (waiters (signal_section c) v) = permits (waiters c v) + of_bool (v = w)"
proof -
  show first: "first_waiter c = Some w" using assms by (simp add: queue_of_def)
  show "queue_of (signal_section c) ws" "permits (waiters (signal_section c) v) = permits (waiters c v) + of_bool (v = w)"
    using remove_waiter_queue [of c "[]" w ws] assms by (simp_all add: signal_section_def first)
qed

lemma signal_empty: "queue_of c [] \<Longrightarrow> signal_section c = c"
  by (simp add: queue_of_def signal_section_def)

lemma broadcast_queue:
  assumes "queue_of c ws"
  obtains c' where "broadcast_section c = Some c'" and "queue_of c' []"
    and "\<And>v. permits (waiters c' v) = permits (waiters c v) + of_bool (v \<in> set ws)"
  using assms
proof (induction ws arbitrary: c thesis)
  case Nil
  then show ?case by (auto simp: queue_of_def broadcast_section.simps)
next
  case (Cons w ws)
  note s = signal_queue [OF Cons.prems(2)]
  have step: "broadcast_section c = broadcast_section (signal_section c)"
    by (subst broadcast_section.simps) (simp add: s(1) signal_section_def)
  obtain c' where "broadcast_section (signal_section c) = Some c'" "queue_of c' []"
    "\<And>v. permits (waiters c' v) = permits (waiters (signal_section c) v) + of_bool (v \<in> set ws)"
    using Cons.IH [OF _ s(2)] by blast
  with s(3) Cons.prems(2) show ?case by (intro Cons.prems(1) [of c']) (auto simp: step queue_of_def)
qed

section \<open>The invariant\<close>

definition attending :: "wait_stage \<Rightarrow> bool" where
  "attending t \<longleftrightarrow> (case t of Away \<Rightarrow> False | Leaving r \<Rightarrow> False | _ \<Rightarrow> True)"

lemma attending_simps [simp]:
  "\<not> attending Away" "\<not> attending (Leaving r)" "attending (Refused e)" "attending Waiting" "attending (Failing e)"
  by (simp_all add: attending_def)

text \<open>
  A waiter is linked until it is signalled, and then holds one permit until it takes it. Every
  signal given is with a waiter, or has woken one, or was given to one whose wait had been refused.
\<close>

definition cv_inv :: "cv \<Rightarrow> nat list \<Rightarrow> bool" where
  "cv_inv s ws \<longleftrightarrow>
     queue_of (cond s) ws \<and> (\<forall>w\<in>set ws. attending (stage s w)) \<and>
     (\<forall>w. permits (waiters (cond s) w) = of_bool (attending (stage s w) \<and> w \<notin> set ws)) \<and>
     finite {w. attending (stage s w)} \<and>
     signalled s = woken s + dropped s + card {w. attending (stage s w) \<and> w \<notin> set ws}"

lemma cv_inv_finite: "cv_inv s ws \<Longrightarrow> finite {w. attending (stage s w) \<and> w \<notin> set ws}"
  by (rule finite_subset [of _ "{w. attending (stage s w)}"]) (auto simp: cv_inv_def)

lemma enter_inv:
  assumes s: "cv_inv s ws" and w: "stage s w = Away" and t: "attending t"
  shows "cv_inv (at w t (s\<lparr>cond := enter_section w (cond s)\<rparr>)) (ws @ [w])"
proof -
  have out: "w \<notin> set ws" using s w by (auto simp: cv_inv_def)
  have "queue_of (set_waiter w (\<lambda>_. new_waiter) (cond s)) ws"
  proof -
    have "links ((waiters (cond s))(w := new_waiter)) None ws None = links (waiters (cond s)) None ws None"
      by (rule links_cong) (use out in auto)
    then show ?thesis using s out by (auto simp: cv_inv_def queue_of_def set_waiter_def new_waiter_def)
  qed
  then have "queue_of (enter_section w (cond s)) (ws @ [w])"
    unfolding enter_section_def using out by (rule append_waiter_queue)
  moreover have "{v. attending (if v = w then t else stage s v) \<and> v \<notin> set (ws @ [w])} = {v. attending (stage s v) \<and> v \<notin> set ws}"
    using w by auto
  moreover have "{v. attending (if v = w then t else stage s v)} = insert w {v. attending (stage s v)}"
    using t by auto
  ultimately show ?thesis using s out t
    by (auto simp: cv_inv_def at_def enter_section_def set_waiter_def new_waiter_def)
qed

lemma unlink_inv:
  assumes s: "cv_inv s ws" and w: "w \<in> set ws" and t: "\<not> attending t"
  shows "cv_inv (at w t (s\<lparr>cond := remove_waiter w (cond s)\<rparr>)) (remove1 w ws)"
proof -
  obtain xs ys where ws: "ws = xs @ w # ys" "w \<notin> set xs" using split_list_first [OF w] by blast
  then have q: "queue_of (remove_waiter w (cond s)) (remove1 w ws)"
    using s remove_waiter_queue [of "cond s" xs w ys] by (simp add: cv_inv_def remove1_append)
  have d: "v \<in> set (remove1 w ws) \<longleftrightarrow> v \<in> set ws \<and> v \<noteq> w" for v
    using s by (simp add: cv_inv_def queue_of_def)
  have sets: "{v. attending (if v = w then t else stage s v) \<and> v \<notin> set (remove1 w ws)} = {v. attending (stage s v) \<and> v \<notin> set ws}"
    "{v. attending (if v = w then t else stage s v)} = {v. attending (stage s v)} - {w}"
    using w t unfolding d by auto
  have "\<forall>v. permits (waiters (cond s) v) =
      of_bool (attending (if v = w then t else stage s v) \<and> v \<notin> set (remove1 w ws))"
    using s w t unfolding d by (auto simp: cv_inv_def)
  moreover have "\<forall>v\<in>set (remove1 w ws). attending (if v = w then t else stage s v)"
    unfolding Ball_def d using s by (auto simp: cv_inv_def)
  moreover have "finite {v. attending (if v = w then t else stage s v)}" unfolding sets using s by (simp add: cv_inv_def)
  moreover have "signalled s = woken s + dropped s + card {v. attending (stage s v) \<and> v \<notin> set ws}"
    using s by (simp add: cv_inv_def)
  ultimately show ?thesis using q by (simp add: cv_inv_def at_def sets(1))
qed

lemma permit_inv:
  assumes s: "cv_inv s ws" and w: "w \<notin> set ws" "attending (stage s w)" and t: "\<not> attending t"
    and q: "queue_of c ws" and c: "\<And>v. permits (waiters c v) = (if v = w then 0 else permits (waiters (cond s) v))"
    and n: "a + b = Suc (woken s + dropped s)"
  shows "cv_inv (at w t (s\<lparr>cond := c, woken := a, dropped := b\<rparr>)) ws"
proof -
  let ?P = "{v. attending (stage s v) \<and> v \<notin> set ws}"
  have sets: "{v. attending (if v = w then t else stage s v) \<and> v \<notin> set ws} = ?P - {w}"
    "{v. attending (if v = w then t else stage s v)} = {v. attending (stage s v)} - {w}"
    using t by auto
  have "card ?P = Suc (card (?P - {w}))"
    using cv_inv_finite [OF s] w by (intro card.remove) auto
  moreover have "signalled s = woken s + dropped s + card ?P" using s by (simp add: cv_inv_def)
  ultimately have sig: "signalled s = a + b + card (?P - {w})" using n by simp
  have "finite {v. attending (if v = w then t else stage s v)}" unfolding sets using s by (simp add: cv_inv_def)
  moreover have "\<forall>v. permits (waiters c v) = of_bool (attending (if v = w then t else stage s v) \<and> v \<notin> set ws)"
    using s t unfolding c by (auto simp: cv_inv_def)
  moreover have "\<forall>v\<in>set ws. attending (if v = w then t else stage s v)" using s w by (auto simp: cv_inv_def)
  ultimately show ?thesis using sig q by (simp add: cv_inv_def at_def sets(1))
qed

lemma signals_inv:
  assumes s: "cv_inv s (us @ ws)" and q: "queue_of c ws"
    and c: "\<And>v. permits (waiters c v) = permits (waiters (cond s) v) + of_bool (v \<in> set us)"
  shows "cv_inv (s\<lparr>cond := c, signalled := signalled s + length us\<rparr>) ws"
proof -
  have d: "distinct (us @ ws)" "\<forall>v\<in>set us \<union> set ws. attending (stage s v)" using s by (auto simp: cv_inv_def queue_of_def)
  have sets: "{v. attending (stage s v) \<and> v \<notin> set ws} = {v. attending (stage s v) \<and> v \<notin> set (us @ ws)} \<union> set us"
    using d by auto
  have "card ({v. attending (stage s v) \<and> v \<notin> set (us @ ws)} \<union> set us) =
      card {v. attending (stage s v) \<and> v \<notin> set (us @ ws)} + length us"
    using cv_inv_finite [OF s] d(1) by (subst card_Un_disjoint) (auto simp: distinct_card)
  moreover have "\<forall>v. permits (waiters c v) = of_bool (attending (stage s v) \<and> v \<notin> set ws)"
    using s d unfolding c by (auto simp: cv_inv_def)
  moreover have "signalled s = woken s + dropped s + card {v. attending (stage s v) \<and> v \<notin> set (us @ ws)}"
    using s by (simp add: cv_inv_def)
  ultimately show ?thesis using s q d by (simp add: cv_inv_def sets del: set_append)
qed

lemma removed_unlinked: "queue_of c ws \<Longrightarrow> w \<notin> set ws \<Longrightarrow> remove_waiter w c = c"
  by (simp add: queue_of_def remove_waiter_def)

lemma idle_delete: "permits (waiters c w) = 0 \<Longrightarrow> tx_semaphore_delete w c = c"
proof -
  assume "permits (waiters c w) = 0"
  then have "(waiters c w)\<lparr>permits := 0\<rparr> = waiters c w" by (cases "waiters c w") simp
  then show ?thesis by (cases c) (simp add: tx_semaphore_delete_def set_waiter_def)
qed

lemma permits_delete [simp]:
  "permits (waiters (tx_semaphore_delete w c) v) = (if v = w then 0 else permits (waiters c v))"
  by (simp add: tx_semaphore_delete_def set_waiter_def)

lemma delete_queue [simp]: "queue_of (tx_semaphore_delete w c) ws = queue_of c ws"
  by (simp add: tx_semaphore_delete_def queue_of_set)

lemma restage_inv: "cv_inv s ws \<Longrightarrow> attending t = attending (stage s w) \<Longrightarrow> cv_inv (at w t s) ws"
proof -
  assume "attending t = attending (stage s w)"
  then have "attending (if v = w then t else stage s v) = attending (stage s v)" for v by simp
  then show "cv_inv s ws \<Longrightarrow> ?thesis" by (simp add: cv_inv_def at_def)
qed

lemma refused_inv:
  assumes s: "cv_inv s ws" and w: "attending (stage s w)"
  shows "\<exists>ws'. cv_inv (at w Away (s\<lparr>cond := tx_semaphore_delete w (remove_waiter w (cond s)),
    dropped := dropped s + permits (waiters (cond s) w)\<rparr>)) ws'"
proof (cases "w \<in> set ws")
  case True
  then have "permits (waiters (cond s) w) = 0" using s by (auto simp: cv_inv_def)
  then show ?thesis using unlink_inv [OF s True, of Away] by (auto simp: idle_delete)
next
  case False
  then have p: "permits (waiters (cond s) w) = 1" using s w by (auto simp: cv_inv_def)
  have q: "queue_of (cond s) ws" using s by (simp add: cv_inv_def)
  have "cv_inv (at w Away (s\<lparr>cond := tx_semaphore_delete w (cond s), woken := woken s, dropped := dropped s + 1\<rparr>)) ws"
    by (rule permit_inv [OF s False w]) (simp_all add: q)
  then show ?thesis using removed_unlinked [OF q False] p by auto
qed

lemma take_inv:
  assumes s: "cv_inv s ws" and w: "attending (stage s w)" and g: "tx_semaphore_get w (cond s) = Some c"
  shows "cv_inv (at w (Leaving None) (s\<lparr>cond := c, woken := woken s + 1\<rparr>)) ws"
proof -
  have "0 < permits (waiters (cond s) w)" using g by (auto simp: tx_semaphore_get_def split: if_splits)
  then have out: "w \<notin> set ws" and one: "permits (waiters (cond s) w) = 1" using s by (auto simp: cv_inv_def split: if_splits)
  have "cv_inv (at w (Leaving None) (s\<lparr>cond := c, woken := woken s + 1, dropped := dropped s\<rparr>)) ws"
  proof (rule permit_inv [OF s out w])
    show "queue_of c ws" using get_queue [OF g] s by (simp add: cv_inv_def)
    show "permits (waiters c v) = (if v = w then 0 else permits (waiters (cond s) v))" for v
      using g one by (auto simp: tx_semaphore_get_def set_waiter_def split: if_splits)
  qed simp_all
  then show ?thesis by simp
qed

lemma settle_inv:
  assumes s: "cv_inv s ws" and w: "attending (stage s w)" and r: "settle_section w e (cond s) = (r, c)"
  shows "\<exists>ws'. cv_inv (at w (Leaving r) (s\<lparr>cond := c, woken := woken s + of_bool (r = None)\<rparr>)) ws'"
proof (cases "w \<in> set ws")
  case True
  then have "linked (waiters (cond s) w)" using s by (auto simp: cv_inv_def queue_of_def)
  then show ?thesis using unlink_inv [OF s True, of "Leaving r"] r by (auto simp: settle_section_def)
next
  case False
  then have l: "\<not> linked (waiters (cond s) w)" "permits (waiters (cond s) w) = 1"
    using s w by (auto simp: cv_inv_def queue_of_def)
  then have "r = None" "tx_semaphore_get w (cond s) = Some c"
    using r by (auto simp: settle_section_def tx_semaphore_get_def split: option.splits)
  then show ?thesis using take_inv [OF s w] by auto
qed

lemma signal_inv:
  assumes s: "cv_inv s ws"
  shows "\<exists>ws'. cv_inv (s\<lparr>cond := signal_section (cond s), signalled := signalled s + of_bool (first_waiter (cond s) \<noteq> None)\<rparr>) ws'"
proof (cases ws)
  case Nil
  then show ?thesis using s signal_empty [of "cond s"] by (auto simp: cv_inv_def queue_of_def)
next
  case (Cons w vs)
  then have q: "queue_of (cond s) (w # vs)" using s by (simp add: cv_inv_def)
  have "cv_inv (s\<lparr>cond := signal_section (cond s), signalled := signalled s + length [w]\<rparr>) vs"
    using s Cons by (intro signals_inv) (simp_all add: signal_queue [OF q])
  then show ?thesis using signal_queue(1) [OF q] by auto
qed

lemma broadcast_inv:
  assumes s: "cv_inv s ws" and b: "broadcast_section (cond s) = Some c"
  shows "cv_inv (s\<lparr>cond := c, signalled := signalled s + card {w. linked (waiters (cond s) w)}\<rparr>) []"
proof -
  have q: "queue_of (cond s) ws" using s by (simp add: cv_inv_def)
  obtain c' where c': "broadcast_section (cond s) = Some c'" "queue_of c' []"
    "\<And>v. permits (waiters c' v) = permits (waiters (cond s) v) + of_bool (v \<in> set ws)"
    by (rule broadcast_queue [OF q]) (rule that)
  have "{w. linked (waiters (cond s) w)} = set ws" "distinct ws" using q by (auto simp: queue_of_def)
  then have "card {w. linked (waiters (cond s) w)} = length ws" by (simp add: distinct_card)
  then show ?thesis using signals_inv [of s ws "[]" c'] s b c' by simp
qed

lemma cv_step_inv: "cv_inv s ws \<Longrightarrow> cv_step s s' \<Longrightarrow> \<exists>ws'. cv_inv s' ws'"
proof -
  assume s: "cv_inv s ws"
  assume "cv_step s s'"
  then show ?thesis
  proof cases
    case (wait w) then show ?thesis using enter_inv [OF s, of w Waiting] by auto
  next
    case (refuse w e) then show ?thesis using enter_inv [OF s, of w "Refused e"] by auto
  next
    case (refused w e) then show ?thesis using refused_inv [OF s, of w] by simp
  next
    case (acquire w c) then show ?thesis using take_inv [OF s, of w c] by auto
  next
    case (fail w e) then show ?thesis using restage_inv [OF s, of "Failing e" w] by auto
  next
    case (settle w e r c) then show ?thesis using settle_inv [OF s, of w e r c] by simp
  next
    case (leave w r)
    then have "tx_semaphore_delete w (cond s) = cond s" using s by (intro idle_delete) (auto simp: cv_inv_def)
    then show ?thesis using leave restage_inv [OF s, of Away w] by auto
  next
    case signal then show ?thesis using signal_inv [OF s] by simp
  next
    case (broadcast c) then show ?thesis using broadcast_inv [OF s, of c] by auto
  next
    case destroy then show ?thesis using s by (auto simp: cv_inv_def)
  qed
qed

lemma reachable_cv_inv: "cv_reachable s \<Longrightarrow> \<exists>ws. cv_inv s ws"
  unfolding cv_reachable_def
proof (induction rule: rtranclp_induct)
  case base
  have "cv_inv no_waiters []" by (simp add: cv_inv_def no_waiters_def queue_of_def new_waiter_def)
  then show ?case by blast
next
  case (step s s')
  then show ?case using cv_step_inv by blast
qed

end
