(* ===== verification/Condition_Properties.thy ===== *)
theory Condition_Properties
  imports Condition_Variable
begin

text \<open>
  C0. What a condition variable promises: every waiter on its list is a living \<open>Waiter\<close>, every signal is
  accounted for, a signalled waiter returns success even if its deadline passed first, a
  broadcast wakes everyone exactly once. And what it does not: a waiter whose deadline passed still locks the
  condition's mutex after the condition may have been destroyed.
\<close>

text \<open>
  C16. In every reachable state the list is in order and holds only waiters that are still inside
  \<open>condition_wait_common\<close>; a waiter inside holds a permit exactly when it is no longer
  linked; and every signal given is held by a waiter, has woken one, or went to a refused wait.\<close>

theorem waiters_accounted:
  assumes "cv_reachable s"
  shows "\<exists>ws. queue_of (cond s) ws \<and> (\<forall>w\<in>set ws. attending (stage s w)) \<and>
    (\<forall>w. attending (stage s w) \<longrightarrow> permits (waiters (cond s) w) = of_bool (w \<notin> set ws)) \<and>
    signalled s = woken s + dropped s + card {w. attending (stage s w) \<and> w \<notin> set ws}"
proof -
  obtain ws where "cv_inv s ws" using reachable_cv_inv [OF assms] by blast
  then show ?thesis by (intro exI [of _ ws]) (auto simp: cv_inv_def)
qed

text \<open>
  C15. A waiter that has been signalled never waits on: its semaphore can be taken at once, and if its
  deadline passed first, the section after the failed wait still reports success. A waiter that has
  not been signalled is taken off the list by that section and reports its error.\<close>

theorem signalled_waiter_succeeds:
  assumes "cv_reachable s" and "stage s w = Waiting \<or> stage s w = Failing e"
  shows "if linked (waiters (cond s) w)
    then tx_semaphore_get w (cond s) = None \<and> fst (settle_section w e (cond s)) = Some e \<and>
      \<not> linked (waiters (snd (settle_section w e (cond s))) w)
    else tx_semaphore_get w (cond s) \<noteq> None \<and> fst (settle_section w e (cond s)) = None"
proof -
  obtain ws where s: "cv_inv s ws" using reachable_cv_inv [OF assms(1)] by blast
  have w: "permits (waiters (cond s) w) = of_bool (w \<notin> set ws)" "linked (waiters (cond s) w) \<longleftrightarrow> w \<in> set ws"
    using s assms(2) by (auto simp: cv_inv_def queue_of_def)
  show ?thesis
  proof (cases "w \<in> set ws")
    case False
    then show ?thesis using w by (simp add: settle_section_def tx_semaphore_get_def)
  next
    case True
    then obtain xs ys where ws: "ws = xs @ w # ys" by (meson split_list)
    then have "queue_of (remove_waiter w (cond s)) (xs @ ys)" "w \<notin> set (xs @ ys)"
      using s remove_waiter_queue [of "cond s" xs w ys] by (auto simp: cv_inv_def queue_of_def)
    then have "\<not> linked (waiters (remove_waiter w (cond s)) w)" by (auto simp: queue_of_def)
    then show ?thesis using True w by (simp add: settle_section_def tx_semaphore_get_def)
  qed
qed

text \<open>
  The loop of \<open>condition_broadcast\<close> comes back, with no waiter left on the list and each
  waiter that was on it given exactly one permit, for every list of waiters; a signal takes the one that
  has waited longest.\<close>

theorem broadcast_wakes_all:
  assumes "queue_of c ws"
  shows "(\<exists>c'. broadcast_section c = Some c' \<and> queue_of c' [] \<and>
      (\<forall>w. permits (waiters c' w) = permits (waiters c w) + of_bool (w \<in> set ws))) \<and>
    queue_of (signal_section c) (tl ws) \<and>
    (\<forall>w. permits (waiters (signal_section c) w) = permits (waiters c w) + of_bool (ws \<noteq> [] \<and> w = hd ws))"
proof
  obtain c' where c': "broadcast_section c = Some c'" "queue_of c' []"
    "\<And>v. permits (waiters c' v) = permits (waiters c v) + of_bool (v \<in> set ws)"
    by (rule broadcast_queue [OF assms]) (rule that)
  then show "\<exists>c'. broadcast_section c = Some c' \<and> queue_of c' [] \<and>
      (\<forall>w. permits (waiters c' w) = permits (waiters c w) + of_bool (w \<in> set ws))" by blast
  show "queue_of (signal_section c) (tl ws) \<and>
      (\<forall>w. permits (waiters (signal_section c) w) = permits (waiters c w) + of_bool (ws \<noteq> [] \<and> w = hd ws))"
    using assms signal_empty [of c] signal_queue(2,3) [of c] by (cases ws) auto
qed

section \<open>Examples\<close>

definition two_waiting :: cv where
  "two_waiting = at 2 Waiting (at 1 Waiting (no_waiters\<lparr>cond := enter_section 2 (enter_section 1 (cond no_waiters))\<rparr>))"

lemmas cv_run_defs = at_def no_waiters_def enter_section_def append_waiter_def set_waiter_def new_waiter_def

lemma two_waiting: "cv_reachable two_waiting" "queue_of (cond two_waiting) [1, 2]"
proof -
  have "cv_step no_waiters (at 1 Waiting (no_waiters\<lparr>cond := enter_section 1 (cond no_waiters)\<rparr>))" (is "cv_step _ ?s")
    by (rule cv_step.wait) (simp_all add: no_waiters_def)
  moreover have "cv_step ?s two_waiting"
    using cv_step.wait [of ?s 2] by (simp add: two_waiting_def at_def no_waiters_def)
  ultimately show "cv_reachable two_waiting" unfolding cv_reachable_def by (meson r_into_rtranclp rtranclp_trans)
  show "queue_of (cond two_waiting) [1, 2]"
    by (auto simp: two_waiting_def cv_run_defs queue_of_def)
qed

lemma waiters_accounted_witness: "\<exists>ws. queue_of (cond two_waiting) ws \<and> (\<forall>w\<in>set ws. attending (stage two_waiting w))"
  using waiters_accounted [OF two_waiting(1)] by blast

lemma signalled_waiter_succeeds_witness: "tx_semaphore_get 1 (cond two_waiting) = None"
proof -
  have "stage two_waiting 1 = Waiting" "linked (waiters (cond two_waiting) 1)"
    by (simp_all add: two_waiting_def cv_run_defs)
  then show ?thesis using signalled_waiter_succeeds [OF two_waiting(1), of 1 ETIMEDOUT] by simp
qed

lemma broadcast_wakes_all_witness: "\<exists>c. broadcast_section (cond two_waiting) = Some c \<and> queue_of c []"
  using broadcast_wakes_all [OF two_waiting(2)] by blast

section \<open>Destruction while a timed wait ends\<close>

text \<open>A waiter's deadline passes, it is signalled, the condition is destroyed as nobody is linked: the
  waiter's next step is to lock the mutex of the destroyed condition.\<close>

lemma destroyed_under_timed_waiter: "\<exists>s. cv_reachable s \<and> destroyed s \<and> stage s 1 = Failing ETIMEDOUT"
proof -
  define s1 where "s1 = at 1 Waiting (no_waiters\<lparr>cond := enter_section 1 (cond no_waiters)\<rparr>)"
  define s2 where "s2 = at 1 (Failing ETIMEDOUT) s1"
  define s3 where "s3 = s2\<lparr>cond := signal_section (cond s2), signalled := signalled s2 + of_bool (first_waiter (cond s2) \<noteq> None)\<rparr>"
  have "cv_step no_waiters s1" unfolding s1_def by (rule cv_step.wait) (simp_all add: no_waiters_def)
  moreover have "cv_step s1 s2" unfolding s2_def by (rule cv_step.fail) (simp add: s1_def at_def)
  moreover have "cv_step s2 s3" unfolding s3_def by (rule cv_step.signal) (simp add: s2_def s1_def at_def no_waiters_def)
  moreover have "cv_step s3 (s3\<lparr>destroyed := True\<rparr>)"
    by (rule cv_step.destroy)
      (simp add: s3_def s2_def s1_def cv_run_defs signal_section_def remove_waiter_def tx_semaphore_put_def)
  ultimately have "cv_reachable (s3\<lparr>destroyed := True\<rparr>)"
    unfolding cv_reachable_def by (meson converse_rtranclp_into_rtranclp rtranclp.rtrancl_refl)
  moreover have "stage (s3\<lparr>destroyed := True\<rparr>) 1 = Failing ETIMEDOUT" by (simp add: s3_def s2_def at_def)
  ultimately show ?thesis by (intro exI [of _ "s3\<lparr>destroyed := True\<rparr>"]) simp
qed

end
