(* ===== verification/Sync_Handles.thy ===== *)
theory Sync_Handles
  imports Runtime_Clock
begin

text \<open>
  Mutexes and semaphores of the C++ runtime (\<open>platform/runtime/libstdcxx/backend.cpp\<close>). A handle
  is an address; its \<open>implementation\<close> pointer is filled in by the first use, under
  \<open>initialization_mutex\<close>. ThreadX is a parameter: the services get the calling thread, the
  object and the wait option. \<open>others\<close> is what the other threads do while a thread waits for
  \<open>initialization_mutex\<close>.
\<close>

section \<open>State\<close>

definition TX_NO_WAIT :: u32 where
  "TX_NO_WAIT = 0"

definition TX_WAIT_FOREVER :: u32 where
  "TX_WAIT_FOREVER = 0xFFFFFFFF"

record 'w threadx =
  mutex_create :: "nat \<Rightarrow> 'w \<Rightarrow> tx_status \<times> 'w"
  mutex_delete :: "nat \<Rightarrow> 'w \<Rightarrow> tx_status \<times> 'w"
  mutex_get :: "nat \<Rightarrow> nat \<Rightarrow> u32 \<Rightarrow> 'w \<Rightarrow> tx_status \<times> 'w"
  mutex_put :: "nat \<Rightarrow> nat \<Rightarrow> 'w \<Rightarrow> tx_status \<times> 'w"
  mutex_owner :: "nat \<Rightarrow> 'w \<Rightarrow> nat option"
  mutex_ownership_count :: "nat \<Rightarrow> 'w \<Rightarrow> nat"
  semaphore_create :: "nat \<Rightarrow> u32 \<Rightarrow> 'w \<Rightarrow> tx_status \<times> 'w"
  semaphore_delete :: "nat \<Rightarrow> 'w \<Rightarrow> tx_status \<times> 'w"
  semaphore_get :: "nat \<Rightarrow> u32 \<Rightarrow> 'w \<Rightarrow> tx_status \<times> 'w"
  semaphore_put :: "nat \<Rightarrow> 'w \<Rightarrow> tx_status \<times> 'w"
  new_object :: "'w \<Rightarrow> nat option \<times> 'w"
  delete_object :: "nat \<Rightarrow> 'w \<Rightarrow> 'w"

record 'w sync =
  implementations :: "nat \<Rightarrow> nat option"
  initial_counts :: "nat \<Rightarrow> u32"
  times :: "'w clock"

definition on_world :: "('w \<Rightarrow> 'a \<times> 'w) \<Rightarrow> 'w sync \<Rightarrow> 'a \<times> 'w sync" where
  "on_world f s = (let (r, w) = f (machine (times s)) in (r, s\<lparr>times := (times s)\<lparr>machine := w\<rparr>\<rparr>))"

definition store_implementation :: "nat \<Rightarrow> nat option \<Rightarrow> 'w sync \<Rightarrow> 'w sync" where
  "store_implementation h i s = s\<lparr>implementations := (implementations s)(h := i)\<rparr>"

definition release_object :: "'w threadx \<Rightarrow> nat \<Rightarrow> 'w sync \<Rightarrow> 'w sync" where
  "release_object tx i s = snd (on_world (\<lambda>w. ((), delete_object tx i w)) s)"

section \<open>The object behind a handle\<close>

text \<open>
  The common body of \<open>ensure_mutex\<close>, \<open>ensure_condition\<close> and \<open>ensure_semaphore\<close>: an unlocked
  look first, then a second one under the mutex, then the creation.
\<close>

definition ensure ::
    "('w sync \<Rightarrow> 'w sync) \<Rightarrow> 'w threadx \<Rightarrow> call_context \<Rightarrow> ('w sync \<Rightarrow> nat \<Rightarrow> 'w \<Rightarrow> tx_status \<times> 'w) \<Rightarrow>
     nat option \<Rightarrow> 'w sync \<Rightarrow> nat option \<times> 'w sync" where
  "ensure others tx x create handle s =
     (case handle of
        None \<Rightarrow> (None, s)
      | Some h \<Rightarrow>
          if require_thread_context x \<noteq> None then (None, s)
          else
            (case implementations s h of
               Some i \<Rightarrow> (Some i, s)
             | None \<Rightarrow>
                 let s1 = others s
                 in case implementations s1 h of
                      Some i \<Rightarrow> (Some i, s1)
                    | None \<Rightarrow>
                        let (candidate, s2) = on_world (new_object tx) s1
                        in case candidate of
                             None \<Rightarrow> (None, s2)
                           | Some i \<Rightarrow>
                               let (status, s3) = on_world (create s2 i) s2
                               in if status = TX_SUCCESS then (Some i, store_implementation h (Some i) s3)
                                  else (None, release_object tx i s3)))"

definition ensure_mutex ::
    "('w sync \<Rightarrow> 'w sync) \<Rightarrow> 'w threadx \<Rightarrow> call_context \<Rightarrow> nat option \<Rightarrow> 'w sync \<Rightarrow> nat option \<times> 'w sync" where
  "ensure_mutex others tx x = ensure others tx x (\<lambda>_. mutex_create tx)"

definition ensure_condition ::
    "('w sync \<Rightarrow> 'w sync) \<Rightarrow> 'w threadx \<Rightarrow> call_context \<Rightarrow> nat option \<Rightarrow> 'w sync \<Rightarrow> nat option \<times> 'w sync" where
  "ensure_condition others tx x = ensure others tx x (\<lambda>_. mutex_create tx)"

definition ensure_semaphore ::
    "('w sync \<Rightarrow> 'w sync) \<Rightarrow> 'w threadx \<Rightarrow> call_context \<Rightarrow> nat option \<Rightarrow> 'w sync \<Rightarrow> nat option \<times> 'w sync" where
  "ensure_semaphore others tx x handle =
     ensure others tx x (\<lambda>s i. semaphore_create tx i (initial_counts s (the handle))) handle"

section \<open>Mutexes\<close>

definition mutex_init :: "nat option \<Rightarrow> 'w sync \<Rightarrow> 'w sync" where
  "mutex_init handle s = (case handle of None \<Rightarrow> s | Some h \<Rightarrow> store_implementation h None s)"

definition destroy_mutex :: "'w threadx \<Rightarrow> nat option \<Rightarrow> 'w sync \<Rightarrow> error \<times> 'w sync" where
  "destroy_mutex tx handle s =
     (case handle of
        None \<Rightarrow> (Some EINVAL, s)
      | Some h \<Rightarrow>
          (case implementations s h of
             None \<Rightarrow> (None, s)
           | Some i \<Rightarrow>
               let (status, s1) = on_world (mutex_delete tx i) s
               in if status \<noteq> TX_SUCCESS then (Some (if status = TX_DELETE_ERROR then EBUSY else EINVAL), s1)
                  else (None, release_object tx i (store_implementation h None s1))))"

definition caller :: "call_context \<Rightarrow> nat" where
  "caller x = the (tx_thread_identify x)"

definition owns :: "'w threadx \<Rightarrow> call_context \<Rightarrow> nat \<Rightarrow> 'w sync \<Rightarrow> bool" where
  "owns tx x i s \<longleftrightarrow> mutex_owner tx i (machine (times s)) = tx_thread_identify x"

definition lock_mutex ::
    "('w sync \<Rightarrow> 'w sync) \<Rightarrow> 'w threadx \<Rightarrow> call_context \<Rightarrow> nat option \<Rightarrow> bool \<Rightarrow> u32 \<Rightarrow> 'w sync \<Rightarrow> error \<times> 'w sync" where
  "lock_mutex others tx x handle recursive wait_option s =
     (if require_thread_context x \<noteq> None then (require_thread_context x, s)
      else
        let (implementation, s1) = ensure_mutex others tx x handle s
        in case implementation of
             None \<Rightarrow> (Some ENOMEM, s1)
           | Some i \<Rightarrow>
               if \<not> recursive \<and> owns tx x i s1
               then (Some (if wait_option = TX_NO_WAIT then EBUSY else EDEADLK), s1)
               else
                 let (status, s2) = on_world (mutex_get tx (caller x) i wait_option) s1
                 in (if status = TX_SUCCESS then None
                     else if status = TX_NOT_AVAILABLE then Some EBUSY
                     else if status = TX_NO_INSTANCE then Some ETIMEDOUT
                     else Some EINVAL, s2))"

definition mutex_lock where
  "mutex_lock others tx x mutex = lock_mutex others tx x mutex False TX_WAIT_FOREVER"

definition recursive_mutex_lock where
  "recursive_mutex_lock others tx x mutex = lock_mutex others tx x mutex True TX_WAIT_FOREVER"

definition mutex_try_lock where
  "mutex_try_lock others tx x mutex = lock_mutex others tx x mutex False TX_NO_WAIT"

definition recursive_mutex_try_lock where
  "recursive_mutex_try_lock others tx x mutex = lock_mutex others tx x mutex True TX_NO_WAIT"

text \<open>A wait with a deadline: \<open>wait_until\<close> of the clock, on the state of this component.\<close>

definition timed_wait ::
    "'w clock_services \<Rightarrow> time_point option \<Rightarrow> (u32 \<Rightarrow> 'w \<Rightarrow> tx_status \<times> 'w) \<Rightarrow> 'w sync \<Rightarrow> (error \<times> 'w sync) option" where
  "timed_wait cs deadline wait_function s =
     map_option (\<lambda>(r, c). (r, s\<lparr>times := c\<rparr>)) (wait_until cs deadline wait_function (times s))"

definition mutex_timed_lock ::
    "('w sync \<Rightarrow> 'w sync) \<Rightarrow> 'w threadx \<Rightarrow> 'w clock_services \<Rightarrow> call_context \<Rightarrow> nat option \<Rightarrow> time_point option \<Rightarrow>
     'w sync \<Rightarrow> (error \<times> 'w sync) option" where
  "mutex_timed_lock others tx cs x mutex deadline s =
     (if require_thread_context x \<noteq> None then Some (require_thread_context x, s)
      else
        let (implementation, s1) = ensure_mutex others tx x mutex s
        in case implementation of
             None \<Rightarrow> Some (Some ENOMEM, s1)
           | Some i \<Rightarrow>
               if owns tx x i s1 then Some (Some EDEADLK, s1)
               else timed_wait cs deadline (mutex_get tx (caller x) i) s1)"

definition recursive_mutex_timed_lock ::
    "('w sync \<Rightarrow> 'w sync) \<Rightarrow> 'w threadx \<Rightarrow> 'w clock_services \<Rightarrow> call_context \<Rightarrow> nat option \<Rightarrow> time_point option \<Rightarrow>
     'w sync \<Rightarrow> (error \<times> 'w sync) option" where
  "recursive_mutex_timed_lock others tx cs x mutex deadline s =
     (if require_thread_context x \<noteq> None then Some (require_thread_context x, s)
      else
        let (implementation, s1) = ensure_mutex others tx x mutex s
        in case implementation of
             None \<Rightarrow> Some (Some ENOMEM, s1)
           | Some i \<Rightarrow> timed_wait cs deadline (mutex_get tx (caller x) i) s1)"

definition unlock_mutex :: "'w threadx \<Rightarrow> call_context \<Rightarrow> nat option \<Rightarrow> 'w sync \<Rightarrow> error \<times> 'w sync" where
  "unlock_mutex tx x handle s =
     (if require_thread_context x \<noteq> None then (require_thread_context x, s)
      else
        (case handle of
           None \<Rightarrow> (Some EPERM, s)
         | Some h \<Rightarrow>
             (case implementations s h of
                None \<Rightarrow> (Some EPERM, s)
              | Some i \<Rightarrow>
                  let (status, s1) = on_world (mutex_put tx (caller x) i) s
                  in (if status = TX_SUCCESS then None else Some EPERM, s1))))"

text \<open>The test of \<open>condition_wait_recursive\<close>: the caller holds the mutex exactly once.\<close>

definition recursive_wait_check :: "'w threadx \<Rightarrow> call_context \<Rightarrow> nat option \<Rightarrow> 'w sync \<Rightarrow> error" where
  "recursive_wait_check tx x mutex s =
     (case mutex of
        None \<Rightarrow> Some EINVAL
      | Some h \<Rightarrow>
          (case implementations s h of
             None \<Rightarrow> Some EINVAL
           | Some i \<Rightarrow>
               if \<not> owns tx x i s \<or> mutex_ownership_count tx i (machine (times s)) \<noteq> 1 then Some EINVAL else None))"

section \<open>The handle of a condition\<close>

definition condition_init :: "nat option \<Rightarrow> 'w sync \<Rightarrow> 'w sync" where
  "condition_init handle s = (case handle of None \<Rightarrow> s | Some h \<Rightarrow> store_implementation h None s)"

text \<open>
  \<open>first_waiter\<close> reads the list of the implementation, under its mutex. \<open>None\<close> is \<open>fatal_error\<close>: the mutex could not
  be taken or given back.
\<close>

definition condition_destroy ::
    "'w threadx \<Rightarrow> (nat \<Rightarrow> 'w \<Rightarrow> nat option) \<Rightarrow> call_context \<Rightarrow> nat option \<Rightarrow> 'w sync \<Rightarrow> (error \<times> 'w sync) option" where
  "condition_destroy tx first_waiter x handle s =
     (case handle of
        None \<Rightarrow> Some (Some EINVAL, s)
      | Some h \<Rightarrow>
          (case implementations s h of
             None \<Rightarrow> Some (None, s)
           | Some i \<Rightarrow>
               let (got, s1) = on_world (mutex_get tx (caller x) i TX_WAIT_FOREVER) s
               in if got \<noteq> TX_SUCCESS then None
                  else
                    let busy = (first_waiter i (machine (times s1)) \<noteq> None);
                        (put, s2) = on_world (mutex_put tx (caller x) i) s1
                    in if put \<noteq> TX_SUCCESS then None
                       else if busy then Some (Some EBUSY, s2)
                       else
                         let (status, s3) = on_world (mutex_delete tx i) s2
                         in if status \<noteq> TX_SUCCESS then Some (Some EBUSY, s3)
                            else Some (None, release_object tx i (store_implementation h None s3))))"

section \<open>Semaphores\<close>

definition semaphore_init :: "nat option \<Rightarrow> u32 \<Rightarrow> 'w sync \<Rightarrow> error \<times> 'w sync" where
  "semaphore_init handle value s =
     (case handle of
        None \<Rightarrow> (Some EINVAL, s)
      | Some h \<Rightarrow>
          let s1 = store_implementation h None s
          in (None, s1\<lparr>initial_counts := (initial_counts s1)(h := value)\<rparr>))"

definition semaphore_destroy :: "'w threadx \<Rightarrow> nat option \<Rightarrow> 'w sync \<Rightarrow> error \<times> 'w sync" where
  "semaphore_destroy tx handle s =
     (case handle of
        None \<Rightarrow> (Some EINVAL, s)
      | Some h \<Rightarrow>
          (case implementations s h of
             None \<Rightarrow> (None, s)
           | Some i \<Rightarrow>
               let (status, s1) = on_world (semaphore_delete tx i) s
               in if status \<noteq> TX_SUCCESS then (Some EBUSY, s1)
                  else (None, release_object tx i (store_implementation h None s1))))"

text \<open>The checks every semaphore call starts with, then the call on the implementation.\<close>

definition with_semaphore ::
    "('w sync \<Rightarrow> 'w sync) \<Rightarrow> 'w threadx \<Rightarrow> call_context \<Rightarrow> nat option \<Rightarrow> (nat \<Rightarrow> 'w sync \<Rightarrow> error \<times> 'w sync) \<Rightarrow>
     'w sync \<Rightarrow> error \<times> 'w sync" where
  "with_semaphore others tx x handle f s =
     (if require_thread_context x \<noteq> None then (require_thread_context x, s)
      else
        let (implementation, s1) = ensure_semaphore others tx x handle s
        in case implementation of None \<Rightarrow> (Some ENOMEM, s1) | Some i \<Rightarrow> f i s1)"

definition semaphore_wait where
  "semaphore_wait others tx x handle =
     with_semaphore others tx x handle
       (\<lambda>i s. let (status, s1) = on_world (semaphore_get tx i TX_WAIT_FOREVER) s
              in (if status = TX_SUCCESS then None else Some EINVAL, s1))"

definition semaphore_try_wait where
  "semaphore_try_wait others tx x handle =
     with_semaphore others tx x handle
       (\<lambda>i s. let (status, s1) = on_world (semaphore_get tx i TX_NO_WAIT) s
              in (if status = TX_SUCCESS then None else Some EAGAIN, s1))"

definition semaphore_post where
  "semaphore_post others tx x handle =
     with_semaphore others tx x handle
       (\<lambda>i s. let (status, s1) = on_world (semaphore_put tx i) s
              in (if status = TX_SUCCESS then None else Some EOVERFLOW, s1))"

definition semaphore_timed_wait ::
    "('w sync \<Rightarrow> 'w sync) \<Rightarrow> 'w threadx \<Rightarrow> 'w clock_services \<Rightarrow> call_context \<Rightarrow> nat option \<Rightarrow> time_point option \<Rightarrow>
     'w sync \<Rightarrow> (error \<times> 'w sync) option" where
  "semaphore_timed_wait others tx cs x handle deadline s =
     (if require_thread_context x \<noteq> None then Some (require_thread_context x, s)
      else
        let (implementation, s1) = ensure_semaphore others tx x handle s
        in case implementation of
             None \<Rightarrow> Some (Some ENOMEM, s1)
           | Some i \<Rightarrow> timed_wait cs deadline (semaphore_get tx i) s1)"

end
