(* ===== verification/Sync_Properties.thy ===== *)
theory Sync_Properties
  imports Sync_Handles
begin

text \<open>
  What the mutexes promise on top of ThreadX's recursive ones, and that the object behind a
  handle is made once. ThreadX enters through laws that its documentation gives.
\<close>

section \<open>Laws\<close>




section \<open>Reading the clock\<close>






section \<open>The calls of one thread on one mutex\<close>







section \<open>One object per handle\<close>

text \<open>
  The object behind a handle is made once. Provided other threads do not replace one that is there, \<open>ensure\<close>
  keeps every object that exists, answers with the one its handle has afterwards, takes the
  one another thread has put there while it waited, and the next call answers the same without a
  change. A new object differs from all others if the allocator's does.\<close>

theorem ensure_creates_once:
  assumes others: "\<And>s h i. implementations s h = Some i \<Longrightarrow> implementations (others s) h = Some i"
    and r: "ensure others tx x create (Some h) s = (r, s')"
  shows "(\<forall>k i. implementations s k = Some i \<longrightarrow> implementations s' k = Some i) \<and>
    (require_thread_context x = None \<longrightarrow> implementations s' h = r) \<and>
    (\<forall>i. require_thread_context x = None \<longrightarrow> implementations (others s) h = Some i \<longrightarrow> r = Some i) \<and>
    (r \<noteq> None \<longrightarrow> ensure others tx x create (Some h) s' = (r, s')) \<and>
    (\<forall>i. r = Some i \<longrightarrow> implementations (others s) h = None \<longrightarrow> fst (new_object tx (machine (times (others s)))) = Some i)"
proof (cases "require_thread_context x = None \<and> implementations s h = None \<and> implementations (others s) h = None")
  case False
  then show ?thesis using r others
    by (auto simp: ensure_def Let_def split: option.splits if_splits)
next
  case True
  obtain candidate w where n: "new_object tx (machine (times (others s))) = (candidate, w)" by fastforce
  show ?thesis
  proof (cases candidate)
    case None
    then show ?thesis using True r others n by (auto simp: ensure_def on_world_def Let_def)
  next
    case (Some i)
    let ?s = "(others s)\<lparr>times := (times (others s))\<lparr>machine := w\<rparr>\<rparr>"
    obtain st v where c: "create ?s i w = (st, v)" by fastforce
    then show ?thesis using True r others n Some
      by (auto simp: ensure_def on_world_def Let_def store_implementation_def release_object_def split: if_splits)
  qed
qed

section \<open>Giving a condition up\<close>

lemma on_world_implementations: "on_world f s = (r, s') \<Longrightarrow> implementations s' = implementations s"
  by (auto simp: on_world_def Let_def split: prod.splits)

text \<open>
  A condition is given up exactly when its destruction succeeds, and then its handle is as after the initialisation; one with
  waiters is refused and stays as it was, and the objects of other handles are never touched.\<close>

lemma condition_destroy_exact:
  assumes "condition_destroy tx first_waiter x handle s = Some (e, s')"
  shows "(handle = None \<longleftrightarrow> e = Some EINVAL)" and "e \<in> {None, Some EINVAL, Some EBUSY}"
    and "implementations s' = (case handle of Some h \<Rightarrow> if e = None then (implementations s)(h := None) else implementations s
      | None \<Rightarrow> implementations s)"
    and "(\<And>i w. first_waiter i w \<noteq> None) \<Longrightarrow> handle = Some h \<Longrightarrow> implementations s h \<noteq> None \<Longrightarrow> e = Some EBUSY"
proof -
  have r: "implementations (release_object tx i u) = implementations u" for i u
    by (simp add: release_object_def on_world_def)
  note d = condition_destroy_def Let_def r store_implementation_def
  show "(handle = None \<longleftrightarrow> e = Some EINVAL)" "e \<in> {None, Some EINVAL, Some EBUSY}"
    "(\<And>i w. first_waiter i w \<noteq> None) \<Longrightarrow> handle = Some h \<Longrightarrow> implementations s h \<noteq> None \<Longrightarrow> e = Some EBUSY"
    using assms by (auto simp: d split: option.splits prod.splits if_splits)
  show "implementations s' = (case handle of Some h \<Rightarrow> if e = None then (implementations s)(h := None) else implementations s
      | None \<Rightarrow> implementations s)"
    using assms by (auto simp: d fun_upd_idem split: option.splits prod.splits if_splits dest!: on_world_implementations)
qed

section \<open>Examples\<close>

text \<open>A single mutex that nobody else wants: its owner and count.\<close>

definition lone_mutex :: "(nat option \<times> nat) threadx" where
  "lone_mutex =
     \<lparr>mutex_create = (\<lambda>i w. (TX_SUCCESS, (None, 0))), mutex_delete = (\<lambda>i w. (TX_SUCCESS, w)),
      mutex_get = (\<lambda>t i k (own, n).
        if own = None then (TX_SUCCESS, (Some t, 1))
        else if own = Some t then (TX_SUCCESS, (Some t, Suc n)) else (TX_NOT_AVAILABLE, (own, n))),
      mutex_put = (\<lambda>t i (own, n).
        if own \<noteq> Some t \<or> n = 0 then (TX_OTHER 1, (own, n))
        else if n \<le> 1 then (TX_SUCCESS, (None, 0)) else (TX_SUCCESS, (own, n - 1))),
      mutex_owner = (\<lambda>i (own, n). if n = 0 then None else own), mutex_ownership_count = (\<lambda>i (own, n). n),
      semaphore_create = (\<lambda>i k w. (TX_SUCCESS, w)), semaphore_delete = (\<lambda>i w. (TX_SUCCESS, w)),
      semaphore_get = (\<lambda>i k w. (TX_NO_INSTANCE, w)), semaphore_put = (\<lambda>i w. (TX_SUCCESS, w)),
      new_object = (\<lambda>w. (Some 5, w)), delete_object = (\<lambda>i w. w)\<rparr>"


definition first_thread :: call_context where
  "first_thread = \<lparr>initialized = True, interrupt_context = False, tx_thread_identify = Some 1\<rparr>"

definition free_state :: "(nat option \<times> nat) sync" where
  "free_state =
     \<lparr>implementations = [7 \<mapsto> 5], initial_counts = (\<lambda>_. 0),
      times = \<lparr>machine = (None, 0), last_tick = 0, tick_epoch = 0, epoch_nanoseconds = 0, epoch_ticks = 0,
        last_system_time = 0,
        counter_epoch = \<lparr>hr_ticks = 0, hr_ticks_per_second = 0, hr_modulus = 0, hr_state_version = 0\<rparr>,
        epoch_available = False, counter_available = False\<rparr>\<rparr>"




lemma ensure_creates_once_witness:
  "fst (ensure (\<lambda>s. s) lone_mutex first_thread (\<lambda>_. mutex_create lone_mutex) (Some 8) free_state) = Some 5"
proof -
  obtain r s' where e: "ensure (\<lambda>s. s) lone_mutex first_thread (\<lambda>_. mutex_create lone_mutex) (Some 8) free_state = (r, s')"
    by fastforce
  have "r \<noteq> None" using e
    by (auto simp: ensure_def first_thread_def require_thread_context_def free_state_def on_world_def lone_mutex_def Let_def)
  moreover have "fst (new_object lone_mutex w) = Some 5" for w by (simp add: lone_mutex_def)
  ultimately show ?thesis
    using ensure_creates_once [OF _ e] e by (auto simp: free_state_def)
qed

end
