(* ===== verification/Call_Once.thy ===== *)
theory Call_Once
  imports Runtime_Context
begin

text \<open>
  \<open>std::call_once\<close> (\<open>once\<close> in \<open>platform/runtime/libstdcxx/backend.cpp\<close>): one word of state, 0 for not
  run, 1 for running, 2 for done, read and written under \<open>initialization_mutex\<close>. Any number of
  threads call it; the function may return or throw.
\<close>

section \<open>The sections\<close>

definition once_check :: "call_context \<Rightarrow> bool \<Rightarrow> bool \<Rightarrow> error" where
  "once_check x null_control null_function =
     (if require_thread_context x \<noteq> None then require_thread_context x
      else if null_control \<or> null_function then Some EINVAL else None)"

datatype once_action = Return_Done | Run_Function | Sleep_Tick

text \<open>One turn of the loop under the mutex: what to do, and the new state.\<close>

definition once_section :: "u32 \<Rightarrow> once_action \<times> u32" where
  "once_section state =
     (if state = 2 then (Return_Done, state)
      else if state = 0 then (Run_Function, 1)
      else (Sleep_Tick, state))"

definition once_returned :: "u32 \<Rightarrow> u32" where
  "once_returned state = 2"

definition once_threw :: "u32 \<Rightarrow> u32" where
  "once_threw state = 0"

section \<open>Interleaving\<close>

datatype once_stage = Not_Called | Looking | Sleeping | Executing | Returned | Threw

record once =
  once_state :: u32
  once_at :: "nat \<Rightarrow> once_stage"
  completed :: nat

definition move :: "nat \<Rightarrow> once_stage \<Rightarrow> once \<Rightarrow> once" where
  "move t p s = s\<lparr>once_at := (once_at s)(t := p)\<rparr>"

text \<open>\<open>completed\<close> counts the runs of the function that returned; the theorems alone read it.\<close>

inductive once_step :: "once \<Rightarrow> once \<Rightarrow> bool" where
  call: "once_at s t \<in> {Not_Called, Returned, Threw} \<Longrightarrow> once_check x False False = None \<Longrightarrow> once_step s (move t Looking s)"
| again: "once_at s t = Looking \<Longrightarrow> once_section (once_state s) = (Return_Done, w) \<Longrightarrow>
    once_step s (move t Returned (s\<lparr>once_state := w\<rparr>))"
| run: "once_at s t = Looking \<Longrightarrow> once_section (once_state s) = (Run_Function, w) \<Longrightarrow>
    once_step s (move t Executing (s\<lparr>once_state := w\<rparr>))"
| sleep: "once_at s t = Looking \<Longrightarrow> once_section (once_state s) = (Sleep_Tick, w) \<Longrightarrow>
    once_step s (move t Sleeping (s\<lparr>once_state := w\<rparr>))"
| wake: "once_at s t = Sleeping \<Longrightarrow> once_step s (move t Looking s)"
| returns: "once_at s t = Executing \<Longrightarrow>
    once_step s (move t Returned (s\<lparr>once_state := once_returned (once_state s), completed := completed s + 1\<rparr>))"
| throws: "once_at s t = Executing \<Longrightarrow>
    once_step s (move t Threw (s\<lparr>once_state := once_threw (once_state s)\<rparr>))"

definition once_init :: once where
  "once_init = \<lparr>once_state = 0, once_at = (\<lambda>_. Not_Called), completed = 0\<rparr>"

section \<open>The invariant\<close>

definition once_inv :: "once \<Rightarrow> bool" where
  "once_inv s \<longleftrightarrow>
     once_state s \<in> {0, 1, 2} \<and> completed s = of_bool (once_state s = 2) \<and>
     ((\<exists>t. once_at s t = Executing) \<longleftrightarrow> once_state s = 1) \<and>
     (\<forall>t u. once_at s t = Executing \<longrightarrow> once_at s u = Executing \<longrightarrow> t = u) \<and>
     (\<forall>t. once_at s t = Returned \<longrightarrow> once_state s = 2)"

lemma once_section_cases:
  "once_section w = (Return_Done, v) \<longleftrightarrow> w = 2 \<and> v = 2"
  "once_section w = (Run_Function, v) \<longleftrightarrow> w = 0 \<and> v = 1"
  "once_section w = (Sleep_Tick, v) \<longleftrightarrow> w \<noteq> 0 \<and> w \<noteq> 2 \<and> v = w"
  by (auto simp: once_section_def)

lemma move_idle:
  assumes "once_inv s" and "once_at s t \<noteq> Executing" and "p \<noteq> Executing" and "p = Returned \<Longrightarrow> once_state s = 2"
  shows "once_inv (move t p s)"
proof -
  have e: "once_at (move t p s) u = Executing \<longleftrightarrow> once_at s u = Executing" for u using assms(2,3) by (simp add: move_def)
  have r: "\<forall>u. once_at (move t p s) u = Returned \<longrightarrow> once_state s = 2"
    using assms(1,4) by (auto simp: move_def once_inv_def split: if_splits)
  have st: "once_state (move t p s) = once_state s" "completed (move t p s) = completed s" by (simp_all add: move_def)
  show ?thesis using assms(1) r unfolding once_inv_def st e by blast
qed

lemma same_state: "once_state s = w \<Longrightarrow> s\<lparr>once_state := w\<rparr> = s"
  by (cases s) simp

lemma once_step_inv: "once_step s s' \<Longrightarrow> once_inv s \<Longrightarrow> once_inv s'"
proof (induction rule: once_step.induct)
  case (returns s t)
  then have "once_state s = 1" "\<forall>u. u \<noteq> t \<longrightarrow> once_at s u \<noteq> Executing" by (auto simp: once_inv_def)
  then show ?case using returns by (auto simp: once_inv_def move_def once_returned_def)
next
  case (throws s t)
  then have "once_state s = 1" "\<forall>u. u \<noteq> t \<longrightarrow> once_at s u \<noteq> Executing" by (auto simp: once_inv_def)
  then show ?case using throws by (auto simp: once_inv_def move_def once_threw_def)
next
  case (run s t w)
  then show ?case by (auto simp: once_inv_def move_def once_section_cases)
next
  case (call s t x)
  then show ?case by (intro move_idle) auto
next
  case (again s t w)
  then show ?case by (auto simp: once_section_cases same_state intro!: move_idle)
next
  case (sleep s t w)
  then show ?case by (auto simp: once_section_cases same_state intro!: move_idle)
next
  case (wake s t)
  then show ?case by (intro move_idle) auto
qed

lemma once_reachable_inv: "once_step\<^sup>*\<^sup>* once_init s \<Longrightarrow> once_inv s"
proof (induction rule: rtranclp_induct)
  case base
  show ?case by (simp add: once_inv_def once_init_def)
next
  case (step s s')
  then show ?case using once_step_inv by blast
qed

text \<open>
  C18. However the calls of any number of threads interleave, the function is never run by two of
  them at a time, it returns at most once, and a call comes back only after it has returned;
  while it has not returned and nobody runs it, because it threw, the next thread to look runs it.\<close>

theorem once_runs_once:
  assumes "once_step\<^sup>*\<^sup>* once_init s"
  shows "(once_at s t = Executing \<longrightarrow> once_at s u = Executing \<longrightarrow> t = u) \<and> completed s \<le> 1 \<and>
    (once_at s t = Returned \<longrightarrow> completed s = 1 \<and> once_at s u \<noteq> Executing) \<and>
    (completed s = 0 \<and> (\<forall>v. once_at s v \<noteq> Executing) \<longrightarrow> fst (once_section (once_state s)) = Run_Function) \<and>
    (completed s = 1 \<longrightarrow> fst (once_section (once_state s)) = Return_Done)"
  using once_reachable_inv [OF assms] by (auto simp: once_inv_def once_section_def)

theorem once_runs_once_witness:
  "completed (move 1 Returned (once_init\<lparr>once_state := 2, completed := 1\<rparr>)) \<le> 1"
proof -
  let ?x = "\<lparr>initialized = True, interrupt_context = False, tx_thread_identify = Some 1\<rparr>"
  have 1: "once_step once_init (move 1 Looking once_init)"
    by (rule once_step.call [of _ _ ?x]) (simp_all add: once_init_def once_check_def require_thread_context_def)
  have 2: "once_step (move 1 Looking once_init) (move 1 Executing (once_init\<lparr>once_state := 1\<rparr>))"
    using once_step.run [of "move 1 Looking once_init" 1 1] by (simp add: move_def once_init_def once_section_def)
  have 3: "once_step (move 1 Executing (once_init\<lparr>once_state := 1\<rparr>)) (move 1 Returned (once_init\<lparr>once_state := 2, completed := 1\<rparr>))"
    using once_step.returns [of "move 1 Executing (once_init\<lparr>once_state := 1\<rparr>)" 1]
    by (simp add: move_def once_init_def once_returned_def)
  have "once_step\<^sup>*\<^sup>* once_init (move 1 Returned (once_init\<lparr>once_state := 2, completed := 1\<rparr>))"
    using 1 2 3 by (meson converse_rtranclp_into_rtranclp rtranclp.rtrancl_refl)
  from once_runs_once [OF this, of 1 1] show ?thesis by blast
qed

end
