(* ===== verification/Static_Guard.thy ===== *)
theory Static_Guard
  imports Runtime_Context
begin

text \<open>
  The guards of function-local statics (\<open>platform/runtime/libstdcxx/cxx_guard.cpp\<close>). Each guard
  has two bytes; one recursive ThreadX mutex is held while any initialiser runs. A thread may
  be in several initialisers, one inside the other.
\<close>

section \<open>State\<close>

record guards =
  initialized_byte :: "nat \<Rightarrow> u8"
  in_progress_byte :: "nat \<Rightarrow> u8"
  guard_owner :: "nat option"
  guard_count :: nat

text \<open>\<open>None\<close> is \<open>guard_failure\<close>, which stops the system.\<close>

definition locking_required :: "call_context \<Rightarrow> bool \<Rightarrow> bool option" where
  "locking_required x cxx_guard_mutex_ready =
     (if interrupt_context x then None
      else if \<not> initialized x then Some False
      else if tx_thread_identify x = None then Some False
      else if \<not> cxx_guard_mutex_ready then None
      else Some True)"

text \<open>The recursive mutex: getting it blocks while another thread owns it.\<close>

definition get_guard_mutex :: "nat \<Rightarrow> guards \<Rightarrow> guards option" where
  "get_guard_mutex t g =
     (if guard_owner g = None \<or> guard_owner g = Some t
      then Some (g\<lparr>guard_owner := Some t, guard_count := guard_count g + 1\<rparr>) else None)"

definition release_guard_mutex :: "bool \<Rightarrow> nat \<Rightarrow> guards \<Rightarrow> guards option" where
  "release_guard_mutex locked t g =
     (if \<not> locked then Some g
      else if guard_owner g \<noteq> Some t then None
      else Some (g\<lparr>guard_count := guard_count g - 1, guard_owner := (if guard_count g = 1 then None else Some t)\<rparr>))"

section \<open>The calls of the C++ ABI\<close>

datatype acquire_result = Already_Done | Initialise | Failure

text \<open>The part of \<open>__cxa_guard_acquire\<close> after the mutex has been taken, or not required.\<close>

definition acquire_locked :: "bool \<Rightarrow> nat \<Rightarrow> nat \<Rightarrow> guards \<Rightarrow> acquire_result \<times> guards" where
  "acquire_locked locked t v g =
     (if initialized_byte g v \<noteq> 0 then
        (case release_guard_mutex locked t g of None \<Rightarrow> (Failure, g) | Some g1 \<Rightarrow> (Already_Done, g1))
      else if in_progress_byte g v \<noteq> 0 then (Failure, g)
      else (Initialise, g\<lparr>in_progress_byte := (in_progress_byte g)(v := 1)\<rparr>))"

definition guard_release :: "bool \<Rightarrow> nat \<Rightarrow> nat \<Rightarrow> guards \<Rightarrow> guards option" where
  "guard_release locked t v g =
     release_guard_mutex locked t
       (g\<lparr>in_progress_byte := (in_progress_byte g)(v := 0), initialized_byte := (initialized_byte g)(v := 1)\<rparr>)"

definition guard_abort :: "bool \<Rightarrow> nat \<Rightarrow> nat \<Rightarrow> guards \<Rightarrow> guards option" where
  "guard_abort locked t v g = release_guard_mutex locked t (g\<lparr>in_progress_byte := (in_progress_byte g)(v := 0)\<rparr>)"

section \<open>Interleaving\<close>

text \<open>
  The initialisers a thread is in, innermost first, and the guard it wants next. \<open>initialised\<close>
  counts how often the initialiser of a static has returned, \<open>passed\<close> holds the threads told
  that a static is there.
\<close>

record statics =
  guards_of :: guards
  inside :: "nat \<Rightarrow> nat list"
  wanting :: "nat \<Rightarrow> nat option"
  initialised :: "nat \<Rightarrow> nat"
  passed :: "(nat \<times> nat) set"
  failed :: bool

inductive guard_step :: "statics \<Rightarrow> statics \<Rightarrow> bool" where
  pass: "\<not> failed s \<Longrightarrow> wanting s t = None \<Longrightarrow> initialized_byte (guards_of s) v \<noteq> 0 \<Longrightarrow>
    guard_step s (s\<lparr>passed := insert (t, v) (passed s)\<rparr>)"
| want: "\<not> failed s \<Longrightarrow> wanting s t = None \<Longrightarrow> initialized_byte (guards_of s) v = 0 \<Longrightarrow>
    guard_step s (s\<lparr>wanting := (wanting s)(t \<mapsto> v)\<rparr>)"
| found: "\<not> failed s \<Longrightarrow> wanting s t = Some v \<Longrightarrow> locking_required x True = Some True \<Longrightarrow>
    get_guard_mutex t (guards_of s) = Some g \<Longrightarrow> acquire_locked True t v g = (Already_Done, g') \<Longrightarrow>
    guard_step s (s\<lparr>guards_of := g', wanting := (wanting s)(t := None), passed := insert (t, v) (passed s)\<rparr>)"
| start: "\<not> failed s \<Longrightarrow> wanting s t = Some v \<Longrightarrow> locking_required x True = Some True \<Longrightarrow>
    get_guard_mutex t (guards_of s) = Some g \<Longrightarrow> acquire_locked True t v g = (Initialise, g') \<Longrightarrow>
    guard_step s (s\<lparr>guards_of := g', wanting := (wanting s)(t := None), inside := (inside s)(t := v # inside s t)\<rparr>)"
| recursion: "\<not> failed s \<Longrightarrow> wanting s t = Some v \<Longrightarrow> locking_required x True = Some True \<Longrightarrow>
    get_guard_mutex t (guards_of s) = Some g \<Longrightarrow> acquire_locked True t v g = (Failure, g') \<Longrightarrow>
    guard_step s (s\<lparr>failed := True\<rparr>)"
| release: "\<not> failed s \<Longrightarrow> wanting s t = None \<Longrightarrow> inside s t = v # vs \<Longrightarrow> guard_release True t v (guards_of s) = Some g \<Longrightarrow>
    guard_step s (s\<lparr>guards_of := g, inside := (inside s)(t := vs), initialised := (initialised s)(v := initialised s v + 1)\<rparr>)"
| abort: "\<not> failed s \<Longrightarrow> wanting s t = None \<Longrightarrow> inside s t = v # vs \<Longrightarrow> guard_abort True t v (guards_of s) = Some g \<Longrightarrow>
    guard_step s (s\<lparr>guards_of := g, inside := (inside s)(t := vs)\<rparr>)"

definition no_statics :: statics where
  "no_statics =
     \<lparr>guards_of = \<lparr>initialized_byte = (\<lambda>_. 0), in_progress_byte = (\<lambda>_. 0), guard_owner = None, guard_count = 0\<rparr>,
      inside = (\<lambda>_. []), wanting = (\<lambda>_. None), initialised = (\<lambda>_. 0), passed = {}, failed = False\<rparr>"

section \<open>The invariant\<close>

text \<open>
  The mutex is held by the one thread that is inside initialisers, once for each; these are the guards in
  progress; a guard is initialised when its initialiser has returned, once.
\<close>

definition guard_inv :: "statics \<Rightarrow> nat list \<Rightarrow> bool" where
  "guard_inv s vs \<longleftrightarrow>
     (\<forall>t. inside s t = (if guard_owner (guards_of s) = Some t then vs else [])) \<and>
     (guard_owner (guards_of s) = None \<longleftrightarrow> vs = []) \<and> guard_count (guards_of s) = length vs \<and> distinct vs \<and>
     (\<forall>v. in_progress_byte (guards_of s) v = of_bool (v \<in> set vs)) \<and>
     (\<forall>v. initialized_byte (guards_of s) v = of_bool (initialised s v = 1) \<and> initialised s v \<le> 1) \<and>
     (\<forall>v\<in>set vs. initialised s v = 0) \<and>
     (\<forall>(t, v)\<in>passed s. initialised s v = 1)"

lemma get_guard_inv:
  assumes "guard_inv s vs" and "get_guard_mutex t (guards_of s) = Some g"
  shows "guard_owner g = Some t" and "guard_count g = Suc (length vs)" and "inside s t = vs"
    and "\<And>u. u \<noteq> t \<Longrightarrow> inside s u = []"
    and "initialized_byte g = initialized_byte (guards_of s)" and "in_progress_byte g = in_progress_byte (guards_of s)"
  using assms by (auto simp: guard_inv_def get_guard_mutex_def split: if_splits)

lemma inside_inv:
  assumes "guard_inv s vs" and "inside s t = v # us"
  shows "vs = v # us" and "guard_owner (guards_of s) = Some t" and "\<And>u. u \<noteq> t \<Longrightarrow> inside s u = []"
    and "v \<notin> set us"
  using assms by (auto simp: guard_inv_def split: if_splits)

lemma guard_step_inv: "guard_step s s' \<Longrightarrow> guard_inv s vs \<Longrightarrow> \<exists>us. guard_inv s' us"
proof (induction rule: guard_step.induct)
  case (pass s t v)
  then have "guard_inv (s\<lparr>passed := insert (t, v) (passed s)\<rparr>) vs" by (auto simp: guard_inv_def)
  then show ?case by blast
next
  case (want s t v)
  then show ?case by (auto simp: guard_inv_def)
next
  case (found s t v x g g')
  note g = get_guard_inv [OF found.prems found.hyps(4)]
  have "guard_inv (s\<lparr>guards_of := g', wanting := (wanting s)(t := None), passed := insert (t, v) (passed s)\<rparr>) vs"
    using found g by (auto simp: acquire_locked_def release_guard_mutex_def guard_inv_def split: if_splits)
  then show ?case by blast
next
  case (start s t v x g g')
  note g = get_guard_inv [OF start.prems start.hyps(4)]
  have "guard_inv (s\<lparr>guards_of := g', wanting := (wanting s)(t := None), inside := (inside s)(t := v # inside s t)\<rparr>) (v # vs)"
  proof -
    have "initialised s v \<le> 1" using start.prems by (simp add: guard_inv_def)
    then have "initialised s v = 0 \<or> initialised s v = 1" by linarith
    then show ?thesis
      using start g by (auto simp: acquire_locked_def release_guard_mutex_def guard_inv_def split: if_splits)
  qed
  then show ?case by blast
next
  case (recursion s t v x g g')
  then have "guard_inv (s\<lparr>failed := True\<rparr>) vs" by (simp add: guard_inv_def)
  then show ?case by blast
next
  case (release s t v us g)
  note i = inside_inv [OF release.prems release.hyps(3)]
  have "guard_inv (s\<lparr>guards_of := g, inside := (inside s)(t := us), initialised := (initialised s)(v := initialised s v + 1)\<rparr>) us"
    using release i by (auto simp: guard_release_def release_guard_mutex_def guard_inv_def split: if_splits)
  then show ?case by blast
next
  case (abort s t v us g)
  note i = inside_inv [OF abort.prems abort.hyps(3)]
  have "guard_inv (s\<lparr>guards_of := g, inside := (inside s)(t := us)\<rparr>) us"
    using abort i by (auto simp: guard_abort_def release_guard_mutex_def guard_inv_def split: if_splits)
  then show ?case by blast
qed

lemma guard_reachable_inv: "guard_step\<^sup>*\<^sup>* no_statics s \<Longrightarrow> \<exists>vs. guard_inv s vs"
proof (induction rule: rtranclp_induct)
  case base
  have "guard_inv no_statics []" by (simp add: guard_inv_def no_statics_def)
  then show ?case by blast
next
  case (step s s')
  then show ?case using guard_step_inv by blast
qed

section \<open>What the guards promise\<close>

text \<open>
  C19. However threads interleave: initialisers run in one thread at a time, each static's initialiser
  returns at most once, nobody is inside it again afterwards, and a thread is told that a static
  is there only after its initialiser has returned.\<close>

theorem statics_initialised_once:
  assumes "guard_step\<^sup>*\<^sup>* no_statics s"
  shows "(inside s t \<noteq> [] \<longrightarrow> inside s u \<noteq> [] \<longrightarrow> t = u) \<and> initialised s v \<le> 1 \<and>
    (initialised s v = 1 \<longrightarrow> v \<notin> set (inside s t)) \<and> ((t, v) \<in> passed s \<longrightarrow> initialised s v = 1)"
proof -
  obtain vs where i: "guard_inv s vs" using guard_reachable_inv [OF assms] by blast
  then have "(t, v) \<in> passed s \<longrightarrow> initialised s v = 1" by (auto simp: guard_inv_def)
  moreover have "initialised s v = 1 \<longrightarrow> v \<notin> set (inside s t)" using i by (auto simp: guard_inv_def)
  moreover have "inside s t \<noteq> [] \<longrightarrow> inside s u \<noteq> [] \<longrightarrow> t = u" using i by (auto simp: guard_inv_def split: if_splits)
  moreover have "initialised s v \<le> 1" using i by (simp add: guard_inv_def)
  ultimately show ?thesis by blast
qed

text \<open>
  A thread that has taken the mutex is refused exactly when it is already inside the initialiser it
  wants: an initialiser that needs itself stops the system instead of blocking, and nothing
  else does. The end of an initialiser, by return or exception, always finds the mutex held.\<close>

theorem recursion_detected:
  assumes "guard_step\<^sup>*\<^sup>* no_statics s" and "get_guard_mutex t (guards_of s) = Some g"
  shows "(fst (acquire_locked True t v g) = Failure \<longleftrightarrow> v \<in> set (inside s t)) \<and>
    (fst (acquire_locked True t v g) = Already_Done \<longleftrightarrow> initialised s v = 1) \<and>
    (inside s t \<noteq> [] \<longrightarrow> guard_release True t (hd (inside s t)) (guards_of s) \<noteq> None \<and>
      guard_abort True t (hd (inside s t)) (guards_of s) \<noteq> None)"
proof -
  obtain vs where i: "guard_inv s vs" using guard_reachable_inv [OF assms(1)] by blast
  note g = get_guard_inv [OF i assms(2)]
  have b: "initialized_byte g v = of_bool (initialised s v = 1)" "in_progress_byte g v = of_bool (v \<in> set vs)"
    "v \<in> set vs \<Longrightarrow> initialised s v = 0"
    using i g(5,6) by (auto simp: guard_inv_def)
  have own: "inside s t \<noteq> [] \<Longrightarrow> guard_owner (guards_of s) = Some t" using i by (auto simp: guard_inv_def split: if_splits)
  show ?thesis
    using b g(1,3) own by (auto simp: acquire_locked_def release_guard_mutex_def guard_release_def guard_abort_def)
qed

section \<open>An example: one static inside another\<close>

definition worker :: call_context where
  "worker = \<lparr>initialized = True, interrupt_context = False, tx_thread_identify = Some 1\<rparr>"

definition nested_statics :: statics where
  "nested_statics =
     \<lparr>guards_of = \<lparr>initialized_byte = (\<lambda>_. 0), in_progress_byte = (\<lambda>_. 0)(7 := 1, 8 := 1), guard_owner = Some 1, guard_count = 2\<rparr>,
      inside = (\<lambda>_. [])(1 := [8, 7]), wanting = (\<lambda>_. None), initialised = (\<lambda>_. 0), passed = {}, failed = False\<rparr>"

lemma nested_reachable: "guard_step\<^sup>*\<^sup>* no_statics nested_statics"
proof -
  define s1 where "s1 = no_statics\<lparr>wanting := [1 \<mapsto> 7]\<rparr>"
  define s2 where "s2 = no_statics\<lparr>guards_of := \<lparr>initialized_byte = (\<lambda>_. 0), in_progress_byte = (\<lambda>_. 0)(7 := 1),
    guard_owner = Some 1, guard_count = 1\<rparr>, inside := (\<lambda>_. [])(1 := [7])\<rparr>"
  define s3 where "s3 = s2\<lparr>wanting := [1 \<mapsto> 8]\<rparr>"
  have x: "locking_required worker True = Some True" by (simp add: locking_required_def worker_def)
  note run = no_statics_def s1_def s2_def s3_def get_guard_mutex_def acquire_locked_def
  have "guard_step no_statics s1"
    using guard_step.want [of no_statics 1 7] by (simp add: run)
  moreover have "guard_step s1 s2"
    using guard_step.start [of s1 1 7 worker, OF _ _ x] by (simp add: run)
  moreover have "guard_step s2 s3"
    using guard_step.want [of s2 1 8] by (simp add: run)
  moreover have "guard_step s3 nested_statics"
    using guard_step.start [of s3 1 8 worker, OF _ _ x] by (simp add: run nested_statics_def)
  ultimately show ?thesis by (meson converse_rtranclp_into_rtranclp rtranclp.rtrancl_refl)
qed

lemma statics_initialised_once_witness: "initialised nested_statics 7 \<le> 1 \<and> inside nested_statics 1 = [8, 7]"
  using statics_initialised_once [OF nested_reachable] by (simp add: nested_statics_def)

lemma recursion_detected_witness:
  "\<exists>g. get_guard_mutex 1 (guards_of nested_statics) = Some g \<and> fst (acquire_locked True 1 7 g) = Failure"
proof -
  obtain g where g: "get_guard_mutex 1 (guards_of nested_statics) = Some g"
    by (simp add: get_guard_mutex_def nested_statics_def)
  have "7 \<in> set (inside nested_statics 1)" by (simp add: nested_statics_def)
  with recursion_detected [OF nested_reachable g, of 7] g show ?thesis by blast
qed

end
