(* ===== verification/Thread_Local.thy ===== *)
theory Thread_Local
  imports Runtime_Context
begin

unbundle bit_operations_syntax

text \<open>
  Thread-local storage on the board (\<open>platform/runtime/libstdcxx/tls.cpp\<close>): the emulated thread-local
  objects of GCC, the thread-local block of each thread, and the destructors a thread runs at its
  exit. Addresses are 32-bit words. The C allocator is a parameter: given a size in bytes and the
  addresses in use it answers an address, or none. \<open>None\<close> as a result is \<open>tls_failure\<close>, which
  stops the system.
\<close>

section \<open>State\<close>

record emutls_object =
  size_of :: u32
  alignment_of :: u32
  offset_of :: u32
  initializer_of :: "u8 list option"

text \<open>One thread's copy of an object: where it was allocated, where it starts, what it held at first.\<close>

record emutls_copy =
  allocation :: u32
  address :: u32
  contents :: "u8 list"

record emutls_array =
  array_address :: u32
  entries :: "emutls_copy option list"

type_synonym storage_key = "nat option"

text \<open>The objects by their addresses; the array of each thread, \<open>None\<close> being the code before the scheduler.\<close>

record emutls =
  objects :: "nat \<Rightarrow> emutls_object"
  emutls_object_count :: u32
  arrays :: "storage_key \<Rightarrow> emutls_array option"
  heap :: "u32 set"

type_synonym allocator = "u32 \<Rightarrow> u32 set \<Rightarrow> u32 option"

abbreviation capacity :: "emutls_array \<Rightarrow> nat" where
  "capacity a \<equiv> length (entries a)"

section \<open>Sizes\<close>

definition SIZE_MAX :: u32 where
  "SIZE_MAX = 0xFFFFFFFF"

definition SIZEOF_POINTER :: u32 where
  "SIZEOF_POINTER = 4"

definition SIZEOF_ARRAY :: u32 where
  "SIZEOF_ARRAY = 8"

definition emutls_array_size :: "u32 \<Rightarrow> u32 option" where
  "emutls_array_size cap =
     (if cap = 0 \<or> cap - 1 > (SIZE_MAX - SIZEOF_ARRAY) div SIZEOF_POINTER then None
      else Some (SIZEOF_ARRAY + (cap - 1) * SIZEOF_POINTER))"

definition allocate_emutls_array :: "allocator \<Rightarrow> u32 \<Rightarrow> u32 set \<Rightarrow> (emutls_array \<times> u32 set) option" where
  "allocate_emutls_array malloc cap used =
     (case emutls_array_size cap of
        None \<Rightarrow> None
      | Some bytes \<Rightarrow>
          (case malloc bytes used of
             None \<Rightarrow> None
           | Some a \<Rightarrow> Some (\<lparr>array_address = a, entries = replicate (unat cap) None\<rparr>, insert a used)))"

text \<open>\<open>realloc\<close> gives the old block back and answers one that is free then, perhaps the same.\<close>

definition grow_emutls_array :: "allocator \<Rightarrow> emutls_array \<Rightarrow> u32 \<Rightarrow> u32 set \<Rightarrow> (emutls_array \<times> u32 set) option" where
  "grow_emutls_array malloc array offset used =
     (let old_capacity = of_nat (capacity array) :: u32;
          doubled = (if old_capacity \<le> SIZE_MAX div 2 then old_capacity * 2 else offset)
      in if doubled < offset \<and> offset > SIZE_MAX - 32 then None
         else
           let new_capacity = (if doubled < offset then offset + 32 else doubled)
           in case emutls_array_size new_capacity of
                None \<Rightarrow> None
              | Some bytes \<Rightarrow>
                  let rest = used - {array_address array}
                  in case malloc bytes rest of
                       None \<Rightarrow> None
                     | Some a \<Rightarrow>
                         Some (\<lparr>array_address = a,
                                entries = entries array @ replicate (unat new_capacity - capacity array) None\<rparr>,
                               insert a rest))"

definition allocate_emutls_object :: "allocator \<Rightarrow> emutls_object \<Rightarrow> u32 set \<Rightarrow> (emutls_copy \<times> u32 set) option" where
  "allocate_emutls_object malloc obj used =
     (let alignment = alignment_of obj; size = size_of obj
      in if alignment = 0 \<or> alignment AND (alignment - 1) \<noteq> 0 \<or> alignment - 1 > SIZE_MAX - SIZEOF_POINTER \<or>
            size > SIZE_MAX - SIZEOF_POINTER - (alignment - 1)
         then None
         else
           (case malloc (size + SIZEOF_POINTER + alignment - 1) used of
              None \<Rightarrow> None
            | Some a \<Rightarrow>
                let unaligned = a + SIZEOF_POINTER;
                    aligned = (unaligned + alignment - 1) AND NOT (alignment - 1)
                in Some (\<lparr>allocation = a, address = aligned,
                          contents = (case initializer_of obj of
                                        Some bytes \<Rightarrow> take (unat size) bytes
                                      | None \<Rightarrow> replicate (unat size) 0)\<rparr>,
                         insert a used)))"

section \<open>Addresses of objects\<close>

definition emutls_offset :: "nat \<Rightarrow> emutls \<Rightarrow> (u32 \<times> emutls) option" where
  "emutls_offset obj s =
     (let offset = offset_of (objects s obj)
      in if offset \<noteq> 0 then Some (offset, s)
         else if emutls_object_count s = SIZE_MAX then None
         else
           let next = emutls_object_count s + 1
           in Some (next, s\<lparr>emutls_object_count := next,
                            objects := (objects s)(obj := (objects s obj)\<lparr>offset_of := next\<rparr>)\<rparr>))"

text \<open>The array of the running thread, large enough for the offset.\<close>

definition emutls_storage :: "allocator \<Rightarrow> storage_key \<Rightarrow> u32 \<Rightarrow> emutls \<Rightarrow> (emutls_array \<times> emutls) option" where
  "emutls_storage malloc t offset s =
     (let updated = map_option (\<lambda>(array, used). (array, s\<lparr>arrays := (arrays s)(t \<mapsto> array), heap := used\<rparr>))
      in case arrays s t of
           None \<Rightarrow> if offset > SIZE_MAX - 32 then None else updated (allocate_emutls_array malloc (offset + 32) (heap s))
         | Some array \<Rightarrow>
             if unat offset > capacity array then updated (grow_emutls_array malloc array offset (heap s))
             else Some (array, s))"

definition emutls_get_address :: "allocator \<Rightarrow> storage_key \<Rightarrow> nat \<Rightarrow> emutls \<Rightarrow> (u32 \<times> emutls) option" where
  "emutls_get_address malloc t obj s =
     (case emutls_offset obj s of
        None \<Rightarrow> None
      | Some (offset, s1) \<Rightarrow>
          (case emutls_storage malloc t offset s1 of
             None \<Rightarrow> None
           | Some (array, s2) \<Rightarrow>
               let index = unat offset - 1
               in case entries array ! index of
                    Some copy \<Rightarrow> Some (address copy, s2)
                  | None \<Rightarrow>
                      (case allocate_emutls_object malloc (objects s2 obj) (heap s2) of
                         None \<Rightarrow> None
                       | Some (copy, used) \<Rightarrow>
                           Some (address copy,
                                 s2\<lparr>arrays := (arrays s2)(t \<mapsto> array\<lparr>entries := (entries array)[index := Some copy]\<rparr>),
                                    heap := used\<rparr>))))"

definition emutls_register_common :: "nat \<Rightarrow> u32 \<Rightarrow> u32 \<Rightarrow> u8 list option \<Rightarrow> emutls \<Rightarrow> emutls" where
  "emutls_register_common obj bytes alignment init s =
     (let o1 = objects s obj;
          o2 = (if size_of o1 < bytes then o1\<lparr>size_of := bytes, initializer_of := None\<rparr> else o1);
          o3 = (if alignment_of o2 < alignment then o2\<lparr>alignment_of := alignment\<rparr> else o2);
          o4 = (if init \<noteq> None \<and> bytes = size_of o3 then o3\<lparr>initializer_of := init\<rparr> else o3)
      in s\<lparr>objects := (objects s)(obj := o4)\<rparr>)"

text \<open>Giving back every copy and the array; freeing is removal from the addresses in use.\<close>

definition destroy_emutls :: "storage_key \<Rightarrow> emutls \<Rightarrow> emutls" where
  "destroy_emutls t s =
     (case arrays s t of
        None \<Rightarrow> s
      | Some array \<Rightarrow>
          s\<lparr>heap := heap s - allocation ` set (List.map_filter (\<lambda>e. e) (entries array)) - {array_address array},
            arrays := (arrays s)(t := None)\<rparr>)"

text \<open>At the start of the application thread its own array is dropped for the one of the code before.\<close>

definition adopt_emutls :: "nat \<Rightarrow> emutls \<Rightarrow> emutls" where
  "adopt_emutls t s =
     (let s1 = destroy_emutls (Some t) s
      in s1\<lparr>arrays := (arrays s1)(Some t := arrays s1 None, None := None)\<rparr>)"

end
