(* ===== verification/Thread_Block.thy ===== *)
theory Thread_Block
  imports Thread_Local
begin

text \<open>
  The rest of \<open>platform/runtime/libstdcxx/tls.cpp\<close>: the thread-local block of each thread, laid out by
  the linker's image, the adoption of the image of the code before the scheduler by the application thread, and
  the destructors of thread-local objects, which a thread runs when it ends. What a destructor registers
  while it runs is its argument \<open>registers\<close>; \<open>None\<close> as a result is \<open>tls_failure\<close> or a run that never ends.
\<close>

section \<open>State\<close>

text \<open>The linker's symbols.\<close>

record tls_image =
  tdata_source :: "u8 list"
  tls_base :: u32
  tls_size :: u32
  tls_align :: u32
  tcb_offset :: u32

record destructor =
  function_of :: u32
  object :: u32

text \<open>The thread-local fields of a \<open>TX_THREAD\<close> with what its block holds behind the control block.\<close>

record tls_thread =
  tls_allocation :: "u32 option"
  tls_block :: "u32 option"
  tls_data :: "u8 list"
  destructors :: "destructor list"

record tls =
  tls_threads :: "nat \<Rightarrow> tls_thread"
  startup_destructors :: "destructor list"
  startup_data :: "u8 list"
  emulated :: emutls

abbreviation set_thread :: "nat \<Rightarrow> tls_thread \<Rightarrow> tls \<Rightarrow> tls" where
  "set_thread t x s \<equiv> s\<lparr>tls_threads := (tls_threads s)(t := x)\<rparr>"

section \<open>The block of a thread\<close>

definition initialize_tls_data :: "tls_image \<Rightarrow> u8 list option" where
  "initialize_tls_data img =
     (if length (tdata_source img) > unat (tls_size img) then None
      else Some (tdata_source img @ replicate (unat (tls_size img) - length (tdata_source img)) 0))"

definition tls_layout_valid :: "tls_image \<Rightarrow> bool" where
  "tls_layout_valid img \<longleftrightarrow>
     tls_align img \<noteq> 0 \<and> tls_align img AND (tls_align img - 1) = 0 \<and> \<not> tcb_offset img < tls_align img \<and>
     \<not> tls_size img > SIZE_MAX - tcb_offset img - (tls_align img - 1)"

definition free_block :: "u32 option \<Rightarrow> emutls \<Rightarrow> emutls" where
  "free_block b e = (case b of None \<Rightarrow> e | Some a \<Rightarrow> e\<lparr>heap := heap e - {a}\<rparr>)"

definition runtime_tls_thread_create :: "tls_image \<Rightarrow> allocator \<Rightarrow> nat \<Rightarrow> tls \<Rightarrow> tls option" where
  "runtime_tls_thread_create img malloc t s =
     (if \<not> tls_layout_valid img then None
      else
        (case malloc (tcb_offset img + tls_size img + tls_align img - 1) (heap (emulated s)) of
           None \<Rightarrow> None
         | Some a \<Rightarrow>
             let aligned = (a + tls_align img - 1) AND NOT (tls_align img - 1)
             in case initialize_tls_data img of
                  None \<Rightarrow> None
                | Some bytes \<Rightarrow>
                    Some (set_thread t \<lparr>tls_allocation = Some a, tls_block = Some aligned, tls_data = bytes, destructors = []\<rparr>
                      (s\<lparr>emulated := (emulated s)\<lparr>heap := insert a (heap (emulated s)),
                           arrays := (arrays (emulated s))(Some t := None)\<rparr>\<rparr>))))"

text \<open>The application thread drops its own block for the image, which is in use since before the scheduler.\<close>

definition runtime_tls_adopt_startup :: "tls_image \<Rightarrow> nat \<Rightarrow> tls \<Rightarrow> tls option" where
  "runtime_tls_adopt_startup img t s =
     (case tls_block (tls_threads s t) of
        None \<Rightarrow> None
      | Some _ \<Rightarrow>
          Some (set_thread t \<lparr>tls_allocation = None, tls_block = Some (tls_base img - tcb_offset img),
                             tls_data = startup_data s, destructors = startup_destructors s\<rparr>
            (s\<lparr>startup_destructors := [],
               emulated := adopt_emutls t (free_block (tls_allocation (tls_threads s t)) (emulated s))\<rparr>)))"

definition runtime_tls_thread_delete :: "nat \<Rightarrow> tls \<Rightarrow> tls" where
  "runtime_tls_thread_delete t s =
     set_thread t ((tls_threads s t)\<lparr>destructors := [], tls_allocation := None, tls_block := None, tls_data := []\<rparr>)
       (s\<lparr>emulated := destroy_emutls (Some t) (free_block (tls_allocation (tls_threads s t)) (emulated s))\<rparr>)"

definition runtime_tls_read_thread_pointer :: "tls_image \<Rightarrow> nat option \<Rightarrow> tls \<Rightarrow> u32 option" where
  "runtime_tls_read_thread_pointer img current s =
     (case current of
        Some t \<Rightarrow> tls_block (tls_threads s t)
      | None \<Rightarrow> Some (tls_base img - tcb_offset img))"

section \<open>Destructors\<close>

text \<open>
  \<open>__cxa_thread_atexit\<close> with its result; \<open>allocated\<close> is whether \<open>new (std::nothrow)\<close> found memory for the
  element, and a destructor of \<open>None\<close> is a null pointer.
\<close>

definition cxa_thread_atexit :: "bool \<Rightarrow> u32 option \<Rightarrow> u32 \<Rightarrow> nat option \<Rightarrow> tls \<Rightarrow> int \<times> tls" where
  "cxa_thread_atexit allocated f obj current s =
     (case f of
        None \<Rightarrow> (-1, s)
      | Some g \<Rightarrow>
          if \<not> allocated then (-1, s)
          else
            let element = \<lparr>function_of = g, object = obj\<rparr>
            in case current of
                 Some t \<Rightarrow> (0, set_thread t ((tls_threads s t)\<lparr>destructors := element # destructors (tls_threads s t)\<rparr>) s)
               | None \<Rightarrow> (0, s\<lparr>startup_destructors := element # startup_destructors s\<rparr>))"

text \<open>
  The loop of \<open>runtime_tls_thread_exit\<close>: the list is moved past the first element before its function
  runs, so what the function registers is put in front of the rest. The result is the elements run, in order.
\<close>

definition push_registered :: "destructor list \<Rightarrow> destructor list \<Rightarrow> destructor list" where
  "push_registered new rest = foldl (\<lambda>ds d. d # ds) rest new"

partial_function (option) run_destructors ::
    "(destructor \<Rightarrow> destructor list) \<Rightarrow> destructor list \<Rightarrow> destructor list option" where
  "run_destructors registers ds =
     (case ds of
        [] \<Rightarrow> Some []
      | d # rest \<Rightarrow>
          Option.bind (run_destructors registers (push_registered (registers d) rest))
            (\<lambda>executed. Some (d # executed)))"

definition runtime_tls_thread_exit ::
    "(destructor \<Rightarrow> destructor list) \<Rightarrow> nat \<Rightarrow> tls \<Rightarrow> (destructor list \<times> tls) option" where
  "runtime_tls_thread_exit registers t s =
     (case run_destructors registers (destructors (tls_threads s t)) of
        None \<Rightarrow> None
      | Some executed \<Rightarrow> Some (executed, set_thread t ((tls_threads s t)\<lparr>destructors := []\<rparr>) s))"

end
