(* ===== verification/Thread_Local_Properties.thy ===== *)
theory Thread_Local_Properties
  imports Thread_Local
begin

unbundle bit_operations_syntax

text \<open>
  Emulated thread-local objects: each thread has its own copy of each object, at an aligned address
  inside its own allocation, found again at every later use; and the allocations in use are
  exactly those of the arrays and copies, so nothing leaks when a thread gives its storage back.
\<close>

section \<open>The invariant\<close>

definition malloc_law :: "allocator \<Rightarrow> bool" where
  "malloc_law malloc \<longleftrightarrow> (\<forall>n used a. malloc n used = Some a \<longrightarrow> a \<notin> used \<and> unat a + unat n < 2 ^ 32)"

datatype block_owner = Array_Of storage_key | Copy_Of storage_key nat

definition slot :: "emutls \<Rightarrow> storage_key \<Rightarrow> nat \<Rightarrow> emutls_copy option" where
  "slot s t k = (case arrays s t of None \<Rightarrow> None | Some a \<Rightarrow> if k < capacity a then entries a ! k else None)"

fun block :: "emutls \<Rightarrow> block_owner \<Rightarrow> u32 option" where
  "block s (Array_Of t) = map_option array_address (arrays s t)"
| "block s (Copy_Of t k) = map_option allocation (slot s t k)"

text \<open>The copy a thread has of an object.\<close>

definition copy_of :: "emutls \<Rightarrow> storage_key \<Rightarrow> nat \<Rightarrow> emutls_copy option" where
  "copy_of s t obj = (if offset_of (objects s obj) = 0 then None else slot s t (unat (offset_of (objects s obj)) - 1))"

definition emutls_inv :: "emutls \<Rightarrow> bool" where
  "emutls_inv s \<longleftrightarrow>
     inj_on (block s) (dom (block s)) \<and> heap s = ran (block s) \<and>
     (\<forall>obj. offset_of (objects s obj) \<le> emutls_object_count s) \<and>
     (\<forall>o1 o2. offset_of (objects s o1) = offset_of (objects s o2) \<longrightarrow> offset_of (objects s o1) \<noteq> 0 \<longrightarrow> o1 = o2) \<and>
     (\<forall>t a. arrays s t = Some a \<longrightarrow> capacity a < 2 ^ 31) \<and>
     (\<forall>t k. unat (emutls_object_count s) \<le> k \<longrightarrow> slot s t k = None)"

lemma inj_update:
  assumes "inj_on f (dom f)" and "a \<notin> ran (f(x := None))"
  shows "inj_on (f(x \<mapsto> a)) (dom (f(x \<mapsto> a)))"
proof (rule inj_onI)
  fix y z assume "y \<in> dom (f(x \<mapsto> a))" "z \<in> dom (f(x \<mapsto> a))" "(f(x \<mapsto> a)) y = (f(x \<mapsto> a)) z"
  then show "y = z" using assms
    by (cases "y = x"; cases "z = x") (auto simp: ran_def inj_on_def dom_def split: if_splits)
qed

lemma ran_update: "ran (f(x \<mapsto> a)) = insert a (ran (f(x := None)))"
  by (auto simp: ran_def split: if_splits)

lemma ran_remove: "inj_on f (dom f) \<Longrightarrow> f x = Some a \<Longrightarrow> ran (f(x := None)) = ran f - {a}"
proof -
  assume i: "inj_on f (dom f)" and x: "f x = Some a"
  have "y \<in> ran (f(x := None)) \<longleftrightarrow> (\<exists>z. z \<noteq> x \<and> f z = Some y)" for y
    by (simp add: ran_def fun_upd_apply) blast
  moreover have "(\<exists>z. z \<noteq> x \<and> f z = Some y) \<longleftrightarrow> y \<in> ran f \<and> y \<noteq> a" for y
    using i x unfolding ran_def inj_on_def dom_def by auto (metis option.inject)
  ultimately show ?thesis by blast
qed

section \<open>Sizes and alignment\<close>

lemma array_size_bound: "emutls_array_size cap = Some n \<Longrightarrow> 0 < unat cap \<and> unat cap < 2 ^ 31"
  by (auto simp: emutls_array_size_def SIZE_MAX_def SIZEOF_ARRAY_def SIZEOF_POINTER_def word_le_nat_alt not_less
      unat_gt_0 unat_sub_small Suc_leI split: if_splits)

text \<open>
  A copy is placed inside its allocation: its address is a multiple of the alignment, at
  least a pointer's width behind the start of the allocation, where the allocation's address is kept, and
  the whole object fits before its end. It holds the initial value, or zeroes. An object whose
  alignment is no power of two, or whose size would overflow, is refused.\<close>

theorem emutls_object_placed:
  assumes law: "malloc_law malloc" and r: "allocate_emutls_object malloc obj used = Some (copy, used')"
  shows "unat (address copy) mod unat (alignment_of obj) = 0 \<and>
    unat (allocation copy) + 4 \<le> unat (address copy) \<and>
    unat (address copy) + unat (size_of obj) \<le> unat (allocation copy) + unat (size_of obj + 4 + alignment_of obj - 1) \<and>
    unat (size_of obj + 4 + alignment_of obj - 1) = unat (size_of obj) + 4 + unat (alignment_of obj) - 1 \<and>
    allocation copy \<notin> used \<and> used' = insert (allocation copy) used \<and>
    contents copy = (case initializer_of obj of Some bytes \<Rightarrow> take (unat (size_of obj)) bytes
      | None \<Rightarrow> replicate (unat (size_of obj)) 0)"
proof -
  let ?a = "alignment_of obj" and ?n = "size_of obj"
  from r have ok: "?a \<noteq> 0" "?a AND (?a - 1) = 0" "\<not> ?a - 1 > SIZE_MAX - 4" "\<not> ?n > SIZE_MAX - 4 - (?a - 1)"
    by (auto simp: allocate_emutls_object_def Let_def SIZEOF_POINTER_def split: if_splits)
  obtain k where k: "unat ?a = 2 ^ k" by (rule word_power_of_two [OF ok(1,2)])
  obtain m where m: "malloc (?n + 4 + ?a - 1) used = Some m" and c: "allocation copy = m"
    "address copy = (m + 4 + ?a - 1) AND NOT (?a - 1)" "used' = insert m used"
    "contents copy = (case initializer_of obj of Some bytes \<Rightarrow> take (unat ?n) bytes | None \<Rightarrow> replicate (unat ?n) 0)"
    using r ok by (auto simp: allocate_emutls_object_def Let_def SIZEOF_POINTER_def split: option.splits)
  have a0: "0 < unat ?a" using ok(1) by (simp add: unat_gt_0)
  have a1: "unat (?a - 1) = unat ?a - 1" using a0 by (subst unat_sub_small) simp_all
  have mx: "unat SIZE_MAX = 2 ^ 32 - 1" by (simp add: SIZE_MAX_def)
  have l1: "unat ?a - 1 \<le> 2 ^ 32 - 5" using ok(3) a1 by (simp add: word_le_nat_alt not_less SIZE_MAX_def)
  have l2: "unat ?n \<le> 2 ^ 32 - 5 - (unat ?a - 1)"
  proof -
    have "unat (SIZE_MAX - 4 - (?a - 1)) = 2 ^ 32 - 5 - (unat ?a - 1)"
      using l1 a1 by (subst unat_sub_small) (simp_all add: SIZE_MAX_def)
    then show ?thesis using ok(4) by (simp add: word_le_nat_alt not_less)
  qed
  have total: "unat (?n + 4 + ?a - 1) = unat ?n + 4 + unat ?a - 1"
  proof -
    have "?n + 4 + ?a - 1 = ?n + 4 + (?a - 1)" by simp
    moreover have "unat (?n + 4) = unat ?n + 4" using l1 l2 a0 by (subst unat_add_small) simp_all
    ultimately show ?thesis using l1 l2 a0 a1 by (simp only:) (subst unat_add_small, simp_all)
  qed
  have fits: "unat m + (unat ?n + 4 + unat ?a - 1) < 2 ^ 32" "m \<notin> used"
    using law m unfolding malloc_law_def total [symmetric] by blast+
  have m4: "unat (m + 4) = unat m + 4" using fits(1) a0 by (subst unat_add_small) simp_all
  have up: "unat (address copy) = (unat m + 4 + unat ?a - 1) div unat ?a * unat ?a"
    unfolding c(2) using round_up [OF k, of "m + 4"] fits(1) a0 m4 by simp
  have b: "unat (address copy) mod unat ?a = 0" "unat m + 4 \<le> unat (address copy)" "unat (address copy) < unat m + 4 + unat ?a"
    unfolding up using round_up_bounds [OF a0, of "unat m + 4"] by simp_all
  then have "unat (address copy) + unat ?n \<le> unat m + (unat ?n + 4 + unat ?a - 1)" by linarith
  then show ?thesis unfolding total c(1) using b(1,2) fits(2) c(3,4) by (intro conjI; assumption?) simp_all
qed

section \<open>Finding a copy keeps the invariant\<close>

lemma block_update_inv:
  assumes s: "emutls_inv s" and b: "block s' = (block s)(x \<mapsto> a)" and a: "a \<notin> ran ((block s)(x := None))"
    and h: "heap s' = insert a (ran ((block s)(x := None)))"
    and same: "objects s' = objects s" "emutls_object_count s' = emutls_object_count s"
    and c: "\<And>t array. arrays s' t = Some array \<Longrightarrow> capacity array < 2 ^ 31"
    and k: "\<And>t k. unat (emutls_object_count s) \<le> k \<Longrightarrow> slot s' t k = None"
  shows "emutls_inv s'"
  using s c k inj_update [OF _ a] unfolding emutls_inv_def b h same ran_update by blast

lemma offset_inv:
  assumes s: "emutls_inv s" and r: "emutls_offset obj s = Some (off, s1)"
  shows "emutls_inv s1" and "off = offset_of (objects s1 obj)" and "0 < unat off" and "unat off \<le> unat (emutls_object_count s1)"
    and "arrays s1 = arrays s" and "heap s1 = heap s" and "copy_of s1 t o' = copy_of s t o'"
    and "offset_of (objects s obj) \<noteq> 0 \<Longrightarrow> s1 = s"
proof -
  let ?n = "emutls_object_count s"
  show arr: "arrays s1 = arrays s" "heap s1 = heap s" "offset_of (objects s obj) \<noteq> 0 \<Longrightarrow> s1 = s"
    using r by (auto simp: emutls_offset_def Let_def split: if_splits)
  have block: "block s1 = block s"
  proof
    fix x show "block s1 x = block s x" by (cases x) (simp_all add: slot_def arr)
  qed
  have slot: "slot s1 = slot s" by (simp add: slot_def arr fun_eq_iff)
  have main: "emutls_inv s1 \<and> off = offset_of (objects s1 obj) \<and> 0 < unat off \<and> unat off \<le> unat (emutls_object_count s1) \<and>
      copy_of s1 t o' = copy_of s t o'"
  proof (cases "offset_of (objects s obj) = 0")
    case False
    then have "s1 = s" "off = offset_of (objects s obj)" using r by (auto simp: emutls_offset_def)
    then show "emutls_inv s1 \<and> off = offset_of (objects s1 obj) \<and> 0 < unat off \<and> unat off \<le> unat (emutls_object_count s1) \<and>
        copy_of s1 t o' = copy_of s t o'"
      using s False by (auto simp: emutls_inv_def unat_gt_0 word_le_nat_alt)
  next
    case True
    then have n: "?n \<noteq> SIZE_MAX" "off = ?n + 1"
      and s1: "s1 = s\<lparr>emutls_object_count := ?n + 1, objects := (objects s)(obj := (objects s obj)\<lparr>offset_of := ?n + 1\<rparr>)\<rparr>"
      using r by (auto simp: emutls_offset_def Let_def split: if_splits)
    have lt: "unat ?n < 2 ^ 32 - 1"
    proof -
      have "unat ?n \<noteq> unat SIZE_MAX" using n(1) by (simp add: word_unat_eq_iff)
      moreover have "unat ?n < 2 ^ 32" using unsigned_less [of ?n, where ?'a = nat] by simp
      ultimately show ?thesis by (simp add: SIZE_MAX_def)
    qed
    then have u: "unat (?n + 1) = unat ?n + 1" by (subst unat_add_small) simp_all
    have old: "unat (offset_of (objects s o1)) \<le> unat ?n" for o1 using s by (simp add: emutls_inv_def word_le_nat_alt)
    have new: "offset_of (objects s o1) \<noteq> ?n + 1" for o1 using old [of o1] u by auto
    have f: "emutls_object_count s1 = ?n + 1"
      "objects s1 = (objects s)(obj := (objects s obj)\<lparr>offset_of := ?n + 1\<rparr>)" by (simp_all add: s1)
    have "offset_of (objects s1 o1) = offset_of (objects s1 o2) \<Longrightarrow> offset_of (objects s1 o1) \<noteq> 0 \<Longrightarrow> o1 = o2" for o1 o2
      using s new [of o1] new [of o2] by (auto simp: f emutls_inv_def split: if_splits)
    moreover have "offset_of (objects s1 o1) \<le> ?n + 1" for o1
      using old [of o1] u by (simp add: f word_le_nat_alt)
    ultimately have "emutls_inv s1"
      using s u unfolding emutls_inv_def block slot arr f(1) by auto
    moreover have "copy_of s1 t o' = copy_of s t o'"
    proof (cases "o' = obj")
      case True
      have "slot s t (unat ?n) = None" using s by (simp add: emutls_inv_def)
      then show ?thesis using True \<open>offset_of (objects s obj) = 0\<close> u by (simp add: copy_of_def s1 slot_def)
    next
      case False
      then show ?thesis by (simp add: copy_of_def s1 slot_def)
    qed
    ultimately show "emutls_inv s1 \<and> off = offset_of (objects s1 obj) \<and> 0 < unat off \<and> unat off \<le> unat (emutls_object_count s1) \<and>
        copy_of s1 t o' = copy_of s t o'"
      using n u by (simp add: s1)
  qed
  then show "emutls_inv s1" "off = offset_of (objects s1 obj)" "0 < unat off" "unat off \<le> unat (emutls_object_count s1)"
    "copy_of s1 t o' = copy_of s t o'" by blast+
qed

lemma array_step:
  assumes s: "emutls_inv s" and law: "malloc_law malloc"
    and m: "malloc bytes (heap s - (case arrays s t of None \<Rightarrow> {} | Some array \<Rightarrow> {array_address array})) = Some a"
    and s2: "s2 = s\<lparr>arrays := (arrays s)(t \<mapsto> \<lparr>array_address = a, entries = es\<rparr>),
      heap := insert a (heap s - (case arrays s t of None \<Rightarrow> {} | Some array \<Rightarrow> {array_address array}))\<rparr>"
    and es: "length es < 2 ^ 31" "\<And>k. (if k < length es then es ! k else None) = slot s t k"
  shows "emutls_inv s2" and "slot s2 = slot s"
proof -
  have "slot s2 t k = (if k < length es then es ! k else None)" for k by (simp add: slot_def s2)
  then have "slot s2 t k = slot s t k" for k using es(2) by simp
  moreover have "slot s2 u k = slot s u k" if "u \<noteq> t" for u k using that by (simp add: slot_def s2)
  ultimately show slot: "slot s2 = slot s" by (metis ext)
  have block: "block s2 = (block s)(Array_Of t \<mapsto> a)"
  proof
    fix x show "block s2 x = ((block s)(Array_Of t \<mapsto> a)) x" by (cases x) (auto simp: slot, simp_all add: s2)
  qed
  have rest: "ran ((block s)(Array_Of t := None)) = heap s - (case arrays s t of None \<Rightarrow> {} | Some array \<Rightarrow> {array_address array})"
  proof (cases "arrays s t")
    case None
    then have "(block s)(Array_Of t := None) = block s" by (intro fun_upd_idem) simp
    then show ?thesis using None s by (simp add: emutls_inv_def)
  next
    case (Some array)
    then show ?thesis using s ran_remove [of "block s" "Array_Of t" "array_address array"] by (simp add: emutls_inv_def)
  qed
  have fresh: "a \<notin> ran ((block s)(Array_Of t := None))" using law m unfolding malloc_law_def rest by blast
  show "emutls_inv s2"
  proof (rule block_update_inv [OF s block fresh])
    show "heap s2 = insert a (ran ((block s)(Array_Of t := None)))" by (simp add: s2 rest)
    show "capacity array < 2 ^ 31" if "arrays s2 t' = Some array" for t' array
      using that s es(1) by (auto simp: s2 emutls_inv_def split: if_splits)
    show "slot s2 t' k = None" if "unat (emutls_object_count s) \<le> k" for t' k
      using that s by (simp add: slot emutls_inv_def)
  qed (simp_all add: s2)
qed

lemma storage_inv:
  assumes s: "emutls_inv s" and law: "malloc_law malloc" and r: "emutls_storage malloc t off s = Some (array, s2)"
  shows "emutls_inv s2" and "slot s2 = slot s" and "arrays s2 t = Some array" and "unat off \<le> capacity array"
    and "objects s2 = objects s" and "emutls_object_count s2 = emutls_object_count s"
    and "arrays s t = Some old \<Longrightarrow> unat off \<le> capacity old \<Longrightarrow> s2 = s"
proof -
  have "emutls_inv s2 \<and> slot s2 = slot s \<and> arrays s2 t = Some array \<and> unat off \<le> capacity array \<and>
      objects s2 = objects s \<and> emutls_object_count s2 = emutls_object_count s"
  proof (cases "arrays s t")
    case None
    then obtain bytes a where b: "emutls_array_size (off + 32) = Some bytes" "malloc bytes (heap s) = Some a" "\<not> off > SIZE_MAX - 32"
      and e: "array = \<lparr>array_address = a, entries = replicate (unat (off + 32)) None\<rparr>"
      "s2 = s\<lparr>arrays := (arrays s)(t \<mapsto> array), heap := insert a (heap s)\<rparr>"
      using r by (auto simp: emutls_storage_def allocate_emutls_array_def Let_def split: option.splits if_splits)
    have u: "unat (off + 32) = unat off + 32" using b(3) by (subst unat_add_small) (simp_all add: word_less_nat_alt SIZE_MAX_def)
    have step: "emutls_inv s2" "slot s2 = slot s"
      by (rule array_step [OF s law, where t = t and a = a and bytes = bytes and es = "replicate (unat (off + 32)) None"];
        use array_size_bound [OF b(1)] b(2) None e in \<open>simp add: slot_def\<close>)+
    then show ?thesis using u e step by simp
  next
    case (Some old)
    show ?thesis
    proof (cases "unat off > capacity old")
      case False
      then show ?thesis using r Some s by (auto simp: emutls_storage_def)
    next
      case True
      let ?old = "of_nat (capacity old) :: u32"
      define doubled where "doubled = (if ?old \<le> SIZE_MAX div 2 then ?old * 2 else off)"
      define new where "new = (if doubled < off then off + 32 else doubled)"
      let ?rest = "heap s - {array_address old}"
      have grow: "grow_emutls_array malloc old off (heap s) =
          (if doubled < off \<and> off > SIZE_MAX - 32 then None
           else case emutls_array_size new of
             None \<Rightarrow> None
           | Some bytes \<Rightarrow>
               (case malloc bytes ?rest of
                  None \<Rightarrow> None
                | Some a \<Rightarrow> Some (\<lparr>array_address = a, entries = entries old @ replicate (unat new - capacity old) None\<rparr>,
                    insert a ?rest)))"
        unfolding grow_emutls_array_def Let_def new_def doubled_def by (rule refl)
      obtain bytes a where b: "emutls_array_size new = Some bytes" "malloc bytes ?rest = Some a" "\<not> (doubled < off \<and> off > SIZE_MAX - 32)"
        and e: "array = \<lparr>array_address = a, entries = entries old @ replicate (unat new - capacity old) None\<rparr>"
        "s2 = s\<lparr>arrays := (arrays s)(t \<mapsto> array), heap := insert a ?rest\<rparr>"
        using r Some True by (auto simp: emutls_storage_def Let_def grow split: option.splits if_splits)
      have u: "unat off \<le> unat new"
      proof (cases "doubled < off")
        case True
        then have "unat (off + 32) = unat off + 32" using b(3) by (subst unat_add_small) (simp_all add: word_less_nat_alt SIZE_MAX_def)
        then show ?thesis using True by (simp add: new_def)
      next
        case False
        then show ?thesis by (simp add: new_def word_less_nat_alt)
      qed
      have cap: "capacity old < 2 ^ 31" using s Some by (simp add: emutls_inv_def)
      have bound: "capacity old + (unat new - capacity old) < 2 ^ 31" using array_size_bound [OF b(1)] cap by linarith
      have step: "emutls_inv s2" "slot s2 = slot s"
        by (rule array_step [OF s law, where t = t and a = a and bytes = bytes and
            es = "entries old @ replicate (unat new - capacity old) None"];
          use bound b(2) Some e in \<open>simp add: slot_def nth_append\<close>)+
      then show ?thesis using u e step by simp
    qed
  qed
  then show "emutls_inv s2" "slot s2 = slot s" "arrays s2 t = Some array" "unat off \<le> capacity array"
    "objects s2 = objects s" "emutls_object_count s2 = emutls_object_count s" by blast+
  show "arrays s t = Some old \<Longrightarrow> unat off \<le> capacity old \<Longrightarrow> s2 = s" using r by (simp add: emutls_storage_def)
qed

lemma copies_distinct:
  assumes s: "emutls_inv s" and c: "copy_of s t o1 = Some c" and d: "copy_of s u o2 = Some d" and ne: "(u, o2) \<noteq> (t, o1)"
  shows "allocation c \<noteq> allocation d"
proof
  assume e: "allocation c = allocation d"
  let ?k = "\<lambda>obj. unat (offset_of (objects s obj)) - 1"
  have nz: "offset_of (objects s o1) \<noteq> 0" "offset_of (objects s o2) \<noteq> 0" using c d by (auto simp: copy_of_def split: if_splits)
  then have b: "block s (Copy_Of t (?k o1)) = Some (allocation c)" "block s (Copy_Of u (?k o2)) = Some (allocation d)"
    using c d by (simp_all add: copy_of_def)
  have "inj_on (block s) (dom (block s))" using s by (simp add: emutls_inv_def)
  from inj_onD [OF this, of "Copy_Of t (?k o1)" "Copy_Of u (?k o2)"] have "Copy_Of t (?k o1) = Copy_Of u (?k o2)"
    using b e by (simp only: domI) 
  moreover have "0 < unat (offset_of (objects s o1))" "0 < unat (offset_of (objects s o2))" using nz by (simp_all add: unat_gt_0)
  ultimately have "t = u" "offset_of (objects s o1) = offset_of (objects s o2)" by (auto simp: word_unat_eq_iff)
  then show False using s nz ne by (auto simp: emutls_inv_def)
qed

text \<open>A new copy in a free slot of the thread's array.\<close>

lemma fresh_copy:
  assumes inv: "emutls_inv s" and law: "malloc_law malloc" and a: "arrays s t = Some array"
    and off: "offset_of (objects s obj) = off" "0 < unat off" "unat off \<le> unat (emutls_object_count s)" "unat off \<le> capacity array"
    and free: "entries array ! (unat off - 1) = None"
    and c: "allocate_emutls_object malloc (objects s obj) (heap s) = Some (c, used)"
    and s': "s' = s\<lparr>arrays := (arrays s)(t \<mapsto> array\<lparr>entries := (entries array)[unat off - 1 := Some c]\<rparr>), heap := used\<rparr>"
  shows "emutls_inv s'" and "copy_of s' t obj = Some c" and "(u, o') \<noteq> (t, obj) \<Longrightarrow> copy_of s' u o' = copy_of s u o'"
proof -
  let ?k = "unat off - 1"
  have k: "?k < capacity array" "slot s t ?k = None" using a off free by (auto simp: slot_def)
  have nz: "off \<noteq> 0" using off(2) by auto
  note placed = emutls_object_placed [OF law c]
  have slot: "slot s' v j = (if v = t \<and> j = ?k then Some c else slot s v j)" for v j
    using k a by (auto simp: s' slot_def nth_list_update)
  have block: "block s' = (block s)(Copy_Of t ?k \<mapsto> allocation c)"
  proof
    fix x show "block s' x = ((block s)(Copy_Of t ?k \<mapsto> allocation c)) x"
      using a by (cases x) (auto simp: slot, auto simp: s')
  qed
  have gone: "(block s)(Copy_Of t ?k := None) = block s" using k by (intro fun_upd_idem) simp
  have h: "heap s = ran (block s)" using inv by (simp add: emutls_inv_def)
  show "emutls_inv s'"
  proof (rule block_update_inv [OF inv block])
    show "allocation c \<notin> ran ((block s)(Copy_Of t ?k := None))" using placed h gone by simp
    show "heap s' = insert (allocation c) (ran ((block s)(Copy_Of t ?k := None)))" using placed h gone by (simp add: s')
    show "capacity b < 2 ^ 31" if "arrays s' v = Some b" for v b
      using that inv a by (auto simp: s' emutls_inv_def split: if_splits)
    show "slot s' v j = None" if "unat (emutls_object_count s) \<le> j" for v j
      using that inv off(2,3) by (auto simp: slot emutls_inv_def)
  qed (simp_all add: s')
  show "copy_of s' t obj = Some c" using off nz by (simp add: copy_of_def slot) (simp add: s' off)
  show "copy_of s' u o' = copy_of s u o'" if ne: "(u, o') \<noteq> (t, obj)"
  proof -
    have "\<not> (u = t \<and> unat (offset_of (objects s o')) - 1 = ?k)" if o0: "offset_of (objects s o') \<noteq> 0"
    proof
      assume e: "u = t \<and> unat (offset_of (objects s o')) - 1 = ?k"
      moreover have "0 < unat (offset_of (objects s o'))" using o0 by (simp add: unat_gt_0)
      ultimately have "unat (offset_of (objects s o')) = unat off" using off(2) by linarith
      then have "offset_of (objects s o') = off" by (simp add: word_unat_eq_iff)
      then have "o' = obj" using inv off(1) nz by (auto simp: emutls_inv_def)
      then show False using e ne by simp
    qed
    then show ?thesis by (simp add: copy_of_def slot) (auto simp: s')
  qed
qed

text \<open>
  C20. A thread that asks for an object gets the address of its own copy. If it had one, nothing is
  changed and the answer is the same; otherwise it gets a new one. The copies of all other
  objects and all other threads stay what and where they are, and no two copies share an allocation. Each
  address in use is that of one array or one copy.\<close>

theorem emutls_private_copy:
  assumes s: "emutls_inv s" and law: "malloc_law malloc" and r: "emutls_get_address malloc t obj s = Some (p, s')"
  shows "emutls_inv s' \<and> (\<exists>c. copy_of s' t obj = Some c \<and> address c = p) \<and>
    (copy_of s t obj \<noteq> None \<longrightarrow> s' = s) \<and>
    (\<forall>u o'. (u, o') \<noteq> (t, obj) \<longrightarrow> copy_of s' u o' = copy_of s u o') \<and>
    (\<forall>u o' c d. (u, o') \<noteq> (t, obj) \<longrightarrow> copy_of s' t obj = Some c \<longrightarrow> copy_of s' u o' = Some d \<longrightarrow>
      allocation c \<noteq> allocation d)"
proof -
  obtain off s1 where o: "emutls_offset obj s = Some (off, s1)"
    using r by (auto simp: emutls_get_address_def split: option.splits)
  note i1 = offset_inv [OF s o]
  obtain array s2 where st: "emutls_storage malloc t off s1 = Some (array, s2)"
    using r o by (auto simp: emutls_get_address_def split: option.splits)
  note i2 = storage_inv [OF i1(1) law st]
  let ?k = "unat off - 1"
  have k: "?k < capacity array" "slot s2 t ?k = entries array ! ?k" using i2(3,4) i1(3) by (auto simp: slot_def)
  have off: "offset_of (objects s2 obj) = off" "off \<noteq> 0" using i1(2,3) i2(5) by auto
  have same: "copy_of s2 u o' = copy_of s u o'" for u o'
  proof -
    have "copy_of s2 u o' = copy_of s1 u o'" by (simp add: copy_of_def i2(2,5))
    then show ?thesis by (simp add: i1(7))
  qed
  have own: "copy_of s2 t obj = entries array ! ?k" using off k by (simp add: copy_of_def)
  have main: "emutls_inv s' \<and> (\<exists>c. copy_of s' t obj = Some c \<and> address c = p) \<and>
      (copy_of s t obj \<noteq> None \<longrightarrow> s' = s) \<and> (\<forall>u o'. (u, o') \<noteq> (t, obj) \<longrightarrow> copy_of s' u o' = copy_of s u o')"
  proof (cases "entries array ! ?k")
    case (Some c)
    then have e: "s' = s2" "p = address c" using r o st by (auto simp: emutls_get_address_def Let_def)
    have "s' = s" if "copy_of s t obj \<noteq> None"
    proof -
      from that have nz: "offset_of (objects s obj) \<noteq> 0" and "slot s t (unat (offset_of (objects s obj)) - 1) \<noteq> None"
        by (auto simp: copy_of_def split: if_splits)
      moreover have s1: "s1 = s" by (rule i1(8) [OF nz])
      ultimately obtain old where "arrays s1 t = Some old" "?k < capacity old"
        using i1(2) by (auto simp: slot_def split: option.splits if_splits)
      then show ?thesis using i2(7) [of old] i1(3) e s1 by simp
    qed
    then show ?thesis using i2(1) own same Some e by auto
  next
    case None
    then obtain c used where c: "allocate_emutls_object malloc (objects s2 obj) (heap s2) = Some (c, used)"
      and s': "s' = s2\<lparr>arrays := (arrays s2)(t \<mapsto> array\<lparr>entries := (entries array)[?k := Some c]\<rparr>), heap := used\<rparr>" "p = address c"
      using r o st by (auto simp: emutls_get_address_def Let_def split: option.splits)
    have "unat off \<le> unat (emutls_object_count s2)" using i1(4) i2(6) by simp
    note new = fresh_copy [OF i2(1) law i2(3) off(1) i1(3) this i2(4) None c s'(1)]
    have "copy_of s' u o' = copy_of s u o'" if "(u, o') \<noteq> (t, obj)" for u o'
      using new(3) [OF that] by (simp add: same)
    moreover have "copy_of s t obj = None" using own None same by simp
    ultimately show ?thesis using s'(2) new(1,2) by auto
  qed
  then show ?thesis using copies_distinct [of s' t obj] by blast
qed

section \<open>Giving the storage back\<close>

lemma entries_ran: "arrays s t = Some array \<Longrightarrow>
  allocation ` set (List.map_filter (\<lambda>e. e) (entries array)) = {a. \<exists>k. block s (Copy_Of t k) = Some a}"
proof -
  assume a: "arrays s t = Some array"
  have m: "c \<in> set (List.map_filter (\<lambda>e. e) es) \<longleftrightarrow> (\<exists>k<length es. es ! k = Some c)" for c and es :: "emutls_copy option list"
  proof -
    have "c \<in> set (List.map_filter (\<lambda>e. e) es) \<longleftrightarrow> Some c \<in> set es" by (force simp: List.map_filter_def)
    then show ?thesis by (simp add: in_set_conv_nth)
  qed
  have b: "block s (Copy_Of t k) = Some b \<longleftrightarrow> (k < capacity array \<and> (\<exists>c. entries array ! k = Some c \<and> allocation c = b))" for k b
    by (simp add: slot_def a)
  show ?thesis unfolding set_eq_iff image_iff Bex_def m mem_Collect_eq b by blast
qed

text \<open>
  A thread that ends gives back all of its storage and nothing else: afterwards it has no
  copy, the other threads have theirs, and the addresses in use are exactly those of the
  other threads' arrays and copies.\<close>

theorem emutls_destroyed:
  assumes "emutls_inv s"
  shows "emutls_inv (destroy_emutls t s) \<and> (\<forall>obj. copy_of (destroy_emutls t s) t obj = None) \<and>
    (\<forall>u obj. u \<noteq> t \<longrightarrow> copy_of (destroy_emutls t s) u obj = copy_of s u obj) \<and>
    heap (destroy_emutls t s) = heap s - ({a. \<exists>k. block s (Copy_Of t k) = Some a} \<union> {a. block s (Array_Of t) = Some a})"
proof -
  let ?s = "destroy_emutls t s"
  have f: "arrays ?s = (arrays s)(t := None)" "objects ?s = objects s" "emutls_object_count ?s = emutls_object_count s"
    by (cases "arrays s t"; simp add: destroy_emutls_def fun_upd_idem)+
  have slot: "slot ?s u k = (if u = t then None else slot s u k)" for u k by (simp add: slot_def f)
  let ?of = "\<lambda>x. case x of Array_Of u \<Rightarrow> u = t | Copy_Of u k \<Rightarrow> u = t"
  have block: "block ?s x = (if ?of x then None else block s x)" for x by (cases x) (simp_all add: f slot)
  have h: "heap ?s = heap s - ({a. \<exists>k. block s (Copy_Of t k) = Some a} \<union> {a. block s (Array_Of t) = Some a})"
  proof (cases "arrays s t")
    case None
    then show ?thesis by (simp add: destroy_emutls_def slot_def)
  next
    case (Some array)
    then show ?thesis using entries_ran [OF Some] by (auto simp: destroy_emutls_def)
  qed
  have inj: "inj_on (block s) (dom (block s))" and hr: "heap s = ran (block s)" using assms by (simp_all add: emutls_inv_def)
  have "heap ?s = ran (block ?s)"
  proof (intro set_eqI iffI)
    fix a assume "a \<in> heap ?s"
    then obtain x where x: "block s x = Some a" "\<And>k. x \<noteq> Copy_Of t k" "x \<noteq> Array_Of t"
      unfolding h hr ran_def by blast
    have "\<not> ?of x" using x(2,3) by (cases x) auto
    then have "block ?s x = Some a" unfolding block using x(1) by (simp only: if_False)
    then show "a \<in> ran (block ?s)" by (rule ranI)
  next
    fix a assume "a \<in> ran (block ?s)"
    then obtain x where "block ?s x = Some a" unfolding ran_def by blast
    then have x: "block s x = Some a" "\<not> ?of x" unfolding block by (simp_all split: if_splits)
    have "y = x" if "block s y = Some a" for y using inj_onD [OF inj, of y x] that x(1) by (simp add: domI)
    then have "block s (Copy_Of t k) \<noteq> Some a" "block s (Array_Of t) \<noteq> Some a" for k
      using x(2) by force+
    then show "a \<in> heap ?s" using ranI [of "block s", OF x(1)] unfolding h hr by blast
  qed
  moreover have "inj_on (block ?s) (dom (block ?s))"
    using inj by (auto simp: inj_on_def dom_def block split: if_splits)
  ultimately have "emutls_inv ?s" using assms by (auto simp: emutls_inv_def f slot split: if_splits)
  then show ?thesis using h by (simp add: copy_of_def slot f)
qed

section \<open>Examples\<close>

definition shelf :: allocator where
  "shelf n used = find (\<lambda>a. a \<notin> used \<and> unat a + unat n < 2 ^ 32) [0x1001, 0x2002, 0x3003]"

lemma shelf_law: "malloc_law shelf"
  by (auto simp: malloc_law_def shelf_def find_Some_iff)

definition counter_object :: emutls_object where
  "counter_object = \<lparr>size_of = 4, alignment_of = 8, offset_of = 0, initializer_of = None\<rparr>"

definition fresh_emutls :: emutls where
  "fresh_emutls = \<lparr>objects = (\<lambda>_. counter_object), emutls_object_count = 0, arrays = (\<lambda>_. None), heap = {}\<rparr>"

lemma fresh_emutls_inv: "emutls_inv fresh_emutls"
proof -
  have "block fresh_emutls x = None" for x by (cases x) (simp_all add: fresh_emutls_def slot_def)
  then have b: "block fresh_emutls = Map.empty" by (rule ext)
  show ?thesis unfolding emutls_inv_def b by (simp add: fresh_emutls_def counter_object_def slot_def)
qed

lemma shelf_answers: "shelf 15 {} = Some 0x1001" "shelf 136 {} = Some 0x1001" "shelf 15 {0x1001} = Some 0x2002"
  by (simp_all add: shelf_def)

lemma counter_copy:
  "allocate_emutls_object shelf counter_object {} =
     Some (\<lparr>allocation = 0x1001, address = 0x1008, contents = replicate 4 0\<rparr>, {0x1001})"
  "allocate_emutls_object shelf (counter_object\<lparr>offset_of := 1\<rparr>) {0x1001} =
     Some (\<lparr>allocation = 0x2002, address = 0x2008, contents = replicate 4 0\<rparr>, {0x2002, 0x1001})"
  by (simp_all add: allocate_emutls_object_def counter_object_def SIZE_MAX_def SIZEOF_POINTER_def shelf_answers)

lemma emutls_object_placed_witness:
  "\<exists>c used. allocate_emutls_object shelf counter_object {} = Some (c, used) \<and> unat (address c) mod 8 = 0"
  using emutls_object_placed [OF shelf_law counter_copy(1)] counter_copy(1) by (simp add: counter_object_def)

definition served_emutls :: emutls where
  "served_emutls = fresh_emutls\<lparr>emutls_object_count := 1,
     objects := (objects fresh_emutls)(0 := counter_object\<lparr>offset_of := 1\<rparr>)\<rparr>"

lemma first_array: "allocate_emutls_array shelf 33 {} =
    Some (\<lparr>array_address = 0x1001, entries = replicate 33 None\<rparr>, {0x1001})"
proof -
  have "emutls_array_size 33 = Some 136"
    by (simp add: emutls_array_size_def SIZE_MAX_def SIZEOF_POINTER_def SIZEOF_ARRAY_def)
  then show ?thesis by (simp add: allocate_emutls_array_def shelf_answers(2))
qed

lemma first_storage: "emutls_storage shelf (Some 2) 1 served_emutls =
    Some (\<lparr>array_address = 0x1001, entries = replicate 33 None\<rparr>,
          served_emutls\<lparr>arrays := Map.empty(Some 2 \<mapsto> \<lparr>array_address = 0x1001, entries = replicate 33 None\<rparr>),
                        heap := {0x1001}\<rparr>)"
proof -
  have "arrays served_emutls = Map.empty" "heap served_emutls = {}"
    by (simp_all add: served_emutls_def fresh_emutls_def)
  then show ?thesis by (simp add: emutls_storage_def first_array SIZE_MAX_def)
qed

lemma first_address: "\<exists>s. emutls_get_address shelf (Some 2) 0 fresh_emutls = Some (0x2008, s)"
proof -
  have 1: "emutls_offset 0 fresh_emutls = Some (1, served_emutls)"
    by (simp add: emutls_offset_def served_emutls_def fresh_emutls_def counter_object_def SIZE_MAX_def)
  have 2: "objects served_emutls 0 = counter_object\<lparr>offset_of := 1\<rparr>" by (simp add: served_emutls_def)
  have 3: "replicate 33 None ! 0 = (None :: emutls_copy option)" by (rule nth_replicate) simp
  show ?thesis
    by (simp add: emutls_get_address_def 1 first_storage 2 3 counter_copy(2))
qed

lemma emutls_private_copy_witness: "\<exists>p s. emutls_get_address shelf (Some 2) 0 fresh_emutls = Some (p, s) \<and>
    emutls_inv s \<and> (\<exists>c. copy_of s (Some 2) 0 = Some c \<and> address c = p)"
proof -
  obtain p s where r: "emutls_get_address shelf (Some 2) 0 fresh_emutls = Some (p, s)" using first_address by blast
  note e = emutls_private_copy [OF fresh_emutls_inv shelf_law r]
  show ?thesis by (rule exI [of _ p], rule exI [of _ s]) (simp add: r conjunct1 [OF e] conjunct1 [OF conjunct2 [OF e]])
qed

lemma emutls_destroyed_witness: "emutls_inv (destroy_emutls (Some 2) fresh_emutls)"
  using emutls_destroyed [OF fresh_emutls_inv] by blast

end
