(* ===== verification/Block_Properties.thy ===== *)
theory Block_Properties
  imports Thread_Block Thread_Local_Properties "HOL-Library.Multiset"
begin

text \<open>
  The block of a thread lies inside its allocation, aligned, and holds the linker's image; and a
  thread that ends runs every destructor that was registered, the last one first, those
  registered by a destructor included, and comes to an end when the registrations do.
\<close>

section \<open>The block of a thread\<close>

lemma tls_size_total:
  assumes "tls_layout_valid img" and w: "unat (tcb_offset img) + unat (tls_align img) \<le> 2 ^ 32"
  shows "unat (tcb_offset img + tls_size img + tls_align img - 1) =
    unat (tcb_offset img) + unat (tls_size img) + unat (tls_align img) - 1"
    and "0 < unat (tls_align img)" and "unat (tls_align img) \<le> unat (tcb_offset img)"
proof -
  let ?a = "tls_align img" and ?o = "tcb_offset img" and ?n = "tls_size img"
  have ok: "?a \<noteq> 0" "\<not> ?o < ?a" "\<not> ?n > SIZE_MAX - ?o - (?a - 1)"
    using assms by (simp_all add: tls_layout_valid_def)
  show a0: "0 < unat ?a" using ok(1) by (simp add: unat_gt_0)
  show oa: "unat ?a \<le> unat ?o" using ok(2) by (simp add: word_le_nat_alt not_less)
  have a1: "unat (?a - 1) = unat ?a - 1" using a0 by (subst unat_sub_small) simp_all
  have o1: "unat (SIZE_MAX - ?o) = 2 ^ 32 - 1 - unat ?o"
    using unsigned_less [of ?o, where ?'a = nat] by (subst unat_sub_small) (simp_all add: SIZE_MAX_def)
  have "unat (SIZE_MAX - ?o - (?a - 1)) = 2 ^ 32 - 1 - unat ?o - (unat ?a - 1)"
    using w a0 a1 o1 by (subst unat_sub_small) simp_all
  then have n: "unat ?n + (unat ?o + (unat ?a - 1)) < 2 ^ 32"
    using ok(3) w a0 by (simp add: word_le_nat_alt not_less)
  have "unat (?o + ?n) = unat ?o + unat ?n" using n by (subst unat_add_small) simp_all
  then have "unat (?o + ?n + (?a - 1)) = unat ?o + unat ?n + (unat ?a - 1)"
    using n a1 by (subst unat_add_small) simp_all
  moreover have "?o + ?n + ?a - 1 = ?o + ?n + (?a - 1)" by simp
  ultimately show "unat (?o + ?n + ?a - 1) = unat ?o + unat ?n + unat ?a - 1" using a0 by (simp only:)
qed

text \<open>
  C21. The block of a new thread starts at a multiple of the image's alignment, and its control
  block and its data lie inside the allocation made for them; the data are the initialised part of the
  image, followed by zeroes up to the image's size; the thread reads this block as its thread pointer,
  and no other thread's fields change. The image is assumed to have its control block's offset and its
  alignment together within the address space, which the code's own test does not cover.\<close>

theorem tls_block_placed:
  assumes law: "malloc_law malloc" and w: "unat (tcb_offset img) + unat (tls_align img) \<le> 2 ^ 32"
    and r: "runtime_tls_thread_create img malloc t s = Some s'"
  shows "\<exists>a p. tls_allocation (tls_threads s' t) = Some a \<and> runtime_tls_read_thread_pointer img (Some t) s' = Some p \<and>
    unat p mod unat (tls_align img) = 0 \<and> unat a \<le> unat p \<and>
    unat p + unat (tcb_offset img) + unat (tls_size img) \<le>
      unat a + unat (tcb_offset img + tls_size img + tls_align img - 1) \<and>
    a \<notin> heap (emulated s) \<and> heap (emulated s') = insert a (heap (emulated s)) \<and>
    length (tls_data (tls_threads s' t)) = unat (tls_size img) \<and>
    take (length (tdata_source img)) (tls_data (tls_threads s' t)) = tdata_source img \<and>
    (\<forall>b \<in> set (drop (length (tdata_source img)) (tls_data (tls_threads s' t))). b = 0) \<and>
    (\<forall>u. u \<noteq> t \<longrightarrow> tls_threads s' u = tls_threads s u)"
proof -
  let ?a = "tls_align img" and ?o = "tcb_offset img" and ?n = "tls_size img"
  have v: "tls_layout_valid img" using r by (auto simp: runtime_tls_thread_create_def split: if_splits)
  obtain m bytes where m: "malloc (?o + ?n + ?a - 1) (heap (emulated s)) = Some m" and b: "initialize_tls_data img = Some bytes"
    and s': "tls_threads s' = (tls_threads s)(t := \<lparr>tls_allocation = Some m, tls_block = Some ((m + ?a - 1) AND NOT (?a - 1)),
        tls_data = bytes, destructors = []\<rparr>)" "heap (emulated s') = insert m (heap (emulated s))"
    using r v by (auto simp: runtime_tls_thread_create_def Let_def split: option.splits)
  note total = tls_size_total [OF v w]
  obtain k where k: "unat ?a = 2 ^ k"
    using word_power_of_two [of ?a] v unfolding tls_layout_valid_def by blast
  have fits: "unat m + (unat ?o + unat ?n + unat ?a - 1) < 2 ^ 32" "m \<notin> heap (emulated s)"
    using law m unfolding malloc_law_def total(1) [symmetric] by blast+
  have up: "unat ((m + ?a - 1) AND NOT (?a - 1)) = (unat m + unat ?a - 1) div unat ?a * unat ?a"
    by (rule round_up [OF k]) (use fits(1) total(2,3) in linarith)
  note bounds = round_up_bounds [OF total(2), of "unat m", folded up]
  have data: "bytes = tdata_source img @ replicate (unat ?n - length (tdata_source img)) 0"
    "length (tdata_source img) \<le> unat ?n"
    using b by (auto simp: initialize_tls_data_def split: if_splits)
  have "unat ((m + ?a - 1) AND NOT (?a - 1)) + unat ?o + unat ?n \<le> unat m + unat (?o + ?n + ?a - 1)"
    using bounds(3) unfolding total(1) by linarith
  then show ?thesis using bounds(1,2) fits(2) data
    by (intro exI [of _ m] exI [of _ "(m + ?a - 1) AND NOT (?a - 1)"])
      (simp add: s' runtime_tls_read_thread_pointer_def)
qed

section \<open>Destructors\<close>

lemma push_registered: "push_registered new rest = rev new @ rest"
  by (induction new arbitrary: rest) (simp_all add: push_registered_def)

lemmas run_simps = run_destructors.simps [of _ "[]", simplified] run_destructors.simps [of _ "_ # _", simplified]

text \<open>A run ends when each destructor registers only destructors of a smaller rank.\<close>

definition registered_weight :: "(destructor \<Rightarrow> nat) \<Rightarrow> destructor list \<Rightarrow> nat multiset" where
  "registered_weight rank ds = mset (map rank ds)"

lemma run_destructors_returns:
  fixes rank :: "destructor \<Rightarrow> nat"
  assumes dec: "\<And>d e. e \<in> set (registers d) \<Longrightarrow> rank e < rank d"
  shows "\<exists>l. run_destructors registers ds = Some l"
proof (induction ds rule: wf_induct_rule [OF wf_inv_image [OF wf_mult [OF wf_less], where f = "registered_weight rank"]])
  case (1 ds)
  show ?case
  proof (cases ds)
    case Nil
    then show ?thesis by (simp add: run_simps)
  next
    case (Cons d rest)
    let ?next = "push_registered (registers d) rest"
    have "(registered_weight rank ?next, registered_weight rank ds) \<in> mult {(x, y). x < y}"
      using dec one_step_implies_mult [of "{#rank d#}" "mset (map rank (registers d))" "{(x, y). x < y}" "mset (map rank rest)"]
      by (simp add: registered_weight_def push_registered Cons add.commute)
    then have "\<exists>l. run_destructors registers ?next = Some l" by (intro 1) simp
    then show ?thesis by (auto simp: Cons run_simps)
  qed
qed

text \<open>What ran is what was registered before and what the destructors that ran registered.\<close>

lemma run_destructors_account:
  assumes "run_destructors registers ds = Some l"
  shows "mset l = mset ds + (\<Sum>d \<in># mset l. mset (registers d))"
proof (rule run_destructors.raw_induct [OF _ assms, where P = "\<lambda>registers ds l. mset l = mset ds + (\<Sum>d \<in># mset l. mset (registers d))"])
  fix self :: "(destructor \<Rightarrow> destructor list) \<Rightarrow> destructor list \<Rightarrow> destructor list option"
  fix registers :: "destructor \<Rightarrow> destructor list" and ds l
  assume IH: "\<And>registers ds l. self registers ds = Some l \<Longrightarrow> mset l = mset ds + (\<Sum>d \<in># mset l. mset (registers d))"
    and r: "(case ds of [] \<Rightarrow> Some [] | d # rest \<Rightarrow>
      Option.bind (self registers (push_registered (registers d) rest)) (\<lambda>executed. Some (d # executed))) = Some l"
  show "mset l = mset ds + (\<Sum>d \<in># mset l. mset (registers d))"
  proof (cases ds)
    case Nil
    then show ?thesis using r by simp
  next
    case (Cons d rest)
    then obtain l' where l: "self registers (push_registered (registers d) rest) = Some l'" "l = d # l'"
      using r by (auto split: bind_splits)
    have "mset l' = mset (registers d) + mset rest + (\<Sum>d \<in># mset l'. mset (registers d))"
      using IH [OF l(1)] by (simp add: push_registered)
    then show ?thesis by (simp add: l(2) Cons ac_simps)
  qed
qed

lemma run_destructors_quiet: "(\<And>d. d \<in> set ds \<Longrightarrow> registers d = []) \<Longrightarrow> run_destructors registers ds = Some ds"
  by (induction ds) (simp_all add: run_simps push_registered)

text \<open>
  C22. When what a destructor registers is of a smaller rank than itself, so that registrations come
  to an end, the exit of a thread returns: it runs each destructor on the thread's list, and each
  one registered by a destructor that ran, exactly as often as it was registered, and leaves the list
  empty and other threads as they were. When nothing is registered meanwhile, the order is that of the list,
  the last registered first.\<close>

theorem destructors_all_run:
  fixes rank :: "destructor \<Rightarrow> nat"
  assumes dec: "\<And>d e. e \<in> set (registers d) \<Longrightarrow> rank e < rank d"
  shows "\<exists>executed s'. runtime_tls_thread_exit registers t s = Some (executed, s') \<and>
    mset executed = mset (destructors (tls_threads s t)) + (\<Sum>d \<in># mset executed. mset (registers d)) \<and>
    destructors (tls_threads s' t) = [] \<and> (\<forall>u. u \<noteq> t \<longrightarrow> tls_threads s' u = tls_threads s u) \<and>
    ((\<forall>d \<in> set (destructors (tls_threads s t)). registers d = []) \<longrightarrow> executed = destructors (tls_threads s t))"
proof -
  let ?ds = "destructors (tls_threads s t)"
  obtain l where l: "run_destructors registers ?ds = Some l"
    using run_destructors_returns [of registers rank, OF dec] by blast
  have "l = ?ds" if "\<forall>d \<in> set ?ds. registers d = []"
    using run_destructors_quiet [of ?ds registers] that l by simp
  with run_destructors_account [OF l] show ?thesis by (simp add: runtime_tls_thread_exit_def l)
qed

section \<open>Examples\<close>

definition small_image :: tls_image where
  "small_image = \<lparr>tdata_source = [7, 8], tls_base = 0x20000008, tls_size = 6, tls_align = 8, tcb_offset = 8\<rparr>"

definition cleanup :: "u32 \<Rightarrow> destructor" where
  "cleanup n = \<lparr>function_of = n, object = 0\<rparr>"

text \<open>Destructor 2 registers destructor 1, and no other registers any.\<close>

definition chained :: "destructor \<Rightarrow> destructor list" where
  "chained d = (if function_of d = 2 then [cleanup 1] else [])"

definition fresh_tls :: tls where
  "fresh_tls = \<lparr>tls_threads = (\<lambda>_. \<lparr>tls_allocation = None, tls_block = None, tls_data = [], destructors = [cleanup 2, cleanup 3]\<rparr>),
     startup_destructors = [], startup_data = [], emulated = fresh_emutls\<rparr>"

lemma small_block: "\<exists>s'. runtime_tls_thread_create small_image shelf 2 fresh_tls = Some s'"
proof -
  have "tls_layout_valid small_image" by (simp add: tls_layout_valid_def small_image_def SIZE_MAX_def)
  moreover have "shelf 21 {} = Some 0x1001" by (simp add: shelf_def)
  ultimately show ?thesis
    by (simp add: runtime_tls_thread_create_def small_image_def fresh_tls_def fresh_emutls_def initialize_tls_data_def)
qed

lemma tls_block_placed_witness:
  "\<exists>s' p. runtime_tls_thread_create small_image shelf 2 fresh_tls = Some s' \<and>
     runtime_tls_read_thread_pointer small_image (Some 2) s' = Some p \<and> unat p mod 8 = 0"
proof -
  obtain s' where r: "runtime_tls_thread_create small_image shelf 2 fresh_tls = Some s'" using small_block by blast
  have w: "unat (tcb_offset small_image) + unat (tls_align small_image) \<le> 2 ^ 32"
    and a: "unat (tls_align small_image) = 8" by (simp_all add: small_image_def)
  obtain p where p: "runtime_tls_read_thread_pointer small_image (Some 2) s' = Some p"
    "unat p mod unat (tls_align small_image) = 0"
    using tls_block_placed [OF shelf_law w r] by (elim exE conjE)
  show ?thesis by (rule exI [of _ s'], rule exI [of _ p]) (use r p a in simp)
qed

lemma destructors_all_run_witness:
  "\<exists>executed s'. runtime_tls_thread_exit chained 2 fresh_tls = Some (executed, s') \<and> destructors (tls_threads s' 2) = []"
proof -
  have "e \<in> set (chained d) \<Longrightarrow> unat (function_of e) < unat (function_of d)" for d e
    by (auto simp: chained_def cleanup_def split: if_splits)
  from destructors_all_run [where rank = "\<lambda>d. unat (function_of d)" and registers = chained, OF this, of 2 fresh_tls]
  show ?thesis by blast
qed

end
