(* ===== verification/Atomics.thy ===== *)
theory Atomics
  imports Prelude
begin

text \<open>
  The atomic operations on 8-byte and on arbitrary objects of \<open>platform/runtime/libstdcxx/atomic.cpp\<close>, on a
  memory of bytes at 32-bit addresses. Each operation runs with the interrupts masked on a single core, so it
  is one step here; the memory order is ignored, as in the code. The loops write one byte at a time, so
  overlapping objects behave as they do in the code.
\<close>

section \<open>Bytes\<close>

type_synonym memory = "u32 \<Rightarrow> u8"

definition read_value :: "memory \<Rightarrow> u32 \<Rightarrow> u64" where
  "read_value m p = foldl (\<lambda>value i. value OR push_bit (i * 8) (ucast (m (p + of_nat i)))) 0 [0..<8]"

definition write_value :: "u32 \<Rightarrow> u64 \<Rightarrow> memory \<Rightarrow> memory" where
  "write_value p v m = foldl (\<lambda>m i. m(p + of_nat i := ucast (drop_bit (i * 8) v))) m [0..<8]"

definition copy_bytes :: "u32 \<Rightarrow> u32 \<Rightarrow> nat \<Rightarrow> memory \<Rightarrow> memory" where
  "copy_bytes destination source n m =
     foldl (\<lambda>m i. m(destination + of_nat i := m (source + of_nat i))) m [0..<n]"

definition equal_bytes :: "memory \<Rightarrow> u32 \<Rightarrow> u32 \<Rightarrow> nat \<Rightarrow> bool" where
  "equal_bytes m left right n = list_all (\<lambda>i. m (left + of_nat i) = m (right + of_nat i)) [0..<n]"

section \<open>Operations on eight bytes\<close>

definition fetch_update :: "(u64 \<Rightarrow> u64 \<Rightarrow> u64) \<Rightarrow> u32 \<Rightarrow> u64 \<Rightarrow> memory \<Rightarrow> u64 \<times> memory" where
  "fetch_update operation p operand m =
     (let previous = read_value m p in (previous, write_value p (operation previous operand) m))"

definition atomic_load_8 :: "u32 \<Rightarrow> memory \<Rightarrow> u64" where
  "atomic_load_8 p m = read_value m p"

definition atomic_store_8 :: "u32 \<Rightarrow> u64 \<Rightarrow> memory \<Rightarrow> memory" where
  "atomic_store_8 p v m = write_value p v m"

definition atomic_exchange_8 :: "u32 \<Rightarrow> u64 \<Rightarrow> memory \<Rightarrow> u64 \<times> memory" where
  "atomic_exchange_8 p v m = (let previous = read_value m p in (previous, write_value p v m))"

definition atomic_compare_exchange_8 :: "u32 \<Rightarrow> u32 \<Rightarrow> u64 \<Rightarrow> memory \<Rightarrow> bool \<times> memory" where
  "atomic_compare_exchange_8 p expected desired m =
     (let current = read_value m p
      in if current = read_value m expected then (True, write_value p desired m)
         else (False, write_value expected current m))"

text \<open>The operations the macro is expanded for.\<close>

datatype atomic_op = Op_Add | Op_Sub | Op_And | Op_Or | Op_Xor | Op_Nand

fun operation :: "atomic_op \<Rightarrow> u64 \<Rightarrow> u64 \<Rightarrow> u64" where
  "operation Op_Add left right = left + right"
| "operation Op_Sub left right = left - right"
| "operation Op_And left right = left AND right"
| "operation Op_Or left right = left OR right"
| "operation Op_Xor left right = left XOR right"
| "operation Op_Nand left right = NOT (left AND right)"

definition atomic_fetch_op_8 :: "atomic_op \<Rightarrow> u32 \<Rightarrow> u64 \<Rightarrow> memory \<Rightarrow> u64 \<times> memory" where
  "atomic_fetch_op_8 op = fetch_update (operation op)"

definition atomic_op_fetch_8 :: "atomic_op \<Rightarrow> u32 \<Rightarrow> u64 \<Rightarrow> memory \<Rightarrow> u64 \<times> memory" where
  "atomic_op_fetch_8 op p value m =
     (let (previous, m') = atomic_fetch_op_8 op p value m in (operation op previous value, m'))"

definition atomic_is_lock_free :: "nat \<Rightarrow> bool" where
  "atomic_is_lock_free n \<longleftrightarrow> n \<le> 4"

section \<open>Operations on any number of bytes\<close>

definition atomic_load :: "nat \<Rightarrow> u32 \<Rightarrow> u32 \<Rightarrow> memory \<Rightarrow> memory" where
  "atomic_load n object result m = copy_bytes result object n m"

definition atomic_store :: "nat \<Rightarrow> u32 \<Rightarrow> u32 \<Rightarrow> memory \<Rightarrow> memory" where
  "atomic_store n object value m = copy_bytes object value n m"

definition atomic_exchange :: "nat \<Rightarrow> u32 \<Rightarrow> u32 \<Rightarrow> u32 \<Rightarrow> memory \<Rightarrow> memory" where
  "atomic_exchange n object value result m =
     foldl (\<lambda>m i.
       let previous = m (object + of_nat i);
           m1 = m(object + of_nat i := m (value + of_nat i))
       in m1(result + of_nat i := previous)) m [0..<n]"

definition atomic_compare_exchange :: "nat \<Rightarrow> u32 \<Rightarrow> u32 \<Rightarrow> u32 \<Rightarrow> memory \<Rightarrow> bool \<times> memory" where
  "atomic_compare_exchange n object expected desired m =
     (if equal_bytes m object expected n then (True, copy_bytes object desired n m)
      else (False, copy_bytes expected object n m))"

section \<open>What the loops compute\<close>

lemma read_value_upto:
  fixes p :: u32
  assumes "k \<le> 8"
  shows "bit (foldl (\<lambda>value i. value OR push_bit (i * 8) (ucast (m (p + of_nat i)))) (0 :: u64) [0..<k]) n \<longleftrightarrow>
    n < k * 8 \<and> bit (m (p + of_nat (n div 8)) :: u8) (n mod 8)"
  using assms
proof (induction k)
  case 0
  show ?case by simp
next
  case (Suc k)
  let ?loop = "foldl (\<lambda>value i. value OR push_bit (i * 8) (ucast (m (p + of_nat i)))) (0 :: u64) [0..<k]"
  let ?b = "m (p + of_nat k)"
  have k: "k * 8 + 8 \<le> 64" using Suc.prems by simp
  have ih: "bit ?loop n \<longleftrightarrow> n < k * 8 \<and> bit (m (p + of_nat (n div 8))) (n mod 8)" using Suc by simp
  have pushed: "bit (push_bit (k * 8) (ucast ?b :: u64)) n \<longleftrightarrow> k * 8 \<le> n \<and> n < 64 \<and> bit ?b (n - k * 8)"
    unfolding bit_push_bit_iff bit_ucast_iff possible_bit_word by auto
  have high: "\<not> bit ?b (n - k * 8)" if "\<not> n < Suc k * 8" using that bit_imp_le_length [of ?b "n - k * 8"] by auto
  have "bit (?loop OR push_bit (k * 8) (ucast ?b)) n \<longleftrightarrow> n < Suc k * 8 \<and> bit (m (p + of_nat (n div 8))) (n mod 8)"
  proof (cases "k * 8 \<le> n \<and> n < Suc k * 8")
    case True
    then obtain r where "n = r + k * 8" "r < 8" using that [of "n - k * 8"] by auto
    then have "n div 8 = k" "n mod 8 = n - k * 8" by simp_all
    then show ?thesis using True k by (simp add: bit_or_iff ih pushed)
  next
    case False
    then show ?thesis using high by (auto simp only: bit_or_iff ih pushed not_le mult_Suc)
  qed
  then show ?case by simp
qed

lemma bit_read_value: "bit (read_value m p) n \<longleftrightarrow> n < 64 \<and> bit (m (p + of_nat (n div 8))) (n mod 8)"
  using read_value_upto [of 8 m p n] by (simp add: read_value_def)

lemma byte_read_value: "i < 8 \<Longrightarrow> ucast (drop_bit (i * 8) (read_value m p)) = m (p + of_nat i)"
proof (rule bit_eqI)
  fix j assume i: "i < 8" and j: "possible_bit TYPE(8 word) j"
  then have "(i * 8 + j) div 8 = i" "(i * 8 + j) mod 8 = j" "i * 8 + j < 64" by (simp_all add: possible_bit_word)
  then show "bit (ucast (drop_bit (i * 8) (read_value m p)) :: 8 word) j \<longleftrightarrow> bit (m (p + of_nat i)) j"
    using j by (simp add: bit_ucast_iff bit_drop_bit_eq bit_read_value possible_bit_word del: of_nat_add)
qed

text \<open>A loop that writes \<open>n\<close> bytes from an address on, none of which it reads.\<close>

lemma fill_bytes:
  fixes p :: u32
  assumes "n \<le> 2 ^ 32"
  shows "foldl (\<lambda>m i. m(p + of_nat i := f i)) m [0..<n] =
    (\<lambda>a. if unat (a - p) < n then f (unat (a - p)) else m a)"
  using assms
proof (induction n)
  case 0
  show ?case by simp
next
  case (Suc n)
  have "a = p + of_nat n \<longleftrightarrow> unat (a - p) = n" for a :: u32
  proof
    assume "unat (a - p) = n"
    then have "of_nat n = a - p" by auto
    then show "a = p + of_nat n" by simp
  qed (use Suc.prems in \<open>simp add: unat_of_nat_small\<close>)
  then show ?case using Suc by (auto simp: fun_eq_iff less_Suc_eq)
qed

definition apart :: "u32 \<Rightarrow> u32 \<Rightarrow> nat \<Rightarrow> bool" where
  "apart p q n \<longleftrightarrow> (\<forall>i < n. \<not> unat (q + of_nat i - p) < n)"

lemma copy_bytes_apart:
  assumes "apart destination source n" and "n \<le> 2 ^ 32"
  shows "copy_bytes destination source n m =
    (\<lambda>a. if unat (a - destination) < n then m (source + of_nat (unat (a - destination))) else m a)"
proof -
  have "foldl (\<lambda>m i. m(destination + of_nat i := m (source + of_nat i))) m [0..<k] =
      foldl (\<lambda>m' i. m'(destination + of_nat i := m (source + of_nat i))) m [0..<k]" if "k \<le> n" for k
    using that
  proof (induction k)
    case (Suc k)
    then have "\<not> unat (source + of_nat k - destination) < n" using assms(1) unfolding apart_def by (metis Suc_le_lessD)
    then have "\<not> unat (source + of_nat k - destination) < k" using Suc.prems by simp
    moreover have "foldl (\<lambda>m' i. m'(destination + of_nat i := m (source + of_nat i))) m [0..<k] =
        (\<lambda>a. if unat (a - destination) < k then m (source + of_nat (unat (a - destination))) else m a)"
      using Suc.prems assms(2) by (intro fill_bytes) simp
    ultimately show ?case using Suc by (simp del: fun_upd_apply)
  qed simp
  from this [of n] show ?thesis using fill_bytes [OF assms(2)] by (simp add: copy_bytes_def)
qed

lemma write_value_bytes:
  "write_value p v m = (\<lambda>a. if unat (a - p) < 8 then ucast (drop_bit (unat (a - p) * 8) v) else m a)"
  by (simp add: write_value_def fill_bytes)

lemma read_write_value: "read_value (write_value p v m) p = v"
proof (rule bit_eqI)
  fix n assume "possible_bit TYPE(64 word) n"
  then have n: "n < 64" by (simp add: possible_bit_word)
  then have "unat (of_nat (n div 8) :: u32) = n div 8" by (intro unat_of_nat_small) simp
  moreover have "n div 8 < 8" using n by simp
  ultimately show "bit (read_value (write_value p v m) p) n \<longleftrightarrow> bit v n"
    using n by (simp add: bit_read_value write_value_bytes bit_ucast_iff bit_drop_bit_eq)
qed

lemma equal_bytes_values: "equal_bytes m p q 8 \<longleftrightarrow> read_value m p = read_value m q"
proof
  assume "equal_bytes m p q 8"
  then have e: "m (p + of_nat (n div 8)) = m (q + of_nat (n div 8))" if "n < 64" for n
    using that by (auto simp: equal_bytes_def list_all_iff)
  show "read_value m p = read_value m q"
  proof (rule bit_eqI)
    fix n show "bit (read_value m p) n \<longleftrightarrow> bit (read_value m q) n" using e [of n] by (auto simp: bit_read_value)
  qed
next
  assume "read_value m p = read_value m q"
  then have "m (p + of_nat i) = m (q + of_nat i)" if "i < 8" for i
    using byte_read_value [OF that, of m p] byte_read_value [OF that, of m q] by simp
  then show "equal_bytes m p q 8" by (simp add: equal_bytes_def list_all_iff)
qed

lemma copy_bytes_value: "apart p q 8 \<Longrightarrow> copy_bytes p q 8 m = write_value p (read_value m q) m"
  by (simp add: copy_bytes_apart write_value_bytes byte_read_value fun_eq_iff)

section \<open>Properties\<close>

text \<open>
  C23. Every read-modify-write operation on eight bytes changes only those bytes and stores the
  operation's result on the old value; the form that fetches first returns the old value, the form that fetches
  last the stored one. A store is read back by the next load, and an exchange returns the old value.\<close>

theorem atomic_updates_exact:
  "(let old = atomic_load_8 p m; new = operation op old v
    in fst (atomic_fetch_op_8 op p v m) = old \<and> fst (atomic_op_fetch_8 op p v m) = new \<and>
       snd (atomic_op_fetch_8 op p v m) = snd (atomic_fetch_op_8 op p v m) \<and>
       atomic_load_8 p (snd (atomic_fetch_op_8 op p v m)) = new \<and>
       atomic_exchange_8 p new m = (old, snd (atomic_fetch_op_8 op p v m)) \<and>
       atomic_load_8 p (atomic_store_8 p v m) = v \<and>
       {a. snd (atomic_fetch_op_8 op p v m) a \<noteq> m a} \<subseteq> {a. unat (a - p) < 8})"
  by (auto simp: atomic_load_8_def atomic_fetch_op_8_def atomic_op_fetch_8_def fetch_update_def Let_def
      atomic_exchange_8_def atomic_store_8_def read_write_value)
    (simp add: write_value_bytes split: if_splits)

text \<open>
  On eight bytes the general compare-and-exchange, which compares and copies byte by byte, and
  the one for 64-bit values do the same: the same answer and the same memory, when the
  object overlaps neither the expected nor the desired value.\<close>

theorem compare_exchange_equivalent:
  assumes "apart object desired 8" and "apart expected object 8"
  shows "atomic_compare_exchange 8 object expected desired m =
    atomic_compare_exchange_8 object expected (read_value m desired) m"
  using assms
  by (simp add: atomic_compare_exchange_def atomic_compare_exchange_8_def equal_bytes_values copy_bytes_value Let_def)

lemma compare_exchange_equivalent_witness:
  "\<exists>m'. atomic_compare_exchange 8 0 16 32 (\<lambda>a. if a = 32 then 5 else 0) = (True, m') \<and> read_value m' 0 = 5"
proof -
  let ?m = "\<lambda>a :: u32. if a = 32 then 5 else 0 :: u8"
  have all: "list_all P [0..<8] \<Longrightarrow> (\<forall>i < 8. P i)" for P :: "nat \<Rightarrow> bool" by (simp add: list_all_iff)
  have a: "apart 0 32 8" "apart 16 0 8"
    unfolding apart_def by (rule all, simp add: upt_conv_Cons)+
  have v: "read_value ?m 0 = read_value ?m 16" "read_value ?m 32 = 5"
    by (simp_all add: read_value_def upt_conv_Cons)
  show ?thesis
    by (simp add: compare_exchange_equivalent [OF a] atomic_compare_exchange_8_def v read_write_value)
qed

end
