(* ===== verification/Timer.thy ===== *)
theory Timer
  imports Prelude
begin

text \<open>
  The hosted timer (\<open>platform/hal/drivers/impl/linux/Timer.cpp\<close>): a counter that is computed from
  the monotonic clock, and a worker thread that calls the period callback when the counter overflows. Every
  operation holds the timer's mutex, so it is one step; \<open>now\<close> is what the monotonic clock reads in it.
  Initialising and locking of the pthread objects is assumed to succeed, as otherwise the process ends.
\<close>

section \<open>State\<close>

record timer =
  timer_input_hz :: u32
  prescaler :: u32
  auto_reload :: u32
  counter :: u32
  started_at :: u64
  running :: bool
  interrupt_enabled :: bool
  shutting_down :: bool
  state_version :: u32
  period_elapsed_callback :: bool

definition NANOSECONDS_PER_SECOND :: u64 where
  "NANOSECONDS_PER_SECOND = 1000000000"

definition MAXIMUM_TICK :: u64 where
  "MAXIMUM_TICK = 0xFFFFFFFF"

datatype 'a hal_result = Done 'a | Hal_Error

definition timer_new :: "u32 \<Rightarrow> u32 \<Rightarrow> u32 \<Rightarrow> u64 \<Rightarrow> timer" where
  "timer_new hz psc reload now =
     \<lparr>timer_input_hz = hz, prescaler = psc, auto_reload = reload, counter = 0, started_at = now, running = False,
      interrupt_enabled = False, shutting_down = False, state_version = 0, period_elapsed_callback = False\<rparr>"

section \<open>The counter\<close>

definition tick_frequency_hz :: "timer \<Rightarrow> u32" where
  "tick_frequency_hz t = ucast ((ucast (timer_input_hz t) :: u64) div ((ucast (prescaler t) :: u64) + 1))"

definition counter_at :: "u64 \<Rightarrow> timer \<Rightarrow> u32" where
  "counter_at now t =
     (let period = (ucast (auto_reload t) :: u64) + 1;
          frequency = (ucast (tick_frequency_hz t) :: u64)
      in if frequency = 0 then counter t
         else
           let elapsed_nanoseconds = now - started_at t;
               seconds = elapsed_nanoseconds div NANOSECONDS_PER_SECOND;
               remainder = elapsed_nanoseconds mod NANOSECONDS_PER_SECOND;
               whole_ticks = (seconds mod period) * (frequency mod period) mod period;
               fractional_ticks = remainder * frequency div NANOSECONDS_PER_SECOND mod period;
               elapsed_ticks = (whole_ticks + fractional_ticks) mod period
           in ucast ((ucast (counter t) + elapsed_ticks) mod period))"

definition capture_counter :: "u64 \<Rightarrow> timer \<Rightarrow> timer" where
  "capture_counter now t = (if running t then t\<lparr>counter := counter_at now t\<rparr> else t)"

definition nanoseconds_until_overflow :: "u64 \<Rightarrow> timer \<Rightarrow> u64" where
  "nanoseconds_until_overflow now t =
     (let frequency = (ucast (tick_frequency_hz t) :: u64)
      in if frequency = 0 then NANOSECONDS_PER_SECOND
         else
           let period = (ucast (auto_reload t) :: u64) + 1;
               count = (if running t then ucast (counter_at now t) else ucast (counter t) mod period);
               ticks_until_overflow = period - count
           in (ticks_until_overflow * NANOSECONDS_PER_SECOND + frequency - 1) div frequency)"

section \<open>Durations\<close>

text \<open>A duration is a signed count of nanoseconds.\<close>

definition duration_to_ticks_unlocked :: "int \<Rightarrow> timer \<Rightarrow> u32" where
  "duration_to_ticks_unlocked nanoseconds t =
     (let frequency = (ucast (tick_frequency_hz t) :: u64)
      in if nanoseconds \<le> 0 \<or> frequency = 0 then 0
         else
           let unsigned_nanoseconds = (word_of_int nanoseconds :: u64);
               seconds = unsigned_nanoseconds div NANOSECONDS_PER_SECOND;
               remainder = unsigned_nanoseconds mod NANOSECONDS_PER_SECOND
           in if seconds > MAXIMUM_TICK div frequency then ucast MAXIMUM_TICK
              else
                let whole_ticks = seconds * frequency;
                    fractional_ticks = (remainder * frequency + NANOSECONDS_PER_SECOND - 1) div NANOSECONDS_PER_SECOND
                in if fractional_ticks > MAXIMUM_TICK - whole_ticks then ucast MAXIMUM_TICK
                   else ucast (whole_ticks + fractional_ticks))"

definition get_elapsed_time :: "u64 \<Rightarrow> timer \<Rightarrow> int" where
  "get_elapsed_time now t =
     (let frequency = (ucast (tick_frequency_hz t) :: u64)
      in if frequency = 0 then 0
         else
           let count = (if running t then counter_at now t else counter t)
           in sint ((ucast count :: u64) * NANOSECONDS_PER_SECOND div frequency))"

section \<open>Operations\<close>

definition changed :: "timer \<Rightarrow> timer" where
  "changed t = t\<lparr>state_version := state_version t + 1\<rparr>"

definition timer_start_with :: "bool \<Rightarrow> u64 \<Rightarrow> timer \<Rightarrow> unit hal_result \<times> timer" where
  "timer_start_with interrupt now t =
     (if tick_frequency_hz t = 0 then (Hal_Error, t)
      else (Done (), changed ((capture_counter now t)\<lparr>started_at := now, running := True, interrupt_enabled := interrupt\<rparr>)))"

definition timer_start :: "u64 \<Rightarrow> timer \<Rightarrow> unit hal_result \<times> timer" where
  "timer_start = timer_start_with False"

definition timer_start_it :: "u64 \<Rightarrow> timer \<Rightarrow> unit hal_result \<times> timer" where
  "timer_start_it = timer_start_with True"

definition timer_stop :: "u64 \<Rightarrow> timer \<Rightarrow> unit hal_result \<times> timer" where
  "timer_stop now t = (Done (), changed ((capture_counter now t)\<lparr>running := False, interrupt_enabled := False\<rparr>))"

definition timer_stop_it :: "u64 \<Rightarrow> timer \<Rightarrow> unit hal_result \<times> timer" where
  "timer_stop_it = timer_stop"

definition get_counter :: "u64 \<Rightarrow> timer \<Rightarrow> u32" where
  "get_counter now t = (if running t then counter_at now t else counter t)"

definition set_counter :: "u32 \<Rightarrow> u64 \<Rightarrow> timer \<Rightarrow> timer" where
  "set_counter value now t = changed (t\<lparr>counter := value, started_at := now\<rparr>)"

definition set_auto_reload :: "u32 \<Rightarrow> u64 \<Rightarrow> timer \<Rightarrow> timer" where
  "set_auto_reload value now t = changed ((capture_counter now t)\<lparr>auto_reload := value, started_at := now\<rparr>)"

definition set_prescaler :: "u32 \<Rightarrow> u64 \<Rightarrow> timer \<Rightarrow> timer" where
  "set_prescaler value now t = changed ((capture_counter now t)\<lparr>prescaler := value, started_at := now\<rparr>)"

definition force_update_event :: "u64 \<Rightarrow> timer \<Rightarrow> timer" where
  "force_update_event now t = changed (t\<lparr>counter := 0, started_at := now\<rparr>)"

definition timer_reset :: "u64 \<Rightarrow> timer \<Rightarrow> timer" where
  "timer_reset = set_counter 0"

definition set_period :: "int \<Rightarrow> u64 \<Rightarrow> timer \<Rightarrow> timer" where
  "set_period nanoseconds now t =
     (let ticks = duration_to_ticks_unlocked nanoseconds t
      in changed (t\<lparr>auto_reload := (if ticks = 0 then 0 else ticks - 1), counter := 0, started_at := now\<rparr>))"

definition set_period_elapsed_callback :: "bool \<Rightarrow> timer \<Rightarrow> timer" where
  "set_period_elapsed_callback present t = t\<lparr>period_elapsed_callback := present\<rparr>"

text \<open>The first block of the destructor; then the worker is joined.\<close>

definition timer_shutdown :: "timer \<Rightarrow> timer" where
  "timer_shutdown t = t\<lparr>shutting_down := True\<rparr>"

section \<open>The worker\<close>

text \<open>
  Where the worker is: about to test the loops' conditions with the mutex, waiting for a notification,
  waiting until a deadline in monotonic nanoseconds, past it and reacquiring the mutex, past the callback's
  test without the mutex (\<open>Calling\<close> holds whether there is a callback), or returned.
\<close>

datatype worker = Testing | Waiting | Timed_Wait nat | Timed_Out | Calling bool | Returned

record timed_system =
  device :: timer
  clock_now :: u64
  worker :: worker
  calls :: nat

text \<open>The \<open>timespec\<close> of the deadline as its nanoseconds; the clock is read a second time for it.\<close>

definition monotonic_deadline :: "u64 \<Rightarrow> u64 \<Rightarrow> nat" where
  "monotonic_deadline later delay =
     (let nanoseconds = later mod NANOSECONDS_PER_SECOND + delay
      in (unat (later div NANOSECONDS_PER_SECOND) + unat (nanoseconds div NANOSECONDS_PER_SECOND)) * 10 ^ 9 +
         unat (nanoseconds mod NANOSECONDS_PER_SECOND))"

definition worker_test :: "u64 \<Rightarrow> u64 \<Rightarrow> timer \<Rightarrow> worker" where
  "worker_test now later t =
     (if shutting_down t then Returned
      else if \<not> running t \<or> \<not> interrupt_enabled t then Waiting
      else Timed_Wait (monotonic_deadline later (nanoseconds_until_overflow now t)))"

text \<open>A broadcast ends a wait whose deadline has not passed; past the deadline its status stays \<open>ETIMEDOUT\<close>.\<close>

fun notify_worker :: "worker \<Rightarrow> worker" where
  "notify_worker Waiting = Testing"
| "notify_worker (Timed_Wait d) = Testing"
| "notify_worker w = w"

datatype timer_call =
    Call_Start | Call_Stop | Call_Start_It | Call_Set_Counter u32 | Call_Set_Auto_Reload u32 | Call_Set_Prescaler u32
  | Call_Force_Update | Call_Set_Period int | Call_Shutdown

fun run_call :: "timer_call \<Rightarrow> u64 \<Rightarrow> timer \<Rightarrow> timer" where
  "run_call Call_Start now t = snd (timer_start now t)"
| "run_call Call_Stop now t = snd (timer_stop now t)"
| "run_call Call_Start_It now t = snd (timer_start_it now t)"
| "run_call (Call_Set_Counter v) now t = set_counter v now t"
| "run_call (Call_Set_Auto_Reload v) now t = set_auto_reload v now t"
| "run_call (Call_Set_Prescaler v) now t = set_prescaler v now t"
| "run_call Call_Force_Update now t = force_update_event now t"
| "run_call (Call_Set_Period d) now t = set_period d now t"
| "run_call Call_Shutdown now t = timer_shutdown t"

text \<open>A start that is refused returns before it notifies.\<close>

definition notifies :: "timer_call \<Rightarrow> timer \<Rightarrow> bool" where
  "notifies c t \<longleftrightarrow> \<not> ((c = Call_Start \<or> c = Call_Start_It) \<and> tick_frequency_hz t = 0)"

definition call_device :: "timer_call \<Rightarrow> timed_system \<Rightarrow> timed_system" where
  "call_device c s =
     s\<lparr>device := run_call c (clock_now s) (device s),
       worker := (if notifies c (device s) then notify_worker (worker s) else worker s)\<rparr>"

inductive worker_step :: "timed_system \<Rightarrow> timed_system \<Rightarrow> bool" where
  test: "worker s = Testing \<Longrightarrow> clock_now s \<le> later \<Longrightarrow>
    worker_step s (s\<lparr>worker := worker_test (clock_now s) later (device s), clock_now := later\<rparr>)"
| time_out: "worker s = Timed_Wait d \<Longrightarrow> d \<le> unat (clock_now s) \<Longrightarrow> worker_step s (s\<lparr>worker := Timed_Out\<rparr>)"
| timed_out: "worker s = Timed_Out \<Longrightarrow> worker_step s (s\<lparr>worker := Calling (period_elapsed_callback (device s))\<rparr>)"
| called: "worker s = Calling present \<Longrightarrow>
    worker_step s (s\<lparr>worker := Testing, calls := (if present then calls s + 1 else calls s)\<rparr>)"

inductive system_step :: "timed_system \<Rightarrow> timed_system \<Rightarrow> bool" where
  work: "worker_step s s' \<Longrightarrow> system_step s s'"
| spurious: "worker s = Waiting \<or> worker s = Timed_Wait d \<Longrightarrow> system_step s (s\<lparr>worker := Testing\<rparr>)"
| call: "system_step s (call_device c s)"
| set_callback: "system_step s (s\<lparr>device := set_period_elapsed_callback present (device s)\<rparr>)"
| pass: "clock_now s \<le> now \<Longrightarrow> system_step s (s\<lparr>clock_now := now\<rparr>)"

end
