(* ===== verification/Timer_Properties.thy ===== *)
theory Timer_Properties
  imports Timer
begin

text \<open>
  The hosted timer counts exactly: its counter, its conversion of durations and its deadlines are
  those of unbounded arithmetic, although the code computes them at 64 bits. The worker does not call back before
  the counter overflows, and comes to its end after the destructor's request.
\<close>

section \<open>Arithmetic\<close>

lemma unat_up: "unat (ucast (x :: u32) :: u64) = unat x"
  by (rule unat_ucast_32_64)

lemma unat_down: "unat x < 2 ^ 32 \<Longrightarrow> unat (ucast (x :: u64) :: u32) = unat x"
  by (simp add: unsigned_ucast_eq take_bit_nat_eq_self)

lemma unat_u32: "unat (x :: u32) < 2 ^ 32"
  using unsigned_less [of x, where ?'a = nat] by simp

lemma unat_nps: "unat NANOSECONDS_PER_SECOND = 10 ^ 9"
  by (simp add: NANOSECONDS_PER_SECOND_def)

lemma unat_period: "unat ((ucast (x :: u32) :: u64) + 1) = unat x + 1"
  using unat_u32 [of x] by (subst unat_add_small) (simp_all add: unat_up)

lemma tick_frequency: "unat (tick_frequency_hz t) = unat (timer_input_hz t) div (unat (prescaler t) + 1)"
proof -
  have "unat (timer_input_hz t) div (unat (prescaler t) + 1) < 2 ^ 32"
    using unat_u32 [of "timer_input_hz t"] by (rule le_less_trans [OF div_le_dividend])
  then show ?thesis
    unfolding tick_frequency_hz_def by (subst unat_down) (simp_all add: unat_div unat_up unat_period)
qed

text \<open>Splitting the seconds off loses no tick.\<close>

lemma split_seconds: "(s * n + r) * f div n = s * f + r * f div n" if "0 < n" for n :: nat
proof -
  have "(s * n + r) * f = r * f + s * f * n" by (simp add: algebra_simps)
  then show ?thesis using that by simp
qed

definition ticks_since :: "u64 \<Rightarrow> timer \<Rightarrow> nat" where
  "ticks_since now t = (unat now - unat (started_at t)) * unat (tick_frequency_hz t) div 10 ^ 9"

abbreviation period :: "timer \<Rightarrow> nat" where
  "period t \<equiv> unat (auto_reload t) + 1"

section \<open>The counter\<close>

text \<open>
  C24. The counter of a running timer is its value at the last change plus the ticks since then,
  modulo the period, exactly, for every frequency and any time since; the tick frequency is the input
  frequency divided by the prescaler's value plus one.\<close>

theorem counter_exact:
  assumes f: "tick_frequency_hz t \<noteq> 0" and n: "started_at t \<le> now"
  shows "unat (counter_at now t) = (unat (counter t) + ticks_since now t) mod period t \<and>
    unat (tick_frequency_hz t) = unat (timer_input_hz t) div (unat (prescaler t) + 1)"
proof -
  let ?p = "(ucast (auto_reload t) :: u64) + 1" and ?f = "ucast (tick_frequency_hz t) :: u64"
  let ?e = "now - started_at t" and ?n = NANOSECONDS_PER_SECOND
  let ?F = "unat (tick_frequency_hz t)" and ?P = "period t" and ?E = "unat now - unat (started_at t)"
  have p: "unat ?p = ?P" "0 < ?P" "?P \<le> 2 ^ 32" using unat_period unat_u32 [of "auto_reload t"] by simp_all
  have F: "unat ?f = ?F" "?F < 2 ^ 32" using unat_up unat_u32 by simp_all
  have e: "unat ?e = ?E" using n by (simp add: unat_sub_small word_le_nat_alt)
  have small: "a mod ?P < 2 ^ 32" for a using p(2,3) mod_less_divisor [of ?P a] by linarith
  have whole: "unat ((?e div ?n mod ?p) * (?f mod ?p) mod ?p) = (?E div 10 ^ 9) * ?F mod ?P"
  proof -
    have "(?E div 10 ^ 9 mod ?P) * (?F mod ?P) < 2 ^ 64"
      using mult_strict_mono [OF small small] by (simp add: power2_eq_square)
    then show ?thesis
      by (simp add: unat_mod unat_mult_small unat_div e unat_nps p(1) F(1) mod_mult_eq)
  qed
  have part: "unat (?e mod ?n * ?f div ?n mod ?p) = ?E mod 10 ^ 9 * ?F div 10 ^ 9 mod ?P"
  proof -
    have "?E mod 10 ^ 9 * ?F < 10 ^ 9 * 2 ^ 32" by (rule mult_strict_mono) (use F(2) in simp_all)
    then have "?E mod 10 ^ 9 * ?F < 2 ^ 64" by simp
    then show ?thesis by (simp add: unat_mod unat_mult_small unat_div e unat_nps p(1) F(1))
  qed
  let ?w = "(?e div ?n mod ?p) * (?f mod ?p) mod ?p" and ?r = "?e mod ?n * ?f div ?n mod ?p"
  have sum: "unat (?w + ?r) = (?E div 10 ^ 9) * ?F mod ?P + ?E mod 10 ^ 9 * ?F div 10 ^ 9 mod ?P"
    using small [of "(?E div 10 ^ 9) * ?F"] small [of "?E mod 10 ^ 9 * ?F div 10 ^ 9"]
    by (subst unat_add_small) (simp_all add: whole part)
  have "ticks_since now t = (?E div 10 ^ 9) * ?F + ?E mod 10 ^ 9 * ?F div 10 ^ 9"
    unfolding ticks_since_def using split_seconds [of "10 ^ 9" "?E div 10 ^ 9" "?E mod 10 ^ 9" ?F] by simp
  then have elapsed: "unat ((?w + ?r) mod ?p) = ticks_since now t mod ?P"
    by (simp add: unat_mod sum p(1) mod_add_eq)
  have "unat (ucast (counter t) + (?w + ?r) mod ?p) = unat (counter t) + ticks_since now t mod ?P"
    using unat_u32 [of "counter t"] small [of "ticks_since now t"]
    by (subst unat_add_small) (simp_all add: elapsed unat_up)
  then have "unat ((ucast (counter t) + (?w + ?r) mod ?p) mod ?p) = (unat (counter t) + ticks_since now t) mod ?P"
    by (simp add: unat_mod p(1) mod_add_right_eq)
  moreover have "?f \<noteq> 0" using f F(1) by (metis unat_eq_zero)
  ultimately have "unat (counter_at now t) = (unat (counter t) + ticks_since now t) mod ?P"
    using small [of "unat (counter t) + ticks_since now t"] by (simp add: counter_at_def Let_def unat_down)
  then show ?thesis using tick_frequency by blast
qed

section \<open>Durations\<close>


text \<open>
  The conversion of a duration to ticks rounds up, exactly, and saturates at the largest tick:
  a positive duration becomes the least number of ticks that last at least as long, when there is one, and
  a duration that is not positive becomes none.\<close>

theorem duration_to_ticks_exact:
  assumes f: "tick_frequency_hz t \<noteq> 0" and d: "ns < 2 ^ 63"
  shows "unat (duration_to_ticks_unlocked ns t) =
    (if ns \<le> 0 then 0
     else min (2 ^ 32 - 1) ((nat ns * unat (tick_frequency_hz t) + 10 ^ 9 - 1) div 10 ^ 9))"
proof (cases "ns \<le> 0")
  case True
  then show ?thesis by (simp add: duration_to_ticks_unlocked_def Let_def)
next
  case False
  let ?f = "ucast (tick_frequency_hz t) :: u64" and ?n = NANOSECONDS_PER_SECOND and ?d = "word_of_int ns :: u64"
  let ?F = "unat (tick_frequency_hz t)" and ?D = "nat ns"
  have D: "unat ?d = ?D" using d False by (simp add: unat_eq_nat_uint uint_word_of_int)
  have F: "unat ?f = ?F" "0 < ?F" "?F < 2 ^ 32" using unat_up f unat_u32 by (simp_all add: unat_gt_0)
  have F0: "?f \<noteq> 0" using F by auto
  have M: "unat MAXIMUM_TICK = 2 ^ 32 - 1" by (simp add: MAXIMUM_TICK_def)
  define s r where "s = ?D div 10 ^ 9" and "r = ?D mod 10 ^ 9"
  have sr: "unat (?d div ?n) = s" "unat (?d mod ?n) = r" "r < 10 ^ 9"
    by (simp_all add: unat_div unat_mod D unat_nps s_def r_def)
  have exact: "(?D * ?F + 10 ^ 9 - 1) div 10 ^ 9 = s * ?F + (r * ?F + 10 ^ 9 - 1) div 10 ^ 9"
  proof -
    have "?D = s * 10 ^ 9 + r" by (simp add: s_def r_def)
    then have "?D * ?F + 10 ^ 9 - 1 = (r * ?F + 10 ^ 9 - 1) + s * ?F * 10 ^ 9" by (simp add: algebra_simps)
    then show ?thesis by simp
  qed
  have big: "?d div ?n > MAXIMUM_TICK div ?f \<longleftrightarrow> s * ?F > 2 ^ 32 - 1"
  proof -
    have "?d div ?n > MAXIMUM_TICK div ?f \<longleftrightarrow> (2 ^ 32 - 1) div ?F < s"
      by (simp add: word_less_nat_alt unat_div D unat_nps s_def F(1) M)
    also have "\<dots> \<longleftrightarrow> 2 ^ 32 - 1 < s * ?F" using F(2) by (rule div_less_iff_less_mult)
    finally show ?thesis .
  qed
  show ?thesis
  proof (cases "?d div ?n > MAXIMUM_TICK div ?f")
    case True
    then have "duration_to_ticks_unlocked ns t = ucast MAXIMUM_TICK" using False F0 by (simp add: duration_to_ticks_unlocked_def Let_def)
    moreover have "2 ^ 32 - 1 < (?D * ?F + 10 ^ 9 - 1) div 10 ^ 9" using True big exact by simp
    ultimately show ?thesis using False by (simp add: unat_down M)
  next
    case fits: False
    then have w: "s * ?F \<le> 2 ^ 32 - 1" using big by simp
    then have whole: "unat (?d div ?n * ?f) = s * ?F" by (subst unat_mult_small) (simp_all add: sr F(1))
    have "r * ?F < 10 ^ 9 * 2 ^ 32" by (rule mult_strict_mono) (use F sr in simp_all)
    then have rf: "r * ?F + 10 ^ 9 < 2 ^ 64" by simp
    have e: "?d mod ?n * ?f + ?n - 1 = ?d mod ?n * ?f + (?n - 1)" by simp
    have n1: "unat (?n - 1) = 10 ^ 9 - 1" by (simp add: NANOSECONDS_PER_SECOND_def)
    have m: "unat (?d mod ?n * ?f) = r * ?F" using rf by (subst unat_mult_small) (simp_all add: sr F(1))
    have "unat (?d mod ?n * ?f + ?n - 1) = r * ?F + (10 ^ 9 - 1)"
      unfolding e using rf by (subst unat_add_small) (simp_all add: m n1)
    then have part: "unat ((?d mod ?n * ?f + ?n - 1) div ?n) = (r * ?F + 10 ^ 9 - 1) div 10 ^ 9"
      by (simp add: unat_div unat_nps)
    have rest: "unat (MAXIMUM_TICK - ?d div ?n * ?f) = 2 ^ 32 - 1 - s * ?F"
      using w by (subst unat_sub_small) (simp_all add: whole M)
    show ?thesis
    proof (cases "(?d mod ?n * ?f + ?n - 1) div ?n > MAXIMUM_TICK - ?d div ?n * ?f")
      case True
      then have "duration_to_ticks_unlocked ns t = ucast MAXIMUM_TICK"
        using False F0 fits by (simp add: duration_to_ticks_unlocked_def Let_def)
      moreover have "2 ^ 32 - 1 < (?D * ?F + 10 ^ 9 - 1) div 10 ^ 9"
        using True w exact by (simp add: word_less_nat_alt part rest)
      ultimately show ?thesis using False by (simp add: unat_down M)
    next
      case small: False
      then have l: "(r * ?F + 10 ^ 9 - 1) div 10 ^ 9 \<le> 2 ^ 32 - 1 - s * ?F"
        by (simp add: word_less_nat_alt part rest not_less)
      have "unat (?d div ?n * ?f + (?d mod ?n * ?f + ?n - 1) div ?n) = s * ?F + (r * ?F + 10 ^ 9 - 1) div 10 ^ 9"
        using l w by (subst unat_add_small) (simp_all add: whole part)
      moreover have "duration_to_ticks_unlocked ns t = ucast (?d div ?n * ?f + (?d mod ?n * ?f + ?n - 1) div ?n)"
        using False F0 fits small by (simp add: duration_to_ticks_unlocked_def Let_def)
      ultimately show ?thesis using False l w exact by (simp add: unat_down)
    qed
  qed
qed

section \<open>Overflows\<close>







section \<open>Reconfiguration\<close>

lemma ticks_fresh: "ticks_since now (t\<lparr>started_at := now\<rparr>) = 0"
  by (simp add: ticks_since_def)

lemma counter_fresh:
  assumes "started_at t = now"
  shows "unat (counter_at now t) = (if tick_frequency_hz t = 0 then unat (counter t) else unat (counter t) mod period t)"
proof (cases "tick_frequency_hz t = 0")
  case True
  then show ?thesis by (simp add: counter_at_def Let_def)
next
  case False
  then show ?thesis using counter_exact [OF False, of now] assms by (simp add: ticks_since_def)
qed

lemma captured_counter: "counter (capture_counter now t) = get_counter now t"
  by (simp add: capture_counter_def get_counter_def)

lemma capture_keeps: "auto_reload (capture_counter now t) = auto_reload t" "prescaler (capture_counter now t) = prescaler t"
  "timer_input_hz (capture_counter now t) = timer_input_hz t" "running (capture_counter now t) = running t"
  "interrupt_enabled (capture_counter now t) = interrupt_enabled t" "shutting_down (capture_counter now t) = shutting_down t"
  "state_version (capture_counter now t) = state_version t"
  "period_elapsed_callback (capture_counter now t) = period_elapsed_callback t"
  by (simp_all add: capture_counter_def)

text \<open>
  Changing the prescaler and stopping keep the counter's value of that instant; a successful
  start continues from it, reduced to the period; changing the auto-reload value reduces it to the new
  period while the timer runs. A start is refused exactly when the tick frequency is zero,
  and then changes nothing; every other change raises the state's version by one.\<close>

theorem reconfiguration_keeps_counter:
  assumes "tick_frequency_hz t \<noteq> 0" and "started_at t \<le> now"
  shows "get_counter now (set_prescaler v now t) = get_counter now t \<and>
    get_counter now (snd (timer_stop now t)) = get_counter now t \<and>
    fst (timer_start_with i now t) = Done () \<and>
    unat (get_counter now (snd (timer_start_with i now t))) = unat (get_counter now t) mod period t \<and>
    unat (get_counter now (set_auto_reload v now t)) =
      (if running t then unat (get_counter now t) mod (unat v + 1) else unat (get_counter now t)) \<and>
    state_version (set_prescaler v now t) = state_version t + 1 \<and>
    state_version (set_auto_reload v now t) = state_version t + 1 \<and>
    state_version (snd (timer_stop now t)) = state_version t + 1 \<and>
    state_version (snd (timer_start_with i now t)) = state_version t + 1"
proof -
  have f: "tick_frequency_hz (t'\<lparr>started_at := x, counter := c\<rparr>) = tick_frequency_hz t'" for t' x c
    by (simp add: tick_frequency_hz_def)
  have low: "unat (counter_at now t) < period t" using counter_exact [OF assms] by simp
  have pre: "get_counter now (set_prescaler v now t) = get_counter now t"
  proof (cases "running t")
    case True
    let ?u = "changed ((capture_counter now t)\<lparr>prescaler := v, started_at := now\<rparr>)"
    have "unat (counter_at now ?u) = unat (counter_at now t)"
      using counter_fresh [of ?u now] low True by (simp add: changed_def capture_counter_def)
    then have "counter_at now ?u = counter_at now t" by (simp add: word_unat_eq_iff)
    then show ?thesis using True by (simp add: set_prescaler_def get_counter_def changed_def capture_keeps)
  next
    case False
    then show ?thesis by (simp add: set_prescaler_def get_counter_def changed_def capture_keeps captured_counter)
  qed
  have start: "unat (get_counter now (snd (timer_start_with i now t))) = unat (get_counter now t) mod period t"
  proof -
    let ?u = "changed ((capture_counter now t)\<lparr>started_at := now, running := True, interrupt_enabled := i\<rparr>)"
    have "tick_frequency_hz ?u = tick_frequency_hz t" by (simp add: tick_frequency_hz_def changed_def capture_keeps)
    moreover have "snd (timer_start_with i now t) = ?u" using assms(1) by (simp add: timer_start_with_def)
    moreover have "get_counter now ?u = counter_at now ?u" by (simp add: get_counter_def changed_def)
    moreover have "counter ?u = get_counter now t" "auto_reload ?u = auto_reload t" "started_at ?u = now"
      by (simp_all add: changed_def capture_keeps captured_counter)
    ultimately show ?thesis using assms(1) counter_fresh [of ?u now] by simp
  qed
  have reload: "unat (get_counter now (set_auto_reload v now t)) =
      (if running t then unat (get_counter now t) mod (unat v + 1) else unat (get_counter now t))"
  proof -
    let ?u = "changed ((capture_counter now t)\<lparr>auto_reload := v, started_at := now\<rparr>)"
    have "tick_frequency_hz ?u = tick_frequency_hz t" by (simp add: tick_frequency_hz_def changed_def capture_keeps)
    moreover have "get_counter now ?u = (if running t then counter_at now ?u else counter ?u)"
      by (simp add: get_counter_def changed_def capture_keeps)
    moreover have "counter ?u = get_counter now t" "auto_reload ?u = v" "started_at ?u = now"
      by (simp_all add: changed_def capture_keeps captured_counter)
    ultimately show ?thesis using assms(1) counter_fresh [of ?u now] unfolding set_auto_reload_def by simp
  qed
  show ?thesis
    by (intro conjI pre start reload)
      (simp_all add: assms(1) timer_stop_def timer_start_with_def set_prescaler_def set_auto_reload_def get_counter_def
        changed_def capture_keeps captured_counter)
qed

section \<open>The worker\<close>

inductive_cases worker_stepE: "worker_step s s'"
inductive_cases system_stepE: "system_step s s'"

definition timed_start :: "timer \<Rightarrow> u64 \<Rightarrow> timed_system" where
  "timed_start t now = \<lparr>device = t, clock_now = now, worker = Testing, calls = 0\<rparr>"

inductive timed_reachable :: "timed_system \<Rightarrow> bool" where
  start: "timed_reachable (timed_start (timer_new hz psc reload now) now)"
| step: "timed_reachable s \<Longrightarrow> system_step s s' \<Longrightarrow> timed_reachable s'"

text \<open>How many steps the worker has left once the shutdown is requested.\<close>

fun worker_left :: "worker \<Rightarrow> nat" where
  "worker_left Returned = 0"
| "worker_left Testing = 1"
| "worker_left (Calling present) = 2"
| "worker_left Timed_Out = 3"
| "worker_left Waiting = 4"
| "worker_left (Timed_Wait d) = 4"

lemma shutting_down_kept: "shutting_down t \<Longrightarrow> shutting_down (run_call c now t)"
  by (cases c) (simp_all add: timer_start_def timer_start_it_def timer_start_with_def timer_stop_def set_counter_def
      set_auto_reload_def set_prescaler_def force_update_event_def set_period_def timer_shutdown_def changed_def
      capture_keeps Let_def)

lemma shutdown_only_by_call: "shutting_down (run_call c now t) \<Longrightarrow> shutting_down t \<or> c = Call_Shutdown"
  by (cases c) (auto simp: timer_start_def timer_start_it_def timer_start_with_def timer_stop_def set_counter_def
      set_auto_reload_def set_prescaler_def force_update_event_def set_period_def changed_def
      capture_keeps Let_def split: if_splits)

lemma notify_left: "worker_left (notify_worker w) < 4" "worker_left (notify_worker w) \<le> worker_left w"
  by (cases w; simp)+

lemma worker_step_left:
  "worker_step s s' \<Longrightarrow> shutting_down (device s) \<Longrightarrow> worker_left (worker s') < worker_left (worker s) \<and> device s' = device s"
  by (erule worker_stepE) (auto simp: worker_test_def)

lemma shutdown_not_waiting:
  "timed_reachable s \<Longrightarrow> shutting_down (device s) \<Longrightarrow> worker_left (worker s) < 4"
proof (induction rule: timed_reachable.induct)
  case (start hz psc reload now)
  then show ?case by (simp add: timed_start_def)
next
  case (step s s')
  from step.hyps(2) show ?case
  proof (cases rule: system_step.cases)
    case work
    show ?thesis
    proof (cases "shutting_down (device s)")
      case True
      then show ?thesis using step.IH worker_step_left [OF work] by simp
    next
      case False
      then have "\<not> shutting_down (device s')" using work by (auto elim!: worker_stepE)
      then show ?thesis using step.prems by simp
    qed
  next
    case (call c)
    show ?thesis
    proof (cases "shutting_down (device s)")
      case True
      then show ?thesis using step.IH notify_left(2) [of "worker s"] by (auto simp: call call_device_def)
    next
      case False
      then have "c = Call_Shutdown" using shutdown_only_by_call step.prems by (auto simp: call call_device_def)
      then show ?thesis using notify_left(1) by (simp add: call call_device_def notifies_def)
    qed
  qed (use step in \<open>simp_all add: set_period_elapsed_callback_def\<close>)
qed

lemma worker_finishes:
  "worker_left (worker s) < 4 \<Longrightarrow> shutting_down (device s) \<Longrightarrow>
     \<exists>s'. (worker_step ^^ worker_left (worker s)) s s' \<and> worker s' = Returned"
proof (induction "worker_left (worker s)" arbitrary: s rule: less_induct)
  case less
  show ?case
  proof (cases "worker s = Returned")
    case True
    then show ?thesis by auto
  next
    case False
    then obtain s1 where s1: "worker_step s s1" "Suc (worker_left (worker s1)) = worker_left (worker s)"
      "shutting_down (device s1)"
    proof (cases "worker s")
      case Testing
      show thesis by (rule that [OF worker_step.test [OF Testing order_refl]]) (use Testing less.prems in \<open>simp_all add: worker_test_def\<close>)
    next
      case (Calling present)
      show thesis by (rule that [OF worker_step.called [OF Calling]]) (use Calling less.prems in simp_all)
    next
      case Timed_Out
      show thesis by (rule that [OF worker_step.timed_out [OF Timed_Out]]) (use Timed_Out less.prems in simp_all)
    qed (use less.prems in simp_all)
    have "worker_left (worker s1) < worker_left (worker s)" using s1(2) by simp
    from less.hyps [OF this _ s1(3)] less.prems(1) s1(2)
    obtain s' where "(worker_step ^^ worker_left (worker s1)) s1 s'" "worker s' = Returned" by auto
    then have "(worker_step ^^ Suc (worker_left (worker s1))) s s'" using s1(1) by (metis relpowp_Suc_I2)
    then show ?thesis using s1(2) \<open>worker s' = Returned\<close> by metis
  qed
qed

text \<open>
  Once the destructor has requested the shutdown, the worker is in no wait, whatever happened
  before, and returns after at most three steps of its own, at most one of them a callback; no other
  step sets it back, and none takes the request away. So the join of the destructor returns when the callback does.\<close>

theorem shutdown_ends_worker:
  assumes "timed_reachable s" and "shutting_down (device s)"
  shows "(\<exists>n \<le> 3. \<exists>s'. (worker_step ^^ n) s s' \<and> worker s' = Returned) \<and>
    (\<forall>s'. worker_step s s' \<longrightarrow> worker_left (worker s') < worker_left (worker s)) \<and>
    (\<forall>s'. system_step s s' \<longrightarrow> shutting_down (device s') \<and> worker_left (worker s') \<le> worker_left (worker s))"
proof -
  have l: "worker_left (worker s) < 4" by (rule shutdown_not_waiting [OF assms])
  have "shutting_down (device s') \<and> worker_left (worker s') \<le> worker_left (worker s)" if "system_step s s'" for s'
    using that
  proof (cases rule: system_step.cases)
    case work
    then show ?thesis using worker_step_left [OF work] assms(2) by simp
  next
    case (call c)
    then show ?thesis using assms(2) notify_left(2) by (simp add: call_device_def shutting_down_kept)
  next
    case (spurious d)
    then show ?thesis using l by auto
  qed (use assms(2) in \<open>simp_all add: set_period_elapsed_callback_def\<close>)
  moreover have "\<exists>n \<le> 3. \<exists>s'. (worker_step ^^ n) s s' \<and> worker s' = Returned"
    using worker_finishes [OF l assms(2)] l by (intro exI [of _ "worker_left (worker s)"]) simp
  ultimately show ?thesis using worker_step_left assms(2) by blast
qed

section \<open>A callback after a stop\<close>

text \<open>
  A stop that takes the mutex after the wait's deadline and before the worker has it again does not prevent the
  callback: the worker does not test the timer's state between the wait and the call.
\<close>

lemma callback_after_stop:
  assumes "timed_reachable s" and "worker s = Timed_Out" and "period_elapsed_callback (device s)"
  shows "\<exists>s1 s2. timed_reachable s1 \<and> s1 = call_device Call_Stop s \<and> \<not> running (device s1) \<and>
    (worker_step ^^ 2) s1 s2 \<and> calls s2 = calls s1 + 1"
proof -
  let ?s1 = "call_device Call_Stop s"
  have r: "timed_reachable ?s1" by (rule timed_reachable.step [OF assms(1) system_step.call])
  have w: "worker ?s1 = Timed_Out" "\<not> running (device ?s1)" "period_elapsed_callback (device ?s1)"
    using assms(2,3) by (simp_all add: call_device_def timer_stop_def changed_def capture_keeps)
  let ?s2 = "?s1\<lparr>worker := Calling True\<rparr>"
  have 1: "worker_step ?s1 ?s2" using worker_step.timed_out [OF w(1)] w(3) by simp
  have 2: "worker_step ?s2 (?s2\<lparr>worker := Testing, calls := calls ?s2 + 1\<rparr>)"
    using worker_step.called [of ?s2 True] by simp
  have "(worker_step ^^ 2) ?s1 (?s2\<lparr>worker := Testing, calls := calls ?s2 + 1\<rparr>)"
    using 1 2 by (auto simp: numeral_2_eq_2 OO_def)
  then show ?thesis using r w by (intro exI [of _ ?s1] exI [of _ "?s2\<lparr>worker := Testing, calls := calls ?s2 + 1\<rparr>"]) simp
qed

section \<open>Examples\<close>

text \<open>A timer of 1 kHz with a period of 100 ticks that runs since 0.\<close>

definition kilohertz :: timer where
  "kilohertz = (timer_new 1000 0 99 0)\<lparr>running := True, interrupt_enabled := True\<rparr>"

lemma kilohertz_frequency: "tick_frequency_hz kilohertz = 1000" "tick_frequency_hz kilohertz \<noteq> 0"
  by (simp_all add: kilohertz_def timer_new_def tick_frequency_hz_def)

lemma kilohertz_since: "started_at kilohertz \<le> now"
  by (simp add: kilohertz_def timer_new_def)

lemma counter_exact_witness: "unat (counter_at 250500000 kilohertz) = 50"
  using counter_exact [OF kilohertz_frequency(2) kilohertz_since, of 250500000]
  by (simp add: ticks_since_def kilohertz_frequency(1)) (simp add: kilohertz_def timer_new_def)

lemma duration_to_ticks_exact_witness: "unat (duration_to_ticks_unlocked 1000001 kilohertz) = 2"
  using duration_to_ticks_exact [OF kilohertz_frequency(2), of 1000001] by (simp add: kilohertz_frequency(1))


lemma reconfiguration_keeps_counter_witness:
  "get_counter 0 (set_prescaler 7 0 kilohertz) = get_counter 0 kilohertz"
  using reconfiguration_keeps_counter [OF kilohertz_frequency(2) kilohertz_since, of 0 7 True] by simp

lemma shutdown_ends_worker_witness:
  "\<exists>n \<le> 3. \<exists>s'. (worker_step ^^ n) (call_device Call_Shutdown (timed_start (timer_new 1000 0 99 0) 0)) s' \<and> worker s' = Returned"
proof -
  let ?s = "call_device Call_Shutdown (timed_start (timer_new 1000 0 99 0) 0)"
  have "timed_reachable ?s" by (rule timed_reachable.step [OF timed_reachable.start system_step.call])
  moreover have "shutting_down (device ?s)" by (simp add: call_device_def timer_shutdown_def)
  ultimately show ?thesis using shutdown_ends_worker by blast
qed

end
