(* ===== verification/Ethernet.thy ===== *)
theory Ethernet
  imports Prelude
begin

unbundle bit_operations_syntax

text \<open>
  The hosted Ethernet driver (\<open>platform/hal/drivers/impl/linux/Ethernet.cpp\<close>) and the reading of frames in
  its interface (\<open>platform/hal/drivers/itf/IEthernet.hpp\<close>). A packet socket of the kernel is a
  parameter, the record \<open>kernel\<close>: each service gets the kernel's state and answers with the new one.
  The driver's mutexes keep a call of one kind apart from another of the same kind and from \<open>stop\<close>; a
  call is one function here.
\<close>

section \<open>Frames\<close>

definition ETHERNET_HEADER_SIZE :: nat where "ETHERNET_HEADER_SIZE = 14"
definition MIN_FRAME_SIZE :: nat where "MIN_FRAME_SIZE = 60"
definition MAX_FRAME_SIZE :: nat where "MAX_FRAME_SIZE = 1522"
definition MAC_ADDRESS_SIZE :: nat where "MAC_ADDRESS_SIZE = 6"
definition ETHER_TYPE_OFFSET :: nat where "ETHER_TYPE_OFFSET = 12"
definition VLAN_TAG_SIZE :: nat where "VLAN_TAG_SIZE = 4"
definition ETHER_TYPE_VLAN :: u16 where "ETHER_TYPE_VLAN = 0x8100"
definition ETHER_TYPE_SERVICE_VLAN :: u16 where "ETHER_TYPE_SERVICE_VLAN = 0x88A8"

definition is_tag :: "u16 \<Rightarrow> bool" where
  "is_tag type \<longleftrightarrow> type = ETHER_TYPE_VLAN \<or> type = ETHER_TYPE_SERVICE_VLAN"

definition read_ether_type :: "u8 list \<Rightarrow> nat \<Rightarrow> u16" where
  "read_ether_type frame offset = push_bit 8 (ucast (frame ! offset)) OR ucast (frame ! (offset + 1))"

definition frame_outer_ether_type :: "u8 list \<Rightarrow> u16 option" where
  "frame_outer_ether_type frame =
     (if length frame < ETHERNET_HEADER_SIZE then None else Some (read_ether_type frame ETHER_TYPE_OFFSET))"

function skip_tags :: "u8 list \<Rightarrow> nat \<Rightarrow> u16 \<Rightarrow> u16 option" where
  "skip_tags frame offset type =
     (if is_tag type then
        (if length frame < offset + VLAN_TAG_SIZE + 2 then None
         else skip_tags frame (offset + VLAN_TAG_SIZE) (read_ether_type frame (offset + VLAN_TAG_SIZE)))
      else Some type)"
  by pat_completeness auto
termination
  by (relation "measure (\<lambda>(frame, offset, type). length frame - offset)") (auto simp: VLAN_TAG_SIZE_def)

declare skip_tags.simps [simp del]

definition frame_ether_type :: "u8 list \<Rightarrow> u16 option" where
  "frame_ether_type frame =
     (case frame_outer_ether_type frame of
        None \<Rightarrow> None
      | Some type \<Rightarrow> skip_tags frame ETHER_TYPE_OFFSET type)"

section \<open>The socket filter\<close>

datatype sock_filter = Load_Half nat | Jump_Equal u16 nat nat | Return_K nat

definition ether_type_filter :: "u16 \<Rightarrow> sock_filter list" where
  "ether_type_filter type =
     [Load_Half 12,
      Jump_Equal type 8 0,
      Jump_Equal ETHER_TYPE_VLAN 1 0,
      Jump_Equal ETHER_TYPE_SERVICE_VLAN 0 7,
      Load_Half 16,
      Jump_Equal type 4 0,
      Jump_Equal ETHER_TYPE_VLAN 1 0,
      Jump_Equal ETHER_TYPE_SERVICE_VLAN 0 3,
      Load_Half 20,
      Jump_Equal type 0 1,
      Return_K 0xFFFF,
      Return_K 0]"

section \<open>Deadlines\<close>

definition NANOSECONDS_PER_MILLISECOND :: u64 where
  "NANOSECONDS_PER_MILLISECOND = 1000000"

definition make_deadline :: "int \<Rightarrow> u64 \<Rightarrow> u64" where
  "make_deadline timeout now =
     (if timeout \<le> 0 then now
      else
        let milliseconds = word_of_int timeout
        in if milliseconds > (0xFFFFFFFFFFFFFFFF - now) div NANOSECONDS_PER_MILLISECOND then 0xFFFFFFFFFFFFFFFF
           else now + milliseconds * NANOSECONDS_PER_MILLISECOND)"

definition poll_timeout :: "u64 \<Rightarrow> u64 \<Rightarrow> int" where
  "poll_timeout deadline now =
     (if deadline \<le> now then 0
      else
        let remaining = deadline - now;
            milliseconds = (remaining + NANOSECONDS_PER_MILLISECOND - 1) div NANOSECONDS_PER_MILLISECOND
        in uint (min milliseconds 0x7FFFFFFF))"

section \<open>The device and the kernel\<close>

datatype eth_error =
    Invalid_Argument | Not_Connected | Timed_Out | Message_Size | No_Buffer_Space | Io_Error | Errno int

record ethernet =
  interface_name :: string
  receive_ether_type :: "u16 option"
  promiscuous :: bool
  socket :: "int option"
  interface_index :: u32
  mac_address :: "u8 list"

datatype poll_events = Poll_In | Poll_Out

record received =
  outgoing :: bool
  wire :: "u8 list"

text \<open>
  A negative result of a service is its failure, with the reason in \<open>errno\<close>. \<open>recvfrom\<close> answers with
  the packet as it was on the wire, as \<open>MSG_TRUNC\<close> asks for; \<open>sendto\<close> gets the interface and the protocol of
  its destination, whose hardware address is the first six bytes of the packet.
\<close>

record 'w kernel =
  k_now :: "'w \<Rightarrow> u64 \<times> 'w"
  k_errno :: "'w \<Rightarrow> int"
  k_nametoindex :: "string \<Rightarrow> 'w \<Rightarrow> u32 \<times> 'w"
  k_socket :: "'w \<Rightarrow> int \<times> 'w"
  k_bind :: "int \<Rightarrow> u32 \<Rightarrow> 'w \<Rightarrow> bool \<times> 'w"
  k_attach_filter :: "int \<Rightarrow> sock_filter list \<Rightarrow> 'w \<Rightarrow> bool \<times> 'w"
  k_add_promiscuous :: "int \<Rightarrow> u32 \<Rightarrow> 'w \<Rightarrow> bool \<times> 'w"
  k_hardware_address :: "int \<Rightarrow> string \<Rightarrow> 'w \<Rightarrow> u8 list option \<times> 'w"
  k_set_options :: "int \<Rightarrow> 'w \<Rightarrow> 'w"
  k_close :: "int \<Rightarrow> 'w \<Rightarrow> bool \<times> 'w"
  k_poll :: "int \<Rightarrow> poll_events \<Rightarrow> int \<Rightarrow> 'w \<Rightarrow> int \<times> 'w"
  k_sendto :: "int \<Rightarrow> u32 \<Rightarrow> u16 \<Rightarrow> u8 list \<Rightarrow> 'w \<Rightarrow> int \<times> 'w"
  k_recvfrom :: "int \<Rightarrow> 'w \<Rightarrow> received option \<times> 'w"
  k_control_socket :: "'w \<Rightarrow> int \<times> 'w"
  k_interface_flags :: "int \<Rightarrow> string \<Rightarrow> 'w \<Rightarrow> u16 option \<times> 'w"
  k_ethtool_settings :: "int \<Rightarrow> string \<Rightarrow> 'w \<Rightarrow> (u32 \<times> u8) option \<times> 'w"

definition E_INTR :: int where "E_INTR = 4"
definition E_AGAIN :: int where "E_AGAIN = 11"

section \<open>Starting and stopping\<close>

text \<open>
  Names that do not fit are left out, as if none had been given; every use of the name reads it up to
  its first zero byte.
\<close>

definition ethernet_new :: "string \<Rightarrow> u16 option \<Rightarrow> bool \<Rightarrow> ethernet" where
  "ethernet_new name type promisc =
     \<lparr>interface_name = (if length name < 16 then takeWhile (\<lambda>c. c \<noteq> CHR 0x00) name else []), receive_ether_type = type, promiscuous = promisc,
      socket = None, interface_index = 0, mac_address = replicate 6 0\<rparr>"

text \<open>Give the socket up and report the reason of the failure before it.\<close>

definition close_failed :: "'w kernel \<Rightarrow> int \<Rightarrow> ethernet \<times> 'w \<Rightarrow> (eth_error + unit) \<times> ethernet \<times> 'w" where
  "close_failed k fd sw = (Inl (Errno (k_errno k (snd sw))), fst sw, snd (k_close k fd (snd sw)))"

definition start_configured :: "'w kernel \<Rightarrow> int \<Rightarrow> ethernet \<times> 'w \<Rightarrow> (eth_error + unit) \<times> ethernet \<times> 'w" where
  "start_configured k fd sw =
     (let (address, w) = k_hardware_address k fd (interface_name (fst sw)) (snd sw)
      in case address of
           None \<Rightarrow> close_failed k fd (fst sw, w)
         | Some mac \<Rightarrow> (Inr (), (fst sw)\<lparr>mac_address := mac, socket := Some fd\<rparr>, w))"

definition start_promiscuous :: "'w kernel \<Rightarrow> int \<Rightarrow> ethernet \<times> 'w \<Rightarrow> (eth_error + unit) \<times> ethernet \<times> 'w" where
  "start_promiscuous k fd sw =
     (if promiscuous (fst sw) then
        let (ok, w) = k_add_promiscuous k fd (interface_index (fst sw)) (snd sw)
        in if ok then start_configured k fd (fst sw, w) else close_failed k fd (fst sw, w)
      else start_configured k fd sw)"

definition start_filtered :: "'w kernel \<Rightarrow> int \<Rightarrow> ethernet \<times> 'w \<Rightarrow> (eth_error + unit) \<times> ethernet \<times> 'w" where
  "start_filtered k fd sw =
     (case receive_ether_type (fst sw) of
        None \<Rightarrow> start_promiscuous k fd sw
      | Some type \<Rightarrow>
          let (ok, w) = k_attach_filter k fd (ether_type_filter type) (snd sw)
          in if ok then start_promiscuous k fd (fst sw, w) else close_failed k fd (fst sw, w))"

definition ethernet_start :: "'w kernel \<Rightarrow> ethernet \<times> 'w \<Rightarrow> (eth_error + unit) \<times> ethernet \<times> 'w" where
  "ethernet_start k sw =
     (let (s, w) = sw
      in if socket s \<noteq> None then (Inr (), s, w)
         else if interface_name s = [] then (Inl Invalid_Argument, s, w)
         else
           let (index, w1) = k_nametoindex k (interface_name s) w;
               s1 = s\<lparr>interface_index := index\<rparr>
           in if index = 0 then (Inl (Errno (k_errno k w1)), s1, w1)
              else
                let (fd, w2) = k_socket k w1
                in if fd < 0 then (Inl (Errno (k_errno k w2)), s1, w2)
                   else
                     let (bound, w3) = k_bind k fd index w2
                     in if \<not> bound then close_failed k fd (s1, w3)
                        else start_filtered k fd (s1, k_set_options k fd w3))"

definition ethernet_stop :: "'w kernel \<Rightarrow> ethernet \<times> 'w \<Rightarrow> (eth_error + unit) \<times> ethernet \<times> 'w" where
  "ethernet_stop k sw =
     (let (s, w) = sw
      in case socket s of
           None \<Rightarrow> (Inr (), s, w)
         | Some fd \<Rightarrow>
             let s1 = s\<lparr>socket := None, interface_index := 0\<rparr>;
                 (closed, w1) = k_close k fd w
             in (if closed then Inr () else Inl (Errno (k_errno k w1)), s1, w1))"

section \<open>The link\<close>

datatype duplex = Unknown | Half | Full

record link_info =
  up :: bool
  speed_mbps :: u32
  link_duplex :: duplex

text \<open>\<open>IFF_UP\<close> is bit 0 and \<open>IFF_RUNNING\<close> bit 6 of the flags; \<open>ethtool\<close> answers with the speed and the duplex.\<close>

definition get_link_info :: "'w kernel \<Rightarrow> ethernet \<Rightarrow> 'w \<Rightarrow> (eth_error + link_info) \<times> 'w" where
  "get_link_info k s w =
     (if interface_name s = [] then (Inl Invalid_Argument, w)
      else
        let (fd, w1) = k_control_socket k w
        in if fd < 0 then (Inl (Errno (k_errno k w1)), w1)
           else
             let (flags, w2) = k_interface_flags k fd (interface_name s) w1
             in case flags of
                  None \<Rightarrow> (Inl (Errno (k_errno k w2)), snd (k_close k fd w2))
                | Some f \<Rightarrow>
                    let info = \<lparr>up = (bit f 0 \<and> bit f 6), speed_mbps = 0, link_duplex = Unknown\<rparr>;
                        (settings, w3) = k_ethtool_settings k fd (interface_name s) w2;
                        info' = (case settings of
                                   None \<Rightarrow> info
                                 | Some (speed, dup) \<Rightarrow>
                                     info\<lparr>speed_mbps := (if speed \<noteq> 0xFFFFFFFF then speed else 0),
                                          link_duplex := (if dup = 1 then Full else if dup = 0 then Half else Unknown)\<rparr>)
                    in (Inr info', snd (k_close k fd w3)))"

section \<open>Sending\<close>

text \<open>\<open>poll\<close> again while a signal interrupts it; \<open>None\<close> when it is interrupted for ever.\<close>

partial_function (option) poll_descriptor :: "'w kernel \<Rightarrow> int \<Rightarrow> poll_events \<Rightarrow> u64 \<Rightarrow> 'w \<Rightarrow> (int \<times> 'w) option" where
  "poll_descriptor k fd events deadline w =
     (let (now, w1) = k_now k w;
          (status, w2) = k_poll k fd events (poll_timeout deadline now) w1
      in if status \<ge> 0 \<or> k_errno k w2 \<noteq> E_INTR then Some (status, w2) else poll_descriptor k fd events deadline w2)"

text \<open>The bytes put on the wire: the caller's frame with the device's source address, padded with zeroes.\<close>

definition transmit_packet :: "u8 list \<Rightarrow> u8 list \<Rightarrow> u8 list" where
  "transmit_packet mac frame =
     (let packet = frame @ replicate (MAX_FRAME_SIZE - length frame) 0;
          sourced = foldl (\<lambda>p i. p[MAC_ADDRESS_SIZE + i := mac ! i]) packet [0..<MAC_ADDRESS_SIZE]
      in take (max (length frame) MIN_FRAME_SIZE) sourced)"

definition transmit :: "'w kernel \<Rightarrow> u8 list \<Rightarrow> int \<Rightarrow> ethernet \<Rightarrow> 'w \<Rightarrow> ((eth_error + unit) \<times> 'w) option" where
  "transmit k frame timeout s w =
     (if length frame < ETHERNET_HEADER_SIZE \<or> length frame > MAX_FRAME_SIZE \<or> timeout < 0
      then Some (Inl Invalid_Argument, w)
      else
        (case socket s of
           None \<Rightarrow> Some (Inl Not_Connected, w)
         | Some fd \<Rightarrow>
             let (now, w1) = k_now k w
             in (case poll_descriptor k fd Poll_Out (make_deadline timeout now) w1 of
                   None \<Rightarrow> None
                 | Some (status, w2) \<Rightarrow>
                     if status < 0 then Some (Inl (Errno (k_errno k w2)), w2)
                     else if status = 0 then Some (Inl Timed_Out, w2)
                     else
                       let protocol = (case frame_outer_ether_type frame of Some type \<Rightarrow> type | None \<Rightarrow> 3);
                           packet = transmit_packet (mac_address s) frame;
                           (sent, w3) = k_sendto k fd (interface_index s) protocol packet w2
                       in if sent < 0 then Some (Inl (Errno (k_errno k w3)), w3)
                          else if sent \<noteq> int (length packet) then Some (Inl Io_Error, w3)
                          else Some (Inr (), w3))))"

section \<open>Receiving\<close>

partial_function (option) receive_loop ::
    "'w kernel \<Rightarrow> int \<Rightarrow> u16 option \<Rightarrow> nat \<Rightarrow> u64 \<Rightarrow> 'w \<Rightarrow> ((eth_error + u8 list) \<times> 'w) option" where
  "receive_loop k fd wanted space deadline w =
     Option.bind (poll_descriptor k fd Poll_In deadline w) (\<lambda>(status, w1).
       if status < 0 then Some (Inl (Errno (k_errno k w1)), w1)
       else if status = 0 then Some (Inl Timed_Out, w1)
       else
         let (packet, w2) = k_recvfrom k fd w1
         in (case packet of
               None \<Rightarrow>
                 if k_errno k w2 = E_INTR \<or> k_errno k w2 = E_AGAIN then receive_loop k fd wanted space deadline w2
                 else Some (Inl (Errno (k_errno k w2)), w2)
             | Some p \<Rightarrow>
                 if outgoing p then receive_loop k fd wanted space deadline w2
                 else if length (wire p) > MAX_FRAME_SIZE then Some (Inl Message_Size, w2)
                 else if wanted \<noteq> None \<and> frame_ether_type (wire p) \<noteq> wanted then receive_loop k fd wanted space deadline w2
                 else if space < length (wire p) then Some (Inl No_Buffer_Space, w2)
                 else Some (Inr (wire p), w2)))"

text \<open>The caller's buffer has \<open>space\<close> bytes; the result holds the bytes copied into it.\<close>

definition receive :: "'w kernel \<Rightarrow> nat \<Rightarrow> int \<Rightarrow> ethernet \<Rightarrow> 'w \<Rightarrow> ((eth_error + u8 list) \<times> 'w) option" where
  "receive k space timeout s w =
     (if space = 0 \<or> timeout < 0 then Some (Inl Invalid_Argument, w)
      else
        (case socket s of
           None \<Rightarrow> Some (Inl Not_Connected, w)
         | Some fd \<Rightarrow>
             let (now, w1) = k_now k w
             in receive_loop k fd (receive_ether_type s) space (make_deadline timeout now) w1))"

end
