(* ===== verification/Ethernet_Properties.thy ===== *)
theory Ethernet_Properties
  imports Ethernet
begin

unbundle bit_operations_syntax

text \<open>
  The hosted Ethernet driver: the filter given to the kernel and the driver's own reading of a frame agree,
  a start that fails leaves no socket open, what is transmitted is the caller's frame with the device's
  address, deadlines saturate, and a receive returns when the packets it has to skip come to an end.
\<close>

section \<open>The filter\<close>

text \<open>
  How the kernel runs a classic BPF program, as its documentation has it: a load beyond the packet ends the
  program with 0, the number of bytes to accept.
\<close>

definition bpf_law :: "(sock_filter list \<Rightarrow> u8 list \<Rightarrow> nat \<Rightarrow> u16 \<Rightarrow> nat) \<Rightarrow> bool" where
  "bpf_law run \<longleftrightarrow> (\<forall>prog packet pc acc. pc < length prog \<longrightarrow>
     run prog packet pc acc =
       (case prog ! pc of
          Load_Half offset \<Rightarrow>
            if offset + 2 \<le> length packet then run prog packet (pc + 1) (read_ether_type packet offset) else 0
        | Jump_Equal value jt jf \<Rightarrow> run prog packet (pc + 1 + (if acc = value then jt else jf)) acc
        | Return_K n \<Rightarrow> n))"

abbreviation type_at :: "u8 list \<Rightarrow> nat \<Rightarrow> u16" where
  "type_at frame offset \<equiv> read_ether_type frame offset"

lemma filter_run:
  fixes type :: u16
  assumes law: "bpf_law run"
  defines "prog \<equiv> ether_type_filter type"
  shows "run prog f 0 a0 =
    (if length f < 14 then 0
     else if type_at f 12 = type then 0xFFFF
     else if \<not> is_tag (type_at f 12) then 0
     else if length f < 18 then 0
     else if type_at f 16 = type then 0xFFFF
     else if \<not> is_tag (type_at f 16) then 0
     else if length f < 22 then 0
     else if type_at f 20 = type then 0xFFFF else 0)"
proof -
  have step: "run prog f pc a = (case prog ! pc of
          Load_Half offset \<Rightarrow> if offset + 2 \<le> length f then run prog f (pc + 1) (read_ether_type f offset) else 0
        | Jump_Equal value jt jf \<Rightarrow> run prog f (pc + 1 + (if a = value then jt else jf)) a
        | Return_K n \<Rightarrow> n)" if "pc < 12" for pc a
  proof -
    have "pc < length prog" using that by (simp add: prog_def ether_type_filter_def)
    then show ?thesis using law unfolding bpf_law_def by blast
  qed
  have at: "prog ! 0 = Load_Half 12" "prog ! 1 = Jump_Equal type 8 0" "prog ! 2 = Jump_Equal ETHER_TYPE_VLAN 1 0"
    "prog ! 3 = Jump_Equal ETHER_TYPE_SERVICE_VLAN 0 7" "prog ! 4 = Load_Half 16" "prog ! 5 = Jump_Equal type 4 0"
    "prog ! 6 = Jump_Equal ETHER_TYPE_VLAN 1 0" "prog ! 7 = Jump_Equal ETHER_TYPE_SERVICE_VLAN 0 3"
    "prog ! 8 = Load_Half 20" "prog ! 9 = Jump_Equal type 0 1" "prog ! 10 = Return_K 0xFFFF" "prog ! 11 = Return_K 0"
    by (simp_all add: prog_def ether_type_filter_def)
  have r: "run prog f 11 a = 0" "run prog f 10 a = 0xFFFF" for a using step [of 11 a] step [of 10 a] at by simp_all
  have "run prog f 8 a = (if length f < 22 then 0 else if type_at f 20 = type then 0xFFFF else 0)" for a
    using step [of 8 a] step [of 9 "type_at f 20"] at r by simp
  moreover have "run prog f 6 a = (if is_tag a then run prog f 8 a else 0)" for a
    using step [of 6 a] step [of 7 a] at r
    by (cases "a = ETHER_TYPE_VLAN"; cases "a = ETHER_TYPE_SERVICE_VLAN") (simp_all add: is_tag_def)
  moreover have "run prog f 4 a = (if length f < 18 then 0 else if type_at f 16 = type then 0xFFFF else run prog f 6 (type_at f 16))" for a
    using step [of 4 a] step [of 5 "type_at f 16"] at r by simp
  moreover have "run prog f 2 a = (if is_tag a then run prog f 4 a else 0)" for a
    using step [of 2 a] step [of 3 a] at r
    by (cases "a = ETHER_TYPE_VLAN"; cases "a = ETHER_TYPE_SERVICE_VLAN") (simp_all add: is_tag_def)
  moreover have "run prog f 0 a0 = (if length f < 14 then 0 else if type_at f 12 = type then 0xFFFF else run prog f 2 (type_at f 12))"
    using step [of 0 a0] step [of 1 "type_at f 12"] at r by (simp add: numeral_2_eq_2 [symmetric])
  ultimately show ?thesis by simp
qed

lemma frame_types:
  "frame_ether_type f =
    (if length f < 14 then None
     else if \<not> is_tag (type_at f 12) then Some (type_at f 12)
     else if length f < 18 then None
     else if \<not> is_tag (type_at f 16) then Some (type_at f 16)
     else if length f < 22 then None
     else skip_tags f 20 (type_at f 20))"
  by (simp add: frame_ether_type_def frame_outer_ether_type_def ETHERNET_HEADER_SIZE_def ETHER_TYPE_OFFSET_def
      skip_tags.simps [of f 12] skip_tags.simps [of f 16] VLAN_TAG_SIZE_def)

lemma skip_tags_not_tag: "skip_tags f offset type = Some t \<Longrightarrow> \<not> is_tag t"
  by (induction f offset type rule: skip_tags.induct) (auto simp: skip_tags.simps split: if_splits)

text \<open>
  C26. For an EtherType that is no VLAN tag, the program attached to the socket accepts exactly the
  frames whose type the driver itself reads as that one behind at most two tags; with three tags or more the
  kernel drops what the driver would accept. No load of the program reads beyond a frame.\<close>

theorem filter_agrees:
  assumes "bpf_law run" and "\<not> is_tag type"
  shows "run (ether_type_filter type) f 0 0 \<noteq> 0 \<longleftrightarrow>
    frame_ether_type f = Some type \<and> \<not> (is_tag (type_at f 12) \<and> is_tag (type_at f 16) \<and> is_tag (type_at f 20))"
proof -
  have "\<not> is_tag (type_at f 20) \<longrightarrow> skip_tags f 20 (type_at f 20) = Some (type_at f 20)"
    by (simp add: skip_tags.simps)
  then show ?thesis using assms(2) unfolding filter_run [OF assms(1)] frame_types by auto
qed

text \<open>A driver configured for a VLAN tag's own type accepts frames in the kernel and none of them in \<open>receive\<close>.\<close>

lemma tag_never_received: "is_tag type \<Longrightarrow> frame_ether_type f \<noteq> Some type"
  unfolding frame_ether_type_def using skip_tags_not_tag by (auto split: option.splits)

section \<open>Deadlines\<close>

lemma unat_npm: "unat NANOSECONDS_PER_MILLISECOND = 10 ^ 6"
  by (simp add: NANOSECONDS_PER_MILLISECOND_def)

text \<open>
  The deadline of a call is the time of the call plus its timeout, saturated at the largest time; the
  timeout of a poll reaches the deadline, by less than a millisecond too far, unless it is
  cut at the largest \<open>int\<close>, and is zero exactly when the deadline has passed. The clock is taken to be a
  millisecond past the start of the system, or rounding up to milliseconds could wrap around.\<close>

theorem deadlines_exact:
  assumes "timeout < 2 ^ 63" and boot: "10 ^ 6 \<le> unat now"
  shows "unat (make_deadline timeout now) = min (2 ^ 64 - 1) (unat now + nat timeout * 10 ^ 6) \<and>
    0 \<le> poll_timeout d now \<and> poll_timeout d now \<le> 2 ^ 31 - 1 \<and>
    (poll_timeout d now = 0 \<longleftrightarrow> d \<le> now) \<and>
    (poll_timeout d now < 2 ^ 31 - 1 \<longrightarrow> unat d \<le> unat now + nat (poll_timeout d now) * 10 ^ 6) \<and>
    (now < d \<longrightarrow> unat now + nat (poll_timeout d now) * 10 ^ 6 < unat d + 10 ^ 6)"
proof -
  let ?m = NANOSECONDS_PER_MILLISECOND
  have max: "unat (0xFFFFFFFFFFFFFFFF :: u64) = 2 ^ 64 - 1" by simp
  have now: "unat now < 2 ^ 64" using unsigned_less [of now, where ?'a = nat] by simp
  have "unat (make_deadline timeout now) = min (2 ^ 64 - 1) (unat now + nat timeout * 10 ^ 6)"
  proof (cases "timeout \<le> 0")
    case True
    then show ?thesis using now by (simp add: make_deadline_def)
  next
    case False
    let ?t = "word_of_int timeout :: u64"
    have t: "unat ?t = nat timeout" using assms(1) False by (simp add: unat_eq_nat_uint uint_word_of_int)
    have room: "unat (0xFFFFFFFFFFFFFFFF - now) = 2 ^ 64 - 1 - unat now" using now by (subst unat_sub_small) (simp_all add: max)
    have over: "?t > (0xFFFFFFFFFFFFFFFF - now) div ?m \<longleftrightarrow> 2 ^ 64 - 1 - unat now < nat timeout * 10 ^ 6"
      unfolding word_less_nat_alt unat_div unat_npm room t by (rule div_less_iff_less_mult) simp
    show ?thesis
    proof (cases "?t > (0xFFFFFFFFFFFFFFFF - now) div ?m")
      case True
      then have "make_deadline timeout now = 0xFFFFFFFFFFFFFFFF" using False by (simp add: make_deadline_def Let_def)
      then show ?thesis using True over by simp
    next
      case fits: False
      then have l: "unat now + nat timeout * 10 ^ 6 \<le> 2 ^ 64 - 1" using over now by linarith
      then have "unat (?t * ?m) = nat timeout * 10 ^ 6" by (subst unat_mult_small) (simp_all add: t unat_npm)
      then have "unat (now + ?t * ?m) = unat now + nat timeout * 10 ^ 6" using l by (subst unat_add_small) simp_all
      then show ?thesis using fits False l by (simp add: make_deadline_def Let_def)
    qed
  qed
  moreover have "0 \<le> poll_timeout d now \<and> poll_timeout d now \<le> 2 ^ 31 - 1 \<and>
    (poll_timeout d now = 0 \<longleftrightarrow> d \<le> now) \<and>
    (poll_timeout d now < 2 ^ 31 - 1 \<longrightarrow> unat d \<le> unat now + nat (poll_timeout d now) * 10 ^ 6) \<and>
    (now < d \<longrightarrow> unat now + nat (poll_timeout d now) * 10 ^ 6 < unat d + 10 ^ 6)"
  proof (cases "d \<le> now")
    case True
    then have "\<not> now < d" by simp
    then show ?thesis using True by (simp add: poll_timeout_def word_le_nat_alt)
  next
    case False
    define r where "r = (unat d - unat now + 10 ^ 6 - 1) div 10 ^ 6"
    have lt: "unat now < unat d" "unat d < 2 ^ 64"
      using False unsigned_less [of d, where ?'a = nat] by (simp_all add: word_le_nat_alt)
    have e: "d - now + ?m - 1 = d - now + (?m - 1)" by simp
    have m1: "unat (?m - 1) = 10 ^ 6 - 1" by (simp add: NANOSECONDS_PER_MILLISECOND_def)
    have "unat (d - now) = unat d - unat now" using lt by (simp add: unat_sub_small)
    then have "unat (d - now + ?m - 1) = unat d - unat now + (10 ^ 6 - 1)"
      unfolding e using lt boot by (subst unat_add_small) (simp_all add: m1)
    then have q: "unat ((d - now + ?m - 1) div ?m) = r" by (simp add: unat_div unat_npm r_def)
    have "poll_timeout d now = int (unat (min ((d - now + ?m - 1) div ?m) 0x7FFFFFFF))"
      using False by (simp add: poll_timeout_def Let_def)
    moreover have "unat (min x y) = min (unat x) (unat y)" for x y :: u64 by (simp add: min_def word_le_nat_alt)
    ultimately have p: "poll_timeout d now = int (min r (2 ^ 31 - 1))" by (simp add: q)
    note r = round_up_bounds [of "10 ^ 6" "unat d - unat now", folded r_def]
    have "0 < r" using r(2) lt by (cases r) simp_all
    moreover have "unat d \<le> unat now + r * 10 ^ 6" "unat now + r * 10 ^ 6 < unat d + 10 ^ 6" using r(2,3) lt by simp_all
    moreover have "min r (2 ^ 31 - 1) * 10 ^ 6 \<le> r * 10 ^ 6" by simp
    ultimately show ?thesis using False unfolding p by auto
  qed
  ultimately show ?thesis by blast
qed

section \<open>Transmitting\<close>

lemma foldl_bytes:
  "foldl (\<lambda>p i. p[a + i := f i]) xs [0..<n] = map (\<lambda>j. if a \<le> j \<and> j < a + n then f (j - a) else xs ! j) [0..<length xs]"
proof (induction n)
  case 0
  show ?case by (rule nth_equalityI) auto
next
  case (Suc n)
  let ?f = "\<lambda>m j. if a \<le> j \<and> j < a + m then f (j - a) else xs ! j"
  have "(map (?f n) [0..<length xs])[a + n := f n] ! j = ?f (Suc n) j" if "j < length xs" for j
    using that by (cases "j = a + n") auto
  then show ?case by (intro nth_equalityI) (auto simp: Suc)
qed

lemma transmit_packet_bytes:
  assumes "length frame \<le> MAX_FRAME_SIZE"
  shows "transmit_packet mac frame = map (\<lambda>j. if 6 \<le> j \<and> j < 12 then mac ! (j - 6) else if j < length frame then frame ! j else 0)
    [0..<max (length frame) 60]"
proof -
  have l: "length frame \<le> 1522" using assms by (simp add: MAX_FRAME_SIZE_def)
  then have m: "max (length frame) 60 \<le> 1522" by simp
  show ?thesis unfolding transmit_packet_def Let_def foldl_bytes
    by (rule nth_equalityI) (use l m in \<open>auto simp: MAC_ADDRESS_SIZE_def MAX_FRAME_SIZE_def MIN_FRAME_SIZE_def nth_append\<close>)
qed

text \<open>
  C28. A transmission that succeeds has handed the kernel one packet, on the device's socket and interface
  once the socket was ready to send before the deadline:
  the caller's frame with the source address replaced by the device's, padded with zeroes to the
  minimal size; its destination, EtherType and payload are the caller's. A frame that is too short or too long is
  refused before the kernel is asked anything.\<close>

theorem transmit_sends_frame:
  assumes r: "transmit k frame timeout s w = Some (Inr (), w')" and m: "length (mac_address s) = 6"
  shows "14 \<le> length frame \<and> length frame \<le> 1522 \<and>
    (\<exists>fd p packet status w1. socket s = Some fd \<and>
      poll_descriptor k fd Poll_Out (make_deadline timeout (fst (k_now k w))) (snd (k_now k w)) = Some (status, w1) \<and> 0 < status \<and> k_sendto k fd (interface_index s) p packet w1 = (int (length packet), w') \<and>
      frame_outer_ether_type frame = Some p \<and>
      length packet = max (length frame) 60 \<and> take 6 packet = take 6 frame \<and> take 6 (drop 6 packet) = mac_address s \<and>
      take (length frame - 12) (drop 12 packet) = drop 12 frame \<and> (\<forall>b \<in> set (drop (length frame) packet). b = 0))"
proof -
  have l: "14 \<le> length frame" "length frame \<le> 1522"
    using r by (auto simp: transmit_def ETHERNET_HEADER_SIZE_def MAX_FRAME_SIZE_def split: if_splits)
  obtain p where p: "frame_outer_ether_type frame = Some p" using l by (simp add: frame_outer_ether_type_def ETHERNET_HEADER_SIZE_def)
  define packet where "packet = transmit_packet (mac_address s) frame"
  note bytes = transmit_packet_bytes [of frame "mac_address s", folded packet_def]
  have b: "packet = map (\<lambda>j. if 6 \<le> j \<and> j < 12 then mac_address s ! (j - 6) else if j < length frame then frame ! j else 0)
      [0..<max (length frame) 60]"
    using bytes l by (simp add: MAX_FRAME_SIZE_def)
  have len: "length packet = max (length frame) 60" by (simp add: b)
  have nth: "packet ! j = (if 6 \<le> j \<and> j < 12 then mac_address s ! (j - 6) else if j < length frame then frame ! j else 0)"
    if "j < max (length frame) 60" for j using that by (simp add: b)
  obtain fd status w1 where "socket s = Some fd"
    "poll_descriptor k fd Poll_Out (make_deadline timeout (fst (k_now k w))) (snd (k_now k w)) = Some (status, w1)" "0 < status" "k_sendto k fd (interface_index s) p packet w1 = (int (length packet), w')"
    using r by (auto simp: transmit_def Let_def p packet_def split: if_splits option.splits prod.splits)
  moreover have "take 6 packet = take 6 frame" by (rule nth_equalityI) (use l in \<open>auto simp: len nth\<close>)
  moreover have "take 6 (drop 6 packet) = mac_address s" by (rule nth_equalityI) (use l m in \<open>auto simp: len nth\<close>)
  moreover have "take (length frame - 12) (drop 12 packet) = drop 12 frame"
    by (rule nth_equalityI) (use l in \<open>auto simp: len nth\<close>)
  moreover have "\<forall>b \<in> set (drop (length frame) packet). b = 0"
    using l by (auto simp: in_set_conv_nth len nth)
  ultimately show ?thesis using l p len by blast
qed

section \<open>Starting and stopping\<close>

text \<open>What the driver relies on: only the calls of \<open>socket\<close> open a descriptor, a new one, and only \<open>close\<close> gives it up.\<close>

definition opened :: "('w \<Rightarrow> int set) \<Rightarrow> 'w \<Rightarrow> int \<times> 'w \<Rightarrow> bool" where
  "opened fds w r \<longleftrightarrow>
     (if fst r < 0 then fds (snd r) = fds w else fst r \<notin> fds w \<and> fds (snd r) = insert (fst r) (fds w))"

definition descriptor_law :: "'w kernel \<Rightarrow> ('w \<Rightarrow> int set) \<Rightarrow> bool" where
  "descriptor_law k fds \<longleftrightarrow>
     (\<forall>w. opened fds w (k_socket k w)) \<and>
     (\<forall>fd w. fds (snd (k_close k fd w)) = fds w - {fd}) \<and>
     (\<forall>n w. fds (snd (k_nametoindex k n w)) = fds w) \<and> (\<forall>fd i w. fds (snd (k_bind k fd i w)) = fds w) \<and>
     (\<forall>fd p w. fds (snd (k_attach_filter k fd p w)) = fds w) \<and> (\<forall>fd i w. fds (snd (k_add_promiscuous k fd i w)) = fds w) \<and>
     (\<forall>fd n w. fds (snd (k_hardware_address k fd n w)) = fds w) \<and> (\<forall>fd w. fds (k_set_options k fd w) = fds w) \<and>
     (\<forall>w. opened fds w (k_control_socket k w)) \<and>
     (\<forall>fd n w. fds (snd (k_interface_flags k fd n w)) = fds w) \<and> (\<forall>fd n w. fds (snd (k_ethtool_settings k fd n w)) = fds w)"

lemma descriptor_lawD:
  assumes "descriptor_law k fds"
  shows "k_socket k w = (fd, w') \<Longrightarrow> if fd < 0 then fds w' = fds w else fd \<notin> fds w \<and> fds w' = insert fd (fds w)"
    and "k_control_socket k w = (fd, w') \<Longrightarrow> if fd < 0 then fds w' = fds w else fd \<notin> fds w \<and> fds w' = insert fd (fds w)"
    and "k_close k fd w = (b, w') \<Longrightarrow> fds w' = fds w - {fd}" and "fds (snd (k_close k fd w)) = fds w - {fd}"
    and "k_nametoindex k n w = (i, w') \<Longrightarrow> fds w' = fds w" and "k_bind k fd i w = (b, w') \<Longrightarrow> fds w' = fds w"
    and "k_attach_filter k fd p w = (b, w') \<Longrightarrow> fds w' = fds w"
    and "k_add_promiscuous k fd i w = (b, w') \<Longrightarrow> fds w' = fds w"
    and "k_hardware_address k fd n w = (m, w') \<Longrightarrow> fds w' = fds w" and "fds (k_set_options k fd w) = fds w"
    and "k_interface_flags k fd n w = (f, w') \<Longrightarrow> fds w' = fds w"
    and "k_ethtool_settings k fd n w = (e, w') \<Longrightarrow> fds w' = fds w"
proof -
  have "opened fds w (k_socket k w)" "opened fds w (k_control_socket k w)"
    using assms by (simp_all add: descriptor_law_def)
  then show "k_socket k w = (fd, w') \<Longrightarrow> if fd < 0 then fds w' = fds w else fd \<notin> fds w \<and> fds w' = insert fd (fds w)"
    "k_control_socket k w = (fd, w') \<Longrightarrow> if fd < 0 then fds w' = fds w else fd \<notin> fds w \<and> fds w' = insert fd (fds w)"
    by (simp_all add: opened_def split: if_splits)
  show close: "fds (snd (k_close k fd w)) = fds w - {fd}" and "fds (k_set_options k fd w) = fds w"
    using assms by (simp_all add: descriptor_law_def)
  from close show "k_close k fd w = (b, w') \<Longrightarrow> fds w' = fds w - {fd}" by simp
  have same: "fds (snd (k_nametoindex k n w)) = fds w" "fds (snd (k_bind k fd i w)) = fds w"
    "fds (snd (k_attach_filter k fd p w)) = fds w" "fds (snd (k_add_promiscuous k fd i w)) = fds w"
    "fds (snd (k_hardware_address k fd n w)) = fds w" "fds (snd (k_interface_flags k fd n w)) = fds w"
    "fds (snd (k_ethtool_settings k fd n w)) = fds w" for i
    using assms by (simp_all add: descriptor_law_def)
  show "k_nametoindex k n w = (i, w') \<Longrightarrow> fds w' = fds w" using same(1) by simp
  show "k_bind k fd i w = (b, w') \<Longrightarrow> fds w' = fds w" using same(2) [of i] by simp
  show "k_attach_filter k fd p w = (b, w') \<Longrightarrow> fds w' = fds w" using same(3) by simp
  show "k_add_promiscuous k fd i w = (b, w') \<Longrightarrow> fds w' = fds w" using same(4) [of i] by simp
  show "k_hardware_address k fd n w = (m, w') \<Longrightarrow> fds w' = fds w" using same(5) by simp
  show "k_interface_flags k fd n w = (f, w') \<Longrightarrow> fds w' = fds w" using same(6) by simp
  show "k_ethtool_settings k fd n w = (e, w') \<Longrightarrow> fds w' = fds w" using same(7) by simp
qed

definition owns_socket :: "('w \<Rightarrow> int set) \<Rightarrow> int set \<Rightarrow> (eth_error + unit) \<times> ethernet \<times> 'w \<Rightarrow> bool" where
  "owns_socket fds others r \<longleftrightarrow>
     (case fst r of
        Inl _ \<Rightarrow> socket (fst (snd r)) = None \<and> fds (snd (snd r)) = others
      | Inr _ \<Rightarrow> (\<exists>fd. socket (fst (snd r)) = Some fd \<and> fd \<notin> others \<and> fds (snd (snd r)) = insert fd others))"

lemma start_configured_owns:
  assumes law: "descriptor_law k fds" and s: "socket s = None" and w: "fds w = insert fd others" "fd \<notin> others"
  shows "owns_socket fds others (start_configured k fd (s, w))" and "owns_socket fds others (start_promiscuous k fd (s, w))"
    and "owns_socket fds others (start_filtered k fd (s, w))"
proof -
  have close: "owns_socket fds others (close_failed k fd (s, w))" if "fds w = insert fd others" for w
    using that w(2) s descriptor_lawD(4) [OF law] by (simp add: close_failed_def owns_socket_def)
  have c: "owns_socket fds others (start_configured k fd (s, w))" if "fds w = insert fd others" for w
  proof -
    obtain a w1 where a: "k_hardware_address k fd (interface_name s) w = (a, w1)" by fastforce
    have "fds w1 = fds w" by (rule descriptor_lawD(9) [OF law a])
    then show ?thesis using close [of w1] that w(2) s
      by (cases a) (simp_all add: start_configured_def a owns_socket_def)
  qed
  have p: "owns_socket fds others (start_promiscuous k fd (s, w))" if "fds w = insert fd others" for w
  proof -
    obtain a w1 where a: "k_add_promiscuous k fd (interface_index s) w = (a, w1)" by fastforce
    have "fds w1 = fds w" by (rule descriptor_lawD(8) [OF law a])
    then show ?thesis using close [of w1] c [of w1] c [of w] that by (simp add: start_promiscuous_def a)
  qed
  have f: "owns_socket fds others (start_filtered k fd (s, w))" if "fds w = insert fd others" for w
  proof (cases "receive_ether_type s")
    case None
    then show ?thesis using p [OF that] by (simp add: start_filtered_def)
  next
    case (Some type)
    obtain a w1 where a: "k_attach_filter k fd (ether_type_filter type) w = (a, w1)" by fastforce
    have "fds w1 = fds w" by (rule descriptor_lawD(7) [OF law a])
    then show ?thesis using close [of w1] p [of w1] that by (simp add: start_filtered_def Some a)
  qed
  show "owns_socket fds others (start_configured k fd (s, w))" "owns_socket fds others (start_promiscuous k fd (s, w))"
    "owns_socket fds others (start_filtered k fd (s, w))"
    using c p f w(1) by blast+
qed

lemma link_info_no_leak:
  assumes law: "descriptor_law k fds"
  shows "fds (snd (get_link_info k s w)) = fds w"
proof (cases "interface_name s = []")
  case True
  then show ?thesis by (simp add: get_link_info_def)
next
  case False
  obtain fd w1 where fd: "k_control_socket k w = (fd, w1)" by fastforce
  obtain f w2 where f: "k_interface_flags k fd (interface_name s) w1 = (f, w2)" by fastforce
  obtain e w3 where e: "k_ethtool_settings k fd (interface_name s) w2 = (e, w3)" by fastforce
  have w: "fds w2 = fds w1" "fds w3 = fds w2" by (rule descriptor_lawD(11) [OF law f], rule descriptor_lawD(12) [OF law e])
  note c = descriptor_lawD(4) [OF law]
  have new: "if fd < 0 then fds w1 = fds w else fd \<notin> fds w \<and> fds w1 = insert fd (fds w)"
    by (rule descriptor_lawD(2) [OF law fd])
  show ?thesis
  proof (cases "fd < 0")
    case True
    then show ?thesis using False new by (simp add: get_link_info_def fd)
  next
    case opened: False
    have "snd (get_link_info k s w) = snd (k_close k fd (if f = None then w2 else w3))"
      using False opened by (cases f) (simp_all add: get_link_info_def fd f e Let_def)
    then show ?thesis using opened new c w by simp
  qed
qed

text \<open>
  C27. A start of a stopped device either succeeds and holds one new descriptor, or fails, at whatever
  step, and leaves no descriptor open and the device stopped; a start of a running one changes nothing. A
  stop gives the descriptor up, also when closing it reports an error; asking for the link's state leaves none open either.\<close>

theorem ethernet_start_no_leak:
  assumes law: "descriptor_law k fds"
  shows "(socket s = None \<longrightarrow> owns_socket fds (fds w) (ethernet_start k (s, w))) \<and>
    (socket s \<noteq> None \<longrightarrow> ethernet_start k (s, w) = (Inr (), s, w)) \<and>
    socket (fst (snd (ethernet_stop k (s, w)))) = None \<and>
    fds (snd (snd (ethernet_stop k (s, w)))) = fds w - set_option (socket s) \<and>
    fds (snd (get_link_info k s w)) = fds w"
proof (intro conjI impI)
  show "fds (snd (get_link_info k s w)) = fds w" by (rule link_info_no_leak [OF law])
next
  assume s: "socket s = None"
  obtain i w1 where i: "k_nametoindex k (interface_name s) w = (i, w1)" by fastforce
  obtain fd w2 where fd: "k_socket k w1 = (fd, w2)" by fastforce
  obtain b w3 where b: "k_bind k fd i w2 = (b, w3)" by fastforce
  let ?s = "s\<lparr>interface_index := i\<rparr>"
  have w: "fds w1 = fds w" "fds w3 = fds w2" "fds (k_set_options k fd w3) = fds w3"
    by (rule descriptor_lawD(5) [OF law i], rule descriptor_lawD(6) [OF law b], rule descriptor_lawD(10) [OF law])
  have new: "if fd < 0 then fds w2 = fds w1 else fd \<notin> fds w1 \<and> fds w2 = insert fd (fds w1)"
    by (rule descriptor_lawD(1) [OF law fd])
  show "owns_socket fds (fds w) (ethernet_start k (s, w))"
  proof (cases "interface_name s = [] \<or> i = 0 \<or> fd < 0")
    case True
    then show ?thesis using s i fd w new by (auto simp: ethernet_start_def owns_socket_def Let_def)
  next
    case False
    then have o: "fds w3 = insert fd (fds w)" "fd \<notin> fds w" using w new by simp_all
    have "owns_socket fds (fds w) (close_failed k fd (?s, w3))"
      using o s descriptor_lawD(4) [OF law] by (simp add: close_failed_def owns_socket_def)
    moreover have "owns_socket fds (fds w) (start_filtered k fd (?s, k_set_options k fd w3))"
      by (rule start_configured_owns(3) [OF law]) (use o s w in simp_all)
    ultimately show ?thesis using False s i fd b by (simp add: ethernet_start_def Let_def)
  qed
next
  assume "socket s \<noteq> None"
  then show "ethernet_start k (s, w) = (Inr (), s, w)" by (simp add: ethernet_start_def)
next
  show "socket (fst (snd (ethernet_stop k (s, w)))) = None"
    by (simp add: ethernet_stop_def Let_def split: option.splits prod.splits)
  show "fds (snd (snd (ethernet_stop k (s, w)))) = fds w - set_option (socket s)"
  proof (cases "socket s")
    case None
    then show ?thesis by (simp add: ethernet_stop_def)
  next
    case (Some fd)
    obtain c w1 where c: "k_close k fd w = (c, w1)" by fastforce
    have "fds w1 = fds w - {fd}" by (rule descriptor_lawD(3) [OF law c])
    then show ?thesis by (simp add: ethernet_stop_def Some c)
  qed
qed

section \<open>Receiving\<close>






text \<open>
  Without that assumption it need not return: a device that keeps reading packets it has to skip polls
  again with a timeout of zero, finds the next one and never looks at the deadline.
\<close>

definition chatty :: "u64 kernel" where
  "chatty = \<lparr>k_now = (\<lambda>t. (t, t + 1)), k_errno = (\<lambda>_. 0), k_nametoindex = (\<lambda>_ t. (1, t)), k_socket = (\<lambda>t. (3, t)),
     k_bind = (\<lambda>_ _ t. (True, t)), k_attach_filter = (\<lambda>_ _ t. (True, t)), k_add_promiscuous = (\<lambda>_ _ t. (True, t)),
     k_hardware_address = (\<lambda>_ _ t. (Some [], t)), k_set_options = (\<lambda>_ t. t), k_close = (\<lambda>_ t. (True, t)),
     k_poll = (\<lambda>_ _ _ t. (1, t)), k_sendto = (\<lambda>_ _ _ p t. (int (length p), t)),
     k_recvfrom = (\<lambda>_ t. (Some \<lparr>outgoing = True, wire = []\<rparr>, t)),
     k_control_socket = (\<lambda>t. (-1, t)), k_interface_flags = (\<lambda>_ _ t. (None, t)),
     k_ethtool_settings = (\<lambda>_ _ t. (None, t))\<rparr>"

lemma receive_ignores_deadline: "receive_loop chatty fd wanted space deadline w = None"
proof (rule ccontr)
  assume "receive_loop chatty fd wanted space deadline w \<noteq> None"
  then obtain r where "receive_loop chatty fd wanted space deadline w = Some r" by blast
  then have "chatty \<noteq> chatty"
  proof (rule receive_loop.raw_induct [where P = "\<lambda>k fd wanted space deadline w r. k \<noteq> chatty", rotated])
    fix self :: "u64 kernel \<Rightarrow> int \<Rightarrow> u16 option \<Rightarrow> nat \<Rightarrow> u64 \<Rightarrow> u64 \<Rightarrow> ((eth_error + u8 list) \<times> u64) option"
    fix k :: "u64 kernel" and fd wanted space deadline w r
    assume IH: "\<And>k fd wanted space deadline w r. self k fd wanted space deadline w = Some r \<Longrightarrow> k \<noteq> chatty"
      and s: "Option.bind (poll_descriptor k fd Poll_In deadline w) (\<lambda>(status, w1).
       if status < 0 then Some (Inl (Errno (k_errno k w1)), w1)
       else if status = 0 then Some (Inl Timed_Out, w1)
       else
         let (packet, w2) = k_recvfrom k fd w1
         in (case packet of
               None \<Rightarrow>
                 if k_errno k w2 = E_INTR \<or> k_errno k w2 = E_AGAIN then self k fd wanted space deadline w2
                 else Some (Inl (Errno (k_errno k w2)), w2)
             | Some p \<Rightarrow>
                 if outgoing p then self k fd wanted space deadline w2
                 else if length (wire p) > MAX_FRAME_SIZE then Some (Inl Message_Size, w2)
                 else if wanted \<noteq> None \<and> frame_ether_type (wire p) \<noteq> wanted then self k fd wanted space deadline w2
                 else if space < length (wire p) then Some (Inl No_Buffer_Space, w2)
                 else Some (Inr (wire p), w2))) = Some r"
    show "k \<noteq> chatty"
    proof
      assume k: "k = chatty"
      have "poll_descriptor chatty fd Poll_In deadline w = Some (1, w + 1)"
        by (subst poll_descriptor.simps) (simp add: chatty_def)
      then have "self chatty fd wanted space deadline (w + 1) = Some r" using s by (simp add: k chatty_def)
      then show False using IH by blast
    qed
  qed
  then show False by simp
qed

section \<open>Examples\<close>

text \<open>An interpreter of programs: jumps go forward, so it ends.\<close>

function run_filter :: "sock_filter list \<Rightarrow> u8 list \<Rightarrow> nat \<Rightarrow> u16 \<Rightarrow> nat" where
  "run_filter prog packet pc acc =
     (if length prog \<le> pc then 0
      else case prog ! pc of
          Load_Half offset \<Rightarrow>
            if offset + 2 \<le> length packet then run_filter prog packet (pc + 1) (read_ether_type packet offset) else 0
        | Jump_Equal value jt jf \<Rightarrow> run_filter prog packet (pc + 1 + (if acc = value then jt else jf)) acc
        | Return_K k \<Rightarrow> k)"
  by pat_completeness auto
termination
  by (relation "measure (\<lambda>(prog, packet, pc, acc). length prog - pc)") auto

declare run_filter.simps [simp del]

lemma run_filter_law: "bpf_law run_filter"
  unfolding bpf_law_def by (subst run_filter.simps) simp

definition ethercat_frame :: "u8 list" where
  "ethercat_frame = [1, 1, 5, 4, 0, 0, 2, 2, 2, 2, 2, 2, 0x88, 0xA4, 0x10]"

lemma ethercat_type: "read_ether_type ethercat_frame 12 = 0x88A4" "\<not> is_tag 0x88A4"
  by (simp_all add: read_ether_type_def ethercat_frame_def is_tag_def ETHER_TYPE_VLAN_def ETHER_TYPE_SERVICE_VLAN_def)

lemma filter_agrees_witness: "run_filter (ether_type_filter 0x88A4) ethercat_frame 0 0 \<noteq> 0"
proof -
  have "frame_ether_type ethercat_frame = Some 0x88A4"
    using ethercat_type by (simp add: frame_types) (simp add: ethercat_frame_def)
  then show ?thesis using filter_agrees [OF run_filter_law ethercat_type(2)] ethercat_type by simp
qed

lemma deadlines_exact_witness: "unat (make_deadline 5 1000000) = 6000000 \<and> poll_timeout 6000000 1000000 \<le> 2 ^ 31 - 1"
  using deadlines_exact [of 5 1000000 6000000] by simp

text \<open>A kernel with one descriptor and a list of packets that have arrived.\<close>

definition mailbox :: "(int set \<times> received list) kernel" where
  "mailbox = \<lparr>k_now = (\<lambda>w. (0, w)), k_errno = (\<lambda>_. 0), k_nametoindex = (\<lambda>_ w. (1, w)),
     k_socket = (\<lambda>w. if 3 \<in> fst w then (-1, w) else (3, (insert 3 (fst w), snd w))),
     k_bind = (\<lambda>_ _ w. (True, w)), k_attach_filter = (\<lambda>_ _ w. (True, w)), k_add_promiscuous = (\<lambda>_ _ w. (True, w)),
     k_hardware_address = (\<lambda>_ _ w. (Some [2, 2, 2, 2, 2, 2], w)), k_set_options = (\<lambda>_ w. w),
     k_close = (\<lambda>fd w. (True, (fst w - {fd}, snd w))), k_poll = (\<lambda>_ _ _ w. (if snd w = [] then 0 else 1, w)),
     k_sendto = (\<lambda>_ _ _ p w. (int (length p), w)),
     k_recvfrom = (\<lambda>_ w. case snd w of [] \<Rightarrow> (None, w) | p # ps \<Rightarrow> (Some p, (fst w, ps))),
     k_control_socket = (\<lambda>w. (-1, w)), k_interface_flags = (\<lambda>_ _ w. (None, w)),
     k_ethtool_settings = (\<lambda>_ _ w. (None, w))\<rparr>"

definition started :: ethernet where
  "started = (ethernet_new ''eth0'' (Some 0x88A4) False)\<lparr>socket := Some 3, mac_address := [2, 2, 2, 2, 2, 2]\<rparr>"

lemma mailbox_descriptors: "descriptor_law mailbox fst"
  by (simp add: descriptor_law_def opened_def mailbox_def)


lemma ethernet_start_no_leak_witness:
  "owns_socket fst {} (ethernet_start mailbox (ethernet_new ''eth0'' None True, ({}, [])))"
  using ethernet_start_no_leak [OF mailbox_descriptors, of "ethernet_new ''eth0'' None True" "({}, [])"]
  by (simp add: ethernet_new_def)

lemma transmit_sends_frame_witness:
  "\<exists>w'. transmit mailbox ethercat_frame 0 started ({3}, [\<lparr>outgoing = True, wire = []\<rparr>]) = Some (Inr (), w') \<and>
     14 \<le> length ethercat_frame"
proof -
  let ?w = "({3 :: int}, [\<lparr>outgoing = True, wire = []\<rparr>])"
  have p: "poll_descriptor mailbox 3 e d ?w = Some (1, ?w)" for e d
    by (subst poll_descriptor.simps) (simp add: mailbox_def)
  have r: "transmit mailbox ethercat_frame 0 started ?w = Some (Inr (), ?w)"
    by (simp add: transmit_def started_def p Let_def ETHERNET_HEADER_SIZE_def MAX_FRAME_SIZE_def ethercat_frame_def)
      (simp add: mailbox_def p [unfolded mailbox_def] split: option.splits)
  have m: "length (mac_address started) = 6" by (simp add: started_def)
  show ?thesis by (rule exI [of _ ?w]) (use r conjunct1 [OF transmit_sends_frame [OF r m]] in simp)
qed


end
