(* ===== verification/Runtime_Startup.thy ===== *)
theory Runtime_Startup
  imports Runtime_Clock Thread_Keys Thread_Block
begin

text \<open>
  The start of the C++ runtime and the hooks it has in the life of every ThreadX thread
  (\<open>platform/runtime/libstdcxx/backend.cpp\<close>, with the guard's mutex of \<open>cxx_guard.cpp\<close>). What ThreadX
  answers to each creation is an argument. Deleting an object that was just created does not fail.
\<close>

section \<open>Start\<close>

datatype runtime_object = Initialization_Mutex | Guard_Mutex | Cleanup_Queue | Rollover_Timer | Reaper_Thread

record 'w startup =
  clock_part :: "'w clock"
  existing :: "runtime_object list"
  cxx_guard_mutex_ready :: bool
  runtime_initialized :: bool

type_synonym creations = "runtime_object \<Rightarrow> tx_status"

definition create_object :: "creations \<Rightarrow> runtime_object \<Rightarrow> 'w startup \<Rightarrow> tx_status \<times> 'w startup" where
  "create_object env obj s =
     (env obj, if env obj = TX_SUCCESS then s\<lparr>existing := obj # existing s\<rparr> else s)"

definition delete_object :: "runtime_object \<Rightarrow> 'w startup \<Rightarrow> 'w startup" where
  "delete_object obj s = s\<lparr>existing := remove1 obj (existing s)\<rparr>"

definition initialize_cxx_guard :: "creations \<Rightarrow> 'w startup \<Rightarrow> tx_status \<times> 'w startup" where
  "initialize_cxx_guard env s =
     (if cxx_guard_mutex_ready s then (TX_SUCCESS, s)
      else
        let (status, s1) = create_object env Guard_Mutex s
        in (status, if status = TX_SUCCESS then s1\<lparr>cxx_guard_mutex_ready := True\<rparr> else s1))"

definition destroy_cxx_guard :: "'w startup \<Rightarrow> 'w startup" where
  "destroy_cxx_guard s =
     (if \<not> cxx_guard_mutex_ready s then s else (delete_object Guard_Mutex s)\<lparr>cxx_guard_mutex_ready := False\<rparr>)"

text \<open>The objects one after the other, each failure deleting those before it.\<close>

definition initialize_objects :: "creations \<Rightarrow> 'w startup \<Rightarrow> tx_status \<times> 'w startup" where
  "initialize_objects env s =
     (let (status, s1) = create_object env Initialization_Mutex s
      in if status \<noteq> TX_SUCCESS then (status, s1)
         else
           let (status, s2) = initialize_cxx_guard env s1
           in if status \<noteq> TX_SUCCESS then (status, delete_object Initialization_Mutex s2)
              else
                let (status, s3) = create_object env Cleanup_Queue s2
                in if status \<noteq> TX_SUCCESS
                   then (status, delete_object Initialization_Mutex (destroy_cxx_guard s3))
                   else
                     let (status, s4) = create_object env Rollover_Timer s3
                     in if status \<noteq> TX_SUCCESS
                        then (status, delete_object Initialization_Mutex (destroy_cxx_guard (delete_object Cleanup_Queue s4)))
                        else
                          let (status, s5) = create_object env Reaper_Thread s4
                          in if status \<noteq> TX_SUCCESS
                             then (status, delete_object Initialization_Mutex (destroy_cxx_guard
                                     (delete_object Cleanup_Queue (delete_object Rollover_Timer s5))))
                             else (TX_SUCCESS, s5\<lparr>runtime_initialized := True\<rparr>))"

definition runtime_initialize ::
    "'w clock_services \<Rightarrow> (int \<times> u32) option \<Rightarrow> bool \<Rightarrow> creations \<Rightarrow> 'w startup \<Rightarrow> tx_status \<times> 'w startup" where
  "runtime_initialize cs rtc_time timer_started env s =
     (if runtime_initialized s then (TX_SUCCESS, s)
      else initialize_objects env (s\<lparr>clock_part := initialize_clock cs rtc_time timer_started (clock_part s)\<rparr>))"

section \<open>Hooks of a thread\<close>

text \<open>What a thread runs when ThreadX starts it: the runtime's entry, which calls the application's.\<close>

record thread_hooks =
  tx_thread_entry :: nat
  runtime_entry :: "nat option"
  cleanup_started :: bool

record 'w departures =
  hooks :: "nat \<Rightarrow> thread_hooks"
  tls_part :: tls
  key_part :: "'w key_state"

definition RUNTIME_THREAD_ENTRY :: nat where
  "RUNTIME_THREAD_ENTRY = 0"

definition thread_hook_create :: "nat option \<Rightarrow> 'w departures \<Rightarrow> 'w departures" where
  "thread_hook_create thread s =
     (case thread of
        None \<Rightarrow> s
      | Some t \<Rightarrow>
          s\<lparr>key_part := clear_values t (key_part s),
            hooks := (hooks s)(t := \<lparr>tx_thread_entry = RUNTIME_THREAD_ENTRY,
              runtime_entry = Some (tx_thread_entry (hooks s t)), cleanup_started = False\<rparr>)\<rparr>)"

definition thread_hook_started :: "nat \<Rightarrow> bool \<Rightarrow> 'w departures \<Rightarrow> 'w departures option" where
  "thread_hook_started t notify_installed s =
     (if notify_installed then Some (s\<lparr>hooks := (hooks s)(t := (hooks s t)\<lparr>cleanup_started := False\<rparr>)\<rparr>) else None)"

text \<open>\<open>None\<close> is a run of thread-local destructors that never ends.\<close>

definition cleanup_thread_runtime ::
    "(destructor \<Rightarrow> destructor list) \<Rightarrow> (nat \<Rightarrow> nat \<Rightarrow> 'w key_state \<Rightarrow> 'w key_state) \<Rightarrow> bool \<Rightarrow> nat option \<Rightarrow>
     'w departures \<Rightarrow> 'w departures option" where
  "cleanup_thread_runtime registers destroy is_initialized thread s =
     (case thread of
        None \<Rightarrow> Some s
      | Some t \<Rightarrow>
          if cleanup_started (hooks s t) then Some s
          else
            (case runtime_tls_thread_exit registers t (tls_part s) of
               None \<Rightarrow> None
             | Some (executed, tls) \<Rightarrow>
                 Some (s\<lparr>hooks := (hooks s)(t := (hooks s t)\<lparr>cleanup_started := True\<rparr>), tls_part := tls,
                         key_part := run_thread_specific_destructors destroy is_initialized (Some t) (key_part s)\<rparr>)))"

text \<open>After the application's entry function has returned, and at the notification of an exit.\<close>

definition runtime_thread_entry ::
    "(destructor \<Rightarrow> destructor list) \<Rightarrow> (nat \<Rightarrow> nat \<Rightarrow> 'w key_state \<Rightarrow> 'w key_state) \<Rightarrow> bool \<Rightarrow> nat option \<Rightarrow>
     (nat \<Rightarrow> 'w departures \<Rightarrow> 'w departures) \<Rightarrow> 'w departures \<Rightarrow> 'w departures option" where
  "runtime_thread_entry registers destroy is_initialized thread run s =
     (case thread of
        None \<Rightarrow> None
      | Some t \<Rightarrow>
          (case runtime_entry (hooks s t) of
             None \<Rightarrow> None
           | Some f \<Rightarrow> cleanup_thread_runtime registers destroy is_initialized (Some t) (run f s)))"

definition runtime_thread_notify ::
    "(destructor \<Rightarrow> destructor list) \<Rightarrow> (nat \<Rightarrow> nat \<Rightarrow> 'w key_state \<Rightarrow> 'w key_state) \<Rightarrow> bool \<Rightarrow> nat option \<Rightarrow>
     bool \<Rightarrow> nat option \<Rightarrow> 'w departures \<Rightarrow> 'w departures option" where
  "runtime_thread_notify registers destroy is_initialized thread exit_event current s =
     (if exit_event \<and> thread = current then cleanup_thread_runtime registers destroy is_initialized thread s else Some s)"

end
