(* ===== verification/Startup_Properties.thy ===== *)
theory Startup_Properties
  imports Runtime_Startup Block_Properties Key_Properties Clock_Properties
begin

text \<open>
  The start of the runtime creates all of its objects or none, and a thread that ends by itself runs its
  thread-local destructors and then its key destructors, once, whichever way it ends.
\<close>

section \<open>Start\<close>

lemma object_simps [simp]:
  "fst (create_object env obj s) = env obj" "clock_part (snd (create_object env obj s)) = clock_part s"
  "clock_part (delete_object obj s) = clock_part s"
  by (simp_all add: create_object_def delete_object_def)

text \<open>
  On a runtime that has not been started, the initialisation succeeds exactly when ThreadX
  creates all five objects; then they exist, in order, and the runtime is active. At the first object that is refused
  it reports that status and deletes every object it had created, so that a later attempt starts afresh.
  Once active, it does nothing more.\<close>

theorem runtime_initialize_all_or_nothing:
  assumes "\<not> runtime_initialized s" and "existing s = []" and "\<not> cxx_guard_mutex_ready s"
    and "runtime_initialize cs rtc_time timer_started env s = (status, s')"
  shows "(status = TX_SUCCESS \<longleftrightarrow> (\<forall>obj. env obj = TX_SUCCESS)) \<and>
    (status = TX_SUCCESS \<longrightarrow> runtime_initialized s' \<and> cxx_guard_mutex_ready s' \<and>
      existing s' = [Reaper_Thread, Rollover_Timer, Cleanup_Queue, Guard_Mutex, Initialization_Mutex] \<and>
      runtime_initialize cs rtc_time timer_started env s' = (TX_SUCCESS, s')) \<and>
    (status \<noteq> TX_SUCCESS \<longrightarrow> \<not> runtime_initialized s' \<and> \<not> cxx_guard_mutex_ready s' \<and> existing s' = [] \<and>
      (\<exists>obj. status = env obj)) \<and>
    clock_part s' = initialize_clock cs rtc_time timer_started (clock_part s)"
proof -
  have all: "(\<forall>obj. env obj = TX_SUCCESS) \<longleftrightarrow> env Initialization_Mutex = TX_SUCCESS \<and> env Guard_Mutex = TX_SUCCESS \<and>
      env Cleanup_Queue = TX_SUCCESS \<and> env Rollover_Timer = TX_SUCCESS \<and> env Reaper_Thread = TX_SUCCESS"
    by (metis runtime_object.exhaust)
  show ?thesis unfolding all using assms
    by (auto simp: runtime_initialize_def initialize_objects_def initialize_cxx_guard_def destroy_cxx_guard_def
        create_object_def delete_object_def Let_def split: if_splits)
qed

section \<open>The end of a thread\<close>

text \<open>
  A thread that ends by itself, whether its entry function returns or it terminates itself,
  runs the thread-local destructors and then the destructors of its keys, each once; nothing is left of
  either, and the notification that ThreadX sends afterwards does nothing more. The termination of a thread by
  another runs none of them in the caller. Thread-local destructors are assumed to come to an end, and those
  of keys to use no keys.\<close>

theorem thread_exit_cleans_up_once:
  fixes rank :: "Thread_Block.destructor \<Rightarrow> nat"
  assumes dec: "\<And>d e. e \<in> set (registers d) \<Longrightarrow> rank e < rank d"
    and keys: "keys_inv (key_part s)" and first: "\<not> cleanup_started (hooks s t)"
  shows "\<exists>executed s'. cleanup_thread_runtime registers (plain_call f) True (Some t) s = Some s' \<and>
    runtime_thread_notify registers (plain_call f) True (Some t) True (Some t) s = Some s' \<and>
    runtime_thread_notify registers (plain_call f) True (Some t) True (Some t) s' = Some s' \<and>
    (\<forall>u. u \<noteq> Some t \<longrightarrow> runtime_thread_notify registers (plain_call f) True (Some t) True u s = Some s) \<and>
    mset executed = mset (destructors (tls_threads (tls_part s) t)) + (\<Sum>d \<in># mset executed. mset (registers d)) \<and>
    destructors (tls_threads (tls_part s') t) = [] \<and>
    outside (key_part s') =
      fold (\<lambda>(d, v). f d v) (pending_calls t (key_part s) [0..<RUNTIME_THREAD_KEY_COUNT]) (outside (key_part s)) \<and>
    pending_calls t (key_part s') [0..<RUNTIME_THREAD_KEY_COUNT] = []"
proof -
  obtain l where l: "run_destructors registers (destructors (tls_threads (tls_part s) t)) = Some l"
    using run_destructors_returns [of registers rank, OF dec] by blast
  obtain k where k: "run_thread_specific_destructors (plain_call f) True (Some t) (key_part s) = k"
    "outside k = fold (\<lambda>(d, v). f d v) (pending_calls t (key_part s) [0..<RUNTIME_THREAD_KEY_COUNT]) (outside (key_part s))"
    "pending_calls t k [0..<RUNTIME_THREAD_KEY_COUNT] = []"
    using destructors_run_once [OF keys, of f t] by (elim exE conjE)
  define s' where "s' = s\<lparr>hooks := (hooks s)(t := (hooks s t)\<lparr>cleanup_started := True\<rparr>),
    tls_part := set_thread t ((tls_threads (tls_part s) t)\<lparr>destructors := []\<rparr>) (tls_part s), key_part := k\<rparr>"
  have 1: "cleanup_thread_runtime registers (plain_call f) True (Some t) s = Some s'"
    using first by (simp add: cleanup_thread_runtime_def runtime_tls_thread_exit_def l k(1) s'_def)
  have 2: "cleanup_thread_runtime registers (plain_call f) True (Some t) s' = Some s'"
    by (simp add: cleanup_thread_runtime_def s'_def)
  have 3: "destructors (tls_threads (tls_part s') t) = []" "key_part s' = k" by (simp_all add: s'_def)
  note account = run_destructors_account [OF l]
  show ?thesis
    by (rule exI [of _ l], rule exI [of _ s'])
      (simp add: 1 2 3 k(2,3) runtime_thread_notify_def account [symmetric])
qed

section \<open>Examples\<close>

definition unstarted :: "nat startup" where
  "unstarted = \<lparr>clock_part = sample_clock, existing = [], cxx_guard_mutex_ready = False, runtime_initialized = False\<rparr>"

lemma runtime_initialize_all_or_nothing_witness:
  "\<exists>s'. runtime_initialize sample_services None False (\<lambda>obj. if obj = Rollover_Timer then TX_NOT_AVAILABLE else TX_SUCCESS) unstarted =
     (TX_NOT_AVAILABLE, s') \<and> existing s' = []"
proof -
  let ?env = "\<lambda>obj. if obj = Rollover_Timer then TX_NOT_AVAILABLE else TX_SUCCESS"
  obtain s' where r: "runtime_initialize sample_services None False ?env unstarted = (TX_NOT_AVAILABLE, s')"
    by (simp add: runtime_initialize_def initialize_objects_def initialize_cxx_guard_def create_object_def unstarted_def)
  have "\<not> runtime_initialized unstarted" "existing unstarted = []" "\<not> cxx_guard_mutex_ready unstarted"
    by (simp_all add: unstarted_def)
  from runtime_initialize_all_or_nothing [OF this r] show ?thesis by (simp add: r)
qed

definition departing :: "nat list departures" where
  "departing = \<lparr>hooks = (\<lambda>_. \<lparr>tx_thread_entry = 5, runtime_entry = Some 6, cleanup_started = False\<rparr>),
     tls_part = fresh_tls, key_part = sample_keys\<rparr>"

lemma thread_exit_cleans_up_once_witness:
  "\<exists>s'. cleanup_thread_runtime chained (plain_call (\<lambda>d v log. log @ [d + v])) True (Some 1) departing = Some s' \<and>
     destructors (tls_threads (tls_part s') 1) = []"
proof -
  have r: "e \<in> set (chained d) \<Longrightarrow> unat (function_of e) < unat (function_of d)" for d e
    by (auto simp: chained_def cleanup_def split: if_splits)
  have k: "keys_inv (key_part departing)" "\<not> cleanup_started (hooks departing 1)"
    using sample_keys_inv by (simp_all add: departing_def)
  from thread_exit_cleans_up_once [where rank = "\<lambda>d. unat (function_of d)" and registers = chained, OF r k]
  show ?thesis by blast
qed

end
