(* ===== verification/Std_Thread.thy ===== *)
theory Std_Thread
  imports Thread_Lifecycle
begin

text \<open>
  \<open>std::thread\<close> on the backend: \<open>platform/runtime/libstdcxx/thread.cpp\<close>, the helpers of
  \<open>platform/runtime/thread.hpp\<close> that give a new thread its attributes, and the callbacks at the exit of a
  thread (\<open>thread_exit.cpp\<close>). An exception is a value: \<open>System_Error e\<close> is the \<open>std::system_error\<close> of
  \<open>__throw_system_error\<close>, \<open>Other_Exception\<close> one thrown by the caller's own types.
\<close>

section \<open>Starting\<close>

datatype thrown = System_Error errno | Other_Exception

text \<open>The attributes the calling thread has published, and the threads.\<close>

record launcher =
  pending :: "attributes option"
  threads :: lifecycle

text \<open>
  \<open>_M_start_thread\<close>: the new thread's address, or the error; the callable's state belongs to the new thread
  exactly when the value beside it holds, and is deleted by the caller otherwise.
\<close>

definition start_thread ::
    "call_context \<Rightarrow> thread_limits \<Rightarrow> creation \<Rightarrow> launcher \<Rightarrow> (thrown + nat) \<times> bool \<times> launcher" where
  "start_thread x limits env s =
     (let (attrs, pending') = consume_attributes (pending s);
          ((error, native), threads') =
            thread_create x limits False (case attrs of Some a \<Rightarrow> a | None \<Rightarrow> default_attributes) env (threads s);
          s' = \<lparr>pending = pending', threads = threads'\<rparr>
      in case error of
           Some e \<Rightarrow> (Inl (System_Error e), False, s')
         | None \<Rightarrow> (Inr (the native), True, s'))"

definition scope_enter :: "attributes \<Rightarrow> launcher \<Rightarrow> attributes option \<times> launcher" where
  "scope_enter attrs s =
     (let (previous, p) = consume_attributes (pending s)
      in (previous, s\<lparr>pending := publish_attributes attrs p\<rparr>))"

definition scope_leave :: "attributes option \<Rightarrow> launcher \<Rightarrow> launcher" where
  "scope_leave previous s =
     (let (_, p) = consume_attributes (pending s)
      in s\<lparr>pending := (case previous of Some a \<Rightarrow> publish_attributes a p | None \<Rightarrow> p)\<rparr>)"

text \<open>
  \<open>create\<close> and \<open>create_jthread\<close>. Copying the callable and its arguments may throw before the attributes are
  published (\<open>prepared\<close>), the allocation of the thread's state afterwards (\<open>allocated\<close>).
\<close>

definition create_with_attributes ::
    "call_context \<Rightarrow> thread_limits \<Rightarrow> attributes \<Rightarrow> bool \<Rightarrow> bool \<Rightarrow> creation \<Rightarrow> launcher \<Rightarrow>
     (thrown + nat) \<times> launcher" where
  "create_with_attributes x limits attrs prepared allocated env s =
     (if \<not> prepared then (Inl Other_Exception, s)
      else
        let (previous, s1) = scope_enter attrs s;
            (result, owned, s2) =
              (if allocated then start_thread x limits env s1 else (Inl Other_Exception, False, s1))
        in (result, scope_leave previous s2))"

section \<open>Joining and detaching\<close>

text \<open>The checks of \<open>thread_join\<close> and \<open>thread_detach\<close> in the backend before they touch the thread.\<close>

definition thread_join_check :: "call_context \<Rightarrow> nat option \<Rightarrow> error" where
  "thread_join_check x thread =
     (if require_thread_context x \<noteq> None then require_thread_context x
      else if thread = None then Some EINVAL
      else if thread = tx_thread_identify x then Some EDEADLK
      else None)"

definition thread_detach_check :: "call_context \<Rightarrow> nat option \<Rightarrow> error" where
  "thread_detach_check x thread =
     (if require_thread_context x \<noteq> None then require_thread_context x
      else if thread = None then Some EINVAL
      else None)"

text \<open>A \<open>std::thread\<close> object is its native handle; \<open>backend\<close> is the rest of the backend's call.\<close>

definition std_join ::
    "call_context \<Rightarrow> (nat \<Rightarrow> 'w \<Rightarrow> error \<times> 'w) \<Rightarrow> nat option \<Rightarrow> 'w \<Rightarrow> thrown option \<times> nat option \<times> 'w" where
  "std_join x backend thread w =
     (case thread of
        None \<Rightarrow> (Some (System_Error EINVAL), thread, w)
      | Some a \<Rightarrow>
          if thread = tx_thread_identify x then (Some (System_Error EDEADLK), thread, w)
          else
            let (error, w') = (case thread_join_check x thread of Some e \<Rightarrow> (Some e, w) | None \<Rightarrow> backend a w)
            in case error of
                 Some e \<Rightarrow> (Some (System_Error e), thread, w')
               | None \<Rightarrow> (None, None, w'))"

definition std_detach ::
    "call_context \<Rightarrow> (nat \<Rightarrow> 'w \<Rightarrow> error \<times> 'w) \<Rightarrow> nat option \<Rightarrow> 'w \<Rightarrow> thrown option \<times> nat option \<times> 'w" where
  "std_detach x backend thread w =
     (case thread of
        None \<Rightarrow> (Some (System_Error EINVAL), thread, w)
      | Some a \<Rightarrow>
          let (error, w') = (case thread_detach_check x thread of Some e \<Rightarrow> (Some e, w) | None \<Rightarrow> backend a w)
          in case error of
               Some e \<Rightarrow> (Some (System_Error e), thread, w')
             | None \<Rightarrow> (None, None, w'))"

section \<open>Callbacks at thread exit\<close>

text \<open>
  The elements registered by \<open>__at_thread_exit\<close>, last one first, as a thread's value of the exit key; a
  callback acts on the state, in which it may register again. A failure to store the list ends the program.
\<close>

record 'w exits =
  exit_list :: "nat \<Rightarrow> nat list"
  surroundings :: 'w

definition at_thread_exit :: "nat \<Rightarrow> nat \<Rightarrow> bool \<Rightarrow> 'w exits \<Rightarrow> 'w exits option" where
  "at_thread_exit t element stored s =
     (if stored then Some (s\<lparr>exit_list := (exit_list s)(t := element # exit_list s t)\<rparr>) else None)"

fun run_thread_exit_callbacks :: "(nat \<Rightarrow> 'w exits \<Rightarrow> 'w exits) \<Rightarrow> nat list \<Rightarrow> 'w exits \<Rightarrow> 'w exits" where
  "run_thread_exit_callbacks callback [] s = s"
| "run_thread_exit_callbacks callback (e # es) s = run_thread_exit_callbacks callback es (callback e s)"

definition run_current_thread_exit_callbacks :: "(nat \<Rightarrow> 'w exits \<Rightarrow> 'w exits) \<Rightarrow> nat \<Rightarrow> 'w exits \<Rightarrow> 'w exits" where
  "run_current_thread_exit_callbacks callback t s =
     run_thread_exit_callbacks callback (exit_list s t) (s\<lparr>exit_list := (exit_list s)(t := [])\<rparr>)"

text \<open>
  \<open>notify_all_at_thread_exit\<close>: the lock gives its mutex to an element that, when it runs, unlocks the mutex and then wakes the
  waiters. \<open>element\<close> is the new element, \<open>notifiers\<close> says what each one holds.
\<close>

record notifier =
  notifier_condition :: nat
  notifier_mutex :: nat

definition notify_all_at_thread_exit ::
    "nat \<Rightarrow> nat \<Rightarrow> nat \<Rightarrow> nat \<Rightarrow> bool \<Rightarrow> (nat \<Rightarrow> notifier option) \<Rightarrow> 'w exits \<Rightarrow> ((nat \<Rightarrow> notifier option) \<times> 'w exits) option" where
  "notify_all_at_thread_exit t element condition m stored notifiers s =
     map_option (\<lambda>s'. (notifiers(element \<mapsto> \<lparr>notifier_condition = condition, notifier_mutex = m\<rparr>), s'))
       (at_thread_exit t element stored s)"

datatype exit_action = Unlock nat | Notify_All nat

definition run_notifier :: "notifier \<Rightarrow> exit_action list" where
  "run_notifier n = [Unlock (notifier_mutex n), Notify_All (notifier_condition n)]"

text \<open>The callback of an element: a notifier acts and is deleted.\<close>

definition notifier_callback ::
    "nat \<Rightarrow> ((nat \<Rightarrow> notifier option) \<times> exit_action list) exits \<Rightarrow> ((nat \<Rightarrow> notifier option) \<times> exit_action list) exits" where
  "notifier_callback e s =
     (let (notifiers, acts) = surroundings s
      in case notifiers e of
           None \<Rightarrow> s
         | Some n \<Rightarrow> s\<lparr>surroundings := (notifiers(e := None), acts @ run_notifier n)\<rparr>)"

section \<open>Properties\<close>

text \<open>
  A thread made with attributes gets exactly those, whatever the calling thread had published
  before, and that publication is in place again afterwards, on success and on every failure. One made without
  gets what was published, once, or the defaults. The callable's state passes to the new thread
  exactly when it was created.\<close>

theorem attributes_reach_their_thread:
  "snd (create_with_attributes x limits attrs True True env s) =
     \<lparr>pending = pending s, threads = snd (thread_create x limits False attrs env (threads s))\<rparr> \<and>
   (\<forall>e. fst (create_with_attributes x limits attrs True True env s) = Inl (System_Error e) \<longleftrightarrow>
     fst (fst (thread_create x limits False attrs env (threads s))) = Some e) \<and>
   create_with_attributes x limits attrs False allocated env s = (Inl Other_Exception, s) \<and>
   create_with_attributes x limits attrs True False env s = (Inl Other_Exception, s) \<and>
   snd (snd (start_thread x limits env s)) =
     \<lparr>pending = None, threads = snd (thread_create x limits False
       (case pending s of Some a \<Rightarrow> a | None \<Rightarrow> default_attributes) env (threads s))\<rparr> \<and>
   (fst (snd (start_thread x limits env s)) \<longleftrightarrow> (\<exists>a. fst (start_thread x limits env s) = Inr a))"
  by (auto simp: create_with_attributes_def start_thread_def scope_enter_def scope_leave_def consume_attributes_def
      publish_attributes_def Let_def split: prod.splits option.splits)

text \<open>
  A \<open>std::thread\<close> object gives its thread up exactly when a join or detach succeeds; a join or detach that
  throws leaves it joinable. An object without a thread and a thread that joins itself are refused
  without a call of the backend.\<close>

theorem handle_given_up_on_success:
  assumes "std_join x backend thread w = (e, thread', w')" and "std_detach x backend' thread w = (e', thread'', w'')"
  shows "thread' = (if e = None then None else thread) \<and> thread'' = (if e' = None then None else thread) \<and>
    (e = None \<longrightarrow> thread \<noteq> None \<and> thread \<noteq> tx_thread_identify x \<and> backend (the thread) w = (None, w')) \<and>
    (e' = None \<longrightarrow> thread \<noteq> None \<and> backend' (the thread) w = (None, w'')) \<and>
    (thread = None \<longrightarrow> e = Some (System_Error EINVAL) \<and> e' = Some (System_Error EINVAL) \<and> w' = w \<and> w'' = w) \<and>
    (thread \<noteq> None \<and> thread = tx_thread_identify x \<longrightarrow> e = Some (System_Error EDEADLK) \<and> w' = w)"
  using assms by (auto simp: std_join_def std_detach_def Let_def split: option.splits if_splits prod.splits)

text \<open>
  The callbacks registered by a thread run in the reverse order of their registration, each once, and
  what they register meanwhile is left for the next pass, when they register nothing nothing is left.\<close>

theorem exit_callbacks_in_reverse:
  assumes "\<And>e s. exit_list (callback e s) = exit_list s"
  shows "exit_list (run_current_thread_exit_callbacks callback t s) = (exit_list s)(t := []) \<and>
    surroundings (run_current_thread_exit_callbacks (\<lambda>e s. s\<lparr>surroundings := surroundings s @ [e]\<rparr>) t r) = surroundings r @ exit_list r t"
proof -
  have "exit_list (run_thread_exit_callbacks callback es u) = exit_list u" for es u
    by (induction es arbitrary: u) (simp_all add: assms)
  moreover have "surroundings (run_thread_exit_callbacks (\<lambda>e s. s\<lparr>surroundings := surroundings s @ [e]\<rparr>) es u) = surroundings u @ es" for es u
    by (induction es arbitrary: u) simp_all
  ultimately show ?thesis by (simp add: run_current_thread_exit_callbacks_def)
qed

text \<open>
  At the exit of a thread every notifier it registered unlocks its mutex before it wakes the waiters, the last one registered
  first, and none is left.\<close>

lemma notifiers_act:
  "distinct es \<Longrightarrow> (\<forall>e \<in> set es. notifiers e \<noteq> None) \<Longrightarrow> surroundings s = (notifiers, acts) \<Longrightarrow>
   surroundings (run_thread_exit_callbacks notifier_callback es s) =
     (\<lambda>e. if e \<in> set es then None else notifiers e, acts @ concat (map (\<lambda>e. run_notifier (the (notifiers e))) es))"
proof (induction es arbitrary: s notifiers acts)
  case (Cons e es)
  then obtain n where n: "notifiers e = Some n" by auto
  let ?s = "s\<lparr>surroundings := (notifiers(e := None), acts @ run_notifier n)\<rparr>"
  have m: "map (\<lambda>a. run_notifier (the (if a = e then None else notifiers a))) es = map (\<lambda>a. run_notifier (the (notifiers a))) es"
    using Cons.prems(1) by (intro map_cong) auto
  have "surroundings (run_thread_exit_callbacks notifier_callback es ?s) =
     (\<lambda>a. if a \<in> set es then None else (notifiers(e := None)) a,
      (acts @ run_notifier n) @ concat (map (\<lambda>a. run_notifier (the ((notifiers(e := None)) a))) es))"
    by (rule Cons.IH) (use Cons.prems in auto)
  moreover have "notifier_callback e s = ?s" using Cons.prems(3) n by (simp add: notifier_callback_def)
  ultimately show ?case using n by (auto simp: m fun_eq_iff)
qed simp

section \<open>Examples\<close>

definition main_thread :: call_context where
  "main_thread = \<lparr>initialized = True, interrupt_context = False, tx_thread_identify = Some 2\<rparr>"

lemma handle_given_up_on_success_witness:
  "fst (snd (std_join main_thread (\<lambda>a w. (None, w + a)) (Some 7) (5 :: nat))) = None \<and>
   fst (snd (std_detach main_thread (\<lambda>a w. (Some EINVAL, w)) (Some 7) (5 :: nat))) = Some 7"
proof -
  have "std_join main_thread (\<lambda>a w. (None, w + a)) (Some 7) (5 :: nat) = (None, None, 12)"
    "std_detach main_thread (\<lambda>a w. (Some EINVAL, w)) (Some 7) (5 :: nat) = (Some (System_Error EINVAL), Some 7, 5)"
    by (simp_all add: std_join_def std_detach_def thread_join_check_def thread_detach_check_def require_thread_context_def main_thread_def)
  from handle_given_up_on_success [OF this] this show ?thesis by simp
qed

lemma exit_callbacks_in_reverse_witness:
  "exit_list (run_current_thread_exit_callbacks (\<lambda>e s. s\<lparr>surroundings := surroundings s + e\<rparr>) 2
     \<lparr>exit_list = (\<lambda>_. [7, 8 :: nat]), surroundings = 0\<rparr>) 2 = []"
  using exit_callbacks_in_reverse [of "\<lambda>e s. s\<lparr>surroundings := surroundings s + e\<rparr>" 2 "\<lparr>exit_list = (\<lambda>_. [7, 8]), surroundings = 0\<rparr>"]
  by simp

end
