(* ===== verification/Stack_Info.thy ===== *)
theory Stack_Info
  imports Prelude
begin

unbundle bit_operations_syntax

text \<open>
  The stacks of hosted ThreadX threads (\<open>external/threadx_port/linux/gnu/src/tx_thread_stack_info.cpp\<close>). A
  thread runs on a stack of the host; what ThreadX sees is a position in the thread's own stack area, as
  deep in it as the host's stack pointer is below its baseline. Addresses are 64-bit words, \<open>0\<close> the null
  pointer. The size of ThreadX's \<open>ULONG\<close>, set by the port, is the argument \<open>ul\<close>.
\<close>

section \<open>State\<close>

datatype stack_error = SIZE_ERROR | NO_MEMORY | PTR_ERROR

record stack_info =
  host_stack_base :: u64
  host_stack_size :: u64
  signal_stack :: u64
  baseline_host_stack_ptr :: u64

record hosted_thread =
  id_valid :: bool
  stack_start :: u64
  stack_end :: u64
  stack_size :: u64
  stack_ptr :: u64
  stack_highest_ptr :: u64
  extension :: "stack_info option"

text \<open>The threads, the live allocations of the host, and the thread each host thread is registered for.\<close>

record stacks =
  hosted :: "nat \<Rightarrow> hosted_thread"
  live_stack_info_count :: u64
  live_blocks :: "u64 set"
  g_thread :: "nat \<Rightarrow> nat option"

definition set_hosted :: "nat \<Rightarrow> hosted_thread \<Rightarrow> stacks \<Rightarrow> stacks" where
  "set_hosted t h s = s\<lparr>hosted := (hosted s)(t := h)\<rparr>"

section \<open>Allocation\<close>

definition align_down :: "u64 \<Rightarrow> u64 \<Rightarrow> u64" where
  "align_down ul address = address AND NOT (ul - 1)"

definition stack_round_up :: "u64 \<Rightarrow> u64 \<Rightarrow> u64" where
  "stack_round_up n alignment = (n + alignment - 1) AND NOT (alignment - 1)"

definition stack_info_new :: "u64 \<Rightarrow> stacks \<Rightarrow> stack_info \<times> stacks" where
  "stack_info_new base s =
     (\<lparr>host_stack_base = base, host_stack_size = 0, signal_stack = 0, baseline_host_stack_ptr = 0\<rparr>,
      s\<lparr>live_stack_info_count := live_stack_info_count s + 1\<rparr>)"

definition stack_info_delete :: "stack_info \<Rightarrow> stacks \<Rightarrow> stacks" where
  "stack_info_delete i s =
     s\<lparr>live_stack_info_count := live_stack_info_count s - 1,
       live_blocks := live_blocks s - {host_stack_base i} - {signal_stack i}\<rparr>"

text \<open>
  What the host answers: the page size, and for each allocation its address, or that it failed (the
  allocation of the \<open>StackInfo\<close> itself only fails or not).
\<close>

record host_answers =
  page_size :: int
  stack_block :: "u64 option"
  signal_block :: "u64 option"
  info_allocated :: bool

definition host_size :: "u64 \<Rightarrow> u64 \<Rightarrow> int \<Rightarrow> u64 \<Rightarrow> u64" where
  "host_size ul stack_min page requested =
     (let page' = (if page \<le> 0 then 4096 else page)
      in stack_round_up (requested + stack_min + ul) (word_of_int page'))"

definition discard_old :: "nat \<Rightarrow> stacks \<Rightarrow> stacks" where
  "discard_old t s =
     (case extension (hosted s t) of
        None \<Rightarrow> s
      | Some i \<Rightarrow> set_hosted t ((hosted s t)\<lparr>extension := None\<rparr>) (stack_info_delete i s))"

definition prepare :: "u64 \<Rightarrow> u64 \<Rightarrow> host_answers \<Rightarrow> nat \<Rightarrow> stacks \<Rightarrow> stack_error option \<times> stacks" where
  "prepare ul stack_min env t s =
     (if stack_size (hosted s t) = 0 then (Some SIZE_ERROR, s)
      else
        let s1 = discard_old t s;
            bytes = host_size ul stack_min (page_size env) (stack_size (hosted s t))
        in (case stack_block env of
              None \<Rightarrow> (Some NO_MEMORY, s1)
            | Some base \<Rightarrow>
                let s2 = s1\<lparr>live_blocks := insert base (live_blocks s1)\<rparr>
                in (case signal_block env of
                      None \<Rightarrow> (Some NO_MEMORY, s2\<lparr>live_blocks := live_blocks s2 - {base}\<rparr>)
                    | Some sig \<Rightarrow>
                        let s3 = s2\<lparr>live_blocks := insert sig (live_blocks s2)\<rparr>
                        in if \<not> info_allocated env
                           then (Some NO_MEMORY, s3\<lparr>live_blocks := live_blocks s3 - {sig} - {base}\<rparr>)
                           else
                             let (i, s4) = stack_info_new base s3;
                                 i' = i\<lparr>host_stack_size := bytes, signal_stack := sig\<rparr>
                             in (None, set_hosted t ((hosted s4 t)\<lparr>extension := Some i'\<rparr>) s4))))"

definition stack_release :: "nat \<Rightarrow> stacks \<Rightarrow> stacks" where
  "stack_release t s =
     (case extension (hosted s t) of
        None \<Rightarrow> s
      | Some i \<Rightarrow> stack_info_delete i (set_hosted t ((hosted s t)\<lparr>extension := None\<rparr>) s))"

definition stack_host_base :: "hosted_thread \<Rightarrow> u64" where
  "stack_host_base h = (case extension h of Some i \<Rightarrow> host_stack_base i | None \<Rightarrow> 0)"

definition stack_host_size :: "hosted_thread \<Rightarrow> u64" where
  "stack_host_size h = (case extension h of Some i \<Rightarrow> host_stack_size i | None \<Rightarrow> 0)"

section \<open>The logical stack pointer\<close>

definition logical_stack_address :: "u64 \<Rightarrow> u64 \<Rightarrow> u64 \<Rightarrow> u64 \<Rightarrow> u64 \<Rightarrow> u64" where
  "logical_stack_address ul bottom high baseline current =
     (if current \<ge> baseline then high
      else
        let delta = baseline - current
        in if delta \<ge> high - bottom then bottom
           else
             let address = align_down ul (high - delta)
             in if address < bottom then bottom else address)"

definition update_thread :: "u64 \<Rightarrow> u64 \<Rightarrow> hosted_thread \<Rightarrow> stack_error option \<times> hosted_thread" where
  "update_thread ul current h =
     (if \<not> id_valid h \<or> current = 0 \<or> stack_start h = 0 \<or> stack_end h = 0 then (Some PTR_ERROR, h)
      else
        (case extension h of
           None \<Rightarrow> (Some PTR_ERROR, h)
         | Some i \<Rightarrow>
             let bottom = stack_start h + ul;
                 top = align_down ul (stack_end h + 1)
             in if top < bottom + 2 * ul then (Some SIZE_ERROR, h)
                else
                  let high = top - 2 * ul
                  in if current < host_stack_base i \<or> current \<ge> host_stack_base i + host_stack_size i
                     then (Some PTR_ERROR, h)
                     else
                       let i' = (if baseline_host_stack_ptr i = 0 then i\<lparr>baseline_host_stack_ptr := current\<rparr> else i);
                           address = logical_stack_address ul bottom high (baseline_host_stack_ptr i') current
                       in (None,
                           h\<lparr>extension := Some i', stack_ptr := address,
                             stack_highest_ptr :=
                               (if stack_highest_ptr h = 0 \<or> address < stack_highest_ptr h then address
                                else stack_highest_ptr h)\<rparr>)))"

definition update :: "u64 \<Rightarrow> nat option \<Rightarrow> u64 \<Rightarrow> stacks \<Rightarrow> stack_error option \<times> stacks" where
  "update ul thread current s =
     (case thread of
        None \<Rightarrow> (Some PTR_ERROR, s)
      | Some t \<Rightarrow>
          let (error, h) = update_thread ul current (hosted s t)
          in (error, set_hosted t h s))"

definition stack_register :: "nat \<Rightarrow> nat option \<Rightarrow> stacks \<Rightarrow> stacks" where
  "stack_register self thread s = s\<lparr>g_thread := (g_thread s)(self := thread)\<rparr>"

definition stack_calibrate :: "u64 \<Rightarrow> nat \<Rightarrow> u64 \<Rightarrow> stacks \<Rightarrow> stacks" where
  "stack_calibrate ul t current s =
     (case extension (hosted s t) of
        None \<Rightarrow> s
      | Some i \<Rightarrow>
          let s1 = set_hosted t ((hosted s t)\<lparr>extension := Some (i\<lparr>baseline_host_stack_ptr := current\<rparr>)\<rparr>) s;
              (error, s2) = update ul (Some t) current s1
          in if error \<noteq> None then s2
             else set_hosted t ((hosted s2 t)\<lparr>stack_highest_ptr := stack_ptr (hosted s2 t)\<rparr>) s2)"

definition stack_capture_current :: "u64 \<Rightarrow> nat option \<Rightarrow> u64 \<Rightarrow> stacks \<Rightarrow> stacks" where
  "stack_capture_current ul thread current s = snd (update ul thread current s)"

text \<open>In a signal handler of host thread \<open>self\<close>; the context holds the interrupted stack pointer.\<close>

definition stack_capture_signal_context :: "u64 \<Rightarrow> nat \<Rightarrow> u64 option \<Rightarrow> stacks \<Rightarrow> stacks" where
  "stack_capture_signal_context ul self context s =
     (case (g_thread s self, context) of
        (Some t, Some rsp) \<Rightarrow> snd (update ul (Some t) rsp s)
      | _ \<Rightarrow> s)"

text \<open>\<open>runs_here\<close> tells whether the calling host thread is the one of a given thread.\<close>

definition stack_refresh :: "u64 \<Rightarrow> (nat \<Rightarrow> bool) \<Rightarrow> u64 \<Rightarrow> nat option \<Rightarrow> stacks \<Rightarrow> stacks" where
  "stack_refresh ul runs_here current thread s =
     (case thread of
        None \<Rightarrow> s
      | Some t \<Rightarrow>
          if \<not> id_valid (hosted s t) then s
          else if runs_here t then stack_capture_current ul (Some t) current s
          else s)"

text \<open>The walk along the circular list of created threads; \<open>None\<close> when it never comes back to its first.\<close>

partial_function (option) refresh_from ::
    "u64 \<Rightarrow> (nat \<Rightarrow> bool) \<Rightarrow> u64 \<Rightarrow> (nat \<Rightarrow> nat) \<Rightarrow> nat \<Rightarrow> nat \<Rightarrow> stacks \<Rightarrow> stacks option" where
  "refresh_from ul runs_here current created_next first t s =
     (let s1 = stack_refresh ul runs_here current (Some t) s
      in if created_next t = first then Some s1
         else refresh_from ul runs_here current created_next first (created_next t) s1)"

definition refresh_all_threads_stack_info ::
    "u64 \<Rightarrow> (nat \<Rightarrow> bool) \<Rightarrow> u64 \<Rightarrow> (nat \<Rightarrow> nat) \<Rightarrow> nat option \<Rightarrow> nat \<Rightarrow> stacks \<Rightarrow> stacks option" where
  "refresh_all_threads_stack_info ul runs_here current created_next created_ptr created_count s =
     (case created_ptr of
        None \<Rightarrow> Some s
      | Some first \<Rightarrow>
          if created_count = 0 then Some s
          else refresh_from ul runs_here current created_next first first s)"

end
