(* ===== verification/Stack_Properties.thy ===== *)
theory Stack_Properties
  imports Stack_Info
begin

unbundle bit_operations_syntax

text \<open>
  The stack pointer that ThreadX sees of a hosted thread stays inside the thread's stack area and goes down with
  the host's; the blocks behind the stacks are accounted for.
\<close>

section \<open>The logical stack pointer\<close>

lemma ulong_power: "ul = 4 \<or> ul = 8 \<Longrightarrow> \<exists>k. unat (ul :: u64) = 2 ^ k"
  by (auto intro: exI [of _ "2 :: nat"] exI [of _ "3 :: nat"])

lemma unat_align_down: "ul = 4 \<or> ul = 8 \<Longrightarrow> unat (align_down ul a) = unat a div unat ul * unat ul"
  using ulong_power round_down_word by (metis align_down_def)

lemma max_round_down:
  fixes bottom n u :: nat
  shows "n \<le> bottom \<Longrightarrow> max bottom (n div u * u) = bottom"
  by (meson div_times_less_eq_dividend le_trans max_absorb1)

text \<open>The case analysis of the code, as one formula over natural numbers.\<close>

lemma unat_logical_stack_address:
  assumes ul: "ul = 4 \<or> ul = 8" and b: "bottom \<le> high" and h: "unat ul dvd unat high"
  shows "unat (logical_stack_address ul bottom high baseline current) =
    max (unat bottom) ((unat high - (unat baseline - unat current)) div unat ul * unat ul)"
proof (cases "baseline \<le> current")
  case True
  then have "unat baseline - unat current = 0" by (simp add: word_le_nat_alt)
  then show ?thesis using True b h by (simp add: logical_stack_address_def word_le_nat_alt)
next
  case False
  then have d: "unat (baseline - current) = unat baseline - unat current"
    by (intro unat_sub_small) (simp add: word_le_nat_alt)
  have hb: "unat (high - bottom) = unat high - unat bottom"
    using b by (intro unat_sub_small) (simp add: word_le_nat_alt)
  show ?thesis
  proof (cases "high - bottom \<le> baseline - current")
    case True
    then have "unat high - (unat baseline - unat current) \<le> unat bottom"
      using d hb by (simp add: word_le_nat_alt)
    then show ?thesis using True False by (simp add: logical_stack_address_def max_round_down)
  next
    case deep: False
    then have "unat (high - (baseline - current)) = unat high - (unat baseline - unat current)"
      using d hb by (subst unat_sub_small) (simp_all add: word_le_nat_alt)
    then show ?thesis using deep False
      by (simp add: logical_stack_address_def Let_def unat_align_down [OF ul] word_less_nat_alt)
  qed
qed

text \<open>What \<open>update\<close> does when it does not refuse; nothing else of the thread changes.\<close>

lemma update_threadE:
  assumes "update_thread ul current h = (None, h')"
  obtains i i' where "extension h = Some i" and "extension h' = Some i'"
    and "i' = (if baseline_host_stack_ptr i = 0 then i\<lparr>baseline_host_stack_ptr := current\<rparr> else i)"
    and "\<not> align_down ul (stack_end h + 1) < stack_start h + ul + 2 * ul"
    and "stack_ptr h' = logical_stack_address ul (stack_start h + ul) (align_down ul (stack_end h + 1) - 2 * ul)
      (baseline_host_stack_ptr i') current"
    and "stack_highest_ptr h' =
      (if stack_highest_ptr h = 0 \<or> stack_ptr h' < stack_highest_ptr h then stack_ptr h' else stack_highest_ptr h)"
  using assms by (auto simp: update_thread_def Let_def split: if_splits option.splits)

text \<open>
  C31. An update of a thread's stack pointer puts it as far below the top of the thread's own stack
  area as the host's stack pointer is below its baseline, rounded down to a whole word; when the host's stack
  is deeper than the area the pointer stays at the lowest word that ThreadX's stack check may look below. So it
  always stays inside the area with the two words reserved at the top, and the recorded extreme is the lowest seen.
  A refused update changes nothing.\<close>

theorem logical_stack_pointer:
  assumes ul: "ul = 4 \<or> ul = 8" and area: "stack_start h \<le> stack_end h" "unat (stack_end h) + 4 * unat ul < 2 ^ 64"
    and r: "update_thread ul current h = (error, h')"
  shows "(error \<noteq> None \<longrightarrow> h' = h) \<and>
    (error = None \<longrightarrow> (\<exists>i. extension h' = Some i \<and>
       unat (stack_ptr h') = max (unat (stack_start h) + unat ul)
         (((unat (stack_end h) + 1) div unat ul * unat ul - 2 * unat ul -
           (unat (baseline_host_stack_ptr i) - unat current)) div unat ul * unat ul))) \<and>
    (error = None \<longrightarrow>
       unat (stack_start h) + unat ul \<le> unat (stack_ptr h') \<and> unat (stack_ptr h') + 2 * unat ul \<le> unat (stack_end h) + 1 \<and>
       stack_highest_ptr h' = (if stack_highest_ptr h = 0 then stack_ptr h' else min (stack_highest_ptr h) (stack_ptr h')))"
proof (cases error)
  case (Some e)
  then show ?thesis using r by (auto simp: update_thread_def Let_def split: if_splits option.splits)
next
  case None
  then obtain i where i: "extension h' = Some i"
    and room: "\<not> align_down ul (stack_end h + 1) < stack_start h + ul + 2 * ul"
    and p: "stack_ptr h' = logical_stack_address ul (stack_start h + ul) (align_down ul (stack_end h + 1) - 2 * ul)
      (baseline_host_stack_ptr i) current"
    and hi: "stack_highest_ptr h' =
      (if stack_highest_ptr h = 0 \<or> stack_ptr h' < stack_highest_ptr h then stack_ptr h' else stack_highest_ptr h)"
    using r by (auto elim: update_threadE)
  let ?u = "unat ul"
  have u: "?u = 4 \<or> ?u = 8" using ul by auto
  have s: "unat (stack_start h) \<le> unat (stack_end h)" using area(1) by (simp add: word_le_nat_alt)
  have 2: "unat (2 * ul) = 2 * ?u" using ul by auto
  have b: "unat (stack_start h + ul) = unat (stack_start h) + ?u" using s area(2) by (simp add: unat_add_small)
  have b2: "unat (stack_start h + ul + 2 * ul) = unat (stack_start h) + 3 * ?u"
    using unat_add_small [of "stack_start h + ul" "2 * ul"] s area(2) b 2 by simp
  have e: "unat (stack_end h + 1) = unat (stack_end h) + 1" using area(2) u unat_add_small [of "stack_end h" 1] by auto
  have t: "unat (align_down ul (stack_end h + 1)) = (unat (stack_end h) + 1) div ?u * ?u"
    by (simp add: unat_align_down [OF ul] e)
  define top where "top = (unat (stack_end h) + 1) div ?u * ?u"
  have t': "unat (align_down ul (stack_end h + 1)) = top" using t by (simp add: top_def)
  have top: "unat (stack_start h) + 3 * ?u \<le> top" "top \<le> unat (stack_end h) + 1" "?u dvd top"
    using room b2 t' by (simp_all add: word_less_nat_alt not_less) (simp_all add: top_def)
  have h: "unat (align_down ul (stack_end h + 1) - 2 * ul) = top - 2 * ?u"
    using t' top(1) 2 by (subst unat_sub_small) simp_all
  have d: "?u dvd top - 2 * ?u" using top(3) by (simp add: dvd_diff_nat)
  have m: "unat (stack_ptr h') = max (unat (stack_start h) + ?u)
      ((top - 2 * ?u - (unat (baseline_host_stack_ptr i) - unat current)) div ?u * ?u)"
    unfolding p by (subst unat_logical_stack_address [OF ul]) (use b h d top in \<open>simp_all add: word_le_nat_alt\<close>)
  have le: "(top - 2 * ?u - x) div ?u * ?u \<le> top - 2 * ?u" for x
    by (meson diff_le_self div_times_less_eq_dividend le_trans)
  have "unat (stack_ptr h') + 2 * ?u \<le> top"
    using le [of "unat (baseline_host_stack_ptr i) - unat current"] top(1) by (simp add: m)
  then have "unat (stack_ptr h') + 2 * ?u \<le> unat (stack_end h) + 1" using top(2) by (rule le_trans)
  moreover have "unat (stack_start h) + ?u \<le> unat (stack_ptr h')" by (simp add: m)
  moreover have "stack_highest_ptr h' = (if stack_highest_ptr h = 0 then stack_ptr h' else min (stack_highest_ptr h) (stack_ptr h'))"
    by (auto simp: hi min_def)
  moreover note m [unfolded top_def]
  ultimately show ?thesis using None i by blast
qed

section \<open>Accounting\<close>

definition info_blocks :: "stack_info \<Rightarrow> u64 set" where
  "info_blocks i = {host_stack_base i, signal_stack i}"

definition prepared :: "stacks \<Rightarrow> nat set" where
  "prepared s = {t. extension (hosted s t) \<noteq> None}"

definition blocks_of :: "stacks \<Rightarrow> nat \<Rightarrow> u64 set" where
  "blocks_of s t = (case extension (hosted s t) of Some i \<Rightarrow> info_blocks i | None \<Rightarrow> {})"

text \<open>An allocation that succeeds is apart from everything that is live.\<close>

definition fresh_blocks :: "host_answers \<Rightarrow> stacks \<Rightarrow> bool" where
  "fresh_blocks env s \<longleftrightarrow>
     set_option (stack_block env) \<inter> live_blocks s = {} \<and> set_option (signal_block env) \<inter> live_blocks s = {} \<and>
     set_option (stack_block env) \<inter> set_option (signal_block env) = {}"

definition stacks_inv :: "stacks \<Rightarrow> bool" where
  "stacks_inv s \<longleftrightarrow> finite (prepared s) \<and> live_stack_info_count s = of_nat (card (prepared s)) \<and>
     live_blocks s = (\<Union>t. blocks_of s t) \<and> (\<forall>t u. t \<noteq> u \<longrightarrow> blocks_of s t \<inter> blocks_of s u = {})"

inductive stacks_reachable :: "u64 \<Rightarrow> u64 \<Rightarrow> stacks \<Rightarrow> bool" for ul stack_min where
  start: "prepared s = {} \<Longrightarrow> live_stack_info_count s = 0 \<Longrightarrow> live_blocks s = {} \<Longrightarrow> stacks_reachable ul stack_min s"
| prepare: "stacks_reachable ul stack_min s \<Longrightarrow> fresh_blocks env (discard_old t s) \<Longrightarrow>
    stacks_reachable ul stack_min (snd (prepare ul stack_min env t s))"
| release: "stacks_reachable ul stack_min s \<Longrightarrow> stacks_reachable ul stack_min (stack_release t s)"
| update: "stacks_reachable ul stack_min s \<Longrightarrow> stacks_reachable ul stack_min (snd (update ul thread current s))"
| calibrate: "stacks_reachable ul stack_min s \<Longrightarrow> stacks_reachable ul stack_min (stack_calibrate ul t current s)"
| signal: "stacks_reachable ul stack_min s \<Longrightarrow>
    stacks_reachable ul stack_min (stack_capture_signal_context ul self context s)"
| refresh: "stacks_reachable ul stack_min s \<Longrightarrow>
    stacks_reachable ul stack_min (stack_refresh ul runs_here current thread s)"
| register: "stacks_reachable ul stack_min s \<Longrightarrow> stacks_reachable ul stack_min (stack_register self thread s)"

lemma hosted_simps [simp]:
  "hosted (set_hosted t h s) = (hosted s)(t := h)" "live_blocks (set_hosted t h s) = live_blocks s"
  "live_stack_info_count (set_hosted t h s) = live_stack_info_count s" "hosted (stack_info_delete i s) = hosted s"
  "live_stack_info_count (stack_info_delete i s) = live_stack_info_count s - 1"
  "live_blocks (stack_info_delete i s) = live_blocks s - info_blocks i"
  by (auto simp: set_hosted_def stack_info_delete_def info_blocks_def)

text \<open>Steps that keep each thread's blocks keep the invariant.\<close>

definition same_blocks :: "stacks \<Rightarrow> stacks \<Rightarrow> bool" where
  "same_blocks s s' \<longleftrightarrow> live_stack_info_count s' = live_stack_info_count s \<and> live_blocks s' = live_blocks s \<and>
     (\<forall>t. map_option info_blocks (extension (hosted s' t)) = map_option info_blocks (extension (hosted s t)))"

lemma same_blocks_inv:
  assumes "same_blocks s s'" and "stacks_inv s"
  shows "stacks_inv s'"
proof -
  have b: "blocks_of s' t = blocks_of s t" for t
    using assms(1) unfolding same_blocks_def blocks_of_def
    by (metis (no_types, lifting) map_option_is_None option.case_eq_if option.map_sel)
  have "prepared s' = prepared s"
    using assms(1) unfolding same_blocks_def prepared_def by (metis map_option_is_None)
  with b assms show ?thesis by (simp add: stacks_inv_def same_blocks_def)
qed

lemma same_blocks_trans: "same_blocks s s1 \<Longrightarrow> same_blocks s1 s2 \<Longrightarrow> same_blocks s s2"
  by (simp add: same_blocks_def)

lemma same_blocks_set: "map_option info_blocks (extension h) = map_option info_blocks (extension (hosted s t)) \<Longrightarrow>
    same_blocks s (set_hosted t h s)"
  by (simp add: same_blocks_def)

lemma update_same: "same_blocks s (snd (update ul thread current s))"
proof (cases thread)
  case None
  then show ?thesis by (simp add: update_def same_blocks_def)
next
  case (Some t)
  obtain e h where u: "update_thread ul current (hosted s t) = (e, h)" by fastforce
  then have "map_option info_blocks (extension h) = map_option info_blocks (extension (hosted s t))"
    by (auto simp: update_thread_def Let_def info_blocks_def split: if_splits option.splits)
  then show ?thesis using same_blocks_set by (simp add: update_def Some u)
qed

lemma calibrate_same: "same_blocks s (stack_calibrate ul t current s)"
proof (cases "extension (hosted s t)")
  case None
  then show ?thesis by (simp add: stack_calibrate_def same_blocks_def)
next
  case (Some i)
  let ?s1 = "set_hosted t ((hosted s t)\<lparr>extension := Some (i\<lparr>baseline_host_stack_ptr := current\<rparr>)\<rparr>) s"
  obtain e s2 where u: "update ul (Some t) current ?s1 = (e, s2)" by fastforce
  have "same_blocks s ?s1" by (rule same_blocks_set) (simp add: Some info_blocks_def)
  moreover have "same_blocks ?s1 s2" using update_same [of ?s1 ul "Some t" current] u by simp
  moreover have "same_blocks s2 (set_hosted t ((hosted s2 t)\<lparr>stack_highest_ptr := x\<rparr>) s2)" for x
    by (rule same_blocks_set) simp
  ultimately have "same_blocks s s2" "same_blocks s (set_hosted t ((hosted s2 t)\<lparr>stack_highest_ptr := x\<rparr>) s2)" for x
    by (blast intro: same_blocks_trans)+
  then show ?thesis by (simp add: stack_calibrate_def Some u)
qed

lemma other_same: "same_blocks s (stack_capture_signal_context ul self context s)"
  "same_blocks s (stack_refresh ul runs_here current thread s)" "same_blocks s (stack_register self thread s)"
  using update_same
  by (auto simp: stack_capture_signal_context_def stack_refresh_def stack_capture_current_def stack_register_def
      same_blocks_def split: option.splits)

text \<open>Giving a thread's blocks up, and giving it fresh ones.\<close>

lemma remove_inv:
  assumes "stacks_inv s" and i: "extension (hosted s t) = Some i"
  shows "stacks_inv (stack_info_delete i (set_hosted t ((hosted s t)\<lparr>extension := None\<rparr>) s))"
proof -
  let ?s = "stack_info_delete i (set_hosted t ((hosted s t)\<lparr>extension := None\<rparr>) s)"
  have p: "prepared ?s = prepared s - {t}" by (auto simp: prepared_def)
  have t: "t \<in> prepared s" by (simp add: prepared_def i)
  have fin: "finite (prepared s)" and live: "live_blocks s = (\<Union>t. blocks_of s t)"
    and apart: "\<And>t u. t \<noteq> u \<Longrightarrow> blocks_of s t \<inter> blocks_of s u = {}"
    and n: "live_stack_info_count s = of_nat (card (prepared s))"
    using assms(1) by (simp_all add: stacks_inv_def)
  have b: "blocks_of ?s u = (if u = t then {} else blocks_of s u)" for u by (simp add: blocks_of_def)
  have bt: "blocks_of s t = info_blocks i" by (simp add: blocks_of_def i)
  have only: "u = t" if "x \<in> blocks_of s u" "x \<in> info_blocks i" for x u using that apart [of t u] bt by blast
  have "live_blocks ?s = (\<Union>u. blocks_of s u) - info_blocks i" by (simp add: live)
  also have "\<dots> = (\<Union>u \<in> - {t}. blocks_of s u)" using only bt by blast
  also have "\<dots> = (\<Union>u. blocks_of ?s u)" by (auto simp: b)
  finally have "live_blocks ?s = (\<Union>u. blocks_of ?s u)" .
  moreover have "live_stack_info_count ?s = of_nat (card (prepared ?s))"
  proof -
    have "card (prepared s) = Suc (card (prepared s - {t}))" using card.remove [OF fin t] by simp
    then show ?thesis by (simp add: n p)
  qed
  moreover have "\<And>u v. u \<noteq> v \<Longrightarrow> blocks_of ?s u \<inter> blocks_of ?s v = {}" by (simp add: b apart)
  ultimately show ?thesis using fin p unfolding stacks_inv_def by simp
qed

lemma discard_old_is_drop: "discard_old t s =
    (case extension (hosted s t) of None \<Rightarrow> s
     | Some i \<Rightarrow> stack_info_delete i (set_hosted t ((hosted s t)\<lparr>extension := None\<rparr>) s))"
  by (simp add: discard_old_def set_hosted_def stack_info_delete_def split: option.splits)

lemma discard_old_inv: "stacks_inv s \<Longrightarrow> stacks_inv (discard_old t s)"
  using remove_inv by (simp add: discard_old_is_drop split: option.splits)

lemma discard_old_extension: "extension (hosted (discard_old t s) u) = (if u = t then None else extension (hosted s u))"
  by (simp add: discard_old_def split: option.splits)

lemma add_inv:
  assumes "stacks_inv s" and t: "extension (hosted s t) = None" and fresh: "info_blocks i \<inter> live_blocks s = {}"
    and s': "hosted s' = (hosted s)(t := (hosted s t)\<lparr>extension := Some i\<rparr>)"
      "live_stack_info_count s' = live_stack_info_count s + 1" "live_blocks s' = live_blocks s \<union> info_blocks i"
  shows "stacks_inv s'"
proof -
  have p: "prepared s' = insert t (prepared s)" by (auto simp: prepared_def s')
  have tn: "t \<notin> prepared s" by (simp add: prepared_def t)
  have fin: "finite (prepared s)" and live: "live_blocks s = (\<Union>t. blocks_of s t)"
    and apart: "\<And>t u. t \<noteq> u \<Longrightarrow> blocks_of s t \<inter> blocks_of s u = {}"
    and n: "live_stack_info_count s = of_nat (card (prepared s))"
    using assms(1) by (simp_all add: stacks_inv_def)
  have b: "blocks_of s' u = (if u = t then info_blocks i else blocks_of s u)" for u by (simp add: blocks_of_def s')
  have bt: "blocks_of s t = {}" by (simp add: blocks_of_def t)
  have "live_blocks s' = (\<Union>u. blocks_of s' u)" using live bt by (auto simp: b s' split: if_splits)
  moreover have "live_stack_info_count s' = of_nat (card (prepared s'))" using fin tn by (simp add: s' p n)
  moreover have "blocks_of s' u \<inter> blocks_of s' v = {}" if "u \<noteq> v" for u v
    using fresh apart [OF that] that live by (auto simp: b)
  ultimately show ?thesis using fin p unfolding stacks_inv_def by simp
qed

lemma prepare_inv:
  assumes inv: "stacks_inv s" and fresh: "fresh_blocks env (discard_old t s)"
  shows "stacks_inv (snd (prepare ul stack_min env t s))"
proof (cases "stack_size (hosted s t) \<noteq> 0 \<and> (\<exists>base sig. stack_block env = Some base \<and> signal_block env = Some sig) \<and> info_allocated env")
  case True
  then obtain base sig where a: "stack_block env = Some base" "signal_block env = Some sig" by blast
  let ?i = "\<lparr>host_stack_base = base, host_stack_size = host_size ul stack_min (page_size env) (stack_size (hosted s t)),
    signal_stack = sig, baseline_host_stack_ptr = 0\<rparr>"
  have "info_blocks ?i \<inter> live_blocks (discard_old t s) = {}"
    using fresh a by (simp add: fresh_blocks_def info_blocks_def)
  moreover have "extension (hosted (discard_old t s) t) = None" by (simp add: discard_old_extension)
  ultimately show ?thesis using True a
    by (intro add_inv [OF discard_old_inv [OF inv, of t], of t ?i])
      (auto simp: prepare_def Let_def stack_info_new_def info_blocks_def)
next
  case False
  have "snd (prepare ul stack_min env t s) = s \<or> snd (prepare ul stack_min env t s) = discard_old t s"
    using False fresh by (auto simp: prepare_def Let_def fresh_blocks_def split: option.splits)
  then show ?thesis using inv discard_old_inv by metis
qed

lemma stacks_reachable_inv: "stacks_reachable ul stack_min s \<Longrightarrow> stacks_inv s"
proof (induction rule: stacks_reachable.induct)
  case (start s)
  have "blocks_of s t = {}" for t
    using start(1) by (simp add: blocks_of_def prepared_def split: option.splits)
  then show ?case using start by (simp add: stacks_inv_def)
next
  case (release s t)
  then show ?case using remove_inv by (simp add: stack_release_def split: option.splits)
qed (assumption | rule prepare_inv same_blocks_inv [OF update_same] same_blocks_inv [OF calibrate_same]
    same_blocks_inv [OF other_same(1)] same_blocks_inv [OF other_same(2)] same_blocks_inv [OF other_same(3)])+

text \<open>
  C32. However threads are prepared, prepared again, updated and released, and whichever allocations of
  the host fail on the way: the live count is the number of threads that have a stack, the live blocks are exactly
  the host stacks and signal stacks of those threads, no block belongs to two threads, and when the last
  thread has been released the count is zero and no block is left.\<close>

theorem stack_blocks_accounted:
  assumes "stacks_reachable ul stack_min s"
  shows "finite (prepared s) \<and> live_stack_info_count s = of_nat (card (prepared s)) \<and>
    live_blocks s = (\<Union>t \<in> prepared s. blocks_of s t) \<and>
    (\<forall>t u. t \<noteq> u \<longrightarrow> blocks_of s t \<inter> blocks_of s u = {}) \<and>
    (prepared s = {} \<longrightarrow> live_stack_info_count s = 0 \<and> live_blocks s = {})"
proof -
  have inv: "stacks_inv s" by (rule stacks_reachable_inv [OF assms])
  have "t \<in> prepared s" if "x \<in> blocks_of s t" for x t
    using that by (auto simp: blocks_of_def prepared_def split: option.splits)
  then have "(\<Union>t. blocks_of s t) = (\<Union>t \<in> prepared s. blocks_of s t)" by blast
  with inv show ?thesis by (simp add: stacks_inv_def)
qed

section \<open>Preparing\<close>

text \<open>
  A thread is prepared exactly when it asks for a stack and every allocation of the host
  succeeds. Then its host stack is a whole number of pages and holds the requested bytes, the host's minimum and a
  word; otherwise a stack it had before is gone, and nothing that was allocated on the way is left.\<close>

theorem prepare_all_or_nothing:
  assumes page: "page_size env = 2 ^ k" "k < 63" and fits: "unat (stack_size (hosted s t)) + unat stack_min + unat ul + 2 ^ k \<le> 2 ^ 64"
    and fresh: "fresh_blocks env (discard_old t s)" and r: "prepare ul stack_min env t s = (error, s')"
  shows "(error = None \<longleftrightarrow> stack_size (hosted s t) \<noteq> 0 \<and> stack_block env \<noteq> None \<and> signal_block env \<noteq> None \<and> info_allocated env) \<and>
    (error = Some SIZE_ERROR \<longrightarrow> s' = s) \<and> (error = Some NO_MEMORY \<longrightarrow> s' = discard_old t s) \<and> error \<noteq> Some PTR_ERROR \<and>
    (error = None \<longrightarrow> 2 ^ k dvd unat (stack_host_size (hosted s' t)) \<and> Some (stack_host_base (hosted s' t)) = stack_block env \<and>
       unat (stack_size (hosted s t)) + unat stack_min + unat ul \<le> unat (stack_host_size (hosted s' t)))"
proof -
  let ?n = "stack_size (hosted s t)"
  define P :: u64 where "P = word_of_int (2 ^ k)"
  have p: "unat P = 2 ^ k"
  proof -
    have "(2 :: nat) ^ k < 2 ^ LENGTH(64)" using page(2) by (intro power_strict_increasing) simp_all
    then show ?thesis using unat_of_nat_small [of "2 ^ k", where 'a = 64] by (simp add: P_def)
  qed
  have pos: "\<not> (2 :: int) ^ k \<le> 0" by (simp add: not_le)
  have small: "unat ?n + unat stack_min + unat ul < 2 ^ LENGTH(64)"
  proof -
    have "0 < (2 :: nat) ^ k" by simp
    with fits have "unat ?n + unat stack_min + unat ul < 2 ^ 64" by linarith
    then show ?thesis by simp
  qed
  have sum: "unat (?n + stack_min + ul) = unat ?n + unat stack_min + unat ul"
    using small by (simp add: unat_add_small)
  define m where "m = unat ?n + unat stack_min + unat ul"
  have "host_size ul stack_min (page_size env) ?n = stack_round_up (?n + stack_min + ul) P"
    using pos by (simp add: host_size_def page(1) P_def)
  then have hs: "unat (host_size ul stack_min (page_size env) ?n) = (m + 2 ^ k - 1) div 2 ^ k * 2 ^ k"
    using round_up_word [OF p, of "?n + stack_min + ul"] fits by (simp add: stack_round_up_def sum p m_def)
  have b: "m \<le> (m + 2 ^ k - 1) div 2 ^ k * 2 ^ k" by (rule round_up_bounds(2)) simp
  consider "?n = 0" | "?n \<noteq> 0" "stack_block env = None \<or> signal_block env = None \<or> \<not> info_allocated env"
    | base sig where "?n \<noteq> 0" "stack_block env = Some base" "signal_block env = Some sig" "info_allocated env"
    by (cases "stack_block env"; cases "signal_block env") auto
  then show ?thesis
  proof cases
    case 1
    then show ?thesis using r by (auto simp: prepare_def)
  next
    case 2
    then have "error = Some NO_MEMORY \<and> s' = discard_old t s"
      using r fresh by (auto simp: prepare_def Let_def fresh_blocks_def split: option.splits if_splits)
    then show ?thesis using 2 by auto
  next
    case 3
    then have "error = None" "stack_host_size (hosted s' t) = host_size ul stack_min (page_size env) ?n"
      "stack_host_base (hosted s' t) = base"
      using r by (auto simp: prepare_def Let_def stack_info_new_def stack_host_size_def stack_host_base_def)
    then show ?thesis using 3 b hs by (simp add: m_def)
  qed
qed

section \<open>Refreshing every thread\<close>

text \<open>
  When the created threads form the circular list that ThreadX keeps, the refresh of all of them
  comes back, after refreshing each of them once, in order.\<close>

theorem refresh_all_returns:
  assumes ring: "distinct ring" "\<And>i. i < length ring \<Longrightarrow> created_next (ring ! i) = ring ! ((i + 1) mod length ring)"
    and count: "created_count = length ring" "created_ptr = (if ring = [] then None else Some (ring ! 0))"
  shows "refresh_all_threads_stack_info ul runs_here current created_next created_ptr created_count s =
    Some (foldl (\<lambda>s t. stack_refresh ul runs_here current (Some t) s) s ring)"
proof (cases "ring = []")
  case True
  then show ?thesis by (simp add: refresh_all_threads_stack_info_def count)
next
  case False
  let ?f = "\<lambda>s t. stack_refresh ul runs_here current (Some t) s"
  have "refresh_from ul runs_here current created_next (ring ! 0) (ring ! i) s = Some (foldl ?f s (drop i ring))"
    if "i < length ring" for i s
    using that
  proof (induction "length ring - i" arbitrary: i s rule: less_induct)
    case less
    have d: "drop i ring = ring ! i # drop (i + 1) ring" using less.prems by (simp add: Cons_nth_drop_Suc)
    show ?case
    proof (cases "i + 1 = length ring")
      case True
      then show ?thesis using ring(2) [OF less.prems] d by (subst refresh_from.simps) (simp add: Let_def)
    next
      case more: False
      then have i: "i + 1 < length ring" using less.prems by simp
      then have "created_next (ring ! i) = ring ! (i + 1)" using ring(2) [OF less.prems] by simp
      moreover have "ring ! (i + 1) \<noteq> ring ! 0" using ring(1) i False by (simp add: nth_eq_iff_index_eq)
      ultimately show ?thesis using less.hyps [of "i + 1"] i d by (subst refresh_from.simps) (simp add: Let_def)
    qed
  qed
  from this [of 0] show ?thesis using False by (simp add: refresh_all_threads_stack_info_def count)
qed

section \<open>Examples\<close>

definition sample_hosted :: hosted_thread where
  "sample_hosted = \<lparr>id_valid = True, stack_start = 0x1000, stack_end = 0x1FFF, stack_size = 0x1000, stack_ptr = 0,
     stack_highest_ptr = 0, extension = Some \<lparr>host_stack_base = 0x100000, host_stack_size = 0x10000, signal_stack = 0x50000,
     baseline_host_stack_ptr = 0x10F000\<rparr>\<rparr>"

lemma logical_stack_pointer_witness:
  "\<exists>h'. update_thread 4 0x10EF01 sample_hosted = (None, h') \<and> 0x1004 \<le> unat (stack_ptr h')"
proof -
  obtain h' where r: "update_thread 4 0x10EF01 sample_hosted = (None, h')"
    by (simp add: update_thread_def sample_hosted_def align_down_def Let_def)
  from logical_stack_pointer [OF _ _ _ r] show ?thesis using r by (simp add: sample_hosted_def)
qed

definition no_stacks :: stacks where
  "no_stacks = \<lparr>hosted = (\<lambda>_. sample_hosted\<lparr>extension := None\<rparr>), live_stack_info_count = 0, live_blocks = {}, g_thread = (\<lambda>_. None)\<rparr>"

definition granted :: host_answers where
  "granted = \<lparr>page_size = 4096, stack_block = Some 0x100000, signal_block = Some 0x50000, info_allocated = True\<rparr>"

lemma no_stacks_reachable: "stacks_reachable 4 0x4000 no_stacks"
  by (rule stacks_reachable.start) (simp_all add: no_stacks_def prepared_def)

lemma granted_fresh: "fresh_blocks granted (discard_old 2 no_stacks)"
  by (simp add: fresh_blocks_def granted_def discard_old_def no_stacks_def)

lemma stack_blocks_accounted_witness:
  "blocks_of (snd (prepare 4 0x4000 granted 2 no_stacks)) 2 \<inter> blocks_of (snd (prepare 4 0x4000 granted 2 no_stacks)) 5 = {}"
  using stack_blocks_accounted [OF stacks_reachable.prepare [OF no_stacks_reachable granted_fresh]] by simp

lemma prepare_all_or_nothing_witness:
  "\<exists>s'. prepare 4 0x4000 granted 2 no_stacks = (None, s') \<and> 4096 dvd unat (stack_host_size (hosted s' 2))"
proof -
  obtain s' where r: "prepare 4 0x4000 granted 2 no_stacks = (None, s')"
    by (simp add: prepare_def granted_def no_stacks_def sample_hosted_def Let_def stack_info_new_def)
  have "page_size granted = 2 ^ 12" "unat (stack_size (hosted no_stacks 2)) + unat (0x4000 :: u64) + unat (4 :: u64) + 2 ^ 12 \<le> 2 ^ 64"
    by (simp_all add: granted_def no_stacks_def sample_hosted_def)
  from prepare_all_or_nothing [OF this(1) _ this(2) granted_fresh r] show ?thesis by (simp add: r)
qed

lemma refresh_all_returns_witness:
  "\<exists>s'. refresh_all_threads_stack_info 4 (\<lambda>t. t = 5) 0x10EF01 (\<lambda>t. if t = 5 then 6 else 5) (Some 5) 2 no_stacks = Some s'"
proof -
  have "refresh_all_threads_stack_info 4 (\<lambda>t. t = 5) 0x10EF01 (\<lambda>t. if t = 5 then 6 else 5) (Some 5) 2 no_stacks =
      Some (foldl (\<lambda>s t. stack_refresh 4 (\<lambda>t. t = 5) 0x10EF01 (Some t) s) no_stacks [5, 6])"
    by (rule refresh_all_returns) (auto simp: less_Suc_eq numeral_2_eq_2)
  then show ?thesis by blast
qed

end
