(* ===== verification/Board_Ethernet.thy ===== *)
theory Board_Ethernet
  imports Ethernet
begin

unbundle bit_operations_syntax

text \<open>
  The board's Ethernet driver (\<open>platform/hal/drivers/impl/stm32/Ethernet.cpp\<close>): the pool of receive buffers that
  it lends to the DMA through the callbacks of the vendor's HAL, and its operations over the HAL. A pointer
  to a slot's link or data is the slot's index. The HAL is a parameter, the record \<open>eth_hal\<close>; its mutexes
  order whole calls and are not modelled.
\<close>

section \<open>The pool of receive buffers\<close>

definition RX_SLOT_COUNT :: nat where "RX_SLOT_COUNT = 4 * 2"
definition ETH_DMA_FRAME_BUFFER_SIZE :: nat where "ETH_DMA_FRAME_BUFFER_SIZE = 1536"

record rx_link =
  link_buffer :: "nat option"
  link_len :: u32
  link_next :: "nat option"

record rx_slot =
  slot_link :: rx_link
  slot_data :: "u8 list"
  slot_allocated :: bool

definition no_link :: rx_link where
  "no_link = \<lparr>link_buffer = None, link_len = 0, link_next = None\<rparr>"

definition rx_allocate :: "rx_slot list \<Rightarrow> nat option \<times> rx_slot list" where
  "rx_allocate slots =
     (case find_index (\<lambda>s. \<not> slot_allocated s) slots of
        None \<Rightarrow> (None, slots)
      | Some i \<Rightarrow> (Some i, slots[i := (slots ! i)\<lparr>slot_allocated := True, slot_link := no_link\<rparr>]))"

definition find_slot :: "nat \<Rightarrow> rx_slot list \<Rightarrow> nat option" where
  "find_slot buffer slots = (if buffer < length slots then Some buffer else None)"

definition set_next :: "nat option \<Rightarrow> rx_slot \<Rightarrow> rx_slot" where
  "set_next p s = s\<lparr>slot_link := (slot_link s)\<lparr>link_next := p\<rparr>\<rparr>"

text \<open>The callback appends a filled buffer to the frame between \<open>start\<close> and \<open>fin\<close>.\<close>

definition rx_link_callback ::
    "nat option \<Rightarrow> nat option \<Rightarrow> nat \<Rightarrow> u16 \<Rightarrow> rx_slot list \<Rightarrow> nat option \<times> nat option \<times> rx_slot list" where
  "rx_link_callback start fin buffer len slots =
     (case find_slot buffer slots of
        None \<Rightarrow> (start, fin, slots)
      | Some i \<Rightarrow>
          let slots1 = slots[i := (slots ! i)\<lparr>slot_link := \<lparr>link_buffer = Some buffer, link_len = ucast len, link_next = None\<rparr>\<rparr>]
          in if start = None then (Some i, Some i, slots1)
             else (start, Some i, slots1[the fin := set_next (Some i) (slots1 ! the fin)]))"

definition released :: "rx_slot \<Rightarrow> rx_slot" where
  "released s = s\<lparr>slot_link := no_link, slot_allocated := False\<rparr>"

lemma filter_update_less:
  assumes "p < length xs" and "P (xs ! p)" and "\<not> P x"
  shows "length (filter P (xs[p := x])) < length (filter P xs)"
proof -
  have "xs = take p xs @ xs ! p # drop (Suc p) xs" by (rule id_take_nth_drop [OF assms(1)])
  then have "length (filter P xs) = length (filter P (take p xs)) + Suc (length (filter P (drop (Suc p) xs)))"
    using assms(2) by (metis (no_types, lifting) filter.simps(2) filter_append length_Cons length_append)
  moreover have "length (filter P (xs[p := x])) = length (filter P (take p xs)) + length (filter P (drop (Suc p) xs))"
    using assms by (simp add: upd_conv_take_nth_drop)
  ultimately show ?thesis by simp
qed

lemma filter_update_same:
  assumes "p < length xs" and "\<not> P (xs ! p)" and "\<not> P x"
  shows "filter P (xs[p := x]) = filter P xs"
proof -
  have "xs = take p xs @ xs ! p # drop (Suc p) xs" by (rule id_take_nth_drop [OF assms(1)])
  then have "filter P xs = filter P (take p xs) @ filter P (drop (Suc p) xs)"
    using assms(2) by (metis (no_types, lifting) filter.simps(2) filter_append)
  then show ?thesis using assms by (simp add: upd_conv_take_nth_drop)
qed

text \<open>A chain that came back to one of its links would end there, because the link has been cleared.\<close>

function release_frame :: "nat option \<Rightarrow> rx_slot list \<Rightarrow> rx_slot list" where
  "release_frame first slots =
     (case first of
        None \<Rightarrow> slots
      | Some p \<Rightarrow>
          if p < length slots then release_frame (link_next (slot_link (slots ! p))) (slots[p := released (slots ! p)])
          else slots)"
  by pat_completeness auto
termination
proof (relation "measure (\<lambda>(first, slots). length (filter (\<lambda>s. link_next (slot_link s) \<noteq> None) slots) + of_bool (first \<noteq> None))")
  let ?P = "\<lambda>s. link_next (slot_link s) \<noteq> None"
  fix first slots p
  assume first: "first = Some p" and p: "p < length (slots :: rx_slot list)"
  have r: "\<not> ?P (released (slots ! p))" by (simp add: released_def no_link_def)
  show "((link_next (slot_link (slots ! p)), slots[p := released (slots ! p)]), (first, slots)) \<in>
    measure (\<lambda>(first, slots). length (filter ?P slots) + of_bool (first \<noteq> None))"
  proof (cases "?P (slots ! p)")
    case True
    then show ?thesis using filter_update_less [OF p, of ?P, OF True r] first by simp
  next
    case False
    then show ?thesis using filter_update_same [OF p, of ?P, OF False r] first by simp
  qed
qed simp

declare release_frame.simps [simp del]

section \<open>The HAL and the device\<close>

record mac_config =
  mac_speed_100 :: bool
  mac_full_duplex :: bool
  drop_checksum_errors :: bool
  transmit_flow_control :: bool
  receive_flow_control :: bool
  mac_other :: "u32 list"

record filter_config =
  promiscuous_mode :: bool
  filter_other :: "u32 list"

datatype eth_status = Eth_Ok | Eth_Timeout | Eth_Error

text \<open>\<open>HAL_ETH_ReadData\<close> works on the slots through the callbacks; it answers whether it succeeded, and the frame's first link.\<close>

record 'w eth_hal =
  h_get_mac_config :: "'w \<Rightarrow> mac_config option \<times> 'w"
  h_set_mac_config :: "mac_config \<Rightarrow> 'w \<Rightarrow> bool \<times> 'w"
  h_get_filter :: "'w \<Rightarrow> filter_config option \<times> 'w"
  h_set_filter :: "filter_config \<Rightarrow> 'w \<Rightarrow> bool \<times> 'w"
  h_start :: "'w \<Rightarrow> bool \<times> 'w"
  h_stop :: "'w \<Rightarrow> bool \<times> 'w"
  h_read_phy :: "u8 \<Rightarrow> u32 \<Rightarrow> 'w \<Rightarrow> u32 option \<times> 'w"
  h_transmit :: "u8 list \<Rightarrow> u32 \<Rightarrow> 'w \<Rightarrow> eth_status \<times> 'w"
  h_read_data :: "rx_slot list \<Rightarrow> 'w \<Rightarrow> bool \<times> nat option \<times> rx_slot list \<times> 'w"
  h_tick :: "'w \<Rightarrow> u32"
  h_sleep :: "'w \<Rightarrow> 'w"

record board_ethernet =
  b_receive_type :: "u16 option"
  b_phy_address :: u8
  b_promiscuous :: bool
  b_running :: bool
  init_mac :: "u8 list option"
  rx_slots :: "rx_slot list"
  tx_frame :: "u8 list"

definition board_new :: "u16 option \<Rightarrow> u8 \<Rightarrow> bool \<Rightarrow> u8 list option \<Rightarrow> rx_slot list \<Rightarrow> u8 list \<Rightarrow> board_ethernet" where
  "board_new type phy promisc mac slots frame =
     \<lparr>b_receive_type = type, b_phy_address = phy, b_promiscuous = promisc, b_running = False, init_mac = mac,
      rx_slots = List.map released slots, tx_frame = frame\<rparr>"

section \<open>Starting and stopping\<close>

definition configure_mac :: "'w eth_hal \<Rightarrow> 'w \<Rightarrow> bool \<times> 'w" where
  "configure_mac k w =
     (let (config, w1) = h_get_mac_config k w
      in case config of
           None \<Rightarrow> (False, w1)
         | Some c \<Rightarrow>
             h_set_mac_config k (c\<lparr>mac_speed_100 := True, mac_full_duplex := True, drop_checksum_errors := False,
               transmit_flow_control := False, receive_flow_control := False\<rparr>) w1)"

definition configure_filter :: "'w eth_hal \<Rightarrow> bool \<Rightarrow> 'w \<Rightarrow> bool \<times> 'w" where
  "configure_filter k promisc w =
     (let (config, w1) = h_get_filter k w
      in case config of
           None \<Rightarrow> (False, w1)
         | Some c \<Rightarrow> h_set_filter k (c\<lparr>promiscuous_mode := promisc\<rparr>) w1)"

definition board_start :: "'w eth_hal \<Rightarrow> board_ethernet \<times> 'w \<Rightarrow> (eth_error + unit) \<times> board_ethernet \<times> 'w" where
  "board_start k sw =
     (let (s, w) = sw
      in if b_running s then (Inr (), s, w)
         else
           let (ok, w1) = configure_mac k w
           in if \<not> ok then (Inl Io_Error, s, w1)
              else
                let (ok, w2) = configure_filter k (b_promiscuous s) w1
                in if \<not> ok then (Inl Io_Error, s, w2)
                   else
                     let (ok, w3) = h_start k w2
                     in if \<not> ok then (Inl Io_Error, s, w3) else (Inr (), s\<lparr>b_running := True\<rparr>, w3))"

definition board_stop :: "'w eth_hal \<Rightarrow> board_ethernet \<times> 'w \<Rightarrow> (eth_error + unit) \<times> board_ethernet \<times> 'w" where
  "board_stop k sw =
     (let (s, w) = sw
      in if \<not> b_running s then (Inr (), s, w)
         else
           let (ok, w1) = h_stop k w
           in if \<not> ok then (Inl Io_Error, s, w1) else (Inr (), s\<lparr>b_running := False\<rparr>, w1))"

definition board_mac_address :: "board_ethernet \<Rightarrow> u8 list" where
  "board_mac_address s = (case init_mac s of None \<Rightarrow> replicate 6 0 | Some mac \<Rightarrow> take 6 mac)"

section \<open>The link\<close>

definition speed_duplex :: "u32 \<Rightarrow> u32 \<times> duplex" where
  "speed_duplex special =
     (let mode = special AND 0x1C
      in if mode = 0x04 then (10, Half) else if mode = 0x08 then (100, Half)
         else if mode = 0x14 then (10, Full) else if mode = 0x18 then (100, Full) else (0, Unknown))"

definition board_link_info :: "'w eth_hal \<Rightarrow> board_ethernet \<Rightarrow> 'w \<Rightarrow> (eth_error + link_info) \<times> 'w" where
  "board_link_info k s w =
     (let (first, w1) = h_read_phy k (b_phy_address s) 1 w
      in if first = None then (Inl Io_Error, w1)
         else
           let (basic, w2) = h_read_phy k (b_phy_address s) 1 w1
           in (case basic of
                 None \<Rightarrow> (Inl Io_Error, w2)
               | Some status \<Rightarrow>
                   if \<not> bit status 2 then (Inr \<lparr>up = False, speed_mbps = 0, link_duplex = Unknown\<rparr>, w2)
                   else
                     let (special, w3) = h_read_phy k (b_phy_address s) 31 w2
                     in (case special of
                           None \<Rightarrow> (Inl Io_Error, w3)
                         | Some mode \<Rightarrow>
                             let (speed, dup) = speed_duplex mode
                             in (Inr \<lparr>up = True, speed_mbps = speed, link_duplex = dup\<rparr>, w3))))"

section \<open>Sending\<close>

definition timeout_milliseconds :: "int \<Rightarrow> u32" where
  "timeout_milliseconds timeout =
     (if timeout \<le> 0 then 0 else ucast (min (word_of_int timeout :: u64) 0xFFFFFFFF))"

text \<open>The static transmit buffer keeps what a longer frame before left behind the present one.\<close>

definition fill_tx_frame :: "u8 list \<Rightarrow> u8 list \<Rightarrow> u8 list \<Rightarrow> u8 list" where
  "fill_tx_frame frame source buffer =
     foldl (\<lambda>b i. b[MAC_ADDRESS_SIZE + i := source ! i]) (frame @ drop (length frame) buffer) [0..<MAC_ADDRESS_SIZE]"

definition board_transmit ::
    "'w eth_hal \<Rightarrow> u8 list \<Rightarrow> int \<Rightarrow> board_ethernet \<times> 'w \<Rightarrow> (eth_error + unit) \<times> board_ethernet \<times> 'w" where
  "board_transmit k frame timeout sw =
     (let (s, w) = sw
      in if length frame < ETHERNET_HEADER_SIZE \<or> length frame > MAX_FRAME_SIZE \<or> timeout < 0
         then (Inl Invalid_Argument, s, w)
         else if \<not> b_running s then (Inl Not_Connected, s, w)
         else
           let buffer = fill_tx_frame frame (board_mac_address s) (tx_frame s);
               (status, w1) = h_transmit k (take (length frame) buffer) (timeout_milliseconds timeout) w
           in (case status of Eth_Ok \<Rightarrow> Inr () | Eth_Timeout \<Rightarrow> Inl Timed_Out | Eth_Error \<Rightarrow> Inl Io_Error,
               s\<lparr>tx_frame := buffer\<rparr>, w1))"

section \<open>Receiving\<close>

text \<open>The links of a frame, as the loops over it see them; \<open>None\<close> when the walk leaves the pool or does not end.\<close>

partial_function (option) frame_links :: "rx_slot list \<Rightarrow> nat option \<Rightarrow> nat list option" where
  "frame_links slots first =
     (case first of
        None \<Rightarrow> Some []
      | Some p \<Rightarrow>
          if p < length slots
          then Option.bind (frame_links slots (link_next (slot_link (slots ! p)))) (\<lambda>ps. Some (p # ps))
          else None)"

definition link_bytes :: "rx_slot list \<Rightarrow> nat \<Rightarrow> u8 list" where
  "link_bytes slots p =
     (case link_buffer (slot_link (slots ! p)) of
        None \<Rightarrow> []
      | Some b \<Rightarrow> take (unat (link_len (slot_link (slots ! p)))) (slot_data (slots ! b)))"

definition frame_size :: "rx_slot list \<Rightarrow> nat list \<Rightarrow> nat" where
  "frame_size slots ps = sum_list (List.map (\<lambda>p. unat (link_len (slot_link (slots ! p)))) ps)"

text \<open>
  One frame of the HAL: the outcome of the call, if there is one, the caller's buffer and the slots afterwards. A
  frame of another type is in the caller's buffer, too, when it has been skipped.
\<close>

definition take_frame ::
    "u16 option \<Rightarrow> bool \<Rightarrow> nat option \<Rightarrow> u8 list \<Rightarrow> rx_slot list \<Rightarrow>
     ((eth_error + nat) option \<times> u8 list \<times> rx_slot list) option" where
  "take_frame wanted ok packet buffer slots =
     (if \<not> ok \<or> packet = None then Some (None, buffer, slots)
      else
        (case frame_links slots packet of
           None \<Rightarrow> None
         | Some ps \<Rightarrow>
             let n = frame_size slots ps
             in if n > MAX_FRAME_SIZE \<or> length buffer < n
                then Some (Some (Inl No_Buffer_Space), buffer, release_frame packet slots)
                else
                  let buffer' = concat (List.map (link_bytes slots) ps) @ drop n buffer;
                      slots' = release_frame packet slots
                  in if wanted = None \<or> frame_ether_type (take n buffer') = wanted
                     then Some (Some (Inr n), buffer', slots')
                     else Some (None, buffer', slots')))"

partial_function (option) board_receive_loop ::
    "'w eth_hal \<Rightarrow> u16 option \<Rightarrow> u32 \<Rightarrow> u32 \<Rightarrow> u8 list \<Rightarrow> rx_slot list \<Rightarrow> 'w \<Rightarrow>
     ((eth_error + nat) \<times> u8 list \<times> rx_slot list \<times> 'w) option" where
  "board_receive_loop k wanted timeout_ticks started_at buffer slots w =
     (let (ok, packet, slots1, w1) = h_read_data k slots w
      in Option.bind (take_frame wanted ok packet buffer slots1) (\<lambda>(outcome, buffer', slots2).
           case outcome of
             Some r \<Rightarrow> Some (r, buffer', slots2, w1)
           | None \<Rightarrow>
               if timeout_ticks = 0 \<or> h_tick k w1 - started_at \<ge> timeout_ticks
               then Some (Inl Timed_Out, buffer', slots2, w1)
               else board_receive_loop k wanted timeout_ticks started_at buffer' slots2 (h_sleep k w1)))"

definition board_receive ::
    "'w eth_hal \<Rightarrow> u8 list \<Rightarrow> int \<Rightarrow> board_ethernet \<times> 'w \<Rightarrow> ((eth_error + nat) \<times> u8 list \<times> board_ethernet \<times> 'w) option" where
  "board_receive k buffer timeout sw =
     (let (s, w) = sw
      in if buffer = [] \<or> timeout < 0 then Some (Inl Invalid_Argument, buffer, s, w)
         else if \<not> b_running s then Some (Inl Not_Connected, buffer, s, w)
         else
           (case board_receive_loop k (b_receive_type s) (timeout_milliseconds timeout) (h_tick k w) buffer (rx_slots s) w of
              None \<Rightarrow> None
            | Some (r, buffer', slots, w') \<Rightarrow> Some (r, buffer', s\<lparr>rx_slots := slots\<rparr>, w')))"

end
