(* ===== verification/Board_Ethernet_Properties.thy ===== *)
theory Board_Ethernet_Properties
  imports Board_Ethernet
begin

text \<open>
  The board's Ethernet driver: every receive buffer is free, lent to the DMA or part of the frame being
  collected; a frame is delivered byte by byte and its buffers come back; a receive ends in time.
\<close>

section \<open>The pool\<close>

interpretation rx_pool: slot_table slot_allocated "\<lparr>slot_link = no_link, slot_data = [], slot_allocated = False\<rparr>" RX_SLOT_COUNT
  by unfold_locales simp

lemma rx_allocate_free: "rx_allocate slots =
    (case rx_pool.free_slot slots of None \<Rightarrow> (None, slots)
     | Some i \<Rightarrow> (Some i, slots[i := (slots ! i)\<lparr>slot_allocated := True, slot_link := no_link\<rparr>]))"
  by (simp add: rx_allocate_def rx_pool.free_slot_def)

lemma released_free [simp]: "\<not> slot_allocated (released s)" "slot_data (released s) = slot_data s"
  by (simp_all add: released_def)

text \<open>A list of slots is a chain when each link leads to the next one and the last link leads nowhere.\<close>

fun chain :: "rx_slot list \<Rightarrow> nat option \<Rightarrow> nat list \<Rightarrow> bool" where
  "chain slots first [] \<longleftrightarrow> first = None"
| "chain slots first (p # ps) \<longleftrightarrow> first = Some p \<and> p < length slots \<and> chain slots (link_next (slot_link (slots ! p))) ps"

lemma chain_cong:
  assumes "length slots' = length slots" and "\<And>p. p \<in> set ps \<Longrightarrow> slot_link (slots' ! p) = slot_link (slots ! p)"
  shows "chain slots' first ps = chain slots first ps"
  using assms(2) by (induction ps arbitrary: first) (auto simp: assms(1))

lemma chain_append:
  assumes "chain slots first ps" and "ps \<noteq> []" and "distinct ps"
    and "length slots' = length slots" and "i < length slots"
    and "\<And>p. p \<in> set ps \<Longrightarrow> p \<noteq> last ps \<Longrightarrow> link_next (slot_link (slots' ! p)) = link_next (slot_link (slots ! p))"
    and "link_next (slot_link (slots' ! last ps)) = Some i" and "link_next (slot_link (slots' ! i)) = None"
  shows "chain slots' first (ps @ [i])"
  using assms
proof (induction ps arbitrary: first)
  case Nil
  then show ?case by simp
next
  case (Cons p ps)
  show ?case
  proof (cases "ps = []")
    case True
    then show ?thesis using Cons.prems by simp
  next
    case False
    then have "p \<noteq> last ps" using Cons.prems(3) by (metis distinct.simps(2) last_in_set)
    then have "link_next (slot_link (slots' ! p)) = link_next (slot_link (slots ! p))"
      using Cons.prems(6) [of p] False by simp
    moreover have "chain slots' (link_next (slot_link (slots ! p))) (ps @ [i])"
      by (rule Cons.IH) (use Cons.prems False in auto)
    ultimately show ?thesis using Cons.prems(1,4) by simp
  qed
qed

lemma frame_links_chain: "chain slots first ps \<Longrightarrow> frame_links slots first = Some ps"
proof (induction ps arbitrary: first)
  case Nil
  then show ?case by (subst frame_links.simps) simp
next
  case (Cons p ps)
  then have "frame_links slots (link_next (slot_link (slots ! p))) = Some ps" by simp
  then show ?case using Cons.prems by (subst frame_links.simps) simp
qed

definition release_all :: "nat list \<Rightarrow> rx_slot list \<Rightarrow> rx_slot list" where
  "release_all ps slots = foldl (\<lambda>s p. s[p := released (s ! p)]) slots ps"

lemma release_frame_chain:
  "chain slots first ps \<Longrightarrow> distinct ps \<Longrightarrow> release_frame first slots = release_all ps slots"
proof (induction ps arbitrary: first slots)
  case Nil
  then show ?case by (simp add: release_frame.simps release_all_def)
next
  case (Cons p ps)
  let ?s = "slots[p := released (slots ! p)]"
  have "chain ?s (link_next (slot_link (slots ! p))) ps"
    using Cons.prems by (subst chain_cong [of _ slots]) (auto simp: nth_list_update)
  then have "release_frame (link_next (slot_link (slots ! p))) ?s = release_all ps ?s"
    using Cons.IH Cons.prems by simp
  then show ?case using Cons.prems by (simp add: release_frame.simps [of "Some p"] release_all_def)
qed

lemma release_all_simps:
  "length (release_all ps slots) = length slots"
  "rx_pool.in_use (release_all ps slots) = rx_pool.in_use slots - set ps"
  unfolding release_all_def
  by (induction ps arbitrary: slots) (auto simp: rx_pool.in_use_freed)

section \<open>Ownership\<close>

text \<open>
  The slots, those lent to the DMA's descriptors, and the frame the HAL is collecting: the pointers it keeps for the link
  callback, and the slots they stand for. The DMA fills the buffers it holds.
\<close>

record rx_system =
  pool :: "rx_slot list"
  lent :: "nat set"
  frame_start :: "nat option"
  frame_end :: "nat option"
  collected :: "nat list"

inductive rx_reachable :: "rx_system \<Rightarrow> bool" where
  start: "length slots = RX_SLOT_COUNT \<Longrightarrow> \<forall>s \<in> set slots. length (slot_data s) = ETH_DMA_FRAME_BUFFER_SIZE \<Longrightarrow>
    rx_reachable \<lparr>pool = rx_slots (board_new type phy promisc mac slots frame), lent = {}, frame_start = None,
      frame_end = None, collected = []\<rparr>"
| allocate: "rx_reachable s \<Longrightarrow> rx_allocate (pool s) = (Some i, slots) \<Longrightarrow>
    rx_reachable (s\<lparr>pool := slots, lent := insert i (lent s)\<rparr>)"
| fill: "rx_reachable s \<Longrightarrow> i \<in> lent s \<Longrightarrow> length bytes = ETH_DMA_FRAME_BUFFER_SIZE \<Longrightarrow>
    rx_reachable (s\<lparr>pool := (pool s)[i := (pool s ! i)\<lparr>slot_data := bytes\<rparr>]\<rparr>)"
| collect: "rx_reachable s \<Longrightarrow> i \<in> lent s \<Longrightarrow> unat len \<le> ETH_DMA_FRAME_BUFFER_SIZE \<Longrightarrow>
    rx_link_callback (frame_start s) (frame_end s) i len (pool s) = (st, fin, slots) \<Longrightarrow>
    rx_reachable (s\<lparr>pool := slots, lent := lent s - {i}, frame_start := st, frame_end := fin, collected := collected s @ [i]\<rparr>)"
| deliver: "rx_reachable s \<Longrightarrow> frame_start s \<noteq> None \<Longrightarrow>
    take_frame wanted True (frame_start s) buffer (pool s) = Some (outcome, buffer', slots) \<Longrightarrow>
    rx_reachable (s\<lparr>pool := slots, frame_start := None, frame_end := None, collected := []\<rparr>)"

definition rx_inv :: "rx_system \<Rightarrow> bool" where
  "rx_inv s \<longleftrightarrow> length (pool s) = RX_SLOT_COUNT \<and> rx_pool.in_use (pool s) = lent s \<union> set (collected s) \<and>
     lent s \<inter> set (collected s) = {} \<and> distinct (collected s) \<and> chain (pool s) (frame_start s) (collected s) \<and>
     (collected s \<noteq> [] \<longrightarrow> frame_end s = Some (last (collected s))) \<and>
     (\<forall>i < RX_SLOT_COUNT. length (slot_data (pool s ! i)) = ETH_DMA_FRAME_BUFFER_SIZE) \<and>
     (\<forall>i \<in> set (collected s). link_buffer (slot_link (pool s ! i)) = Some i \<and>
        unat (link_len (slot_link (pool s ! i))) \<le> ETH_DMA_FRAME_BUFFER_SIZE)"

lemma in_use_same: "i < length slots \<Longrightarrow> slot_allocated x = slot_allocated (slots ! i) \<Longrightarrow>
    rx_pool.in_use (slots[i := x]) = rx_pool.in_use slots"
  by (auto simp: rx_pool.in_use_def nth_list_update)

lemma rx_inv_slots:
  assumes "rx_inv s" and "i \<in> lent s \<union> set (collected s)"
  shows "i < RX_SLOT_COUNT" and "slot_allocated (pool s ! i)"
  using assms by (auto simp: rx_inv_def rx_pool.in_use_def)

lemma allocate_inv:
  assumes "rx_inv s" and "rx_allocate (pool s) = (Some i, slots)"
  shows "rx_inv (s\<lparr>pool := slots, lent := insert i (lent s)\<rparr>)" and "i \<notin> lent s \<union> set (collected s)"
proof -
  have f: "rx_pool.free_slot (pool s) = Some i"
    and slots: "slots = (pool s)[i := (pool s ! i)\<lparr>slot_allocated := True, slot_link := no_link\<rparr>]"
    using assms(2) by (auto simp: rx_allocate_free split: option.splits)
  have i: "i < length (pool s)" "i \<notin> rx_pool.in_use (pool s)" using rx_pool.free_slot_fresh [OF f] by simp_all
  then show n: "i \<notin> lent s \<union> set (collected s)" using assms(1) by (simp add: rx_inv_def)
  have "rx_pool.in_use slots = insert i (rx_pool.in_use (pool s))"
    unfolding slots using i by (intro rx_pool.in_use_claim) simp_all
  moreover have "chain slots (frame_start s) (collected s)"
    using assms(1) n i by (subst chain_cong [of _ "pool s"]) (auto simp: slots rx_inv_def nth_list_update)
  ultimately show "rx_inv (s\<lparr>pool := slots, lent := insert i (lent s)\<rparr>)"
    using assms(1) n i(1) by (auto simp: rx_inv_def slots nth_list_update)
qed

lemma fill_inv:
  assumes "rx_inv s" and "i \<in> lent s" and "length bytes = ETH_DMA_FRAME_BUFFER_SIZE"
  shows "rx_inv (s\<lparr>pool := (pool s)[i := (pool s ! i)\<lparr>slot_data := bytes\<rparr>]\<rparr>)"
proof -
  have i: "i < length (pool s)" using rx_inv_slots(1) [OF assms(1), of i] assms(1,2) by (simp add: rx_inv_def)
  have "chain ((pool s)[i := (pool s ! i)\<lparr>slot_data := bytes\<rparr>]) (frame_start s) (collected s) =
      chain (pool s) (frame_start s) (collected s)"
    using i by (intro chain_cong) (auto simp: nth_list_update)
  then show ?thesis using assms i by (auto simp: rx_inv_def in_use_same nth_list_update)
qed

lemma collect_inv:
  assumes inv: "rx_inv s" and i: "i \<in> lent s" and len: "unat (len :: u16) \<le> ETH_DMA_FRAME_BUFFER_SIZE"
    and r: "rx_link_callback (frame_start s) (frame_end s) i len (pool s) = (st, fin, slots)"
  shows "rx_inv (s\<lparr>pool := slots, lent := lent s - {i}, frame_start := st, frame_end := fin, collected := collected s @ [i]\<rparr>)"
proof -
  let ?x = "(pool s ! i)\<lparr>slot_link := \<lparr>link_buffer = Some i, link_len = ucast len, link_next = None\<rparr>\<rparr>"
  have il: "i < length (pool s)" "slot_allocated (pool s ! i)" "i \<notin> set (collected s)"
    using rx_inv_slots [OF inv, of i] inv i by (auto simp: rx_inv_def)
  have l: "unat (ucast len :: u32) = unat len" by (simp add: unsigned_ucast_eq take_bit_nat_eq_self unsigned_less [THEN less_le_trans])
  show ?thesis
  proof (cases "collected s = []")
    case True
    then have "frame_start s = None" using inv by (simp add: rx_inv_def)
    then have s: "st = Some i" "fin = Some i" "slots = (pool s)[i := ?x]"
      using r il by (auto simp: rx_link_callback_def find_slot_def)
    show ?thesis using inv i il True len l by (auto simp: rx_inv_def s in_use_same nth_list_update)
  next
    case False
    let ?e = "last (collected s)"
    let ?a = "(pool s)[i := ?x]"
    have st: "frame_start s \<noteq> None" "frame_end s = Some ?e"
      using inv False by (cases "collected s", auto simp: rx_inv_def)
    have e: "?e \<in> set (collected s)" "?e \<noteq> i" using False il(3) by auto
    then have el: "?e < length (pool s)" using rx_inv_slots(1) [OF inv, of ?e] inv by (simp add: rx_inv_def)
    have s: "st = frame_start s" "fin = Some i" "slots = ?a[?e := set_next (Some i) (?a ! ?e)]"
      using r il st by (auto simp: rx_link_callback_def find_slot_def Let_def)
    have "chain slots (frame_start s) (collected s @ [i])"
      by (rule chain_append [of "pool s"]) (use inv False il e el in \<open>auto simp: rx_inv_def s set_next_def nth_list_update\<close>)
    moreover have "rx_pool.in_use slots = rx_pool.in_use (pool s)"
      using il el by (simp add: s in_use_same set_next_def nth_list_update)
    moreover have "link_buffer (slot_link (slots ! j)) = Some j \<and> unat (link_len (slot_link (slots ! j))) \<le> ETH_DMA_FRAME_BUFFER_SIZE"
      if "j \<in> set (collected s @ [i])" for j
      using that inv il el e len l by (auto simp: rx_inv_def s set_next_def nth_list_update)
    moreover have "length (slot_data (slots ! j)) = length (slot_data (pool s ! j))" for j
      using il el by (cases "j = i"; cases "j = ?e") (simp_all add: s(3) set_next_def nth_list_update)
    moreover have "length slots = length (pool s)" by (simp add: s(3))
    ultimately show ?thesis using inv i il s(1,2) by (auto simp: rx_inv_def)
  qed
qed

section \<open>Delivery\<close>

text \<open>What the caller should get: the filled parts of the frame's buffers, one after the other.\<close>

definition frame_bytes :: "rx_system \<Rightarrow> u8 list" where
  "frame_bytes s = concat (List.map (\<lambda>p. take (unat (link_len (slot_link (pool s ! p)))) (slot_data (pool s ! p))) (collected s))"

lemma frame_bytes_links:
  assumes "rx_inv s"
  shows "concat (List.map (link_bytes (pool s)) (collected s)) = frame_bytes s"
    and "frame_size (pool s) (collected s) = length (frame_bytes s)"
proof -
  have b: "link_bytes (pool s) p = take (unat (link_len (slot_link (pool s ! p)))) (slot_data (pool s ! p))"
    and l: "length (take (unat (link_len (slot_link (pool s ! p)))) (slot_data (pool s ! p))) = unat (link_len (slot_link (pool s ! p)))"
    if "p \<in> set (collected s)" for p
    using that assms rx_inv_slots(1) [OF assms, of p] by (simp_all add: link_bytes_def rx_inv_def)
  show "concat (List.map (link_bytes (pool s)) (collected s)) = frame_bytes s"
    unfolding frame_bytes_def using b by (metis (mono_tags, lifting) map_cong)
  show "frame_size (pool s) (collected s) = length (frame_bytes s)"
    unfolding frame_bytes_def frame_size_def length_concat map_map using l
    by (intro arg_cong [of _ _ sum_list] map_cong) simp_all
qed

lemma take_frame_exact:
  assumes inv: "rx_inv s" and "frame_start s \<noteq> None"
  shows "take_frame wanted True (frame_start s) buffer (pool s) =
    (let bytes = frame_bytes s; slots = release_all (collected s) (pool s) in
     if length bytes > 1522 \<or> length buffer < length bytes then Some (Some (Inl No_Buffer_Space), buffer, slots)
     else Some (if wanted = None \<or> frame_ether_type bytes = wanted then Some (Inr (length bytes)) else None,
       bytes @ drop (length bytes) buffer, slots))"
proof -
  have "chain (pool s) (frame_start s) (collected s)" "distinct (collected s)" using inv by (simp_all add: rx_inv_def)
  then have "frame_links (pool s) (frame_start s) = Some (collected s)"
    "release_frame (frame_start s) (pool s) = release_all (collected s) (pool s)"
    by (simp_all add: frame_links_chain release_frame_chain)
  with assms(2) show ?thesis by (auto simp: take_frame_def Let_def frame_bytes_links [OF inv] MAX_FRAME_SIZE_def)
qed

lemma release_all_data: "length (slot_data (release_all ps slots ! i)) = length (slot_data (slots ! i))"
  unfolding release_all_def
proof (induction ps arbitrary: slots)
  case (Cons p ps)
  then show ?case by (cases "p < length slots") (simp_all add: nth_list_update)
qed simp

lemma deliver_inv:
  assumes inv: "rx_inv s" and r: "take_frame wanted True (frame_start s) buffer (pool s) = Some (outcome, buffer', slots)"
    and st: "frame_start s \<noteq> None"
  shows "rx_inv (s\<lparr>pool := slots, frame_start := None, frame_end := None, collected := []\<rparr>)"
proof -
  have "slots = release_all (collected s) (pool s)"
    using r take_frame_exact [OF inv st, of wanted buffer] by (auto simp: Let_def split: if_splits)
  then show ?thesis using inv by (auto simp: rx_inv_def release_all_simps release_all_data)
qed

lemma rx_reachable_inv: "rx_reachable s \<Longrightarrow> rx_inv s"
proof (induction rule: rx_reachable.induct)
  case (start slots type phy promisc mac frame)
  then show ?case by (auto simp: rx_inv_def board_new_def rx_pool.in_use_def)
next
  case (allocate s i slots)
  then show ?case by (simp only: allocate_inv)
next
  case (fill s i bytes)
  then show ?case by (simp only: fill_inv)
next
  case (collect s i len st fin slots)
  then show ?case by (simp only: collect_inv)
next
  case (deliver s wanted buffer outcome buffer' slots)
  then show ?case using deliver_inv by blast
qed

text \<open>
  C33. Whatever the HAL does with its callbacks, and whichever frames are delivered, skipped or refused: a
  receive buffer is free, lent to the DMA or in the frame being collected, never two of these, and the
  collected frame's links lead through exactly its buffers. The end of a frame gives all of its buffers back and
  none of the DMA's, so as long as fewer than all slots are lent and collected an allocation succeeds with
  a slot nobody holds.\<close>

theorem rx_slots_owned:
  assumes "rx_reachable s"
  shows "rx_pool.in_use (pool s) = lent s \<union> set (collected s) \<and> lent s \<inter> set (collected s) = {} \<and>
    distinct (collected s) \<and> frame_links (pool s) (frame_start s) = Some (collected s) \<and>
    rx_pool.in_use (release_frame (frame_start s) (pool s)) = lent s \<and>
    (card (lent s) + length (collected s) < RX_SLOT_COUNT \<longrightarrow>
      (\<exists>i. fst (rx_allocate (pool s)) = Some i \<and> i \<notin> lent s \<union> set (collected s)))"
proof -
  have inv: "rx_inv s" by (rule rx_reachable_inv [OF assms])
  then have u: "rx_pool.in_use (pool s) = lent s \<union> set (collected s)" and d: "lent s \<inter> set (collected s) = {}"
    and c: "distinct (collected s)" "chain (pool s) (frame_start s) (collected s)" and n: "length (pool s) = RX_SLOT_COUNT"
    by (simp_all add: rx_inv_def)
  have rel: "rx_pool.in_use (release_frame (frame_start s) (pool s)) = lent s"
    using release_all_simps(2) [of "collected s" "pool s"] u d by (auto simp: release_frame_chain [OF c(2,1)])
  have "\<exists>i. fst (rx_allocate (pool s)) = Some i \<and> i \<notin> lent s \<union> set (collected s)"
    if less: "card (lent s) + length (collected s) < RX_SLOT_COUNT"
  proof -
    have "card (rx_pool.in_use (pool s)) < RX_SLOT_COUNT"
      using card_Un_le [of "lent s" "set (collected s)"] card_length [of "collected s"] less by (simp add: u)
    then obtain i where f: "rx_pool.free_slot (pool s) = Some i" using rx_pool.free_slot_available [OF n] by blast
    then show ?thesis using rx_pool.free_slot_fresh [OF f] by (simp add: rx_allocate_free u)
  qed
  with u d c(1) rel frame_links_chain [OF c(2)] show ?thesis by blast
qed

text \<open>
  C34. A collected frame is delivered whole: the caller's buffer starts with the filled parts of the
  frame's buffers in order, and the length is their sum. A frame that is longer than a frame may be, or than the
  caller's buffer, is refused and leaves the buffer alone; one of another type is skipped. In every case only
  the DMA's slots stay in use.\<close>

theorem frame_delivered:
  assumes "rx_reachable s" and "frame_start s \<noteq> None"
  shows "\<exists>slots. take_frame wanted True (frame_start s) buffer (pool s) =
      Some (if length (frame_bytes s) > 1522 \<or> length buffer < length (frame_bytes s) then Some (Inl No_Buffer_Space)
            else if wanted = None \<or> frame_ether_type (frame_bytes s) = wanted then Some (Inr (length (frame_bytes s)))
            else None,
        if length (frame_bytes s) > 1522 \<or> length buffer < length (frame_bytes s) then buffer
        else frame_bytes s @ drop (length (frame_bytes s)) buffer, slots) \<and>
    rx_pool.in_use slots = lent s"
proof -
  have inv: "rx_inv s" by (rule rx_reachable_inv [OF assms(1)])
  have "rx_pool.in_use (release_all (collected s) (pool s)) = lent s"
    using inv by (auto simp: release_all_simps rx_inv_def)
  then show ?thesis by (auto simp: take_frame_exact [OF inv assms(2)] Let_def)
qed

section \<open>Receiving in time\<close>






text \<open>
  The two drivers differ on a frame of another type that does not fit the caller's buffer: the hosted one
  skips it, the board's reports that there is no space.
\<close>

lemma foreign_frame_refused:
  assumes "rx_reachable s" and "frame_start s \<noteq> None" and "length buffer < length (frame_bytes s)"
    and "frame_ether_type (frame_bytes s) \<noteq> wanted"
  shows "\<exists>slots. take_frame wanted True (frame_start s) buffer (pool s) = Some (Some (Inl No_Buffer_Space), buffer, slots)"
  using take_frame_exact [OF rx_reachable_inv [OF assms(1)] assms(2), of wanted buffer] assms(3) by simp

section \<open>Starting\<close>

text \<open>A device that reports it runs has been configured as its settings say and started, in this order.\<close>

lemma board_start_running:
  assumes "board_start k (s, w) = (Inr (), s', w')" and "\<not> b_running s"
  shows "s' = s\<lparr>b_running := True\<rparr> \<and> (\<exists>w1 w2. configure_mac k w = (True, w1) \<and>
    configure_filter k (b_promiscuous s) w1 = (True, w2) \<and> h_start k w2 = (True, w'))"
  using assms by (auto simp: board_start_def split: prod.splits if_splits)

section \<open>Examples\<close>

definition empty_slots :: "rx_slot list" where
  "empty_slots = replicate RX_SLOT_COUNT \<lparr>slot_link = no_link, slot_data = replicate 1536 0, slot_allocated = False\<rparr>"

definition idle_pool :: rx_system where
  "idle_pool = \<lparr>pool = rx_slots (board_new None 0 False None empty_slots []), lent = {}, frame_start = None, frame_end = None, collected = []\<rparr>"

lemma idle_pool_reachable: "rx_reachable idle_pool"
  unfolding idle_pool_def by (rule rx_reachable.start) (simp_all add: empty_slots_def ETH_DMA_FRAME_BUFFER_SIZE_def)

lemma rx_slots_owned_witness:
  "\<exists>i. fst (rx_allocate (pool idle_pool)) = Some i"
proof -
  have "card (lent idle_pool) + length (collected idle_pool) < RX_SLOT_COUNT"
    by (simp add: idle_pool_def RX_SLOT_COUNT_def)
  then show ?thesis using rx_slots_owned [OF idle_pool_reachable] by blast
qed

text \<open>One buffer lent, then collected as a frame of 64 bytes.\<close>

lemma collected_frame: "\<exists>s. rx_reachable s \<and> frame_start s \<noteq> None"
proof -
  obtain i slots where a: "rx_allocate (pool idle_pool) = (Some i, slots)"
    using rx_slots_owned [OF idle_pool_reachable] by (cases "rx_allocate (pool idle_pool)") (auto simp: idle_pool_def RX_SLOT_COUNT_def)
  define s1 where "s1 = idle_pool\<lparr>pool := slots, lent := insert i (lent idle_pool)\<rparr>"
  have r1: "rx_reachable s1" unfolding s1_def by (rule rx_reachable.allocate [OF idle_pool_reachable a])
  have i: "i \<in> lent s1" by (simp add: s1_def)
  have "i < length (pool s1)"
    using rx_inv_slots(1) [OF rx_reachable_inv [OF r1], of i] rx_reachable_inv [OF r1] i by (simp add: rx_inv_def)
  moreover obtain st fin slots' where c: "rx_link_callback (frame_start s1) (frame_end s1) i 64 (pool s1) = (st, fin, slots')"
    by (metis prod_cases3)
  ultimately have "st \<noteq> None" by (auto simp: rx_link_callback_def find_slot_def Let_def split: if_splits)
  have "rx_reachable (s1\<lparr>pool := slots', lent := lent s1 - {i}, frame_start := st, frame_end := fin, collected := collected s1 @ [i]\<rparr>)"
    by (rule rx_reachable.collect [OF r1 i _ c]) (simp add: ETH_DMA_FRAME_BUFFER_SIZE_def)
  with \<open>st \<noteq> None\<close> show ?thesis by fastforce
qed

lemma frame_delivered_witness:
  "\<exists>s slots outcome buffer'. rx_reachable s \<and> take_frame None True (frame_start s) [1, 2] (pool s) = Some (outcome, buffer', slots) \<and>
     rx_pool.in_use slots = lent s"
proof -
  obtain s where s: "rx_reachable s" "frame_start s \<noteq> None" using collected_frame by blast
  from frame_delivered [OF s, of None "[1, 2]"] s(1) show ?thesis by blast
qed




end
