(* ===== verification/Board_Timer.thy ===== *)
theory Board_Timer
  imports Timer
begin

text \<open>
  The board's timer driver (\<open>platform/hal/drivers/impl/stm32/Timer.cpp\<close>) over the registers of a timer and the
  interrupt controller. The vendor's HAL and the registers are a parameter, the record \<open>tim_hal\<close>; what
  they do is stated as laws over what can be read of them (\<open>Board_Timer_Properties\<close>).
\<close>

section \<open>The hardware\<close>

record 'w tim_hal =
  t_running :: "'w \<Rightarrow> bool"
  t_update_interrupt :: "'w \<Rightarrow> bool"
  t_update_flag :: "'w \<Rightarrow> bool"
  t_irq_enabled :: "'w \<Rightarrow> bool"
  t_irq_pending :: "'w \<Rightarrow> bool"
  t_counter :: "'w \<Rightarrow> u32"
  t_auto_reload :: "'w \<Rightarrow> u32"
  t_prescaler :: "'w \<Rightarrow> u32"
  t_base_start :: "'w \<Rightarrow> bool \<times> 'w"
  t_base_start_it :: "'w \<Rightarrow> bool \<times> 'w"
  t_base_stop :: "'w \<Rightarrow> bool \<times> 'w"
  t_base_stop_it :: "'w \<Rightarrow> bool \<times> 'w"
  t_set_update_interrupt :: "bool \<Rightarrow> 'w \<Rightarrow> 'w"
  t_clear_update_flag :: "'w \<Rightarrow> 'w"
  t_irq_enable :: "bool \<Rightarrow> 'w \<Rightarrow> 'w"
  t_irq_clear_pending :: "'w \<Rightarrow> 'w"
  t_irq_set_priority :: "u32 \<Rightarrow> 'w \<Rightarrow> 'w"
  t_set_counter :: "u32 \<Rightarrow> 'w \<Rightarrow> 'w"
  t_set_auto_reload :: "u32 \<Rightarrow> 'w \<Rightarrow> 'w"
  t_set_prescaler :: "u32 \<Rightarrow> 'w \<Rightarrow> 'w"
  t_generate_update :: "'w \<Rightarrow> 'w"

definition TIMER_INTERRUPT_PRIORITY :: u32 where "TIMER_INTERRUPT_PRIORITY = 5"
definition MAXIMUM_PRESCALER :: u32 where "MAXIMUM_PRESCALER = 0xFFFF"

record 'w board_timer =
  bt_input_hz :: u32
  bt_version :: u32
  bt_callback :: bool
  bt_hw :: 'w

definition on_hw :: "('w \<Rightarrow> 'w) \<Rightarrow> 'w board_timer \<Rightarrow> 'w board_timer" where
  "on_hw f t = t\<lparr>bt_hw := f (bt_hw t)\<rparr>"

definition mark_state_change :: "'w board_timer \<Rightarrow> 'w board_timer" where
  "mark_state_change t = t\<lparr>bt_version := bt_version t + 1\<rparr>"

text \<open>A call of the HAL that may fail.\<close>

definition attempt :: "('w \<Rightarrow> bool \<times> 'w) \<Rightarrow> 'w board_timer \<Rightarrow> bool \<times> 'w board_timer" where
  "attempt f t = (let (ok, w) = f (bt_hw t) in (ok, t\<lparr>bt_hw := w\<rparr>))"

section \<open>Starting and stopping\<close>

definition bt_start :: "'w tim_hal \<Rightarrow> 'w board_timer \<Rightarrow> unit hal_result \<times> 'w board_timer" where
  "bt_start k t =
     (let (ok, t1) = (if t_running k (bt_hw t) then (True, t) else attempt (t_base_start k) t)
      in if \<not> ok then (Hal_Error, t1)
         else (Done (), mark_state_change (on_hw (t_irq_clear_pending k \<circ> t_irq_enable k False \<circ>
                 t_set_update_interrupt k False) t1)))"

definition restore_interrupts :: "'w tim_hal \<Rightarrow> bool \<Rightarrow> bool \<Rightarrow> 'w board_timer \<Rightarrow> 'w board_timer" where
  "restore_interrupts k update nvic t =
     (let t1 = (if update then on_hw (t_set_update_interrupt k True) t else t)
      in if nvic then on_hw (t_irq_enable k True) t1 else t1)"

definition bt_stop :: "'w tim_hal \<Rightarrow> 'w board_timer \<Rightarrow> unit hal_result \<times> 'w board_timer" where
  "bt_stop k t =
     (let update = t_update_interrupt k (bt_hw t);
          nvic = t_irq_enabled k (bt_hw t);
          (ok, t1) = attempt (t_base_stop k) (on_hw (t_irq_enable k False \<circ> t_set_update_interrupt k False) t)
      in if \<not> ok then (Hal_Error, restore_interrupts k update nvic t1)
         else (Done (), mark_state_change (on_hw (t_irq_clear_pending k) t1)))"

definition bt_start_it :: "'w tim_hal \<Rightarrow> 'w board_timer \<Rightarrow> unit hal_result \<times> 'w board_timer" where
  "bt_start_it k t =
     (let update = t_update_interrupt k (bt_hw t)
      in if t_running k (bt_hw t) then
           let t1 = (if \<not> update
                     then on_hw (t_set_update_interrupt k True \<circ> t_irq_clear_pending k \<circ> t_clear_update_flag k \<circ>
                            t_irq_enable k False) t
                     else t)
           in (Done (), on_hw (t_irq_enable k True) (mark_state_change
                 (on_hw (t_irq_set_priority k TIMER_INTERRUPT_PRIORITY) t1)))
         else
           let nvic = t_irq_enabled k (bt_hw t);
               (ok, t1) = attempt (t_base_start_it k)
                 (on_hw (t_irq_clear_pending k \<circ> t_clear_update_flag k \<circ> t_irq_enable k False) t)
           in if \<not> ok then (Hal_Error, restore_interrupts k update nvic t1)
              else (Done (), on_hw (t_irq_enable k True) (mark_state_change
                      (on_hw (t_irq_set_priority k TIMER_INTERRUPT_PRIORITY) t1))))"

definition bt_stop_it :: "'w tim_hal \<Rightarrow> 'w board_timer \<Rightarrow> unit hal_result \<times> 'w board_timer" where
  "bt_stop_it k t = bt_stop k t"

definition bt_shutdown :: "'w tim_hal \<Rightarrow> 'w board_timer \<Rightarrow> 'w board_timer" where
  "bt_shutdown k t =
     on_hw (t_irq_clear_pending k \<circ> t_irq_enable k False) (snd (attempt (t_base_stop_it k) t))"

section \<open>Settings\<close>

definition bt_set_counter :: "'w tim_hal \<Rightarrow> u32 \<Rightarrow> 'w board_timer \<Rightarrow> 'w board_timer" where
  "bt_set_counter k v t = on_hw (t_set_counter k v) (mark_state_change t)"

definition bt_reset :: "'w tim_hal \<Rightarrow> 'w board_timer \<Rightarrow> 'w board_timer" where
  "bt_reset k t = bt_set_counter k 0 t"

definition bt_set_auto_reload :: "'w tim_hal \<Rightarrow> u32 \<Rightarrow> 'w board_timer \<Rightarrow> 'w board_timer" where
  "bt_set_auto_reload k v t = on_hw (t_set_auto_reload k v) (mark_state_change t)"

definition bt_force_update_event :: "'w tim_hal \<Rightarrow> 'w board_timer \<Rightarrow> 'w board_timer" where
  "bt_force_update_event k t = on_hw (t_generate_update k) (mark_state_change t)"

definition bt_set_prescaler :: "'w tim_hal \<Rightarrow> u32 \<Rightarrow> 'w board_timer \<Rightarrow> 'w board_timer" where
  "bt_set_prescaler k v t =
     (let value = min v MAXIMUM_PRESCALER;
          update = t_update_interrupt k (bt_hw t);
          nvic = t_irq_enabled k (bt_hw t);
          t1 = on_hw (t_set_update_interrupt k False \<circ> t_irq_enable k False) t;
          update_was_pending = t_update_flag k (bt_hw t1);
          interrupt_was_pending = t_irq_pending k (bt_hw t1);
          count = t_counter k (bt_hw t1);
          t2 = on_hw (t_set_counter k count \<circ> t_generate_update k \<circ> t_set_prescaler k value) t1;
          t3 = (if \<not> update_was_pending then on_hw (t_clear_update_flag k) t2 else t2);
          t4 = (if \<not> interrupt_was_pending then on_hw (t_irq_clear_pending k) t3 else t3);
          t5 = mark_state_change (if update then on_hw (t_set_update_interrupt k True) t4 else t4)
      in if nvic then on_hw (t_irq_enable k True) t5 else t5)"

definition bt_set_period_elapsed_callback :: "'w tim_hal \<Rightarrow> bool \<Rightarrow> 'w board_timer \<Rightarrow> 'w board_timer" where
  "bt_set_period_elapsed_callback k present t =
     (let restore = t_irq_enabled k (bt_hw t);
          t1 = (on_hw (t_irq_enable k False) t)\<lparr>bt_callback := present\<rparr>
      in if restore then on_hw (t_irq_enable k True) t1 else t1)"

section \<open>Time\<close>

definition bt_tick_frequency_hz :: "'w tim_hal \<Rightarrow> 'w board_timer \<Rightarrow> u32" where
  "bt_tick_frequency_hz k t = ucast ((ucast (bt_input_hz t) :: u64) div ((ucast (t_prescaler k (bt_hw t)) :: u64) + 1))"

definition bt_duration_to_ticks :: "'w tim_hal \<Rightarrow> int \<Rightarrow> 'w board_timer \<Rightarrow> u32" where
  "bt_duration_to_ticks k nanoseconds t =
     (let frequency = (ucast (bt_tick_frequency_hz k t) :: u64)
      in if nanoseconds \<le> 0 \<or> frequency = 0 then 0
         else
           let unsigned_nanoseconds = (word_of_int nanoseconds :: u64);
               seconds = unsigned_nanoseconds div NANOSECONDS_PER_SECOND;
               remainder = unsigned_nanoseconds mod NANOSECONDS_PER_SECOND
           in if seconds > MAXIMUM_TICK div frequency then ucast MAXIMUM_TICK
              else
                let whole_ticks = seconds * frequency;
                    fractional_ticks = (remainder * frequency + NANOSECONDS_PER_SECOND - 1) div NANOSECONDS_PER_SECOND
                in if fractional_ticks > MAXIMUM_TICK - whole_ticks then ucast MAXIMUM_TICK
                   else ucast (whole_ticks + fractional_ticks))"

definition bt_set_period :: "'w tim_hal \<Rightarrow> int \<Rightarrow> 'w board_timer \<Rightarrow> 'w board_timer" where
  "bt_set_period k nanoseconds t =
     (let ticks = bt_duration_to_ticks k nanoseconds t
      in bt_force_update_event k (bt_set_auto_reload k (if ticks = 0 then 0 else ticks - 1) t))"

definition bt_elapsed_time :: "'w tim_hal \<Rightarrow> 'w board_timer \<Rightarrow> int" where
  "bt_elapsed_time k t =
     (let frequency = (ucast (bt_tick_frequency_hz k t) :: u64)
      in if frequency = 0 then 0
         else sint ((ucast (t_counter k (bt_hw t)) :: u64) * NANOSECONDS_PER_SECOND div frequency))"

section \<open>The registry\<close>

text \<open>
  The timers that exist, as the handles of their peripherals in the registry's slots (\<open>None\<close>: the
  constructor ends the program), and the handler of an update interrupt: the handle whose callback runs.
\<close>

definition MAX_TIMER_INSTANCES :: nat where "MAX_TIMER_INSTANCES = 4"

definition timer_register :: "nat \<Rightarrow> nat option list \<Rightarrow> nat option list option" where
  "timer_register handle registry =
     (if Some handle \<in> set registry then None
      else
        (case find_index (\<lambda>x. x = None) registry of
           None \<Rightarrow> None
         | Some i \<Rightarrow> Some (registry[i := Some handle])))"

definition timer_unregister :: "nat \<Rightarrow> nat option list \<Rightarrow> nat option list" where
  "timer_unregister handle registry =
     (case find_index (\<lambda>x. x = Some handle) registry of
        None \<Rightarrow> registry
      | Some i \<Rightarrow> registry[i := None])"

definition dispatch_period_elapsed :: "(nat \<Rightarrow> bool) \<Rightarrow> nat \<Rightarrow> nat option list \<Rightarrow> nat option" where
  "dispatch_period_elapsed has_callback handle registry =
     (case find_index (\<lambda>x. x = Some handle) registry of
        None \<Rightarrow> None
      | Some i \<Rightarrow> if has_callback handle then Some handle else None)"

definition tim_irq_handler :: "'w tim_hal \<Rightarrow> (nat \<Rightarrow> bool) \<Rightarrow> nat \<Rightarrow> nat option list \<Rightarrow> 'w \<Rightarrow> nat option \<times> 'w" where
  "tim_irq_handler k has_callback handle registry w =
     (if t_update_flag k w \<and> t_update_interrupt k w
      then (dispatch_period_elapsed has_callback handle registry, t_clear_update_flag k w)
      else (None, w))"

section \<open>Its input clock\<close>

text \<open>
  The factory (\<open>factory/stm32/timer.cpp\<close>) takes the clock of the bus, doubled when the bus divides its own clock; both are what the
  HAL says.
\<close>

definition timer2_input_frequency_hz :: "bool \<Rightarrow> u32 \<Rightarrow> u32" where
  "timer2_input_frequency_hz divided pclk1 =
     (let frequency = (ucast pclk1 :: u64);
          frequency' = (if divided then frequency * 2 else frequency)
      in ucast (min frequency' 0xFFFFFFFF))"

end
