(* ===== verification/Board_Timer_Properties.thy ===== *)
theory Board_Timer_Properties
  imports Board_Timer
begin

text \<open>
  The board's timer: changing the prescaler leaves everything else as it was, a stop that fails puts the interrupts
  back, an interrupt start never delivers an update from before it, and the registry calls the timer an
  interrupt belongs to.
\<close>

section \<open>The hardware's laws\<close>

text \<open>What can be read of a timer and its interrupt.\<close>

record tim_view =
  v_running :: bool
  v_update_interrupt :: bool
  v_update_flag :: bool
  v_irq_enabled :: bool
  v_irq_pending :: bool
  v_counter :: u32
  v_auto_reload :: u32
  v_prescaler :: u32

definition view :: "'w tim_hal \<Rightarrow> 'w \<Rightarrow> tim_view" where
  "view k w = \<lparr>v_running = t_running k w, v_update_interrupt = t_update_interrupt k w, v_update_flag = t_update_flag k w,
     v_irq_enabled = t_irq_enabled k w, v_irq_pending = t_irq_pending k w, v_counter = t_counter k w,
     v_auto_reload = t_auto_reload k w, v_prescaler = t_prescaler k w\<rparr>"

text \<open>While the update flag is set and its interrupt enabled, the interrupt is requested.\<close>

definition settle :: "tim_view \<Rightarrow> tim_view" where
  "settle v = (if v_update_interrupt v \<and> v_update_flag v then v\<lparr>v_irq_pending := True\<rparr> else v)"

text \<open>
  Each access does to the registers what the reference manual says, with the counter at rest during a call; a
  start or stop of the HAL that fails changes nothing. The update event clears the counter and sets the flag.
\<close>

definition tim_law :: "'w tim_hal \<Rightarrow> bool" where
  "tim_law k \<longleftrightarrow>
     (\<forall>w. view k (snd (t_base_start k w)) = (if fst (t_base_start k w) then settle ((view k w)\<lparr>v_running := True\<rparr>) else view k w)) \<and>
     (\<forall>w. view k (snd (t_base_start_it k w)) = (if fst (t_base_start_it k w)
        then settle ((view k w)\<lparr>v_running := True, v_update_interrupt := True\<rparr>) else view k w)) \<and>
     (\<forall>w. view k (snd (t_base_stop k w)) = (if fst (t_base_stop k w) then settle ((view k w)\<lparr>v_running := False\<rparr>) else view k w)) \<and>
     (\<forall>b w. view k (t_set_update_interrupt k b w) = settle ((view k w)\<lparr>v_update_interrupt := b\<rparr>)) \<and>
     (\<forall>w. view k (t_clear_update_flag k w) = settle ((view k w)\<lparr>v_update_flag := False\<rparr>)) \<and>
     (\<forall>b w. view k (t_irq_enable k b w) = settle ((view k w)\<lparr>v_irq_enabled := b\<rparr>)) \<and>
     (\<forall>w. view k (t_irq_clear_pending k w) = settle ((view k w)\<lparr>v_irq_pending := False\<rparr>)) \<and>
     (\<forall>p w. view k (t_irq_set_priority k p w) = view k w) \<and>
     (\<forall>v w. view k (t_set_counter k v w) = settle ((view k w)\<lparr>v_counter := v\<rparr>)) \<and>
     (\<forall>v w. view k (t_set_auto_reload k v w) = settle ((view k w)\<lparr>v_auto_reload := v\<rparr>)) \<and>
     (\<forall>v w. view k (t_set_prescaler k v w) = settle ((view k w)\<lparr>v_prescaler := v\<rparr>)) \<and>
     (\<forall>w. view k (t_generate_update k w) = settle ((view k w)\<lparr>v_counter := 0, v_update_flag := True\<rparr>))"

lemma tim_lawD:
  assumes "tim_law k"
  shows "view k (snd (t_base_start k w)) = (if fst (t_base_start k w) then settle ((view k w)\<lparr>v_running := True\<rparr>) else view k w)"
    and "view k (snd (t_base_start_it k w)) = (if fst (t_base_start_it k w)
        then settle ((view k w)\<lparr>v_running := True, v_update_interrupt := True\<rparr>) else view k w)"
    and "view k (snd (t_base_stop k w)) = (if fst (t_base_stop k w) then settle ((view k w)\<lparr>v_running := False\<rparr>) else view k w)"
    and "view k (t_set_update_interrupt k b w) = settle ((view k w)\<lparr>v_update_interrupt := b\<rparr>)"
    and "view k (t_clear_update_flag k w) = settle ((view k w)\<lparr>v_update_flag := False\<rparr>)"
    and "view k (t_irq_enable k b w) = settle ((view k w)\<lparr>v_irq_enabled := b\<rparr>)"
    and "view k (t_irq_clear_pending k w) = settle ((view k w)\<lparr>v_irq_pending := False\<rparr>)"
    and "view k (t_irq_set_priority k p w) = view k w"
    and "view k (t_set_counter k v w) = settle ((view k w)\<lparr>v_counter := v\<rparr>)"
    and "view k (t_set_auto_reload k v w) = settle ((view k w)\<lparr>v_auto_reload := v\<rparr>)"
    and "view k (t_set_prescaler k v w) = settle ((view k w)\<lparr>v_prescaler := v\<rparr>)"
    and "view k (t_generate_update k w) = settle ((view k w)\<lparr>v_counter := 0, v_update_flag := True\<rparr>)"
  using assms by (simp_all add: tim_law_def)

lemma observed [simp]:
  "t_running k w = v_running (view k w)" "t_update_interrupt k w = v_update_interrupt (view k w)"
  "t_update_flag k w = v_update_flag (view k w)" "t_irq_enabled k w = v_irq_enabled (view k w)"
  "t_irq_pending k w = v_irq_pending (view k w)" "t_counter k w = v_counter (view k w)"
  "t_auto_reload k w = v_auto_reload (view k w)" "t_prescaler k w = v_prescaler (view k w)"
  by (simp_all add: view_def)

lemma timer_simps [simp]:
  "bt_hw (on_hw f t) = f (bt_hw t)" "bt_version (on_hw f t) = bt_version t" "bt_hw (mark_state_change t) = bt_hw t"
  "bt_version (mark_state_change t) = bt_version t + 1" "bt_callback (on_hw f t) = bt_callback t"
  "bt_callback (mark_state_change t) = bt_callback t" "bt_input_hz (on_hw f t) = bt_input_hz t"
  "bt_input_hz (mark_state_change t) = bt_input_hz t"
  by (simp_all add: on_hw_def mark_state_change_def)

section \<open>Settings\<close>

text \<open>
  A change of the prescaler, whatever the timer and its interrupt are doing, sets the prescaler,
  limited to its sixteen bits, and nothing else that can be read: not the counter, which the update event it needs
  clears, not a pending update or the lack of one, and no interrupt that would not have come.\<close>

theorem set_prescaler_transparent:
  assumes law: "tim_law k" and settled: "settle (view k (bt_hw t)) = view k (bt_hw t)"
  shows "view k (bt_hw (bt_set_prescaler k v t)) = (view k (bt_hw t))\<lparr>v_prescaler := min v 0xFFFF\<rparr> \<and>
    bt_version (bt_set_prescaler k v t) = bt_version t + 1 \<and> bt_callback (bt_set_prescaler k v t) = bt_callback t"
proof -
  obtain r ui uf ie ip c ar ps where w: "view k (bt_hw t) = \<lparr>v_running = r, v_update_interrupt = ui, v_update_flag = uf,
      v_irq_enabled = ie, v_irq_pending = ip, v_counter = c, v_auto_reload = ar, v_prescaler = ps\<rparr>"
    by (cases "view k (bt_hw t)") simp
  have "ui \<and> uf \<longrightarrow> ip" using settled by (auto simp: w settle_def split: if_splits)
  then show ?thesis
    by (cases ui; cases uf; cases ie; cases ip) (simp_all add: bt_set_prescaler_def Let_def tim_lawD [OF law] w settle_def MAXIMUM_PRESCALER_def)
qed

section \<open>Starting and stopping\<close>

text \<open>
  Starting and stopping report what they did. A stop leaves a timer that neither runs nor
  interrupts; a start without interrupts leaves it running with none to come. A start with interrupts leaves it
  running with its interrupt enabled, and when the interrupt was not on before, no update from before it is
  pending. When the HAL refuses, the timer and its interrupt are as they were, but for an update that was pending
  before a refused start with interrupts, and the state version does not move.\<close>

theorem start_stop_exact:
  assumes law: "tim_law k" and settled: "settle (view k (bt_hw t)) = view k (bt_hw t)"
    and st: "bt_start k t = (r1, t1)" and sp: "bt_stop k t = (r2, t2)" and si: "bt_start_it k t = (r3, t3)"
  shows "(r1 = Done () \<longrightarrow> v_running (view k (bt_hw t1)) \<and> \<not> v_update_interrupt (view k (bt_hw t1)) \<and>
      \<not> v_irq_enabled (view k (bt_hw t1)) \<and> \<not> v_irq_pending (view k (bt_hw t1))) \<and>
    (r2 = Done () \<longrightarrow> \<not> v_running (view k (bt_hw t2)) \<and> \<not> v_update_interrupt (view k (bt_hw t2)) \<and>
      \<not> v_irq_enabled (view k (bt_hw t2)) \<and> \<not> v_irq_pending (view k (bt_hw t2))) \<and>
    (r3 = Done () \<longrightarrow> v_running (view k (bt_hw t3)) \<and> v_update_interrupt (view k (bt_hw t3)) \<and> v_irq_enabled (view k (bt_hw t3)) \<and>
      (\<not> v_update_interrupt (view k (bt_hw t)) \<longrightarrow> \<not> v_update_flag (view k (bt_hw t3)) \<and> \<not> v_irq_pending (view k (bt_hw t3)))) \<and>
    (r1 \<noteq> Done () \<longrightarrow> view k (bt_hw t1) = view k (bt_hw t) \<and> bt_version t1 = bt_version t) \<and>
    (r2 \<noteq> Done () \<longrightarrow> view k (bt_hw t2) = view k (bt_hw t) \<and> bt_version t2 = bt_version t) \<and>
    (r3 \<noteq> Done () \<longrightarrow> view k (bt_hw t3) = (view k (bt_hw t))\<lparr>v_update_flag := False, v_irq_pending := False\<rparr> \<and>
      bt_version t3 = bt_version t)"
proof -
  obtain r ui uf ie ip c ar ps where w: "view k (bt_hw t) = \<lparr>v_running = r, v_update_interrupt = ui, v_update_flag = uf,
      v_irq_enabled = ie, v_irq_pending = ip, v_counter = c, v_auto_reload = ar, v_prescaler = ps\<rparr>"
    by (cases "view k (bt_hw t)") simp
  have i: "ui \<and> uf \<longrightarrow> ip" using settled by (auto simp: w settle_def split: if_splits)
  note rules = attempt_def Let_def case_prod_beta tim_lawD [OF law] w settle_def restore_interrupts_def
  have 1: "(r1 = Done () \<longrightarrow> v_running (view k (bt_hw t1)) \<and> \<not> v_update_interrupt (view k (bt_hw t1)) \<and>
      \<not> v_irq_enabled (view k (bt_hw t1)) \<and> \<not> v_irq_pending (view k (bt_hw t1))) \<and>
    (r1 \<noteq> Done () \<longrightarrow> view k (bt_hw t1) = view k (bt_hw t) \<and> bt_version t1 = bt_version t)"
    using st by (cases r; cases "fst (t_base_start k (bt_hw t))") (auto simp: bt_start_def rules)
  have 2: "(r2 = Done () \<longrightarrow> \<not> v_running (view k (bt_hw t2)) \<and> \<not> v_update_interrupt (view k (bt_hw t2)) \<and>
      \<not> v_irq_enabled (view k (bt_hw t2)) \<and> \<not> v_irq_pending (view k (bt_hw t2))) \<and>
    (r2 \<noteq> Done () \<longrightarrow> view k (bt_hw t2) = view k (bt_hw t) \<and> bt_version t2 = bt_version t)"
    using sp i by (cases ui; cases uf; cases ie; cases ip) (auto simp: bt_stop_def rules split: if_splits)
  have 3: "(r3 = Done () \<longrightarrow> v_running (view k (bt_hw t3)) \<and> v_update_interrupt (view k (bt_hw t3)) \<and> v_irq_enabled (view k (bt_hw t3)) \<and>
      (\<not> v_update_interrupt (view k (bt_hw t)) \<longrightarrow> \<not> v_update_flag (view k (bt_hw t3)) \<and> \<not> v_irq_pending (view k (bt_hw t3)))) \<and>
    (r3 \<noteq> Done () \<longrightarrow> view k (bt_hw t3) = (view k (bt_hw t))\<lparr>v_update_flag := False, v_irq_pending := False\<rparr> \<and>
      bt_version t3 = bt_version t)"
    using si i by (cases r; cases ui; cases uf; cases ie; cases ip) (auto simp: bt_start_it_def rules split: if_splits)
  show ?thesis using 1 2 3 by blast
qed

section \<open>Time\<close>

text \<open>The two drivers convert durations alike.\<close>

lemma bt_duration_to_ticks_agrees:
  assumes "timer_input_hz h = bt_input_hz t" and "prescaler h = t_prescaler k (bt_hw t)"
  shows "bt_duration_to_ticks k ns t = duration_to_ticks_unlocked ns h"
  using assms by (simp add: bt_duration_to_ticks_def duration_to_ticks_unlocked_def bt_tick_frequency_hz_def tick_frequency_hz_def)

lemma bt_elapsed_time_exact:
  assumes "bt_tick_frequency_hz k t \<noteq> 0"
  shows "bt_elapsed_time k t = uint (t_counter k (bt_hw t)) * 10 ^ 9 div uint (bt_tick_frequency_hz k t)"
proof -
  let ?c = "ucast (t_counter k (bt_hw t)) :: u64" and ?f = "ucast (bt_tick_frequency_hz k t) :: u64"
  have f: "unat ?f = unat (bt_tick_frequency_hz k t)" and c: "unat ?c = unat (t_counter k (bt_hw t))"
    by (rule unat_ucast_32_64)+
  have f1: "1 \<le> unat (bt_tick_frequency_hz k t)" using assms by (simp add: Suc_le_eq unat_gt_0)
  have "unat (t_counter k (bt_hw t)) < 2 ^ 32" using unsigned_less [of "t_counter k (bt_hw t)", where ?'a = nat] by simp
  then have b: "unat (t_counter k (bt_hw t)) * 10 ^ 9 < 2 ^ 63" by simp
  have p: "unat (?c * NANOSECONDS_PER_SECOND) = unat (t_counter k (bt_hw t)) * 10 ^ 9"
    using b c by (subst unat_mult_small) (simp_all add: NANOSECONDS_PER_SECOND_def)
  have q: "unat (?c * NANOSECONDS_PER_SECOND div ?f) = unat (t_counter k (bt_hw t)) * 10 ^ 9 div unat (bt_tick_frequency_hz k t)"
    by (simp only: unat_div p f)
  have "unat (?c * NANOSECONDS_PER_SECOND div ?f) \<le> unat (t_counter k (bt_hw t)) * 10 ^ 9" unfolding q by (rule div_le_dividend)
  then have "sint (?c * NANOSECONDS_PER_SECOND div ?f) = int (unat (?c * NANOSECONDS_PER_SECOND div ?f))"
    using b by (subst sint_small) simp_all
  moreover have "?f \<noteq> 0" using f f1 by auto
  ultimately show ?thesis by (simp add: bt_elapsed_time_def q zdiv_int del: observed)
qed

section \<open>The registry\<close>

definition registered_once :: "nat option list \<Rightarrow> bool" where
  "registered_once registry \<longleftrightarrow>
     (\<forall>i < length registry. \<forall>j < length registry. registry ! i = registry ! j \<longrightarrow> registry ! i \<noteq> None \<longrightarrow> i = j)"

lemma dispatch_exact:
  "dispatch_period_elapsed f g registry = (if Some g \<in> set registry \<and> f g then Some g else None)"
proof (cases "find_index (\<lambda>x. x = Some g) registry")
  case None
  then have "Some g \<notin> set registry" by (auto simp: find_index_None list_all_iff)
  then show ?thesis by (simp add: dispatch_period_elapsed_def None)
next
  case (Some i)
  then have "Some g \<in> set registry" by (auto simp: find_index_Some in_set_conv_nth)
  then show ?thesis by (simp add: dispatch_period_elapsed_def Some)
qed

lemma unregister_gone:
  assumes "registered_once registry"
  shows "Some h \<notin> set (timer_unregister h registry)"
proof (cases "find_index (\<lambda>x. x = Some h) registry")
  case None
  then have "Some h \<notin> set registry" by (auto simp: find_index_None list_all_iff)
  then show ?thesis by (simp add: timer_unregister_def None)
next
  case (Some i)
  then have i: "i < length registry" "registry ! i = Some h" by (simp_all add: find_index_Some)
  have "registry[i := None] ! j \<noteq> Some h" if "j < length registry" for j
    using assms i that unfolding registered_once_def by (metis nth_list_update option.distinct(1))
  then show ?thesis by (auto simp: timer_unregister_def Some in_set_conv_nth)
qed

text \<open>
  Timers that have been registered are in the registry once each, and an update interrupt of
  one of them calls the callback of that one; after it has been unregistered its interrupts call none. A second
  timer of the same peripheral, and one too many, are refused.\<close>

theorem registry_dispatches:
  assumes once: "registered_once registry"
  shows "(timer_register h registry = None \<longleftrightarrow> Some h \<in> set registry \<or> None \<notin> set registry) \<and>
    (\<forall>registry'. timer_register h registry = Some registry' \<longrightarrow>
      registered_once registry' \<and> length registry' = length registry \<and>
      dispatch_period_elapsed (\<lambda>_. True) h registry' = Some h \<and>
      dispatch_period_elapsed (\<lambda>_. True) h (timer_unregister h registry') = None \<and>
      (\<forall>g. g \<noteq> h \<longrightarrow> dispatch_period_elapsed (\<lambda>_. True) g registry' = dispatch_period_elapsed (\<lambda>_. True) g registry))"
proof (rule conjI)
  show "timer_register h registry = None \<longleftrightarrow> Some h \<in> set registry \<or> None \<notin> set registry"
  proof (cases "find_index (\<lambda>x. x = None) registry")
    case None
    then have "None \<notin> set registry" by (auto simp: find_index_None list_all_iff)
    then show ?thesis by (simp add: timer_register_def None)
  next
    case (Some i)
    then have "None \<in> set registry" by (auto simp: find_index_Some in_set_conv_nth)
    then show ?thesis by (simp add: timer_register_def Some)
  qed
  show "\<forall>registry'. timer_register h registry = Some registry' \<longrightarrow>
      registered_once registry' \<and> length registry' = length registry \<and>
      dispatch_period_elapsed (\<lambda>_. True) h registry' = Some h \<and>
      dispatch_period_elapsed (\<lambda>_. True) h (timer_unregister h registry') = None \<and>
      (\<forall>g. g \<noteq> h \<longrightarrow> dispatch_period_elapsed (\<lambda>_. True) g registry' = dispatch_period_elapsed (\<lambda>_. True) g registry)"
  proof (intro allI impI)
    fix registry'
    assume r: "timer_register h registry = Some registry'"
    then obtain i where "find_index (\<lambda>x. x = None) registry = Some i" and new: "Some h \<notin> set registry"
      and r': "registry' = registry[i := Some h]"
      by (auto simp: timer_register_def split: if_splits option.splits)
    then have i: "i < length registry" "registry ! i = None" by (simp_all add: find_index_Some)
    have "registry ! j \<noteq> Some h" if "j < length registry" for j using new that by (metis nth_mem)
    with once i have once': "registered_once registry'"
      by (auto simp: registered_once_def r' nth_list_update) blast
    moreover have "Some h \<in> set registry'" unfolding r' by (rule set_update_memI [OF i(1)])
    moreover have "Some g \<in> set registry' \<longleftrightarrow> Some g \<in> set registry" if "g \<noteq> h" for g
      using i that by (auto simp: r' in_set_conv_nth nth_list_update) (metis option.distinct(1))
    ultimately show "registered_once registry' \<and> length registry' = length registry \<and>
      dispatch_period_elapsed (\<lambda>_. True) h registry' = Some h \<and>
      dispatch_period_elapsed (\<lambda>_. True) h (timer_unregister h registry') = None \<and>
      (\<forall>g. g \<noteq> h \<longrightarrow> dispatch_period_elapsed (\<lambda>_. True) g registry' = dispatch_period_elapsed (\<lambda>_. True) g registry)"
      using unregister_gone [OF once', of h] by (simp add: dispatch_exact r')
  qed
qed


text \<open>Doubling the bus clock does not wrap; it is cut to the largest frequency.\<close>

lemma timer2_input_frequency_exact:
  "unat (timer2_input_frequency_hz divided pclk1) = min ((if divided then 2 else 1) * unat pclk1) (2 ^ 32 - 1)"
proof -
  let ?f = "(if divided then ucast pclk1 * 2 else ucast pclk1) :: u64"
  have p: "unat pclk1 < 2 ^ 32" using unsigned_less [of pclk1, where ?'a = nat] by simp
  then have "unat ((ucast pclk1 :: u64) * 2) = unat pclk1 * 2" by (subst unat_mult_small) (simp_all add: unat_ucast_32_64)
  then have f: "unat ?f = (if divided then 2 else 1) * unat pclk1" by (simp add: unat_ucast_32_64)
  have m: "unat (min ?f 0xFFFFFFFF) = min (unat ?f) 0xFFFFFFFF" by (simp add: min_def word_le_nat_alt)
  have "unat (ucast (min ?f 0xFFFFFFFF) :: u32) = unat (min ?f 0xFFFFFFFF) mod 2 ^ 32" by (simp add: unsigned_ucast_eq take_bit_eq_mod)
  also have "\<dots> = min (unat ?f) 0xFFFFFFFF" unfolding m by (intro mod_less) (simp add: min_def)
  finally show ?thesis by (simp add: timer2_input_frequency_hz_def Let_def f)
qed

section \<open>Examples\<close>

text \<open>Registers as a record: the HAL succeeds, and a base stop with interrupts is never refused.\<close>

definition registers :: "tim_view tim_hal" where
  "registers = \<lparr>t_running = v_running, t_update_interrupt = v_update_interrupt, t_update_flag = v_update_flag,
     t_irq_enabled = v_irq_enabled, t_irq_pending = v_irq_pending, t_counter = v_counter, t_auto_reload = v_auto_reload,
     t_prescaler = v_prescaler, t_base_start = (\<lambda>v. (True, settle (v\<lparr>v_running := True\<rparr>))),
     t_base_start_it = (\<lambda>v. (True, settle (v\<lparr>v_running := True, v_update_interrupt := True\<rparr>))),
     t_base_stop = (\<lambda>v. (True, settle (v\<lparr>v_running := False\<rparr>))),
     t_base_stop_it = (\<lambda>v. (True, settle (v\<lparr>v_running := False, v_update_interrupt := False\<rparr>))),
     t_set_update_interrupt = (\<lambda>b v. settle (v\<lparr>v_update_interrupt := b\<rparr>)),
     t_clear_update_flag = (\<lambda>v. settle (v\<lparr>v_update_flag := False\<rparr>)),
     t_irq_enable = (\<lambda>b v. settle (v\<lparr>v_irq_enabled := b\<rparr>)),
     t_irq_clear_pending = (\<lambda>v. settle (v\<lparr>v_irq_pending := False\<rparr>)), t_irq_set_priority = (\<lambda>_ v. v),
     t_set_counter = (\<lambda>n v. settle (v\<lparr>v_counter := n\<rparr>)), t_set_auto_reload = (\<lambda>n v. settle (v\<lparr>v_auto_reload := n\<rparr>)),
     t_set_prescaler = (\<lambda>n v. settle (v\<lparr>v_prescaler := n\<rparr>)),
     t_generate_update = (\<lambda>v. settle (v\<lparr>v_counter := 0, v_update_flag := True\<rparr>))\<rparr>"

lemma registers_view: "view registers v = v"
  by (simp add: view_def registers_def del: observed)

lemma registers_law: "tim_law registers"
  unfolding tim_law_def registers_view by (simp add: registers_def)

definition running_timer :: "tim_view board_timer" where
  "running_timer = \<lparr>bt_input_hz = 240000000, bt_version = 3, bt_callback = True,
     bt_hw = \<lparr>v_running = True, v_update_interrupt = True, v_update_flag = False, v_irq_enabled = True, v_irq_pending = False,
       v_counter = 77, v_auto_reload = 999, v_prescaler = 239\<rparr>\<rparr>"

lemma running_timer_settled: "settle (view registers (bt_hw running_timer)) = view registers (bt_hw running_timer)"
  by (simp add: registers_view running_timer_def settle_def)

lemma set_prescaler_transparent_witness:
  "v_counter (bt_hw (bt_set_prescaler registers 0x12345 running_timer)) = 77 \<and>
   v_prescaler (bt_hw (bt_set_prescaler registers 0x12345 running_timer)) = 0xFFFF \<and>
   \<not> v_update_flag (bt_hw (bt_set_prescaler registers 0x12345 running_timer))"
  using set_prescaler_transparent [OF registers_law running_timer_settled, of "0x12345"]
  by (simp add: registers_view) (simp add: running_timer_def)

lemma start_stop_exact_witness:
  "\<not> v_irq_pending (bt_hw (snd (bt_stop registers running_timer)))"
proof -
  obtain r1 t1 where 1: "bt_start registers running_timer = (r1, t1)" by fastforce
  obtain r2 t2 where 2: "bt_stop registers running_timer = (r2, t2)" by fastforce
  obtain r3 t3 where 3: "bt_start_it registers running_timer = (r3, t3)" by fastforce
  have "r2 = Done ()" using 2 by (auto simp: bt_stop_def attempt_def registers_def Let_def)
  then show ?thesis
    using start_stop_exact [OF registers_law running_timer_settled 1 2 3] 2 by (simp add: registers_view)
qed

lemma registry_dispatches_witness:
  "\<exists>registry'. timer_register 7 [Some 5, None, None, None] = Some registry' \<and>
     dispatch_period_elapsed (\<lambda>_. True) 7 registry' = Some 7"
proof -
  have "registered_once [Some 5, None, None, None]"
    by (auto simp: registered_once_def less_Suc_eq)
  from registry_dispatches [OF this, of 7] show ?thesis by (auto simp: timer_register_def)
qed

end
