(* ===== verification/Hosted_Storage.thy ===== *)
theory Hosted_Storage
  imports Storage
begin

unbundle bit_operations_syntax

text \<open>
  The hosted build of the storage media (\<open>platform/runtime/libc/storage_media.cpp\<close>, the branches for Linux): the flash
  and the SD card are image files, read and written through \<open>stdio\<close>. The contents of a file are a list of bytes; a list
  of faults says of each call of \<open>stdio\<close> whether it fails, and after how many bytes. What is written can be read back
  from the stream at once, whether or not it was flushed.
\<close>

section \<open>Image files\<close>

text \<open>\<open>contents\<close>: the file, if it exists; \<open>stream\<close>: the position of the open stream, \<open>None\<close> for the null pointer.\<close>

record image =
  contents :: "u8 list option"
  stream :: "nat option"
  faults :: "nat option list"

definition fault :: "image \<Rightarrow> nat option" where
  "fault f = (case faults f of [] \<Rightarrow> None | x # _ \<Rightarrow> x)"

definition after_call :: "image \<Rightarrow> image" where
  "after_call f = f\<lparr>faults := tl (faults f)\<rparr>"

definition bytes_of :: "image \<Rightarrow> u8 list" where
  "bytes_of f = (case contents f of None \<Rightarrow> [] | Some c \<Rightarrow> c)"

definition position_of :: "image \<Rightarrow> nat" where
  "position_of f = (case stream f of None \<Rightarrow> 0 | Some p \<Rightarrow> p)"

definition patch :: "nat \<Rightarrow> u8 list \<Rightarrow> u8 list \<Rightarrow> u8 list" where
  "patch p bs c = (if bs = [] then c else take p (c @ replicate (p - length c) 0) @ bs @ drop (p + length bs) c)"

definition c_fseek :: "nat \<Rightarrow> image \<Rightarrow> bool \<times> image" where
  "c_fseek p f = (if fault f \<noteq> None then (False, after_call f) else (True, (after_call f)\<lparr>stream := Some p\<rparr>))"

definition c_fread :: "nat \<Rightarrow> image \<Rightarrow> u8 list \<times> image" where
  "c_fread n f =
     (let available = take n (drop (position_of f) (bytes_of f));
          got = (case fault f of None \<Rightarrow> available | Some k \<Rightarrow> take (min k (n - 1)) available)
      in (got, (after_call f)\<lparr>stream := Some (position_of f + length got)\<rparr>))"

definition c_fwrite :: "u8 list \<Rightarrow> image \<Rightarrow> nat \<times> image" where
  "c_fwrite bs f =
     (let n = (case fault f of None \<Rightarrow> length bs | Some k \<Rightarrow> min k (length bs - 1))
      in (n, (after_call f)\<lparr>contents := Some (patch (position_of f) (take n bs) (bytes_of f)), stream := Some (position_of f + n)\<rparr>))"

definition c_fflush :: "image \<Rightarrow> bool \<times> image" where
  "c_fflush f = (fault f = None, after_call f)"

text \<open>\<open>fopen\<close> with \<open>"r+b"\<close> and with \<open>"w+b"\<close>.\<close>

definition c_fopen_existing :: "image \<Rightarrow> image" where
  "c_fopen_existing f = (after_call f)\<lparr>stream := if contents f = None \<or> fault f \<noteq> None then None else Some 0\<rparr>"

definition c_fopen_new :: "image \<Rightarrow> image" where
  "c_fopen_new f =
     (if fault f \<noteq> None then (after_call f)\<lparr>stream := None\<rparr> else (after_call f)\<lparr>contents := Some [], stream := Some 0\<rparr>)"

definition file_read :: "nat \<Rightarrow> nat \<Rightarrow> image \<Rightarrow> (bool \<times> u8 list) \<times> image" where
  "file_read offset bytes f =
     (if stream f = None then ((False, []), f)
      else
        let (ok, f1) = c_fseek offset f
        in if \<not> ok then ((False, []), f1)
           else let (got, f2) = c_fread bytes f1 in ((length got = bytes, got), f2))"

definition file_write :: "nat \<Rightarrow> u8 list \<Rightarrow> image \<Rightarrow> bool \<times> image" where
  "file_write offset source f =
     (if stream f = None then (False, f)
      else
        let (ok, f1) = c_fseek offset f
        in if \<not> ok then (False, f1)
           else
             let (n, f2) = c_fwrite source f1
             in if n \<noteq> length source then (False, f2) else c_fflush f2)"

text \<open>A new image is filled block by block.\<close>

function fill_image :: "u8 \<Rightarrow> nat \<Rightarrow> image \<Rightarrow> bool \<times> image" where
  "fill_image fill remaining f =
     (if remaining = 0 then (True, f)
      else
        let count = min (unat erase_block_bytes) remaining;
            (n, f1) = c_fwrite (replicate count fill) f
        in if n \<noteq> count then (False, f1) else fill_image fill (remaining - count) f1)"
  by pat_completeness auto

termination fill_image
  by (relation "measure (\<lambda>(fill, remaining, f). remaining)") (auto simp: erase_block_bytes_def)

declare fill_image.simps [simp del]

text \<open>The result, whether the image was created, and the file. \<open>path\<close> is what \<open>snprintf\<close> makes of the kind of image.\<close>

definition open_image :: "string \<Rightarrow> nat \<Rightarrow> u8 \<Rightarrow> image \<Rightarrow> (bool \<times> bool) \<times> image" where
  "open_image path bytes fill f =
     (if length path = 0 \<or> length path \<ge> 128 then ((False, False), f)
      else
        let f1 = c_fopen_existing f;
            created = (stream f1 = None);
            f2 = (if created then c_fopen_new f1 else f1)
        in if stream f2 = None then ((False, created), f2)
           else if created then
             let (ok, f3) = fill_image fill bytes f2
             in if \<not> ok then ((False, created), f3)
                else let (ok, f4) = c_fflush f3 in ((ok, created), f4)
           else ((True, created), f2))"

section \<open>The flash\<close>

definition host_qspi_read :: "nat \<Rightarrow> nat \<Rightarrow> image \<Rightarrow> (bool \<times> u8 list) \<times> image" where
  "host_qspi_read offset bytes f =
     (if offset \<le> unat flash_bytes \<and> bytes \<le> unat flash_bytes - offset then file_read offset bytes f else ((False, []), f))"

text \<open>A chunk is refused when one of its bytes has a bit set that is cleared in the flash.\<close>

function write_chunks :: "nat \<Rightarrow> u8 list \<Rightarrow> image \<Rightarrow> bool \<times> image" where
  "write_chunks offset input f =
     (if input = [] then (True, f)
      else
        let count = min (length input) 256;
            ((ok, current), f1) = file_read offset count f
        in if \<not> ok then (False, f1)
           else if list_ex (\<lambda>(c, i). c AND i \<noteq> i) (zip current (take count input)) then (False, f1)
           else
             let (ok, f2) = file_write offset (take count input) f1
             in if \<not> ok then (False, f2) else write_chunks (offset + count) (drop count input) f2)"
  by pat_completeness auto

termination write_chunks
  by (relation "measure (\<lambda>(offset, input, f). length input)") auto

declare write_chunks.simps [simp del]

definition host_qspi_write :: "nat \<Rightarrow> u8 list \<Rightarrow> image \<Rightarrow> bool \<times> image" where
  "host_qspi_write offset source f =
     (if offset > unat flash_bytes \<or> length source > unat flash_bytes - offset then (False, f)
      else write_chunks offset source f)"

definition host_qspi_erase :: "nat \<Rightarrow> image \<Rightarrow> bool \<times> image" where
  "host_qspi_erase offset f =
     (if offset < unat flash_bytes \<and> offset mod unat erase_block_bytes = 0
      then file_write offset (replicate (unat erase_block_bytes) 0xFF) f else (False, f))"

text \<open>The driver LevelX calls, on the image.\<close>

definition host_nor_erase :: "u32 \<Rightarrow> image \<Rightarrow> bool \<times> image" where
  "host_nor_erase block f =
     (if block < flash_blocks then host_qspi_erase (unat block * unat erase_block_bytes) f else (False, f))"

function verify_from :: "u32 \<Rightarrow> nat \<Rightarrow> image \<Rightarrow> bool \<times> image" where
  "verify_from block offset f =
     (if offset \<ge> unat erase_block_bytes then (True, f)
      else
        let ((ok, data), f1) = host_qspi_read (unat block * unat erase_block_bytes + offset) sector_size f
        in if \<not> ok \<or> \<not> list_all (\<lambda>b. b = 0xFF) data then (False, f1)
           else verify_from block (offset + sector_size) f1)"
  by pat_completeness auto

termination verify_from
  by (relation "measure (\<lambda>(block, offset, f). unat erase_block_bytes - offset)") (auto simp: sector_size_def)

declare verify_from.simps [simp del]

definition host_nor_verify :: "u32 \<Rightarrow> image \<Rightarrow> bool \<times> image" where
  "host_nor_verify block f = (if block \<ge> flash_blocks then (False, f) else verify_from block 0 f)"

section \<open>The SD card\<close>

definition host_sd_read :: "u32 \<Rightarrow> u32 \<Rightarrow> u32 \<Rightarrow> image \<Rightarrow> (bool \<times> u8 list) \<times> image" where
  "host_sd_read device_sectors sector n f =
     (if sector + n \<le> device_sectors then file_read (unat sector * sector_size) (unat n * sector_size) f else ((False, []), f))"

definition host_sd_write :: "u32 \<Rightarrow> u32 \<Rightarrow> u32 \<Rightarrow> u8 list \<Rightarrow> image \<Rightarrow> bool \<times> image" where
  "host_sd_write device_sectors sector n source f =
     (if sector + n \<le> device_sectors then file_write (unat sector * sector_size) (take (unat n * sector_size) source) f
      else (False, f))"

record host_sd =
  sd_image :: image
  device_sectors :: u32
  host_sd_blocks :: u32
  host_sd_status :: fx_status
  host_sd_mounted :: bool
  host_sd_diagnosed :: bool

definition linux_sd_sectors :: u32 where
  "linux_sd_sectors = 128 * 1024"

text \<open>FileX formats and opens the card, through the driver, as \<open>format\<close> and \<open>mount\<close> say.\<close>

definition host_initialize_sd ::
    "(host_sd \<Rightarrow> fx_status \<times> host_sd) \<Rightarrow> (host_sd \<Rightarrow> fx_status \<times> host_sd) \<Rightarrow> string \<Rightarrow> host_sd \<Rightarrow> bool \<times> host_sd" where
  "host_initialize_sd format mount path s =
     (let ((ok, created), f) = open_image path (unat linux_sd_sectors * sector_size) 0 (sd_image s);
          s1 = s\<lparr>sd_image := f\<rparr>
      in if \<not> ok then (False, s1)
         else
           let s2 = s1\<lparr>device_sectors := linux_sd_sectors, host_sd_blocks := linux_sd_sectors\<rparr>;
               (formatted, s3) = (if created then format s2 else (FX_SUCCESS, s2))
           in if formatted \<noteq> FX_SUCCESS then (False, s3\<lparr>host_sd_status := formatted\<rparr>)
              else
                let (status, s4) = mount s3;
                    mounted = (status = FX_SUCCESS)
                in (mounted, s4\<lparr>host_sd_status := status, host_sd_mounted := mounted, host_sd_diagnosed := mounted\<rparr>))"

section \<open>What stdio does to the contents\<close>

lemma call_simps [simp]:
  "contents (after_call f) = contents f" "stream (after_call f) = stream f" "faults (after_call f) = tl (faults f)"
  "bytes_of (after_call f) = bytes_of f" "position_of (after_call f) = position_of f"
  "bytes_of (f\<lparr>stream := p\<rparr>) = bytes_of f" "bytes_of (f\<lparr>contents := Some c\<rparr>) = c"
  "bytes_of (f\<lparr>contents := Some c, stream := p\<rparr>) = c" "position_of (f\<lparr>stream := Some n\<rparr>) = n"
  by (simp_all add: after_call_def bytes_of_def position_of_def)

lemma length_patch: "p + length bs \<le> length c \<Longrightarrow> length (patch p bs c) = length c"
  by (simp add: patch_def)

lemma patch_inside: "p + length bs \<le> length c \<Longrightarrow> patch p bs c = take p c @ bs @ drop (p + length bs) c"
  by (simp add: patch_def)

lemma nth_patch:
  "p + length bs \<le> length c \<Longrightarrow> i < length c \<Longrightarrow>
   patch p bs c ! i = (if p \<le> i \<and> i < p + length bs then bs ! (i - p) else c ! i)"
  by (auto simp: patch_inside nth_append min_absorb2)

lemma patch_append:
  assumes "p + length (xs @ ys) \<le> length c"
  shows "patch (p + length xs) ys (patch p xs c) = patch p (xs @ ys) c"
proof (rule nth_equalityI)
  have a: "p + length xs \<le> length c" "(p + length xs) + length ys \<le> length (patch p xs c)"
    using assms by (simp_all add: length_patch)
  then show "length (patch (p + length xs) ys (patch p xs c)) = length (patch p (xs @ ys) c)"
    using assms by (simp add: length_patch)
  fix i assume "i < length (patch (p + length xs) ys (patch p xs c))"
  then have i: "i < length (patch p xs c)" "i < length c" using a by (simp_all add: length_patch)
  show "patch (p + length xs) ys (patch p xs c) ! i = patch p (xs @ ys) c ! i"
    unfolding nth_patch [OF a(2) i(1)] nth_patch [OF a(1) i(2)] nth_patch [OF assms i(2)]
    by (auto simp: nth_append)
qed

lemma file_read_effect:
  assumes "file_read offset n f = ((ok, got), f')"
  shows "contents f' = contents f" "bytes_of f' = bytes_of f"
    and "ok \<Longrightarrow> got = take n (drop offset (bytes_of f)) \<and> length got = n \<and> stream f' \<noteq> None"
    and "faults f = [] \<Longrightarrow> faults f' = []"
    and "faults f = [] \<Longrightarrow> ok \<longleftrightarrow> stream f \<noteq> None \<and> (n = 0 \<or> offset + n \<le> length (bytes_of f))"
  using assms
  by (auto simp: file_read_def c_fseek_def c_fread_def Let_def fault_def split: if_splits option.splits list.splits)

text \<open>A write leaves a prefix of the source in the file, all of it if it succeeds.\<close>

lemma file_write_effect:
  assumes "file_write offset source f = (ok, f')"
  shows "\<exists>n \<le> length source. bytes_of f' = patch offset (take n source) (bytes_of f) \<and> (ok \<longrightarrow> n = length source \<and> stream f' \<noteq> None)"
    and "faults f = [] \<Longrightarrow> faults f' = []"
    and "faults f = [] \<Longrightarrow> ok \<longleftrightarrow> stream f \<noteq> None"
proof -
  have z: "patch p (take 0 bs) c = c" for p and bs c :: "u8 list" by (simp add: patch_def)
  note d = file_write_def c_fseek_def c_fwrite_def c_fflush_def Let_def fault_def
  show "\<exists>n \<le> length source. bytes_of f' = patch offset (take n source) (bytes_of f) \<and> (ok \<longrightarrow> n = length source \<and> stream f' \<noteq> None)"
  proof (cases "stream f = None \<or> fault f \<noteq> None")
    case True
    then have "bytes_of f' = bytes_of f" "\<not> ok" using assms by (auto simp: file_write_def c_fseek_def Let_def split: if_splits)
    then show ?thesis by (intro exI [of _ 0]) (simp add: patch_def)
  next
    case False
    let ?f1 = "(after_call f)\<lparr>stream := Some offset\<rparr>"
    let ?n = "case fault ?f1 of None \<Rightarrow> length source | Some k \<Rightarrow> min k (length source - 1)"
    have n: "?n \<le> length source" by (auto split: option.splits)
    have "bytes_of f' = patch offset (take ?n source) (bytes_of f) \<and> (ok \<longrightarrow> ?n = length source \<and> stream f' \<noteq> None)"
      using False assms by (auto simp: file_write_def c_fseek_def c_fwrite_def c_fflush_def Let_def split: if_splits)
    with n show ?thesis by blast
  qed
  show "faults f = [] \<Longrightarrow> faults f' = []" "faults f = [] \<Longrightarrow> ok \<longleftrightarrow> stream f \<noteq> None"
    using assms by (auto simp: d split: if_splits option.splits list.splits)
qed

end
