(* ===== verification/Hosted_Storage_Properties.thy ===== *)
theory Hosted_Storage_Properties
  imports Hosted_Storage
begin

unbundle bit_operations_syntax

text \<open>
  The image of the flash behaves as a flash does: a write only clears bits, also when it fails half-way; a successful
  write puts its data in place and touches nothing else; erasing sets a block, and only that, to ones. The image of
  the card reads back what was written.
\<close>

section \<open>Writes\<close>

definition cleared :: "u8 list \<Rightarrow> u8 list \<Rightarrow> bool" where
  "cleared c c' \<longleftrightarrow> length c' = length c \<and> (\<forall>i < length c. c' ! i AND c ! i = c' ! i)"

lemma cleared_refl: "cleared c c"
  by (simp add: cleared_def)

lemma cleared_trans:
  assumes "cleared a b" and "cleared b c"
  shows "cleared a c"
proof -
  have "c ! i AND a ! i = c ! i" if "i < length a" for i
  proof -
    have "c ! i AND b ! i = c ! i" "b ! i AND a ! i = b ! i" using assms that by (simp_all add: cleared_def)
    then show ?thesis by (metis and.assoc)
  qed
  then show ?thesis using assms by (simp add: cleared_def)
qed

lemma cleared_patch:
  assumes "p + length bs \<le> length c" and "\<And>j. j < length bs \<Longrightarrow> bs ! j AND c ! (p + j) = bs ! j"
  shows "cleared c (patch p bs c)"
  unfolding cleared_def length_patch [OF assms(1)]
proof (intro conjI refl allI impI)
  fix i assume i: "i < length c"
  show "patch p bs c ! i AND c ! i = patch p bs c ! i"
    using assms(2) [of "i - p"] by (auto simp: nth_patch [OF assms(1) i])
qed

text \<open>One chunk: what the comparison lets through clears bits only.\<close>

lemma chunk_fits:
  assumes fits: "\<not> list_ex (\<lambda>(c, i). c AND i \<noteq> i) (zip (take (length bs) (drop p c)) bs)"
    and inside: "p + length bs \<le> length c"
  shows "cleared c (patch p (take m bs) c)"
proof (rule cleared_patch)
  show "p + length (take m bs) \<le> length c" using inside by simp
  fix j assume "j < length (take m bs)"
  then have j: "j < m" "j < length bs" by simp_all
  then have "c ! (p + j) AND bs ! j = bs ! j" using fits inside by (auto simp: list_ex_length)
  then show "take m bs ! j AND c ! (p + j) = take m bs ! j" using j by (simp add: and.commute)
qed

lemma taken_inside: "length (take n (drop p c)) = n \<Longrightarrow> 0 < n \<Longrightarrow> p + n \<le> length c"
  by auto

lemma write_chunks_step:
  assumes "input \<noteq> []" and "file_read offset (min (length input) 256) f = ((k, current), f1)"
    and "file_write offset (take (min (length input) 256) input) f1 = (w, f2)"
  shows "write_chunks offset input f =
    (if \<not> k then (False, f1)
     else if list_ex (\<lambda>(c, i). c AND i \<noteq> i) (zip current (take (min (length input) 256) input)) then (False, f1)
     else if \<not> w then (False, f2)
     else write_chunks (offset + min (length input) 256) (drop (min (length input) 256) input) f2)"
  by (subst write_chunks.simps) (simp only: Let_def assms prod.case if_False)

lemma write_chunks_clears: "write_chunks offset input f = (ok, f') \<Longrightarrow> cleared (bytes_of f) (bytes_of f')"
proof (induction offset input f rule: write_chunks.induct)
  case (1 offset input f)
  show ?case
  proof (cases "input = []")
    case True
    then show ?thesis using 1(2) by (subst (asm) write_chunks.simps) (simp add: cleared_refl)
  next
    case False
    let ?n = "min (length input) 256" and ?bs = "take (min (length input) 256) input"
    obtain k current f1 where r: "file_read offset ?n f = ((k, current), f1)" by (metis surj_pair)
    obtain w f2 where w: "file_write offset ?bs f1 = (w, f2)" by fastforce
    note fr = file_read_effect [OF r]
    have e: "(ok, f') = (if \<not> k then (False, f1) else if list_ex (\<lambda>(c, i). c AND i \<noteq> i) (zip current ?bs) then (False, f1)
        else if \<not> w then (False, f2) else write_chunks (offset + ?n) (drop ?n input) f2)"
      using 1(2) write_chunks_step [OF False r w] by (simp only:)
    show ?thesis
    proof (cases "k \<and> \<not> list_ex (\<lambda>(c, i). c AND i \<noteq> i) (zip current ?bs)")
      case F: False
      then have "f' = f1" using e by (auto split: if_splits)
      then show ?thesis by (simp add: fr(2) cleared_refl)
    next
      case T: True
      have l: "length ?bs = ?n" by simp
      have c: "current = take (length ?bs) (drop offset (bytes_of f))" and n: "length current = ?n"
        unfolding l using fr(3) T by blast+
      have "0 < ?n" using False by simp
      with c n l have "offset + length ?bs \<le> length (bytes_of f)" by (metis taken_inside)
      from chunk_fits [OF _ this] T c have fits: "cleared (bytes_of f) (patch offset (take m ?bs) (bytes_of f))" for m by blast
      obtain m where "bytes_of f2 = patch offset (take m ?bs) (bytes_of f1)" using file_write_effect(1) [OF w] by blast
      then have two: "cleared (bytes_of f) (bytes_of f2)" using fits [of m] by (simp only: fr(2))
      show ?thesis
      proof (cases w)
        case True
        then have "write_chunks (offset + ?n) (drop ?n input) f2 = (ok, f')" using e T by simp
        then have "cleared (bytes_of f2) (bytes_of f')" using "1.IH" [OF False refl refl r [symmetric] refl _ _ refl w [symmetric]] T True by simp
        with two show ?thesis by (rule cleared_trans)
      next
        case False
        then show ?thesis using e T two by simp
      qed
    qed
  qed
qed

lemma write_chunks_data:
  "write_chunks offset input f = (True, f') \<Longrightarrow> input = [] \<or> offset + length input \<le> length (bytes_of f) \<and>
     bytes_of f' = patch offset input (bytes_of f)"
proof (induction offset input f rule: write_chunks.induct)
  case (1 offset input f)
  show ?case
  proof (cases "input = []")
    case False
    let ?n = "min (length input) 256" and ?bs = "take (min (length input) 256) input"
    obtain k current f1 where r: "file_read offset ?n f = ((k, current), f1)" by (metis surj_pair)
    obtain w f2 where w: "file_write offset ?bs f1 = (w, f2)" by fastforce
    note fr = file_read_effect [OF r]
    have e: "(True, f') = (if \<not> k then (False, f1) else if list_ex (\<lambda>(c, i). c AND i \<noteq> i) (zip current ?bs) then (False, f1)
        else if \<not> w then (False, f2) else write_chunks (offset + ?n) (drop ?n input) f2)"
      using 1(2) write_chunks_step [OF False r w] by (simp only:)
    then have T: "k" "\<not> list_ex (\<lambda>(c, i). c AND i \<noteq> i) (zip current ?bs)" "w"
      and rest: "write_chunks (offset + ?n) (drop ?n input) f2 = (True, f')"
      by (auto split: if_splits)
    have c: "current = take ?n (drop offset (bytes_of f))" "length current = ?n" using fr(3) T by blast+
    have "0 < ?n" using False by simp
    with c have "offset + ?n \<le> length (bytes_of f)" by (metis taken_inside)
    then have inside: "offset + length ?bs \<le> length (bytes_of f)" by simp
    have two: "bytes_of f2 = patch offset ?bs (bytes_of f)" using file_write_effect(1) [OF w] T fr(2) by auto
    have ih: "drop ?n input = [] \<or> offset + ?n + length (drop ?n input) \<le> length (bytes_of f2) \<and>
        bytes_of f' = patch (offset + ?n) (drop ?n input) (bytes_of f2)"
      using "1.IH" [OF False refl refl r [symmetric] refl _ _ refl w [symmetric] _ rest] T by simp
    show ?thesis
    proof (cases "drop ?n input = []")
      case True
      then have "?bs = input" by simp
      moreover have "f' = f2" using rest unfolding True by (subst (asm) write_chunks.simps) simp
      ultimately show ?thesis using inside two by simp
    next
      case D: False
      then have l: "length input > 256" "length ?bs = ?n" by simp_all
      have whole: "offset + length (?bs @ drop ?n input) \<le> length (bytes_of f)"
        using ih D two inside by (simp add: length_patch)
      from patch_append [OF this] ih D two l have "bytes_of f' = patch offset input (bytes_of f)" by simp
      then show ?thesis using whole by simp
    qed
  qed simp
qed

text \<open>A write that the flash can take and that meets no fault succeeds.\<close>

lemma write_chunks_accepts:
  "faults f = [] \<Longrightarrow> stream f \<noteq> None \<Longrightarrow> offset + length input \<le> length (bytes_of f) \<Longrightarrow>
   (\<forall>j < length input. bytes_of f ! (offset + j) AND input ! j = input ! j) \<Longrightarrow> fst (write_chunks offset input f)"
proof (induction offset input f rule: write_chunks.induct)
  case (1 offset input f)
  show ?case
  proof (cases "input = []")
    case True
    then show ?thesis by (subst write_chunks.simps) simp
  next
    case False
    let ?n = "min (length input) 256" and ?bs = "take (min (length input) 256) input"
    obtain k current f1 where r: "file_read offset ?n f = ((k, current), f1)" by (metis surj_pair)
    obtain w f2 where w: "file_write offset ?bs f1 = (w, f2)" by fastforce
    note fr = file_read_effect [OF r]
    have fit: "offset + ?n \<le> length (bytes_of f)" by (rule order_trans [OF _ 1(4)]) simp
    have k: k using fr(5) 1(2,3) fit by simp
    then have s: "stream f1 \<noteq> None" "current = take ?n (drop offset (bytes_of f))" using fr(3) by simp_all
    have f1: "faults f1 = []" using fr(4) 1(2) by simp
    have w': w "faults f2 = []" using file_write_effect(2,3) [OF w f1] s by simp_all
    have inside: "offset + length ?bs \<le> length (bytes_of f)" using 1(4) by simp
    have two: "bytes_of f2 = patch offset ?bs (bytes_of f)" "stream f2 \<noteq> None" using file_write_effect(1) [OF w] w' fr(2) by auto
    have fits: "\<not> list_ex (\<lambda>(c, i). c AND i \<noteq> i) (zip current ?bs)"
      using 1(4,5) by (auto simp: s(2) list_ex_length)
    have e: "write_chunks offset input f = write_chunks (offset + ?n) (drop ?n input) f2"
      using k w' fits write_chunks_step [OF False r w] by (simp only: if_False if_True not_True_eq_False)
    have l: "length (bytes_of f2) = length (bytes_of f)" using two length_patch [OF inside] by simp
    have "fst (write_chunks (offset + ?n) (drop ?n input) f2)"
    proof (rule "1.IH" [OF False refl refl r [symmetric] refl _ _ refl w [symmetric]])
      show "\<not> \<not> k" "\<not> list_ex (\<lambda>(c, i). c AND i \<noteq> i) (zip current ?bs)" "\<not> \<not> w" "faults f2 = []" "stream f2 \<noteq> None"
        using k fits w' two by simp_all
      show "offset + ?n + length (drop ?n input) \<le> length (bytes_of f2)" using 1(4) l by simp
      show "\<forall>j < length (drop ?n input). bytes_of f2 ! (offset + ?n + j) AND drop ?n input ! j = drop ?n input ! j"
      proof (intro allI impI)
        fix j assume j: "j < length (drop ?n input)"
        then have i: "offset + ?n + j < length (bytes_of f)" "?n + j < length input" using 1(4) by simp_all
        have "bytes_of f2 ! (offset + ?n + j) = bytes_of f ! (offset + (?n + j))"
          unfolding two(1) nth_patch [OF inside i(1)] using j by (simp add: add.assoc)
        then show "bytes_of f2 ! (offset + ?n + j) AND drop ?n input ! j = drop ?n input ! j" using 1(5) i(2) by simp
      qed
    qed
    then show ?thesis by (simp only: e)
  qed
qed

section \<open>The flash\<close>

lemma flash_sizes: "unat flash_bytes = 16777216" "unat erase_block_bytes = 4096" "unat flash_blocks = 4096"
  by (simp_all add: flash_bytes_def erase_block_bytes_def flash_blocks_def unat_div)

lemma erase_effect:
  assumes l: "length (bytes_of f) = unat flash_bytes" and e: "host_nor_erase block f = (erased, f')"
  shows "erased \<Longrightarrow> i < unat flash_bytes \<Longrightarrow> bytes_of f' ! i = (if i div 4096 = unat block then 0xFF else bytes_of f ! i)"
    and "faults f = [] \<Longrightarrow> stream f \<noteq> None \<Longrightarrow> erased \<longleftrightarrow> block < flash_blocks"
proof -
  let ?p = "unat block * 4096" and ?ones = "replicate 4096 (0xFF :: u8)"
  have lt: "block < flash_blocks \<longleftrightarrow> unat block < 4096" by (simp add: word_less_nat_alt flash_sizes)
  have r: "(erased, f') = (if unat block < 4096 then file_write ?p ?ones f else (False, f))"
    using e by (auto simp: host_nor_erase_def host_qspi_erase_def lt flash_sizes split: if_splits)
  show "erased \<longleftrightarrow> block < flash_blocks" if "faults f = []" "stream f \<noteq> None"
    using r that file_write_effect(3) [of ?p ?ones f] unfolding lt by (metis fst_conv prod.collapse)
  assume erased and i: "i < unat flash_bytes"
  then have b: "unat block < 4096" and w: "file_write ?p ?ones f = (True, f')" using r by (auto split: if_splits)
  have inside: "?p + length ?ones \<le> length (bytes_of f)" using b l by (simp add: flash_sizes)
  have "bytes_of f' = patch ?p ?ones (bytes_of f)" using file_write_effect(1) [OF w] by auto
  moreover have "i div 4096 = unat block \<longleftrightarrow> ?p \<le> i \<and> i < ?p + 4096" by auto
  ultimately show "bytes_of f' ! i = (if i div 4096 = unat block then 0xFF else bytes_of f ! i)"
    using nth_patch [OF inside, of i] i l by auto
qed

lemma host_write_clears:
  assumes "host_qspi_write offset source f = (ok, f')"
  shows "cleared (bytes_of f) (bytes_of f')"
  using assms write_chunks_clears [of offset source f] by (auto simp: host_qspi_write_def cleared_refl split: if_splits)

lemma host_write_data:
  assumes "length (bytes_of f) = unat flash_bytes" and "host_qspi_write offset source f = (True, f')"
  shows "offset + length source \<le> unat flash_bytes \<and> bytes_of f' = patch offset source (bytes_of f)"
proof -
  have "offset \<le> unat flash_bytes" and w: "write_chunks offset source f = (True, f')"
    using assms(2) by (auto simp: host_qspi_write_def split: if_splits)
  then show ?thesis using write_chunks_data [OF w] assms(1)
    by (cases "source = []") (auto simp: patch_def write_chunks.simps)
qed

lemma erase_length: "host_nor_erase block f = (ok, f') \<Longrightarrow> length (bytes_of f) = unat flash_bytes \<Longrightarrow> length (bytes_of f') = unat flash_bytes"
proof -
  assume e: "host_nor_erase block f = (ok, f')" and l: "length (bytes_of f) = unat flash_bytes"
  let ?p = "unat block * 4096" and ?ones = "replicate 4096 (0xFF :: u8)"
  have r: "(ok, f') = (if unat block < 4096 then file_write ?p ?ones f else (False, f))"
    using e by (auto simp: host_nor_erase_def host_qspi_erase_def word_less_nat_alt flash_sizes split: if_splits)
  show ?thesis
  proof (cases "unat block < 4096")
    case True
    then have w: "file_write ?p ?ones f = (ok, f')" using r by simp
    obtain n where n: "bytes_of f' = patch ?p (take n ?ones) (bytes_of f)" using file_write_effect(1) [OF w] by blast
    have "?p + length (take n ?ones) \<le> length (bytes_of f)" using True l by (simp add: flash_sizes)
    then show ?thesis using n l by (simp only: length_patch)
  qed (use r l in simp)
qed

section \<open>What LevelX builds on\<close>

text \<open>
  The contract of a NOR flash: programming clears bits and, if it succeeds, leaves the data; erasing sets a block to ones.
  What is written piece after piece into such a flash can be read back in one.
\<close>

locale nor_flash =
  fixes bytes :: "'f \<Rightarrow> u8 list"
    and "program" :: "nat \<Rightarrow> u8 list \<Rightarrow> 'f \<Rightarrow> bool \<times> 'f"
    and erase :: "'b \<Rightarrow> 'f \<Rightarrow> bool \<times> 'f"
    and capacity block_size :: nat
    and number :: "'b \<Rightarrow> nat"
  assumes program_data: "length (bytes f) = capacity \<Longrightarrow> program p d f = (True, f') \<Longrightarrow>
      p + length d \<le> capacity \<and> bytes f' = patch p d (bytes f)"
    and program_clears: "program p d f = (ok, f') \<Longrightarrow> cleared (bytes f) (bytes f')"
    and erase_size: "erase b f = (ok, f') \<Longrightarrow> length (bytes f) = capacity \<Longrightarrow> length (bytes f') = capacity"
    and erased: "length (bytes f) = capacity \<Longrightarrow> erase b f = (True, f') \<Longrightarrow> i < capacity \<Longrightarrow>
      bytes f' ! i = (if i div block_size = number b then 0xFF else bytes f ! i)"
begin

fun append_log :: "nat \<Rightarrow> u8 list list \<Rightarrow> 'f \<Rightarrow> bool \<times> 'f" where
  "append_log p [] f = (True, f)"
| "append_log p (d # ds) f = (let (ok, f1) = program p d f in if \<not> ok then (False, f1) else append_log (p + length d) ds f1)"

lemma append_log_clears: "append_log p ds f = (ok, f') \<Longrightarrow> cleared (bytes f) (bytes f')"
proof (induction p ds f rule: append_log.induct)
  case (2 p d ds f)
  obtain k f1 where w: "program p d f = (k, f1)" by fastforce
  show ?case
  proof (cases k)
    case True
    then have "append_log (p + length d) ds f1 = (ok, f')" using 2(2) w by simp
    then have "cleared (bytes f1) (bytes f')" using "2.IH" [OF w [symmetric] refl] True by simp
    then show ?thesis by (rule cleared_trans [OF program_clears [OF w]])
  next
    case False
    then show ?thesis using 2(2) w program_clears [OF w] by simp
  qed
qed (simp add: cleared_refl)

lemma append_log_data:
  "length (bytes f) = capacity \<Longrightarrow> append_log p ds f = (True, f') \<Longrightarrow>
   (concat ds = [] \<or> p + length (concat ds) \<le> capacity) \<and> bytes f' = patch p (concat ds) (bytes f)"
proof (induction ds arbitrary: p f)
  case Nil
  then show ?case by (simp add: patch_def)
next
  case (Cons d ds)
  obtain k f1 where w: "program p d f = (k, f1)" by fastforce
  then have k: k and rest: "append_log (p + length d) ds f1 = (True, f')" using Cons.prems(2) by (auto split: if_splits)
  with w Cons.prems(1) have one: "p + length d \<le> capacity" "bytes f1 = patch p d (bytes f)" using program_data [of f p d f1] by auto
  then have l: "length (bytes f1) = capacity" using Cons.prems(1) by (simp add: length_patch)
  define cs where "cs = concat ds"
  have ih: "cs = [] \<or> (p + length d) + length cs \<le> capacity" "bytes f' = patch (p + length d) cs (bytes f1)"
    using Cons.IH [OF l rest] by (simp_all only: cs_def)
  have "p + length (d @ cs) \<le> length (bytes f)" using ih(1) one(1) Cons.prems(1) by auto
  then have "bytes f' = patch p (d @ cs) (bytes f)" "p + length (d @ cs) \<le> capacity"
    using ih(2) one(2) patch_append [of p d cs "bytes f"] Cons.prems(1) by simp_all
  then show ?case by (simp only: cs_def concat.simps simp_thms)
qed

text \<open>A block that is erased and then written from its start holds the log, and ones behind it.\<close>

lemma log_in_block:
  assumes l: "length (bytes f) = capacity" and e: "erase b f = (True, f1)"
    and w: "append_log (number b * block_size) ds f1 = (True, f2)" and fits: "length (concat ds) \<le> block_size"
    and i: "i < block_size" "number b * block_size + i < capacity"
  shows "bytes f2 ! (number b * block_size + i) = (if i < length (concat ds) then concat ds ! i else 0xFF)"
proof -
  let ?p = "number b * block_size"
  have l1: "length (bytes f1) = capacity" by (rule erase_size [OF e l])
  have "(?p + i) div block_size = number b" using i(1) by simp
  then have one: "bytes f1 ! (?p + i) = 0xFF" using erased [OF l e i(2)] by simp
  define cs where "cs = concat ds"
  have d: "cs = [] \<or> ?p + length cs \<le> capacity" "bytes f2 = patch ?p cs (bytes f1)"
    using append_log_data [OF l1 w] by (simp_all only: cs_def)
  have "bytes f2 ! (?p + i) = (if i < length cs then cs ! i else 0xFF)"
  proof (cases "cs = []")
    case True
    then show ?thesis using d one by (simp add: patch_def)
  next
    case False
    then have inside: "?p + length cs \<le> length (bytes f1)" using d l1 by simp
    have il: "?p + i < length (bytes f1)" using i(2) l1 by simp
    show ?thesis using one unfolding d(2) nth_patch [OF inside il] by simp
  qed
  then show ?thesis by (simp only: cs_def)
qed

end

interpretation hosted: nor_flash bytes_of host_qspi_write host_nor_erase "unat flash_bytes" 4096 unat
  by unfold_locales (use host_write_data host_write_clears erase_length erase_effect(1) in blast)+

text \<open>
  C36. The hosted flash keeps the rules of a NOR flash. Whatever fails, a write changes no byte but by clearing bits of
  it. If it succeeds, the data stands at its offset and every other byte is as before. On a faultless
  image it succeeds exactly when the data lies inside the flash and needs no bit set that is cleared. Erasing a block succeeds on
  a faultless image for every block there is; then its bytes are all ones and the others as before.\<close>

theorem hosted_flash_is_nor:
  assumes "length (bytes_of f) = unat flash_bytes" and "host_qspi_write offset source f = (ok, f')"
    and "host_nor_erase block f = (erased, f'')"
  shows "length (bytes_of f') = unat flash_bytes \<and> (\<forall>i < unat flash_bytes. bytes_of f' ! i AND bytes_of f ! i = bytes_of f' ! i) \<and>
    (ok \<longrightarrow> bytes_of f' = take offset (bytes_of f) @ source @ drop (offset + length source) (bytes_of f)) \<and>
    (faults f = [] \<and> stream f \<noteq> None \<longrightarrow> (ok \<longleftrightarrow> offset + length source \<le> unat flash_bytes \<and>
       (\<forall>j < length source. bytes_of f ! (offset + j) AND source ! j = source ! j))) \<and>
    (faults f = [] \<and> stream f \<noteq> None \<longrightarrow> (erased \<longleftrightarrow> block < flash_blocks)) \<and>
    (erased \<longrightarrow> (\<forall>i < unat flash_bytes. bytes_of f'' ! i =
       (if i div 4096 = unat block then 0xFF else bytes_of f ! i)))"
proof -
  note clears = host_write_clears [OF assms(2)]
  have data: "offset + length source \<le> length (bytes_of f) \<and> bytes_of f' = patch offset source (bytes_of f)" if ok
    using host_write_data [OF assms(1)] assms(1,2) that by simp
  have old: "bytes_of f ! (offset + j) AND source ! j = source ! j" if "ok" "j < length source" for j
  proof -
    from data that have "offset + j < length (bytes_of f)" "bytes_of f' ! (offset + j) = source ! j"
      by (auto simp: nth_patch)
    then show ?thesis using clears by (metis and.commute cleared_def)
  qed
  have ok: "ok \<longleftrightarrow> offset + length source \<le> unat flash_bytes \<and> (\<forall>j < length source. bytes_of f ! (offset + j) AND source ! j = source ! j)"
    if "faults f = []" "stream f \<noteq> None"
    using that data old assms(1,2) write_chunks_accepts [of f offset source]
    by (auto simp: host_qspi_write_def split: if_splits)
  have "\<forall>i < unat flash_bytes. bytes_of f' ! i AND bytes_of f ! i = bytes_of f' ! i" "length (bytes_of f') = unat flash_bytes"
    using clears assms(1) by (simp_all add: cleared_def)
  moreover have "ok \<longrightarrow> bytes_of f' = take offset (bytes_of f) @ source @ drop (offset + length source) (bytes_of f)"
    using data by (simp add: patch_inside)
  ultimately show ?thesis using ok erase_effect [OF assms(1,3)] by blast
qed

text \<open>
  A log written piece by piece into an erased block of the hosted flash is found there, with ones behind it.\<close>

theorem hosted_log_readable:
  assumes "length (bytes_of f) = unat flash_bytes" and "host_nor_erase block f = (True, f1)"
    and "hosted.append_log (unat block * 4096) ds f1 = (True, f2)" and "length (concat ds) \<le> 4096" and "i < 4096"
  shows "bytes_of f2 ! (unat block * 4096 + i) = (if i < length (concat ds) then concat ds ! i else 0xFF)"
proof (rule hosted.log_in_block [OF assms])
  have "block < flash_blocks" using assms(2) by (auto simp: host_nor_erase_def split: if_splits)
  then have "unat block < 4096" by (simp add: word_less_nat_alt flash_sizes)
  then show "unat block * 4096 + i < unat flash_bytes" using assms(5) by (simp add: flash_sizes)
qed

text \<open>The check of a block before it is used: on a faultless image it holds exactly of the erased ones.\<close>

lemma all_from: "(\<forall>j < n. P (p + j)) \<longleftrightarrow> (\<forall>i. p \<le> i \<and> i < p + n \<longrightarrow> P i)" for p n :: nat
proof
  assume a: "\<forall>j < n. P (p + j)"
  show "\<forall>i. p \<le> i \<and> i < p + n \<longrightarrow> P i"
  proof (intro allI impI)
    fix i assume "p \<le> i \<and> i < p + n"
    then have "i - p < n" "p + (i - p) = i" by auto
    with a show "P i" by metis
  qed
qed simp

lemma verify_from_exact:
  "faults f = [] \<Longrightarrow> stream f \<noteq> None \<Longrightarrow> length (bytes_of f) = unat flash_bytes \<Longrightarrow> unat block < 4096 \<Longrightarrow> offset mod 512 = 0 \<Longrightarrow>
   fst (verify_from block offset f) \<longleftrightarrow>
     (\<forall>i. unat block * 4096 + offset \<le> i \<and> i < unat block * 4096 + 4096 \<longrightarrow> bytes_of f ! i = 0xFF)"
proof (induction block offset f rule: verify_from.induct)
  case (1 block offset f)
  let ?p = "unat block * 4096 + offset"
  show ?case
  proof (cases "offset \<ge> 4096")
    case True
    then show ?thesis by (subst verify_from.simps) (auto simp: flash_sizes)
  next
    case False
    then have o: "offset + 512 \<le> 4096" using 1(6) by (auto elim!: dvdE simp: mod_eq_0_iff_dvd)
    then have inside: "?p + 512 \<le> length (bytes_of f)" using 1(4,5) by (simp add: flash_sizes)
    obtain k d f1 where r: "host_qspi_read (unat block * unat erase_block_bytes + offset) sector_size f = ((k, d), f1)" by (metis surj_pair)
    then have r': "file_read ?p 512 f = ((k, d), f1)"
      using inside 1(4) by (simp add: host_qspi_read_def flash_sizes sector_size_def split: if_splits)
    note fr = file_read_effect [OF r']
    have k: k "d = take 512 (drop ?p (bytes_of f))" "faults f1 = []" "stream f1 \<noteq> None" "bytes_of f1 = bytes_of f"
      using fr 1(2,3) inside by simp_all
    have d: "list_all (\<lambda>b. b = 0xFF) d \<longleftrightarrow> (\<forall>i. ?p \<le> i \<and> i < ?p + 512 \<longrightarrow> bytes_of f ! i = 0xFF)"
    proof -
      have "list_all (\<lambda>b. b = 0xFF) d \<longleftrightarrow> (\<forall>j < 512. bytes_of f ! (?p + j) = 0xFF)"
        using inside unfolding k(2) list_all_length by simp
      also have "\<dots> \<longleftrightarrow> (\<forall>i. ?p \<le> i \<and> i < ?p + 512 \<longrightarrow> bytes_of f ! i = 0xFF)"
        by (rule all_from)
      finally show ?thesis .
    qed
    have ih: "list_all (\<lambda>b. b = 0xFF) d \<Longrightarrow> fst (verify_from block (offset + sector_size) f1) \<longleftrightarrow>
        (\<forall>i. unat block * 4096 + (offset + sector_size) \<le> i \<and> i < unat block * 4096 + 4096 \<longrightarrow> bytes_of f1 ! i = 0xFF)"
    proof (rule "1.IH" [OF _ refl r [symmetric] refl])
      assume a: "list_all (\<lambda>b. b = 0xFF) d"
      show "\<not> unat erase_block_bytes \<le> offset" using False by (simp add: flash_sizes)
      show "\<not> (\<not> k \<or> \<not> list_all (\<lambda>b. b = 0xFF) d)" using a k by simp
      show "(offset + sector_size) mod 512 = 0" unfolding sector_size_def using 1(6) by (metis mod_add_self2)
      show "faults f1 = []" "stream f1 \<noteq> None" "unat block < 4096" by (fact k 1(5))+
      show "length (bytes_of f1) = unat flash_bytes" using k 1(4) by simp
    qed
    have split: "?p \<le> i \<and> i < unat block * 4096 + 4096 \<longleftrightarrow> ?p \<le> i \<and> i < ?p + 512 \<or> ?p + 512 \<le> i \<and> i < unat block * 4096 + 4096" for i
      using o by linarith
    have "fst (verify_from block offset f) \<longleftrightarrow> list_all (\<lambda>b. b = 0xFF) d \<and> fst (verify_from block (offset + sector_size) f1)"
      using False k(1) by (subst verify_from.simps) (simp add: flash_sizes r [unfolded flash_sizes])
    also have "\<dots> \<longleftrightarrow> (\<forall>i. ?p \<le> i \<and> i < unat block * 4096 + 4096 \<longrightarrow> bytes_of f ! i = 0xFF)"
      unfolding split using ih d k(5) by (auto simp: sector_size_def add.assoc)
    finally show ?thesis .
  qed
qed

section \<open>The card\<close>

text \<open>Sectors read back as they were written, and the other sectors are untouched, when the sector numbers do not wrap.\<close>

lemma sd_round_trip:
  assumes w: "host_sd_write device sector n source f = (True, f')" and "length source = unat n * sector_size"
    and "unat sector + unat n < 2 ^ 32" and "length (bytes_of f) = unat device * sector_size"
    and "faults f' = []" and "0 < unat n"
  shows "fst (host_sd_read device sector n f') = (True, source)"
    and "i < unat device * sector_size \<Longrightarrow> i div sector_size < unat sector \<or> unat sector + unat n \<le> i div sector_size \<Longrightarrow>
      bytes_of f' ! i = bytes_of f ! i"
proof -
  let ?p = "unat sector * sector_size"
  have le: "unat sector + unat n \<le> unat device" "sector + n \<le> device" and fw: "file_write ?p source f = (True, f')"
    using w assms(2,3) by (auto simp: host_sd_write_def word_le_nat_alt unat_add_small split: if_splits)
  have inside: "?p + length source \<le> length (bytes_of f)"
  proof -
    have "(unat sector + unat n) * sector_size \<le> unat device * sector_size" using le(1) by (rule mult_le_mono1)
    then show ?thesis using assms(2,4) by (simp add: distrib_right)
  qed
  have c: "bytes_of f' = patch ?p source (bytes_of f)" "stream f' \<noteq> None" using file_write_effect(1) [OF fw] by auto
  have l: "length (bytes_of f') = length (bytes_of f)" using c length_patch [OF inside] by simp
  obtain k d f2 where r: "file_read ?p (unat n * sector_size) f' = ((k, d), f2)" by (metis surj_pair)
  have "k" using file_read_effect(5) [OF r assms(5)] c(2) l inside assms(2) by simp
  moreover have "d = take (length source) (drop ?p (patch ?p source (bytes_of f)))"
    using file_read_effect(3) [OF r] \<open>k\<close> c assms(2) by simp
  then have "d = source" using inside by (simp add: patch_inside min_absorb2)
  ultimately show "fst (host_sd_read device sector n f') = (True, source)" using r le by (simp add: host_sd_read_def)
  assume i: "i < unat device * sector_size" and o: "i div sector_size < unat sector \<or> unat sector + unat n \<le> i div sector_size"
  have out: "\<not> (?p \<le> i \<and> i < ?p + length source)"
  proof
    assume a: "?p \<le> i \<and> i < ?p + length source"
    then have "unat sector \<le> i div sector_size" by (simp add: sector_size_def less_eq_div_iff_mult_less_eq)
    moreover have "i < (unat sector + unat n) * sector_size" using a assms(2) by (simp add: distrib_right)
    then have "i div sector_size < unat sector + unat n" by (simp add: less_mult_imp_div_less)
    ultimately show False using o by simp
  qed
  have il: "i < length (bytes_of f)" using i assms(4) by simp
  show "bytes_of f' ! i = bytes_of f ! i" unfolding c(1) nth_patch [OF inside il] if_not_P [OF out] by (rule refl)
qed

section \<open>Opening an image\<close>

lemma fill_image_bytes:
  "fill_image fill n f = (True, f') \<Longrightarrow> stream f = Some (length (bytes_of f)) \<Longrightarrow> contents f \<noteq> None \<Longrightarrow>
   contents f' = Some (bytes_of f @ replicate n fill) \<and> stream f' \<noteq> None"
proof (induction fill n f rule: fill_image.induct)
  case (1 fill n f)
  show ?case
  proof (cases "n = 0")
    case True
    then show ?thesis using 1(2-4) by (subst (asm) fill_image.simps) (auto simp: bytes_of_def)
  next
    case False
    let ?k = "min (unat erase_block_bytes) n"
    obtain m f1 where w: "c_fwrite (replicate ?k fill) f = (m, f1)" by fastforce
    have e: "m = ?k" "fill_image fill (n - ?k) f1 = (True, f')"
      using 1(2) False fill_image.simps [of fill n f] by (auto simp: w Let_def split: if_splits)
    have p: "position_of f = length (bytes_of f)" using 1(3) by (simp add: position_of_def)
    have b: "bytes_of f1 = bytes_of f @ replicate ?k fill" "stream f1 = Some (length (bytes_of f1))" "contents f1 \<noteq> None"
      using w e(1) by (auto simp: c_fwrite_def Let_def p patch_def)
    have "replicate ?k fill @ replicate (n - ?k) fill = replicate n fill" by (simp flip: replicate_add)
    then show ?thesis using "1.IH" [OF False refl w [symmetric]] e b by simp
  qed
qed

text \<open>An image that opens is the one there was, or a new one full of the fill byte.\<close>

lemma open_image_exact:
  assumes "open_image path n fill f = ((True, created), f')"
  shows "stream f' \<noteq> None \<and> (if created then contents f' = Some (replicate n fill) else contents f \<noteq> None \<and> contents f' = contents f)"
proof (cases "created")
  case False
  then show ?thesis using assms
    by (auto simp: open_image_def Let_def c_fopen_existing_def split: if_splits prod.splits)
next
  case True
  let ?f = "c_fopen_new (c_fopen_existing f)"
  obtain ok g where g: "fill_image fill n ?f = (ok, g)" by fastforce
  have s: "stream ?f \<noteq> None" "ok" "f' = after_call g"
    using assms True g by (auto simp: open_image_def Let_def c_fflush_def split: if_splits prod.splits)
  then have "stream ?f = Some (length (bytes_of ?f))" "contents ?f = Some []" by (auto simp: c_fopen_new_def bytes_of_def split: if_splits)
  then show ?thesis using fill_image_bytes [of fill n ?f g] s g True by (auto simp: bytes_of_def)
qed

section \<open>Examples\<close>

text \<open>
  An image whose creation fails half-way stays on disk, and the next start under the same path takes it for a complete
  one: nothing is filled, and for the card nothing is formatted.\<close>

lemma unfinished_image_reused:
  "open_image ''x'' 4 0 \<lparr>contents = None, stream = None, faults = [None, None, Some 1]\<rparr> =
     ((False, True), \<lparr>contents = Some [0], stream = Some 1, faults = []\<rparr>)"
  "open_image ''x'' 4 0 \<lparr>contents = Some [0], stream = None, faults = []\<rparr> =
     ((True, False), \<lparr>contents = Some [0], stream = Some 0, faults = []\<rparr>)"
  by (simp_all add: open_image_def c_fopen_existing_def c_fopen_new_def fault_def after_call_def fill_image.simps c_fwrite_def
      erase_block_bytes_def position_of_def bytes_of_def patch_def Let_def)

text \<open>An existing image that cannot be opened, for whatever reason, is taken to be missing: a new one replaces it.\<close>

lemma failed_open_erases_image:
  "open_image ''x'' 1 0 \<lparr>contents = Some [7], stream = None, faults = [Some 0]\<rparr> =
     ((True, True), \<lparr>contents = Some [0], stream = Some 1, faults = []\<rparr>)"
  by (simp add: open_image_def c_fopen_existing_def c_fopen_new_def fault_def after_call_def fill_image.simps c_fwrite_def
      c_fflush_def erase_block_bytes_def position_of_def bytes_of_def patch_def Let_def)

theorem hosted_flash_is_nor_witness:
  "\<exists>f'. host_qspi_write 3 [0x0F] \<lparr>contents = Some (replicate 16777216 0xFF), stream = Some 0, faults = []\<rparr> = (True, f') \<and>
     bytes_of f' ! 4 AND 0xFF = bytes_of f' ! 4"
proof -
  let ?f = "\<lparr>contents = Some (replicate 16777216 0xFF), stream = Some 0, faults = []\<rparr>"
  obtain ok f' where w: "host_qspi_write 3 [0x0F] ?f = (ok, f')" by fastforce
  obtain e f'' where e: "host_nor_erase 0 ?f = (e, f'')" by fastforce
  have b: "bytes_of ?f = replicate 16777216 0xFF" by (simp add: bytes_of_def)
  have l: "length (bytes_of ?f) = unat flash_bytes" unfolding b length_replicate by (simp add: flash_sizes)
  note r = hosted_flash_is_nor [OF l w e, unfolded b flash_sizes]
  have "(replicate 16777216 (0xFF :: u8)) ! 3 = 0xFF" "(replicate 16777216 (0xFF :: u8)) ! 4 = 0xFF" by (subst nth_replicate; simp)+
  then show ?thesis using r w by (auto simp: nth_append)
qed

end
