(* ===== verification/Hosted_Mount.thy ===== *)
theory Hosted_Mount
  imports Hosted_Storage_Properties Storage_Properties
begin

text \<open>
  The start of the hosted flash (\<open>initialize_flash_media\<close> of \<open>platform/runtime/libc/storage_media.cpp\<close> in the build for
  Linux): LevelX and FileX run on the image file, below the same media driver as on the board. The state of LevelX and
  FileX is whatever it is, beside the image.
\<close>

section \<open>The driver\<close>

record 'l host_disk =
  nor_file :: image
  stack_state :: 'l

definition on_file :: "(image \<Rightarrow> 'a \<times> image) \<Rightarrow> 'l host_disk storage \<Rightarrow> 'a \<times> 'l host_disk storage" where
  "on_file op s = (let (r, f) = op (nor_file (hw s)) in (r, s\<lparr>hw := (hw s)\<lparr>nor_file := f\<rparr>\<rparr>))"

definition host_nor_driver :: "'l host_disk nor_driver" where
  "host_nor_driver =
     \<lparr>driver_read = (\<lambda>flash_address words. on_file (host_qspi_read (unat (byte_offset flash_address)) (unat words * 4))),
      driver_write = (\<lambda>flash_address source. on_file (host_qspi_write (unat (byte_offset flash_address)) source)),
      driver_erase = (\<lambda>block. on_file (host_nor_erase block)),
      driver_verify = (\<lambda>block. on_file (host_nor_verify block)),
      driver_error = nor_driver_error\<rparr>"

text \<open>The services as the hosted build has them: LevelX is opened on this driver.\<close>

definition hosted_services :: "'l host_disk board \<Rightarrow> 'l host_disk board" where
  "hosted_services b = b\<lparr>lx_nor_flash_open := (\<lambda>_. lx_nor_flash_open b host_nor_driver)\<rparr>"

section \<open>The start\<close>

definition host_initialize_flash ::
    "'l host_disk board \<Rightarrow> string \<Rightarrow> 'l host_disk storage \<Rightarrow> (bool \<times> 'l host_disk storage) option" where
  "host_initialize_flash b path s =
     (let ((ok, created), s1) = on_file (open_image path (unat flash_bytes) 0xFF) s
      in if \<not> ok then Some (False, s1)
         else start_flash (hosted_services b) (diagnose (flash_jedec_id_update (\<lambda>_. 0xEF4018)) s1))"

text \<open>Flash and card one after the other; the card's diagnostics are in its own record.\<close>

definition host_initialize ::
    "'l host_disk board \<Rightarrow> (host_sd \<Rightarrow> fx_status \<times> host_sd) \<Rightarrow> (host_sd \<Rightarrow> fx_status \<times> host_sd) \<Rightarrow> string \<Rightarrow> string \<Rightarrow>
     'l host_disk storage \<times> host_sd \<Rightarrow> (bool \<times> 'l host_disk storage \<times> host_sd) option" where
  "host_initialize b format mount flash_path sd_path sd =
     (let (s, d) = sd
      in case host_initialize_flash b flash_path (s\<lparr>diag := empty_diagnostics\<rparr>) of
           None \<Rightarrow> None
         | Some (flash_ok, s1) \<Rightarrow>
             let (sd_ok, d1) = host_initialize_sd format mount sd_path
                   (d\<lparr>host_sd_blocks := 0, host_sd_status := FX_SUCCESS, host_sd_diagnosed := False\<rparr>)
             in Some (flash_ok \<or> sd_ok, s1, d1))"

section \<open>What becomes of the image\<close>

definition driver_keeps :: "(image \<Rightarrow> bool) \<Rightarrow> bool" where
  "driver_keeps P \<longleftrightarrow>
     (\<forall>f. P f \<longrightarrow> (\<forall>p n. P (snd (host_qspi_read p n f))) \<and> (\<forall>p d. P (snd (host_qspi_write p d f))) \<and>
        (\<forall>k. P (snd (host_nor_erase k f))) \<and> (\<forall>k. P (snd (host_nor_verify k f))))"

abbreviation flash_image :: "'l host_disk storage \<Rightarrow> image" where
  "flash_image s \<equiv> nor_file (hw s)"

text \<open>LevelX and FileX reach the image through the driver only, so that what the driver keeps, they keep.\<close>

definition through_driver :: "'l host_disk board \<Rightarrow> bool" where
  "through_driver b \<longleftrightarrow>
     (\<forall>P s. driver_keeps P \<longrightarrow> P (flash_image s) \<longrightarrow>
        P (flash_image (lx_nor_flash_initialize b s)) \<and>
        P (flash_image (snd (lx_nor_flash_open b host_nor_driver s))) \<and>
        P (flash_image (snd (lx_nor_flash_extended_cache_enable b s))) \<and>
        P (flash_image (snd (lx_nor_flash_close b s))) \<and>
        (\<forall>n r s'. fx_media_format b (levelx_media_driver (hosted_services b)) n s = Some (r, s') \<longrightarrow> P (flash_image s')) \<and>
        (\<forall>r s'. fx_media_open b Flash (levelx_media_driver (hosted_services b)) s = Some (r, s') \<longrightarrow> P (flash_image s')))"

lemma hosted_services_simps [simp]:
  "lx_nor_flash_initialize (hosted_services b) = lx_nor_flash_initialize b"
  "lx_nor_flash_open (hosted_services b) d = lx_nor_flash_open b host_nor_driver"
  "lx_nor_flash_extended_cache_enable (hosted_services b) = lx_nor_flash_extended_cache_enable b"
  "lx_nor_flash_close (hosted_services b) = lx_nor_flash_close b"
  "fx_media_format (hosted_services b) = fx_media_format b" "fx_media_open (hosted_services b) = fx_media_open b"
  by (simp_all add: hosted_services_def)

lemma image_simps [simp]:
  "flash_image (diagnose g s) = flash_image s" "flash_image (s\<lparr>nor_open := x\<rparr>) = flash_image s"
  "flash_image (s\<lparr>st_flash_mounted := y\<rparr>) = flash_image s"
  "flash_image (snd (on_file op s)) = snd (op (flash_image s))"
  by (simp_all add: diagnose_def on_file_def split: prod.splits)

lemma through_driver_steps:
  assumes "through_driver b" and "driver_keeps P" and "P (flash_image s)"
  shows "P (flash_image (lx_nor_flash_initialize b s))" "P (flash_image (snd (lx_nor_flash_open b host_nor_driver s)))"
    "P (flash_image (snd (lx_nor_flash_extended_cache_enable b s)))" "P (flash_image (snd (lx_nor_flash_close b s)))"
    "fx_media_format b (levelx_media_driver (hosted_services b)) n s = Some (r, s') \<Longrightarrow> P (flash_image s')"
    "fx_media_open b Flash (levelx_media_driver (hosted_services b)) s = Some (r, s') \<Longrightarrow> P (flash_image s')"
  using assms unfolding through_driver_def by blast+

lemma open_keeps_image:
  assumes law: "through_driver b" "driver_keeps P" and s: "P (flash_image s)" and r: "open_levelx (hosted_services b) s = (st, s')"
  shows "P (flash_image s')"
proof -
  obtain st1 s1 where o1: "lx_nor_flash_open b host_nor_driver s = (st1, s1)" by fastforce
  have "P (flash_image s1)" using through_driver_steps(2) [OF law, of s] s o1 by simp
  moreover from this have "P (flash_image (snd (lx_nor_flash_extended_cache_enable b s1)))" by (rule through_driver_steps(3) [OF law])
  ultimately show ?thesis using r s o1 by (auto simp: open_levelx_def Let_def split: prod.splits if_splits)
qed

lemma close_keeps_image:
  assumes law: "through_driver b" "driver_keeps P" and s: "P (flash_image s)" and r: "close_levelx (hosted_services b) s = (st, s')"
  shows "P (flash_image s')"
  using r s through_driver_steps(4) [OF law, of s] by (auto simp: close_levelx_def split: prod.splits if_splits)

lemma mount_keeps_image:
  assumes law: "through_driver b" "driver_keeps P" and s: "P (flash_image s)" and r: "mount_flash (hosted_services b) s = Some (ok, s')"
  shows "P (flash_image s')"
  using r through_driver_steps(6) [OF law, of s] s by (auto simp: mount_flash_def Let_def split: option.splits)

lemma format_keeps_image:
  assumes law: "through_driver b" "driver_keeps P" and s: "P (flash_image s)" and r: "format_flash (hosted_services b) blank s = Some (ok, s')"
  shows "P (flash_image s')"
  using r through_driver_steps(5) [OF law, of s] s by (auto simp: format_flash_def split: option.splits if_splits)

lemma start_keeps_image:
  assumes law: "through_driver b" "driver_keeps P" and s: "P (flash_image s)" and r: "start_flash (hosted_services b) s = Some (ok, s')"
  shows "P (flash_image s')"
proof -
  let ?s2 = "lx_nor_flash_initialize b (diagnose (dg_flash_blocks_update (\<lambda>_. flash_blocks)) s)"
  obtain st s3 where o: "open_levelx (hosted_services b) ?s2 = (st, s3)" by fastforce
  have "P (flash_image (diagnose (dg_flash_blocks_update (\<lambda>_. flash_blocks)) s))" using s by simp
  then have "P (flash_image ?s2)" by (rule through_driver_steps(1) [OF law])
  then have p3: "P (flash_image s3)" using o by (rule open_keeps_image [OF law])
  let ?s4 = "diagnose (flash_logical_sectors_update (\<lambda>_. flash_filex_sectors)) s3"
  obtain st5 s5 where c: "close_levelx (hosted_services b) ?s4 = (st5, s5)" by fastforce
  have "P (flash_image ?s4)" using p3 by simp
  then have p5: "P (flash_image s5)" using c by (rule close_keeps_image [OF law])
  have p6: "P (flash_image s6)" if "format_flash (hosted_services b) x s5 = Some (y, s6)" for x y s6
    using format_keeps_image [OF law p5 that] .
  have m: "P (flash_image s')" if "format_flash (hosted_services b) x s5 = Some (True, s6)" "mount_flash (hosted_services b) s6 = Some (ok, s')" for x s6
    using mount_keeps_image [OF law p6 [OF that(1)] that(2)] .
  from r o c p3 p5 p6 m show ?thesis
    by (auto simp: start_flash_def Let_def split: if_splits option.splits bool.splits)
qed

text \<open>Whatever the driver does and whichever call of \<open>stdio\<close> fails, the file keeps its size.\<close>

lemma read_keeps_bytes: "bytes_of (snd (file_read p n f)) = bytes_of f"
  by (auto simp: file_read_def c_fseek_def c_fread_def Let_def split: prod.splits)

lemma verify_keeps_bytes: "bytes_of (snd (verify_from k p f)) = bytes_of f"
proof (induction k p f rule: verify_from.induct)
  case (1 k p f)
  obtain ok data f1 where q: "host_qspi_read (unat k * unat erase_block_bytes + p) sector_size f = ((ok, data), f1)" by (metis prod.exhaust)
  then have "bytes_of f1 = bytes_of f"
    using read_keeps_bytes [of "unat k * unat erase_block_bytes + p" sector_size f] by (auto simp: host_qspi_read_def split: if_splits)
  then show ?case using 1 q by (subst verify_from.simps) (auto simp: Let_def split: prod.splits)
qed

lemma driver_keeps_size: "driver_keeps (\<lambda>f. length (bytes_of f) = unat flash_bytes)"
proof -
  have r: "bytes_of (snd (host_qspi_read p n f)) = bytes_of f" for p n f
    by (simp add: host_qspi_read_def read_keeps_bytes)
  have w: "length (bytes_of (snd (host_qspi_write p d f))) = length (bytes_of f)" for p d f
    using host_write_clears [of p d f] by (metis cleared_def prod.collapse)
  have e: "length (bytes_of f) = unat flash_bytes \<Longrightarrow> length (bytes_of (snd (host_nor_erase k f))) = unat flash_bytes" for k f
    by (metis erase_length prod.collapse)
  have v: "bytes_of (snd (host_nor_verify k f)) = bytes_of f" for k f
    by (simp add: host_nor_verify_def verify_keeps_bytes)
  show ?thesis unfolding driver_keeps_def by (simp add: r w e v)
qed

text \<open>
  The start of the hosted flash. The result, the mount flag and the diagnostic say the same; if the image could be opened, a new
  one is all there and an old one of the right size stays so, whatever LevelX and FileX then do through the driver; and if it could not be
  opened, neither is called and nothing is mounted.\<close>

theorem hosted_flash_start:
  assumes law: "through_driver b" "flags_law (hosted_services b)"
    and start: "\<not> st_flash_mounted s" "\<not> dg_flash_mounted (diag s)"
    and old: "contents (flash_image s) \<noteq> None \<Longrightarrow> length (bytes_of (flash_image s)) = unat flash_bytes"
    and r: "host_initialize_flash b path s = Some (ok, s')"
  shows "st_flash_mounted s' = ok \<and> dg_flash_mounted (diag s') = ok \<and>
    (fst (fst (open_image path (unat flash_bytes) 0xFF (flash_image s))) \<longrightarrow> length (bytes_of (flash_image s')) = unat flash_bytes) \<and>
    (\<not> fst (fst (open_image path (unat flash_bytes) 0xFF (flash_image s))) \<longrightarrow> \<not> ok)"
proof -
  obtain opened created f where o: "open_image path (unat flash_bytes) 0xFF (flash_image s) = ((opened, created), f)"
    by (metis prod.exhaust)
  let ?s1 = "s\<lparr>hw := (hw s)\<lparr>nor_file := f\<rparr>\<rparr>" and ?g = "flash_jedec_id_update (\<lambda>_. 0xEF4018)"
  have e: "host_initialize_flash b path s = (if \<not> opened then Some (False, ?s1) else start_flash (hosted_services b) (diagnose ?g ?s1))"
    by (simp add: host_initialize_flash_def on_file_def o)
  show ?thesis
  proof (cases opened)
    case False
    then show ?thesis using r e start o by auto
  next
    case True
    then have r': "start_flash (hosted_services b) (diagnose ?g ?s1) = Some (ok, s')" using r e by simp
    have "fst (mount_flags (diagnose ?g ?s1)) = (False, False)" using start by (simp add: mount_flags_def diagnose_def)
    from start_flash_flags [OF law(2) r' this] have m: "st_flash_mounted s' = ok" "dg_flash_mounted (diag s') = ok"
      by (simp_all add: mount_flags_def)
    have "length (bytes_of f) = unat flash_bytes"
      using open_image_exact [of path "unat flash_bytes" "0xFF" "flash_image s" created f] o True old
      by (auto simp: bytes_of_def split: if_splits option.splits)
    then have "length (bytes_of (flash_image s')) = unat flash_bytes"
      using start_keeps_image [OF law(1) driver_keeps_size _ r'] by simp
    then show ?thesis using m True o by simp
  qed
qed

section \<open>Example\<close>

text \<open>A LevelX that erases the first block when it is opened.\<close>

definition erasing_services :: "nat host_disk board" where
  "erasing_services =
     \<lparr>HAL_QSPI_Command = (\<lambda>r w. (0, w)), HAL_QSPI_Receive = (\<lambda>n w. ((0, []), w)),
      HAL_QSPI_Transmit = (\<lambda>d w. (0, w)), HAL_QSPI_AutoPolling = (\<lambda>w. (0, w)), hqspi_ErrorCode = (\<lambda>w. 0),
      MX_QUADSPI_Init = (\<lambda>w. w), HAL_Delay = (\<lambda>n w. w), hsd1_reset = (\<lambda>w. w),
      HAL_SD_Init = (\<lambda>k w. (0, w)), HAL_SD_GetCardInfo = (\<lambda>w. ((0, 131072), w)), HAL_SD_DeInit = (\<lambda>w. w),
      hsd1_ErrorCode = (\<lambda>w. 0), hsd1_LogBlockNbr = (\<lambda>w. 131072),
      HAL_SD_ReadBlocks = (\<lambda>n w. ((0, replicate 512 0), w)), HAL_SD_WriteBlocks = (\<lambda>n d w. (0, w)),
      HAL_SD_card_ready = (\<lambda>w. (True, w)), HAL_GetTick = (\<lambda>w. (0, w)), tx_thread_sleep = (\<lambda>n w. w),
      SD_CARD_DETECT = (\<lambda>w. True), partition_offset_calculate = (\<lambda>d. (FX_SUCCESS, 0)),
      lx_nor_flash_initialize = (\<lambda>s. s),
      lx_nor_flash_open = (\<lambda>d s. let (ok, s1) = driver_erase d 0 s in (if ok then 0 else 1, s1)),
      lx_nor_flash_extended_cache_enable = (\<lambda>s. (0, s)), lx_nor_flash_close = (\<lambda>s. (0, s)),
      lx_nor_flash_sector_read = (\<lambda>n s. ((0, replicate 512 0), s)), lx_nor_flash_sector_write = (\<lambda>n d s. (0, s)),
      lx_nor_flash_sector_release = (\<lambda>n s. (0, s)), lx_mapped_physical_sectors = (\<lambda>s. 0), LX_SECTOR_NOT_FOUND = 7,
      fx_media_format = (\<lambda>d n s. Some (FX_SUCCESS, s)), fx_media_open = (\<lambda>v d s. Some (FX_SUCCESS, s))\<rparr>"

lemma erasing_laws: "through_driver erasing_services" "flags_law (hosted_services erasing_services)"
proof -
  have e: "snd (on_file op s) = s\<lparr>hw := (hw s)\<lparr>nor_file := snd (op (flash_image s))\<rparr>\<rparr>" for op s
    by (simp add: on_file_def split: prod.splits)
  have d: "snd (lx_nor_flash_open erasing_services host_nor_driver s) =
      s\<lparr>hw := (hw s)\<lparr>nor_file := snd (host_nor_erase 0 (flash_image s))\<rparr>\<rparr>" for s
    by (simp add: erasing_services_def host_nor_driver_def case_prod_unfold Let_def e)
  have o: "lx_nor_flash_initialize erasing_services = (\<lambda>s. s)" "lx_nor_flash_extended_cache_enable erasing_services = (\<lambda>s. (0, s))"
      "lx_nor_flash_close erasing_services = (\<lambda>s. (0, s))" "fx_media_format erasing_services = (\<lambda>d n s. Some (FX_SUCCESS, s))"
      "fx_media_open erasing_services = (\<lambda>v d s. Some (FX_SUCCESS, s))"
    by (simp_all add: erasing_services_def)
  show "through_driver erasing_services" by (auto simp: through_driver_def d o driver_keeps_def)
  show "flags_law (hosted_services erasing_services)" by (auto simp: flags_law_def d o)
qed

definition kept_image :: "nat host_disk storage" where
  "kept_image = \<lparr>hw = \<lparr>nor_file = \<lparr>contents = Some (replicate (unat flash_bytes) 0), stream = None, faults = []\<rparr>, stack_state = 0\<rparr>,
     nor_open = False, st_flash_mounted = False, st_sd_mounted = False, diag = empty_diagnostics\<rparr>"

lemma hosted_flash_start_witness:
  "\<exists>ok s'. host_initialize_flash erasing_services ''image'' kept_image = Some (ok, s') \<and> st_flash_mounted s' = ok \<and>
     length (bytes_of (flash_image s')) = unat flash_bytes"
proof -
  have s: "\<not> st_flash_mounted kept_image" "\<not> dg_flash_mounted (diag kept_image)"
      "contents (flash_image kept_image) \<noteq> None \<Longrightarrow> length (bytes_of (flash_image kept_image)) = unat flash_bytes"
    by (simp_all add: kept_image_def empty_diagnostics_def bytes_of_def)
  have o: "fst (fst (open_image ''image'' (unat flash_bytes) 0xFF (flash_image kept_image)))"
    by (simp add: open_image_def c_fopen_existing_def fault_def after_call_def kept_image_def Let_def)
  have f: "format_flash (hosted_services erasing_services) y t \<noteq> None" "mount_flash (hosted_services erasing_services) t \<noteq> None" for y t
    by (simp_all add: format_flash_def mount_flash_def erasing_services_def Let_def del: not_None_eq)
  have "start_flash (hosted_services erasing_services) t \<noteq> None" for t
    using f by (auto simp: start_flash_def Let_def simp del: not_None_eq split: prod.splits option.splits bool.splits)
  then have "host_initialize_flash erasing_services ''image'' kept_image \<noteq> None"
    by (auto simp: host_initialize_flash_def Let_def simp del: not_None_eq split: prod.splits)
  then obtain ok s' where r: "host_initialize_flash erasing_services ''image'' kept_image = Some (ok, s')" by auto
  from hosted_flash_start [OF erasing_laws s r] o r show ?thesis by blast
qed

end
