(* ===== verification/Calendar.thy ===== *)
theory Calendar
  imports File_Calls "HOL-Library.Signed_Division"
begin

text \<open>
  Real time: the real-time clock drivers (\<open>platform/hal/drivers/impl/stm32/Rtc.cpp\<close> and \<open>impl/linux/Rtc.cpp\<close>), whose
  date arithmetic is proved against counting the days one by one; the modification time of a file, which the file
  system computes with the standard library's calendar, is counted alike.
\<close>

section \<open>The real-time clocks\<close>

definition is_leap_year :: "int \<Rightarrow> bool" where
  "is_leap_year y \<longleftrightarrow> y smod 4 = 0 \<and> (y smod 100 \<noteq> 0 \<or> y smod 400 = 0)"

definition days_in_month :: "int \<Rightarrow> u32 \<Rightarrow> u32" where
  "days_in_month y m =
     (if m = 2 then (if is_leap_year y then 29 else 28)
      else if m = 4 \<or> m = 6 \<or> m = 9 \<or> m = 11 then 30
      else 31)"

definition days_from_civil :: "int \<Rightarrow> u32 \<Rightarrow> u32 \<Rightarrow> int" where
  "days_from_civil y m d =
     (let yr = y - (if m \<le> 2 then 1 else 0);
          era = (if yr \<ge> 0 then yr else yr - 399) sdiv 400;
          yoe = (word_of_int (yr - era * 400) :: u32);
          adjusted_month = uint m + (if m > 2 then - 3 else 9);
          doy = (word_of_int ((153 * adjusted_month + 2) sdiv 5) :: u32) + d - 1;
          doe = yoe * 365 + yoe div 4 - yoe div 100 + doy
      in era * 146097 + uint doe - 719468)"

record rtc_time =
  rtc_hours :: u8
  rtc_minutes :: u8
  rtc_seconds :: u8
  rtc_sub_seconds :: u32
  rtc_second_fraction :: u32

record rtc_date =
  rtc_year :: u8
  rtc_month :: u8
  rtc_day :: u8

text \<open>The seconds since 1970 and the nanoseconds, or the driver's error.\<close>

definition board_rtc_get_time :: "bool \<Rightarrow> rtc_time \<Rightarrow> bool \<Rightarrow> rtc_date \<Rightarrow> (int \<times> u32) option" where
  "board_rtc_get_time time_read time date_read date =
     (if \<not> time_read \<or> \<not> date_read then None
      else
        let y = 2000 + uint (rtc_year date);
            m = (ucast (rtc_month date) :: u32);
            d = (ucast (rtc_day date) :: u32)
        in if rtc_month date < 1 \<or> rtc_month date > 12 \<or> rtc_day date < 1 \<or> d > days_in_month y m \<or>
              rtc_hours time \<ge> 24 \<or> rtc_minutes time \<ge> 60 \<or> rtc_seconds time \<ge> 60 \<or>
              rtc_sub_seconds time > rtc_second_fraction time
           then None
           else
             let seconds = days_from_civil y m d * 86400 + uint (rtc_hours time) * 3600 +
                   uint (rtc_minutes time) * 60 + uint (rtc_seconds time);
                 subsecond_ticks = (ucast (rtc_second_fraction time - rtc_sub_seconds time) :: u64);
                 nanoseconds = subsecond_ticks * 1000000000 div ((ucast (rtc_second_fraction time) :: u64) + 1)
             in Some (seconds, ucast nanoseconds))"

definition hosted_rtc_get_time :: "(int \<times> int) option \<Rightarrow> (int \<times> u32) option" where
  "hosted_rtc_get_time now =
     (case now of
        None \<Rightarrow> None
      | Some (sec, nsec) \<Rightarrow> if nsec < 0 \<or> nsec \<ge> 1000000000 then None else Some (sec, word_of_int nsec))"

section \<open>Counting days\<close>

text \<open>The reference: the days of whole years since 1970, of whole months, and in the month, added up.\<close>

definition year_days :: "int \<Rightarrow> int" where
  "year_days y = (if leap_year y then 366 else 365)"

fun days_before_year :: "nat \<Rightarrow> int" where
  "days_before_year 0 = 0"
| "days_before_year (Suc n) = days_before_year n + year_days (1970 + int n)"

fun days_before_month :: "int \<Rightarrow> nat \<Rightarrow> int" where
  "days_before_month y 0 = 0"
| "days_before_month y (Suc 0) = 0"
| "days_before_month y (Suc (Suc m)) = days_before_month y (Suc m) + last_day y (int (Suc m))"

definition day_number :: "nat \<Rightarrow> nat \<Rightarrow> nat \<Rightarrow> int" where
  "day_number y m d = days_before_year (y - 1970) + days_before_month (int y) m + int d - 1"

section \<open>Closed forms\<close>

text \<open>The days before a year, with the years counted from March.\<close>

definition march_days :: "int \<Rightarrow> int" where
  "march_days Y = 365 * Y + Y div 4 - Y div 100 + Y div 400"

lemma era_split:
  fixes Y :: int
  shows "Y div 400 * 146097 + (Y mod 400 * 365 + Y mod 400 div 4 - Y mod 400 div 100) = march_days Y"
proof -
  define e r where "e = Y div 400" and "r = Y mod 400"
  have Y: "Y = 400 * e + r" by (simp add: e_def r_def)
  have "Y div 4 = 100 * e + r div 4" "Y div 100 = 4 * e + r div 100" unfolding Y by simp_all
  then show ?thesis unfolding march_days_def e_def [symmetric] r_def [symmetric] using Y by simp
qed

lemma div_succ:
  fixes Y n :: int
  assumes "0 < n"
  shows "(Y + 1) div n = Y div n + (if (Y + 1) mod n = 0 then 1 else 0)"
proof -
  have e: "Y = n * (Y div n) + Y mod n" "0 \<le> Y mod n" "Y mod n < n" using assms by simp_all
  show ?thesis
  proof (cases "Y mod n = n - 1")
    case True
    then have "Y + 1 = n * (Y div n + 1)" using e by (simp add: distrib_left)
    then show ?thesis using assms by simp
  next
    case False
    then have r: "0 \<le> Y mod n + 1" "Y mod n + 1 < n" using e by linarith+
    have "Y + 1 = (Y mod n + 1) + n * (Y div n)" using e by simp
    then have "(Y + 1) div n = Y div n" "(Y + 1) mod n = Y mod n + 1" using r assms
      by (metis add.commute add_0 div_mult_self2 div_pos_pos_trivial less_irrefl, metis mod_mult_self2 mod_pos_pos_trivial)
    then show ?thesis using e(2) by simp
  qed
qed

lemma leap_step:
  fixes a b c a' b' c' Y :: int
  assumes "a' = a + (if P4 then 1 else 0)" and "b' = b + (if P100 then 1 else 0)" and "c' = c + (if P400 then 1 else 0)"
    and "P100 \<Longrightarrow> P4" and "P400 \<Longrightarrow> P100"
  shows "365 * (Y + 1) + a' - b' + c' = 365 * Y + a - b + c + (if P4 \<and> (\<not> P100 \<or> P400) then 366 else 365)"
  using assms by (cases P4; cases P100; cases P400) simp_all

lemma march_days_succ: "march_days (Y + 1) = march_days Y + year_days (Y + 1)"
proof -
  have 4: "(Y + 1) mod 4 = (Y + 1) mod 100 mod 4" and 100: "(Y + 1) mod 100 = (Y + 1) mod 400 mod 100"
    by (rule mod_mod_cancel [symmetric], simp)+
  have m: "(Y + 1) mod 4 = 0" if "(Y + 1) mod 100 = 0" unfolding 4 that by simp
  have c: "(Y + 1) mod 100 = 0" if "(Y + 1) mod 400 = 0" unfolding 100 that by simp
  have p: "(0 :: int) < 4" "(0 :: int) < 100" "(0 :: int) < 400" by simp_all
  show ?thesis unfolding march_days_def year_days_def leap_year_def
    by (rule leap_step [OF div_succ [OF p(1)] div_succ [OF p(2)] div_succ [OF p(3)] m c])
qed

lemma days_before_year_march: "days_before_year n = march_days (1969 + int n) - march_days 1969"
proof (induction n)
  case (Suc n)
  have "1969 + int (Suc n) = 1969 + int n + 1" "1970 + int n = 1969 + int n + 1" by simp_all
  then show ?case using Suc march_days_succ [of "1969 + int n"] by (simp only: days_before_year.simps)
qed simp

lemma month_cases:
  fixes m :: nat
  shows "1 \<le> m \<Longrightarrow> m \<le> 12 \<Longrightarrow> m \<in> {1, 2, 3, 4, 5, 6, 7, 8, 9, 10, 11, 12}"
  unfolding insert_iff empty_iff by arith

lemma days_before_month_march:
  assumes "1 \<le> m" "m \<le> 12"
  shows "days_before_month y m = (if m \<le> 2 then (153 * (int m + 9) + 2) div 5 - 306
    else (153 * (int m - 3) + 2) div 5 + year_days y - 306)"
  using month_cases [OF assms]
  by (auto simp: eval_nat_numeral last_day_def year_days_def)

text \<open>The standard library's days are the counted ones.\<close>

lemma sys_days_march: "sys_days y m d =
    march_days (if m \<le> 2 then y - 1 else y) + (153 * (m + (if m > 2 then - 3 else 9)) + 2) div 5 + d - 1 - 719468"
proof -
  have "Y - Y div 400 * 400 = Y mod 400" for Y :: int by (simp add: minus_div_mult_eq_mod)
  then show ?thesis using era_split [of "if m \<le> 2 then y - 1 else y"]
    by (simp only: sys_days_def Let_def)
qed

lemma sys_days_counts:
  assumes "1970 \<le> y" and "1 \<le> m" "m \<le> 12"
  shows "sys_days (int y) (int m) (int d) = day_number y m d"
proof -
  have 0: "march_days 1969 = 719162" by (simp add: march_days_def)
  have y: "days_before_year (y - 1970) = march_days (int y - 1) - 719162"
    using assms(1) by (simp add: days_before_year_march 0 of_nat_diff algebra_simps)
  have s: "march_days (int y) = march_days (int y - 1) + year_days (int y)" using march_days_succ [of "int y - 1"] by simp
  show ?thesis
    using assms(2,3) by (auto simp: day_number_def sys_days_march y s days_before_month_march)
qed

section \<open>The driver's days\<close>

text \<open>No step of the unsigned arithmetic wraps for a valid date, so the driver's days are the counted ones, too.\<close>

lemma truncating_division:
  fixes a b :: int
  shows "0 \<le> a \<Longrightarrow> 0 < b \<Longrightarrow> a sdiv b = a div b" and "0 \<le> a \<Longrightarrow> 0 < b \<Longrightarrow> a smod b = a mod b"
  by (simp_all add: signed_divide_int_def signed_modulo_int_def sgn_if)

lemma is_leap_year_leap: "0 \<le> y \<Longrightarrow> is_leap_year y = leap_year y"
  by (simp add: is_leap_year_def leap_year_def truncating_division)

lemma days_in_month_last: "0 \<le> y \<Longrightarrow> uint (days_in_month y m) = last_day y (uint m)"
proof -
  assume y: "0 \<le> y"
  have "m = 2 \<longleftrightarrow> uint m = 2" "m = 4 \<longleftrightarrow> uint m = 4" "m = 6 \<longleftrightarrow> uint m = 6" "m = 9 \<longleftrightarrow> uint m = 9" "m = 11 \<longleftrightarrow> uint m = 11"
    by (simp_all add: word_uint_eq_iff)
  then show ?thesis by (simp add: days_in_month_def last_day_def is_leap_year_leap [OF y])
qed

lemma uint_of_int_small: "0 \<le> a \<Longrightarrow> a < 2 ^ 32 \<Longrightarrow> uint (word_of_int a :: u32) = a"
  by (simp add: uint_word_of_int)

lemma of_int_div_word:
  assumes "0 \<le> a" "a < 2 ^ 32" and "0 < b" "b < 2 ^ 32"
  shows "(word_of_int a :: u32) div word_of_int b = word_of_int (a div b)"
proof -
  have "a div b \<le> a div 1" by (rule zdiv_mono2) (use assms in simp_all)
  then have "0 \<le> a div b" "a div b < 2 ^ 32" using assms by (simp_all add: pos_imp_zdiv_nonneg_iff)
  then show ?thesis using assms by (simp add: word_uint_eq_iff uint_div uint_word_of_int)
qed

lemma days_from_civil_days:
  assumes y: "1 \<le> y" and m: "1 \<le> uint m" "uint m \<le> 12" and d: "1 \<le> uint d" "uint d \<le> 31"
  shows "days_from_civil y m d = sys_days y (uint m) (uint d)"
proof -
  define Y where "Y = y - (if uint m \<le> 2 then 1 else 0)"
  define a where "a = uint m + (if uint m > 2 then - 3 else 9)"
  define r where "r = Y mod 400"
  define v where "v = (153 * a + 2) div 5 + uint d - 1"
  have le: "m \<le> 2 \<longleftrightarrow> uint m \<le> 2" and gt: "m > 2 \<longleftrightarrow> uint m > 2" by (simp_all add: word_le_def word_less_def)
  have Y: "0 \<le> Y" using y by (simp add: Y_def)
  have a: "0 \<le> a" "a \<le> 11" using m by (auto simp: a_def)
  have r: "0 \<le> r" "r < 400" by (simp_all add: r_def)
  have v: "0 \<le> v" "v < 400" using a d by (simp_all add: v_def)
  have era: "(if Y \<ge> 0 then Y else Y - 399) sdiv 400 = Y div 400" using Y by (simp add: truncating_division)
  have rest: "Y - Y div 400 * 400 = r" by (simp add: r_def minus_div_mult_eq_mod)
  have doy: "(word_of_int ((153 * a + 2) sdiv 5) :: u32) + d - 1 = word_of_int v"
    using a by (simp add: v_def truncating_division)
  have div: "(word_of_int r :: u32) div 4 = word_of_int (r div 4)" "(word_of_int r :: u32) div 100 = word_of_int (r div 100)"
    using of_int_div_word [of r 4] of_int_div_word [of r 100] r by simp_all
  let ?doe = "r * 365 + r div 4 - r div 100 + v"
  have doe: "(word_of_int r :: u32) * 365 + word_of_int r div 4 - word_of_int r div 100 + word_of_int v = word_of_int ?doe"
    unfolding div by simp
  have "0 \<le> r div 4" "r div 4 < 100" "0 \<le> r div 100" "r div 100 < 4" using r by simp_all
  then have "0 \<le> ?doe" "?doe < 2 ^ 32" using r v by simp_all
  then have "uint (word_of_int ?doe :: u32) = ?doe" by (rule uint_of_int_small)
  then have "days_from_civil y m d = Y div 400 * 146097 + ?doe - 719468"
    by (simp only: days_from_civil_def Let_def le gt Y_def [symmetric] a_def [symmetric] era rest doy doe)
  also have "\<dots> = march_days Y + v - 719468" using era_split [of Y] by (simp add: r_def)
  also have "\<dots> = sys_days y (uint m) (uint d)" by (simp add: sys_days_march v_def a_def Y_def)
  finally show ?thesis .
qed

lemma subsecond:
  fixes b f :: u32
  assumes "unat b \<le> unat f"
  defines "ns \<equiv> (ucast (f - b) :: u64) * 1000000000 div ((ucast f :: u64) + 1)"
  shows "unat (ucast ns :: u32) = (unat f - unat b) * 10 ^ 9 div (unat f + 1)"
    and "(unat f - unat b) * 10 ^ 9 div (unat f + 1) < 10 ^ 9"
proof -
  let ?n = "(unat f - unat b) * 10 ^ 9 div (unat f + 1)"
  have f: "unat f < 2 ^ 32" using unsigned_less [of f, where ?'a = nat] by simp
  have "(unat f - unat b) * 10 ^ 9 < (unat f + 1) * 10 ^ 9" by simp
  then show l: "?n < 10 ^ 9" by (simp add: less_mult_imp_div_less mult.commute)
  have s: "unat (f - b) = unat f - unat b" by (rule unat_sub_small [OF assms(1)])
  have "(unat f - unat b) * 1000000000 < 2 ^ LENGTH(64)" using f by simp
  then have p: "unat ((ucast (f - b) :: u64) * 1000000000) = (unat f - unat b) * 1000000000"
    by (subst unat_mult_small) (simp_all add: unat_ucast_32_64 s)
  have q: "unat ((ucast f :: u64) + 1) = unat f + 1"
    using f by (subst unat_add_small) (simp_all add: unat_ucast_32_64)
  have "unat ns = ?n" by (simp only: ns_def unat_div p q) simp
  moreover have "unat (ucast ns :: u32) = unat ns mod 2 ^ 32" by (simp add: unsigned_ucast_eq take_bit_eq_mod)
  ultimately show "unat (ucast ns :: u32) = ?n" using l by simp
qed

text \<open>The tests of the board's clock on its registers accept exactly the readings that stand for a time.\<close>

lemma reading_accepted:
  fixes time :: rtc_time and date :: rtc_date
  defines "Y \<equiv> 2000 + unat (rtc_year date)" and "M \<equiv> unat (rtc_month date)" and "D \<equiv> unat (rtc_day date)"
  defines "valid \<equiv> date_ok (int Y) (int M) (int D) \<and> unat (rtc_hours time) < 24 \<and> unat (rtc_minutes time) < 60 \<and>
      unat (rtc_seconds time) < 60 \<and> unat (rtc_sub_seconds time) \<le> unat (rtc_second_fraction time)"
  shows "board_rtc_get_time time_read time date_read date =
      (if time_read \<and> date_read \<and> valid
       then Some (days_from_civil (2000 + uint (rtc_year date)) (ucast (rtc_month date)) (ucast (rtc_day date)) * 86400 +
         uint (rtc_hours time) * 3600 + uint (rtc_minutes time) * 60 + uint (rtc_seconds time),
         ucast ((ucast (rtc_second_fraction time - rtc_sub_seconds time) :: u64) * 1000000000 div ((ucast (rtc_second_fraction time) :: u64) + 1)))
       else None)"
proof -
  let ?m = "ucast (rtc_month date) :: u32" and ?d = "ucast (rtc_day date) :: u32" and ?y = "2000 + uint (rtc_year date)"
  let ?f = "rtc_second_fraction time" and ?b = "rtc_sub_seconds time"
  have y: "int Y = ?y" and m: "uint ?m = int M" and d: "uint ?d = int D"
    by (simp_all add: Y_def M_def D_def uint_up_ucast is_up)
  have yl: "0 \<le> ?y" "?y \<le> 32767"
    using unsigned_less [of "rtc_year date", where ?'a = int] by simp_all
  have dim: "uint (days_in_month ?y ?m) = last_day (int Y) (int M)" using days_in_month_last [OF yl(1), of ?m] by (simp only: m y)
  have lt: "rtc_month date < 1 \<longleftrightarrow> int M < 1" "rtc_month date > 12 \<longleftrightarrow> int M > 12" "rtc_day date < 1 \<longleftrightarrow> int D < 1"
    "?d > days_in_month ?y ?m \<longleftrightarrow> int D > last_day (int Y) (int M)"
    unfolding word_less_def dim d by (simp_all add: M_def D_def)
  have t: "rtc_hours time \<ge> 24 \<longleftrightarrow> \<not> unat (rtc_hours time) < 24" "rtc_minutes time \<ge> 60 \<longleftrightarrow> \<not> unat (rtc_minutes time) < 60"
    "rtc_seconds time \<ge> 60 \<longleftrightarrow> \<not> unat (rtc_seconds time) < 60" "?b > ?f \<longleftrightarrow> \<not> unat ?b \<le> unat ?f"
    by (simp_all add: word_le_nat_alt word_less_nat_alt not_less not_le)
  have refused: "(rtc_month date < 1 \<or> rtc_month date > 12 \<or> rtc_day date < 1 \<or> ?d > days_in_month ?y ?m \<or>
      rtc_hours time \<ge> 24 \<or> rtc_minutes time \<ge> 60 \<or> rtc_seconds time \<ge> 60 \<or> ?b > ?f) \<longleftrightarrow> \<not> valid"
    unfolding lt t valid_def date_ok_def using yl y by auto
  show ?thesis by (simp only: board_rtc_get_time_def Let_def refused) auto
qed

text \<open>
  C37. The board's clock reports a reading exactly when the hardware could be read and the reading is
  a date of the years 2000 to 2255 and a time of day. Then the seconds are those since the start of 1970, with the
  days counted one by one over years and months, and the nanoseconds are the part of a second that the
  sub-second counter has gone down, below one second. The modification time of a file counts the same days.\<close>

theorem real_time_exact:
  fixes time :: rtc_time and date :: rtc_date
  defines "Y \<equiv> 2000 + unat (rtc_year date)" and "M \<equiv> unat (rtc_month date)" and "D \<equiv> unat (rtc_day date)"
  shows "(board_rtc_get_time time_read time date_read date \<noteq> None \<longleftrightarrow> time_read \<and> date_read \<and>
      date_ok (int Y) (int M) (int D) \<and> unat (rtc_hours time) < 24 \<and> unat (rtc_minutes time) < 60 \<and>
      unat (rtc_seconds time) < 60 \<and> unat (rtc_sub_seconds time) \<le> unat (rtc_second_fraction time)) \<and>
    (\<forall>s ns. board_rtc_get_time time_read time date_read date = Some (s, ns) \<longrightarrow>
      s = day_number Y M D * 86400 + int (unat (rtc_hours time) * 3600 + unat (rtc_minutes time) * 60 + unat (rtc_seconds time)) \<and>
      unat ns = (unat (rtc_second_fraction time) - unat (rtc_sub_seconds time)) * 10 ^ 9 div (unat (rtc_second_fraction time) + 1) \<and>
      unat ns < 10 ^ 9 \<and> sys_days (int Y) (int M) (int D) = day_number Y M D)"
proof -
  let ?m = "ucast (rtc_month date) :: u32" and ?d = "ucast (rtc_day date) :: u32" and ?y = "2000 + uint (rtc_year date)"
  let ?f = "rtc_second_fraction time" and ?b = "rtc_sub_seconds time"
  have y: "int Y = ?y" and m: "uint ?m = int M" and d: "uint ?d = int D"
    by (simp_all add: Y_def M_def D_def uint_up_ucast is_up)
  have yl: "0 \<le> ?y" "?y \<le> 32767"
    using unsigned_less [of "rtc_year date", where ?'a = int] by simp_all
  define valid where "valid \<longleftrightarrow> date_ok (int Y) (int M) (int D) \<and> unat (rtc_hours time) < 24 \<and> unat (rtc_minutes time) < 60 \<and>
      unat (rtc_seconds time) < 60 \<and> unat ?b \<le> unat ?f"
  let ?ns = "(ucast (?f - ?b) :: u64) * 1000000000 div ((ucast ?f :: u64) + 1)"
  note r = reading_accepted [of time_read time date_read date, folded Y_def M_def D_def, folded valid_def]
  have days: "days_from_civil ?y ?m ?d = day_number Y M D" "sys_days (int Y) (int M) (int D) = day_number Y M D" if valid
  proof -
    have M: "1 \<le> M" "M \<le> 12" "1 \<le> D" "int D \<le> 31"
      using that by (auto simp: valid_def date_ok_def last_day_def split: if_splits)
    show s: "sys_days (int Y) (int M) (int D) = day_number Y M D"
      by (rule sys_days_counts) (use M in \<open>simp_all add: Y_def\<close>)
    show "days_from_civil ?y ?m ?d = day_number Y M D"
      using days_from_civil_days [of ?y ?m ?d] M yl s by (simp add: m d y)
  qed
  have ns: "unat (ucast ?ns :: u32) = (unat ?f - unat ?b) * 10 ^ 9 div (unat ?f + 1)"
    "(unat ?f - unat ?b) * 10 ^ 9 div (unat ?f + 1) < 10 ^ 9" if valid
    using that subsecond [of ?b ?f] by (simp_all add: valid_def)
  show ?thesis
  proof (cases "time_read \<and> date_read \<and> valid")
    case False
    then have "board_rtc_get_time time_read time date_read date = None" by (simp only: r if_False)
    then show ?thesis using False by (auto simp: valid_def)
  next
    case True
    then have v: valid by blast
    have "board_rtc_get_time time_read time date_read date = Some (day_number Y M D * 86400 +
        int (unat (rtc_hours time) * 3600 + unat (rtc_minutes time) * 60 + unat (rtc_seconds time)), ucast ?ns)"
      unfolding r if_P [OF True] days(1) [OF v] by simp
    then show ?thesis using True v ns [OF v] days(2) [OF v] by (simp only: valid_def) force
  qed
qed

section \<open>Examples\<close>

lemma real_time_exact_witness:
  "\<exists>s ns. board_rtc_get_time True \<lparr>rtc_hours = 23, rtc_minutes = 59, rtc_seconds = 58, rtc_sub_seconds = 127, rtc_second_fraction = 255\<rparr>
     True \<lparr>rtc_year = 24, rtc_month = 2, rtc_day = 29\<rparr> = Some (s, ns) \<and> s = day_number 2024 2 29 * 86400 + 86398"
proof -
  let ?t = "\<lparr>rtc_hours = 23, rtc_minutes = 59, rtc_seconds = 58, rtc_sub_seconds = 127, rtc_second_fraction = 255\<rparr>"
  let ?d = "\<lparr>rtc_year = 24, rtc_month = 2, rtc_day = 29\<rparr>"
  note exact = real_time_exact [of True ?t True ?d]
  have "date_ok 2024 2 29" by (simp add: date_ok_def last_day_def leap_year_def)
  then have "board_rtc_get_time True ?t True ?d \<noteq> None" using conjunct1 [OF exact] by simp
  then obtain s ns where "board_rtc_get_time True ?t True ?d = Some (s, ns)" by auto
  with conjunct2 [OF exact] show ?thesis by simp
qed

text \<open>The code's own checks.\<close>

lemma civil_epochs: "days_from_civil 1970 1 1 = 0" "days_from_civil 2000 1 1 = 10957" "days_from_civil 2000 2 29 = 11016"
  by (simp_all add: days_from_civil_days sys_days_def)

end
