(* ===== verification/Pins.thy ===== *)
theory Pins
  imports Prelude
begin

unbundle bit_operations_syntax

text \<open>
  General-purpose pins: the board's driver (\<open>platform/hal/drivers/impl/stm32/Gpio.cpp\<close>) with the factory that
  gives every pin to one owner (\<open>platform/hal/drivers/factory/stm32/gpio.cpp\<close>), the hosted, simulated pins
  (\<open>impl/linux/Gpio.cpp\<close>), and the devices on them (\<open>platform/hal/devices/impl/\<close>). A driver object is
  named by its pin. What the vendor's HAL is told about a pin is kept as the argument of the call.
\<close>

section \<open>Pins\<close>

datatype level = Level_Low | Level_High
datatype pull = Pull_None | Pull_Up | Pull_Down
datatype edge = Edge_None | Edge_Rising | Edge_Falling | Edge_Both
datatype output_type = Push_Pull | Open_Drain
datatype speed = Speed_Low | Speed_Medium | Speed_High | Speed_Very_High

record pin =
  port :: nat
  pin_number :: nat

record input_configuration =
  in_pin :: pin
  in_pull :: pull
  in_edge :: edge

record output_configuration =
  out_pin :: pin
  initial_level :: level
  out_type :: output_type
  out_pull :: pull
  out_speed :: speed

definition inverted :: "level \<Rightarrow> level" where
  "inverted l = (if l = Level_High then Level_Low else Level_High)"

section \<open>The board's driver\<close>

datatype exti = EXTI nat | EXTI9_5 | EXTI15_10

definition interrupt_for :: "nat \<Rightarrow> exti" where
  "interrupt_for n = (if n \<le> 4 then EXTI n else if n \<le> 9 then EXTI9_5 else EXTI15_10)"

definition pin_mask :: "nat \<Rightarrow> u16" where
  "pin_mask n = push_bit n 1"

datatype hal_mode = Mode_Input | Mode_It_Rising | Mode_It_Falling | Mode_It_Both | Mode_Output_PP | Mode_Output_OD

fun input_mode :: "edge \<Rightarrow> hal_mode" where
  "input_mode Edge_Rising = Mode_It_Rising"
| "input_mode Edge_Falling = Mode_It_Falling"
| "input_mode Edge_Both = Mode_It_Both"
| "input_mode Edge_None = Mode_Input"

definition output_mode :: "output_type \<Rightarrow> hal_mode" where
  "output_mode t = (if t = Open_Drain then Mode_Output_OD else Mode_Output_PP)"

record pin_setup =
  setup_mode :: hal_mode
  setup_pull :: pull
  setup_speed :: speed

text \<open>
  The registry of the sixteen interrupt lines; the owners of the pins; the interrupts and the setup of the
  hardware; for each live input whether it has a callback; the levels written to the pins.
\<close>

definition PINS_PER_PORT :: nat where "PINS_PER_PORT = 16"
definition PORT_COUNT :: nat where "PORT_COUNT = 11"

record board_pins =
  interrupt_registry :: "pin option list"
  owners :: "bool list"
  irq_enabled :: "exti set"
  setups :: "pin \<Rightarrow> pin_setup option"
  port_clocks :: "nat set"
  levels :: "pin \<Rightarrow> level"
  edge_callback :: "pin \<Rightarrow> bool"

definition interrupt_line_available :: "pin \<Rightarrow> board_pins \<Rightarrow> bool" where
  "interrupt_line_available p s \<longleftrightarrow>
     pin_number p < length (interrupt_registry s) \<and> interrupt_registry s ! pin_number p = None"

definition hal_gpio_init :: "pin \<Rightarrow> hal_mode \<Rightarrow> pull \<Rightarrow> speed \<Rightarrow> board_pins \<Rightarrow> board_pins" where
  "hal_gpio_init p m pl sp s = s\<lparr>setups := (setups s)(p \<mapsto> \<lparr>setup_mode = m, setup_pull = pl, setup_speed = sp\<rparr>)\<rparr>"

definition hal_gpio_deinit :: "pin \<Rightarrow> board_pins \<Rightarrow> board_pins" where
  "hal_gpio_deinit p s = s\<lparr>setups := (setups s)(p := None)\<rparr>"

definition enable_port_clock :: "pin \<Rightarrow> board_pins \<Rightarrow> board_pins" where
  "enable_port_clock p s = s\<lparr>port_clocks := insert (port p) (port_clocks s)\<rparr>"

text \<open>\<open>None\<close>: the constructor ends the program.\<close>

definition input_new :: "input_configuration \<Rightarrow> board_pins \<Rightarrow> board_pins option" where
  "input_new c s =
     (let p = in_pin c;
          s1 = (enable_port_clock p s)\<lparr>edge_callback := (edge_callback s)(p := False)\<rparr>
      in if in_edge c = Edge_None then Some (hal_gpio_init p (input_mode (in_edge c)) (in_pull c) Speed_Low s1)
         else if \<not> interrupt_line_available p s1 then None
         else
           let s2 = s1\<lparr>interrupt_registry := (interrupt_registry s1)[pin_number p := Some p]\<rparr>;
               s3 = hal_gpio_init p (input_mode (in_edge c)) (in_pull c) Speed_Low s2
           in Some (s3\<lparr>irq_enabled := insert (interrupt_for (pin_number p)) (irq_enabled s3)\<rparr>))"

definition input_delete :: "input_configuration \<Rightarrow> board_pins \<Rightarrow> board_pins" where
  "input_delete c s =
     (let p = in_pin c; g = interrupt_for (pin_number p)
      in hal_gpio_deinit p
           (if in_edge c = Edge_None then s
            else
              let s1 = s\<lparr>irq_enabled := irq_enabled s - {g},
                         interrupt_registry := (interrupt_registry s)[pin_number p := None]\<rparr>
              in if list_ex (\<lambda>x. case x of Some q \<Rightarrow> interrupt_for (pin_number q) = g | None \<Rightarrow> False) (interrupt_registry s1)
                 then s1\<lparr>irq_enabled := insert g (irq_enabled s1)\<rparr> else s1))"

definition set_edge_callback :: "input_configuration \<Rightarrow> bool \<Rightarrow> board_pins \<Rightarrow> board_pins" where
  "set_edge_callback c present s =
     (let p = in_pin c; g = interrupt_for (pin_number p); install = (\<lambda>s. s\<lparr>edge_callback := (edge_callback s)(p := present)\<rparr>)
      in if in_edge c = Edge_None then install s
         else
           let restore = (g \<in> irq_enabled s);
               s1 = install (s\<lparr>irq_enabled := irq_enabled s - {g}\<rparr>)
           in if restore then s1\<lparr>irq_enabled := insert g (irq_enabled s1)\<rparr> else s1)"

text \<open>The inputs whose callbacks an interrupt calls, in order.\<close>

definition dispatch_edge :: "u16 \<Rightarrow> board_pins \<Rightarrow> pin list" where
  "dispatch_edge m s =
     concat (List.map (\<lambda>n. case interrupt_registry s ! n of
         None \<Rightarrow> []
       | Some p \<Rightarrow> if m AND pin_mask n \<noteq> 0 \<and> edge_callback s p then [p] else [])
       [0..<length (interrupt_registry s)])"

fun exti_lines :: "exti \<Rightarrow> nat list" where
  "exti_lines (EXTI n) = [n]"
| "exti_lines EXTI9_5 = [5, 6, 7, 8, 9]"
| "exti_lines EXTI15_10 = [10, 11, 12, 13, 14, 15]"

text \<open>An interrupt handler goes through its lines; the HAL calls back for each line that is pending.\<close>

definition exti_handler :: "exti \<Rightarrow> nat set \<Rightarrow> board_pins \<Rightarrow> pin list" where
  "exti_handler g pending s =
     concat (List.map (\<lambda>n. if n \<in> pending then dispatch_edge (pin_mask n) s else []) (exti_lines g))"

definition output_new :: "output_configuration \<Rightarrow> board_pins \<Rightarrow> board_pins" where
  "output_new c s =
     (let p = out_pin c;
          s1 = (enable_port_clock p s)\<lparr>levels := (levels s)(p := initial_level c)\<rparr>
      in hal_gpio_init p (output_mode (out_type c)) (out_pull c) (out_speed c) s1)"

definition output_delete :: "output_configuration \<Rightarrow> board_pins \<Rightarrow> board_pins" where
  "output_delete c s = hal_gpio_deinit (out_pin c) s"

definition output_write :: "output_configuration \<Rightarrow> level \<Rightarrow> board_pins \<Rightarrow> board_pins" where
  "output_write c l s = s\<lparr>levels := (levels s)(out_pin c := l)\<rparr>"

text \<open>\<open>reading\<close> is what the HAL reads at the pin, which is not always what was written there last.\<close>

definition output_toggle :: "level \<Rightarrow> output_configuration \<Rightarrow> board_pins \<Rightarrow> board_pins" where
  "output_toggle reading c s = output_write c (inverted reading) s"

section \<open>The factory\<close>

definition pin_index :: "pin \<Rightarrow> nat" where
  "pin_index p = port p * PINS_PER_PORT + pin_number p"

definition valid_pin :: "pin \<Rightarrow> bool" where
  "valid_pin p \<longleftrightarrow> port p < PORT_COUNT \<and> pin_number p < PINS_PER_PORT"

definition claim :: "pin \<Rightarrow> bool \<Rightarrow> board_pins \<Rightarrow> board_pins" where
  "claim p b s = s\<lparr>owners := (owners s)[pin_index p := b]\<rparr>"

text \<open>Whether there is an object, and the state; the outer \<open>None\<close> is the end of the program.\<close>

definition create_input :: "input_configuration \<Rightarrow> board_pins \<Rightarrow> (bool \<times> board_pins) option" where
  "create_input c s =
     (let p = in_pin c
      in if \<not> valid_pin p then Some (False, s)
         else if owners s ! pin_index p then Some (False, s)
         else if in_edge c \<noteq> Edge_None \<and> \<not> interrupt_line_available p s then Some (False, s)
         else (case input_new c s of None \<Rightarrow> None | Some s1 \<Rightarrow> Some (True, claim p True s1)))"

definition create_output :: "output_configuration \<Rightarrow> board_pins \<Rightarrow> bool \<times> board_pins" where
  "create_output c s =
     (let p = out_pin c
      in if \<not> valid_pin p then (False, s)
         else if owners s ! pin_index p then (False, s)
         else (True, claim p True (output_new c s)))"

definition release_input :: "input_configuration \<Rightarrow> board_pins \<Rightarrow> board_pins" where
  "release_input c s = claim (in_pin c) False (input_delete c s)"

definition release_output :: "output_configuration \<Rightarrow> board_pins \<Rightarrow> board_pins" where
  "release_output c s = claim (out_pin c) False (output_delete c s)"

section \<open>Hosted pins\<close>

record hosted_input =
  hosted_edge :: edge
  hosted_level :: level
  hosted_callback :: bool

definition hosted_input_new :: "input_configuration \<Rightarrow> hosted_input" where
  "hosted_input_new c =
     \<lparr>hosted_edge = in_edge c, hosted_level = (if in_pull c = Pull_Up then Level_High else Level_Low), hosted_callback = False\<rparr>"

definition edge_matches :: "edge \<Rightarrow> level \<Rightarrow> level \<Rightarrow> bool" where
  "edge_matches e previous current =
     (if previous = current then False
      else (case e of Edge_Rising \<Rightarrow> current = Level_High | Edge_Falling \<Rightarrow> current = Level_Low
            | Edge_Both \<Rightarrow> True | Edge_None \<Rightarrow> False))"

text \<open>The level the callback is called with, if it is called, and the input.\<close>

definition set_simulated_level :: "level \<Rightarrow> hosted_input \<Rightarrow> level option \<times> hosted_input" where
  "set_simulated_level l s =
     (let s1 = s\<lparr>hosted_level := l\<rparr>
      in if \<not> edge_matches (hosted_edge s) (hosted_level s) l then (None, s1)
         else (if hosted_callback s1 then Some l else None, s1))"

text \<open>\<open>present\<close>: whether the new callback is one.\<close>

definition hosted_set_edge_callback :: "bool \<Rightarrow> hosted_input \<Rightarrow> hosted_input" where
  "hosted_set_edge_callback present s = s\<lparr>hosted_callback := present\<rparr>"

text \<open>An output is its level.\<close>

definition hosted_output_new :: "output_configuration \<Rightarrow> level" where
  "hosted_output_new c = initial_level c"

definition hosted_output_write :: "level \<Rightarrow> level \<Rightarrow> level" where
  "hosted_output_write l current = l"

text \<open>
  The retry loop of a toggle on the shared level. Before each exchange another thread may have written (\<open>Some\<close> its
  value), and an exchange may fail without a reason; the loop is followed for as many attempts as the list
  describes. The result is the value that was replaced and the one written.
\<close>

fun toggle_loop :: "(level option \<times> bool) list \<Rightarrow> level \<Rightarrow> level \<Rightarrow> (level \<times> level) option" where
  "toggle_loop [] expected current = None"
| "toggle_loop ((other, spurious) # attempts) expected current =
     (let current' = (case other of Some v \<Rightarrow> v | None \<Rightarrow> current)
      in if current' = expected \<and> \<not> spurious then Some (current', inverted expected)
         else toggle_loop attempts current' current')"

text \<open>
  The hosted factory (\<open>factory/linux/gpio.cpp\<close>) keeps for each pin a weak reference to the object it last gave
  out; it has expired when the object is not alive. \<open>new\<close> is the object that is made.
\<close>

record hosted_pins =
  hosted_owners :: "nat option list"
  hosted_alive :: "nat set"

definition expired :: "nat option \<Rightarrow> hosted_pins \<Rightarrow> bool" where
  "expired x s \<longleftrightarrow> (case x of None \<Rightarrow> True | Some i \<Rightarrow> i \<notin> hosted_alive s)"

definition hosted_create_pin :: "nat \<Rightarrow> pin \<Rightarrow> hosted_pins \<Rightarrow> nat option \<times> hosted_pins" where
  "hosted_create_pin new p s =
     (if \<not> valid_pin p then (None, s)
      else if \<not> expired (hosted_owners s ! pin_index p) s then (None, s)
      else (Some new, s\<lparr>hosted_alive := insert new (hosted_alive s), hosted_owners := (hosted_owners s)[pin_index p := Some new]\<rparr>))"

section \<open>Devices\<close>

text \<open>Buttons and lamps name the level at which they are active.\<close>

datatype button_state = Released | Pressed

definition state_from_level :: "level \<Rightarrow> level \<Rightarrow> button_state" where
  "state_from_level active l = (if l = active then Pressed else Released)"

text \<open>What a button gives its input to call, for a callback of its own.\<close>

definition button_edge_callback :: "level \<Rightarrow> (button_state \<Rightarrow> 'a) \<Rightarrow> level \<Rightarrow> 'a" where
  "button_edge_callback active callback l = callback (if l = active then Pressed else Released)"

definition led_turn_on :: "level \<Rightarrow> (level \<Rightarrow> 'w \<Rightarrow> 'w) \<Rightarrow> 'w \<Rightarrow> 'w" where
  "led_turn_on active write = write active"

definition led_turn_off :: "level \<Rightarrow> (level \<Rightarrow> 'w \<Rightarrow> 'w) \<Rightarrow> 'w \<Rightarrow> 'w" where
  "led_turn_off active write = write (inverted active)"

definition led_is_on :: "level \<Rightarrow> ('w \<Rightarrow> level) \<Rightarrow> 'w \<Rightarrow> bool" where
  "led_is_on active read w \<longleftrightarrow> read w = active"

section \<open>The devices of the board\<close>

text \<open>
  \<open>platform/hal/board/nucleo_h753zi/board.cpp\<close>: three lamps and a button, each made at its first use; \<open>lamps\<close> keeps
  whether that succeeded.
\<close>

datatype led_id = Green | Yellow | Red

definition led_pin :: "led_id \<Rightarrow> pin" where
  "led_pin i =
     (case i of Green \<Rightarrow> \<lparr>port = 1, pin_number = 0\<rparr> | Yellow \<Rightarrow> \<lparr>port = 4, pin_number = 1\<rparr> | Red \<Rightarrow> \<lparr>port = 1, pin_number = 14\<rparr>)"

definition make_led :: "pin \<Rightarrow> board_pins \<Rightarrow> bool \<times> board_pins" where
  "make_led p = create_output \<lparr>out_pin = p, initial_level = Level_Low, out_type = Push_Pull, out_pull = Pull_None, out_speed = Speed_Low\<rparr>"

definition make_user_button :: "board_pins \<Rightarrow> (bool \<times> board_pins) option" where
  "make_user_button = create_input \<lparr>in_pin = \<lparr>port = 2, pin_number = 13\<rparr>, in_pull = Pull_Down, in_edge = Edge_Both\<rparr>"

record board_devices =
  pins_part :: board_pins
  lamps :: "led_id \<Rightarrow> bool option"
  user_button :: "bool option"

definition create_led :: "led_id \<Rightarrow> board_devices \<Rightarrow> bool \<times> board_devices" where
  "create_led i s =
     (case lamps s i of
        Some ok \<Rightarrow> (ok, s)
      | None \<Rightarrow>
          let (ok, b) = make_led (led_pin i) (pins_part s)
          in (ok, s\<lparr>pins_part := b, lamps := (lamps s)(i := Some ok)\<rparr>))"

definition create_button :: "board_devices \<Rightarrow> (bool \<times> board_devices) option" where
  "create_button s =
     (case user_button s of
        Some ok \<Rightarrow> Some (ok, s)
      | None \<Rightarrow>
          (case make_user_button (pins_part s) of
             None \<Rightarrow> None
           | Some (ok, b) \<Rightarrow> Some (ok, s\<lparr>pins_part := b, user_button := Some ok\<rparr>)))"

end
