(* ===== verification/Entropy.thy ===== *)
theory Entropy
  imports Prelude
begin

text \<open>
  Random numbers: the drivers (\<open>platform/hal/drivers/impl/linux/Rng.cpp\<close>, \<open>impl/stm32/Rng.cpp\<close>) and
  \<open>std::random_device\<close> on them (\<open>runtime/libstdcxx/random.cpp\<close>). The answers of the kernel are given as a list,
  one for each call of \<open>getrandom\<close>.
\<close>

section \<open>The drivers\<close>

datatype random_answer = Random_Bytes "u8 list" | Random_Errno errno

datatype rng_error = Rng_Error | Rng_Status u32

text \<open>
  The loop fills the four bytes of a value: \<open>filled\<close> are the bytes so far. A call is asked for the bytes that are
  missing, so an answer of more is cut to them. The result is \<open>None\<close> when the answers have run out, else the value's
  bytes or the error.
\<close>

definition sizeof_value :: nat where
  "sizeof_value = 4"

fun generate_loop :: "random_answer list \<Rightarrow> u8 list \<Rightarrow> (rng_error + u8 list) option" where
  "generate_loop answers filled =
     (if length filled \<ge> sizeof_value then Some (Inr filled)
      else case answers of
        [] \<Rightarrow> None
      | Random_Errno e # rest \<Rightarrow> if e = EINTR then generate_loop rest filled else Some (Inl Rng_Error)
      | Random_Bytes bs # rest \<Rightarrow>
          let got = take (sizeof_value - length filled) bs
          in if got = [] then Some (Inl Rng_Error) else generate_loop rest (filled @ got))"

definition hosted_generate :: "random_answer list \<Rightarrow> (rng_error + u8 list) option" where
  "hosted_generate answers = generate_loop answers []"

text \<open>On the board the value or the status of the HAL, with the lock held.\<close>

definition board_generate :: "u32 \<Rightarrow> u32 \<Rightarrow> rng_error + u32" where
  "board_generate status value = (if status \<noteq> 0 then Inl (Rng_Status status) else Inr value)"

section \<open>\<open>std::random_device\<close>\<close>

datatype random_exception =
    Unsupported_Token string
  | Null_Token
  | Generator_Unavailable
  | Generation_Failed rng_error

definition validate_token :: "string \<Rightarrow> random_exception + unit" where
  "validate_token token =
     (if token \<noteq> ''default'' \<and> token \<noteq> ''hardware'' then Inl (Unsupported_Token token) else Inr ())"

definition random_device_init :: "string \<Rightarrow> random_exception + unit" where
  "random_device_init token = validate_token token"

text \<open>From a pointer, that may be null, and a length.\<close>

definition random_device_init_pointer :: "string option \<Rightarrow> nat \<Rightarrow> random_exception + unit" where
  "random_device_init_pointer token n =
     (case token of None \<Rightarrow> Inl Null_Token | Some t \<Rightarrow> validate_token (take n t))"

text \<open>\<open>rng\<close> is the driver the factory made once, \<open>None\<close> if it could not; \<open>generate\<close> its answer.\<close>

definition hardware_random_value :: "('g \<Rightarrow> rng_error + 'v) \<Rightarrow> 'g option \<Rightarrow> random_exception + 'v" where
  "hardware_random_value generate rng =
     (case rng of
        None \<Rightarrow> Inl Generator_Unavailable
      | Some g \<Rightarrow> (case generate g of Inl e \<Rightarrow> Inl (Generation_Failed e) | Inr v \<Rightarrow> Inr v))"

section \<open>What is returned is what the kernel gave\<close>

fun given :: "random_answer list \<Rightarrow> u8 list" where
  "given [] = []"
| "given (Random_Bytes bs # rest) = bs @ given rest"
| "given (Random_Errno e # rest) = given rest"

declare generate_loop.simps [simp del]

text \<open>An answer, as documented, has at most the bytes asked for; then no byte of the kernel is lost or repeated.\<close>

fun answers_fit :: "random_answer list \<Rightarrow> nat \<Rightarrow> bool" where
  "answers_fit [] n \<longleftrightarrow> True"
| "answers_fit (Random_Bytes bs # rest) n \<longleftrightarrow> length bs \<le> n \<and> answers_fit rest (n - length bs)"
| "answers_fit (Random_Errno e # rest) n \<longleftrightarrow> answers_fit rest n"

lemma generate_loop_bytes:
  "length filled \<le> sizeof_value \<Longrightarrow> generate_loop answers filled = Some (Inr v) \<Longrightarrow>
   answers_fit answers (sizeof_value - length filled) \<Longrightarrow> \<exists>n. v = filled @ given (take n answers) \<and> length v = sizeof_value"
proof (induction answers arbitrary: filled)
  case Nil
  then show ?case by (subst (asm) generate_loop.simps) (auto split: if_splits intro: exI [of _ 0])
next
  case (Cons a answers)
  show ?case
  proof (cases "length filled \<ge> sizeof_value")
    case True
    then show ?thesis using Cons.prems by (subst (asm) generate_loop.simps) (auto intro: exI [of _ 0])
  next
    case False
    show ?thesis
    proof (cases a)
      case (Random_Bytes bs)
      have fit: "length bs \<le> sizeof_value - length filled" "answers_fit answers (sizeof_value - length filled - length bs)"
        using Cons.prems(3) by (simp_all add: Random_Bytes)
      have g: "bs \<noteq> []" "generate_loop answers (filled @ bs) = Some (Inr v)"
        using Cons.prems(2) False fit generate_loop.simps [of "a # answers" filled] by (auto simp: Random_Bytes Let_def split: if_splits)
      have "length (filled @ bs) \<le> sizeof_value" using fit(1) False by (simp only: length_append)
      with Cons.IH [OF _ g(2)] fit(2) obtain n where v: "v = (filled @ bs) @ given (take n answers)" and l: "length v = sizeof_value"
        by auto
      from l show ?thesis by (intro exI [of _ "Suc n"] conjI) (simp add: Random_Bytes v)
    next
      case (Random_Errno e)
      have "generate_loop answers filled = Some (Inr v)"
        using Cons.prems(2) False by (subst (asm) generate_loop.simps) (simp add: Random_Errno split: if_splits)
      then obtain n where v: "v = filled @ given (take n answers)" and l: "length v = sizeof_value"
        using Cons.IH [of filled] Cons.prems by (auto simp: Random_Errno)
      from l show ?thesis by (intro exI [of _ "Suc n"] conjI) (simp add: Random_Errno v)
    qed
  qed
qed

lemma generate_loop_returns:
  "sizeof_value - length filled \<le> length (filter (\<lambda>a. a \<noteq> Random_Errno EINTR) answers) \<Longrightarrow> generate_loop answers filled \<noteq> None"
proof (induction answers arbitrary: filled)
  case Nil
  then show ?case by (subst generate_loop.simps) simp
next
  case (Cons a answers)
  have more: "generate_loop answers (filled @ got) \<noteq> None"
    if "got \<noteq> []" "sizeof_value - length filled \<le> Suc (length (filter (\<lambda>a. a \<noteq> Random_Errno EINTR) answers))" for got
  proof (rule Cons.IH)
    have "1 \<le> length got" using that(1) by (cases got) simp_all
    then show "sizeof_value - length (filled @ got) \<le> length (filter (\<lambda>a. a \<noteq> Random_Errno EINTR) answers)"
      using that(2) by simp
  qed
  show ?case
    using Cons.prems Cons.IH [of filled] more by (cases a) (subst generate_loop.simps, auto simp: Let_def)+
qed

text \<open>
  A hosted random value consists of bytes the kernel has given, each once and in their order, whatever the
  interruptions and short answers; a call returns after four answers that are not interruptions at the latest.\<close>

theorem random_value_exact:
  "(answers_fit answers sizeof_value \<longrightarrow> hosted_generate answers = Some (Inr v) \<longrightarrow>
      (\<exists>n. v = given (take n answers)) \<and> length v = sizeof_value) \<and>
   (sizeof_value \<le> length (filter (\<lambda>a. a \<noteq> Random_Errno EINTR) answers) \<longrightarrow> hosted_generate answers \<noteq> None)"
  using generate_loop_bytes [of "[]" answers v] generate_loop_returns [of "[]" answers] by (auto simp: hosted_generate_def)

theorem random_value_exact_witness:
  "\<exists>n. [1, 2, 3, 4] = given (take n [Random_Bytes [1], Random_Errno EINTR, Random_Bytes [2, 3, 4 :: u8]])"
  using random_value_exact [of "[Random_Bytes [1], Random_Errno EINTR, Random_Bytes [2, 3, 4]]" "[1, 2, 3, 4]"]
  by (simp add: hosted_generate_def generate_loop.simps sizeof_value_def)

text \<open>A random device can be made exactly for the two names of the hardware, the pointer's length counting.\<close>

lemma random_device_tokens:
  "random_device_init_pointer token n = Inr () \<longleftrightarrow> (\<exists>t. token = Some t \<and> take n t \<in> {''default'', ''hardware''})"
  by (cases token) (auto simp: random_device_init_pointer_def validate_token_def)

end
