(* ===== verification/Libc_Locks.thy ===== *)
theory Libc_Locks
  imports Runtime_Context
begin

text \<open>
  The hooks of the C library on the board (\<open>platform/runtime/libc/libc.c\<close>): its eight static locks, the pool of
  the locks it makes at run time, and the reentrancy structure of each thread. A lock is named by its address; the
  static ones are 0 to 7. ThreadX mutexes are recursive: getting one waits while another thread owns it, and putting one fails
  for a thread that does not own it. \<open>calloc\<close> and the creations of mutexes answer as the arguments say.
\<close>

section \<open>State\<close>

record libc_lock =
  created :: bool
  allocated :: bool
  dynamic :: bool

datatype libc_mutex = Pool_Mutex | Lock_Mutex nat

record newlib =
  dynamic_locks :: "nat list"
  lock_at :: "nat \<Rightarrow> libc_lock"
  libc_locks_ready :: bool
  mutex_holder :: "libc_mutex \<Rightarrow> (nat \<times> nat) option"

definition STATIC_LOCKS :: nat where
  "STATIC_LOCKS = 8"

text \<open>A call stops the system, waits for a mutex, or returns.\<close>

datatype 'a libc_outcome = Lock_Failure | Waits | Returns 'a

fun then_do :: "'a libc_outcome \<Rightarrow> ('a \<Rightarrow> 'b libc_outcome) \<Rightarrow> 'b libc_outcome" where
  "then_do Lock_Failure f = Lock_Failure"
| "then_do Waits f = Waits"
| "then_do (Returns a) f = f a"

section \<open>Mutexes\<close>

definition get_mutex :: "libc_mutex \<Rightarrow> nat \<Rightarrow> newlib \<Rightarrow> newlib option" where
  "get_mutex m t s =
     (case mutex_holder s m of
        None \<Rightarrow> Some (s\<lparr>mutex_holder := (mutex_holder s)(m \<mapsto> (t, 1))\<rparr>)
      | Some (o', n) \<Rightarrow> if o' = t then Some (s\<lparr>mutex_holder := (mutex_holder s)(m \<mapsto> (t, n + 1))\<rparr>) else None)"

definition put_mutex :: "libc_mutex \<Rightarrow> nat \<Rightarrow> newlib \<Rightarrow> newlib option" where
  "put_mutex m t s =
     (case mutex_holder s m of
        None \<Rightarrow> None
      | Some (o', n) \<Rightarrow>
          if o' = t then Some (s\<lparr>mutex_holder := (mutex_holder s)(m := if n = 1 then None else Some (t, n - 1))\<rparr>) else None)"

text \<open>\<open>None\<close> stops the system.\<close>

definition libc_locking_required :: "call_context \<Rightarrow> newlib \<Rightarrow> bool option" where
  "libc_locking_required x s =
     (if interrupt_context x then None
      else if tx_thread_identify x = None then Some False
      else if \<not> libc_locks_ready s then None
      else Some True)"

definition acquire_mutex :: "call_context \<Rightarrow> libc_mutex \<Rightarrow> newlib \<Rightarrow> newlib libc_outcome" where
  "acquire_mutex x m s =
     (case get_mutex m (the (tx_thread_identify x)) s of None \<Rightarrow> Waits | Some s1 \<Rightarrow> Returns s1)"

definition release_mutex :: "call_context \<Rightarrow> libc_mutex \<Rightarrow> newlib \<Rightarrow> newlib libc_outcome" where
  "release_mutex x m s =
     (case put_mutex m (the (tx_thread_identify x)) s of None \<Rightarrow> Lock_Failure | Some s1 \<Rightarrow> Returns s1)"

section \<open>Locking\<close>

definition acquire_libc_lock :: "call_context \<Rightarrow> nat option \<Rightarrow> newlib \<Rightarrow> newlib libc_outcome" where
  "acquire_libc_lock x lock s =
     (case libc_locking_required x s of
        None \<Rightarrow> Lock_Failure
      | Some False \<Rightarrow> Returns s
      | Some True \<Rightarrow>
          (case lock of
             None \<Rightarrow> Lock_Failure
           | Some a \<Rightarrow> if \<not> created (lock_at s a) then Lock_Failure else acquire_mutex x (Lock_Mutex a) s))"

text \<open>Whether the lock was taken, with the state.\<close>

definition try_acquire_libc_lock :: "call_context \<Rightarrow> nat option \<Rightarrow> newlib \<Rightarrow> (bool \<times> newlib) libc_outcome" where
  "try_acquire_libc_lock x lock s =
     (case libc_locking_required x s of
        None \<Rightarrow> Lock_Failure
      | Some False \<Rightarrow> Returns (True, s)
      | Some True \<Rightarrow>
          (case lock of
             None \<Rightarrow> Lock_Failure
           | Some a \<Rightarrow>
               if \<not> created (lock_at s a) then Lock_Failure
               else (case get_mutex (Lock_Mutex a) (the (tx_thread_identify x)) s of
                       None \<Rightarrow> Returns (False, s)
                     | Some s1 \<Rightarrow> Returns (True, s1))))"

definition release_libc_lock :: "call_context \<Rightarrow> nat option \<Rightarrow> newlib \<Rightarrow> newlib libc_outcome" where
  "release_libc_lock x lock s =
     (case libc_locking_required x s of
        None \<Rightarrow> Lock_Failure
      | Some False \<Rightarrow> Returns s
      | Some True \<Rightarrow>
          (case lock of
             None \<Rightarrow> Lock_Failure
           | Some a \<Rightarrow> if \<not> created (lock_at s a) then Lock_Failure else release_mutex x (Lock_Mutex a) s))"

section \<open>Creation\<close>

definition create_lock :: "(libc_mutex \<Rightarrow> bool) \<Rightarrow> nat \<Rightarrow> newlib \<Rightarrow> bool \<times> newlib" where
  "create_lock creates a s =
     (if \<not> creates (Lock_Mutex a) then (False, s)
      else (True, s\<lparr>lock_at := (lock_at s)(a := (lock_at s a)\<lparr>created := True\<rparr>)\<rparr>))"

fun create_locks :: "(libc_mutex \<Rightarrow> bool) \<Rightarrow> nat list \<Rightarrow> newlib \<Rightarrow> newlib libc_outcome" where
  "create_locks creates [] s = Returns s"
| "create_locks creates (a # as) s =
     (let (ok, s1) = create_lock creates a s in if \<not> ok then Lock_Failure else create_locks creates as s1)"

definition runtime_libc_initialize :: "(libc_mutex \<Rightarrow> bool) \<Rightarrow> newlib \<Rightarrow> newlib libc_outcome" where
  "runtime_libc_initialize creates s =
     (if libc_locks_ready s then Returns s
      else
        then_do (create_locks creates [0..<STATIC_LOCKS] s) (\<lambda>s1.
        then_do (create_locks creates (dynamic_locks s1) s1) (\<lambda>s2.
        if \<not> creates Pool_Mutex then Lock_Failure else Returns (s2\<lparr>libc_locks_ready := True\<rparr>))))"

section \<open>The pool\<close>

definition lock_dynamic_pool :: "call_context \<Rightarrow> newlib \<Rightarrow> newlib libc_outcome" where
  "lock_dynamic_pool x s =
     (case libc_locking_required x s of
        None \<Rightarrow> Lock_Failure | Some False \<Rightarrow> Returns s | Some True \<Rightarrow> acquire_mutex x Pool_Mutex s)"

definition unlock_dynamic_pool :: "call_context \<Rightarrow> newlib \<Rightarrow> newlib libc_outcome" where
  "unlock_dynamic_pool x s =
     (case libc_locking_required x s of
        None \<Rightarrow> Lock_Failure | Some False \<Rightarrow> Returns s | Some True \<Rightarrow> release_mutex x Pool_Mutex s)"

text \<open>
  The lock given out and the state. \<open>block\<close> is the address \<open>calloc\<close> answers, if it has memory; a call whose
  argument is a null pointer stops the system.
\<close>

definition retarget_lock_init ::
    "call_context \<Rightarrow> (libc_mutex \<Rightarrow> bool) \<Rightarrow> nat option \<Rightarrow> newlib \<Rightarrow> (nat \<times> newlib) libc_outcome" where
  "retarget_lock_init x creates block s =
     then_do (lock_dynamic_pool x s) (\<lambda>s1.
       case List.find (\<lambda>a. \<not> allocated (lock_at s1 a)) (dynamic_locks s1) of
         Some a \<Rightarrow>
           then_do (unlock_dynamic_pool x (s1\<lparr>lock_at := (lock_at s1)(a := (lock_at s1 a)\<lparr>allocated := True\<rparr>)\<rparr>))
             (\<lambda>s2. Returns (a, s2))
       | None \<Rightarrow>
           (case block of
              None \<Rightarrow> then_do (unlock_dynamic_pool x s1) (\<lambda>_. Lock_Failure)
            | Some a \<Rightarrow>
                let s2 = s1\<lparr>lock_at := (lock_at s1)(a := \<lparr>created = False, allocated = True, dynamic = True\<rparr>),
                            dynamic_locks := a # dynamic_locks s1\<rparr>;
                    (ok, s3) = (if \<not> libc_locks_ready s2 then (True, s2) else create_lock creates a s2)
                in if ok then then_do (unlock_dynamic_pool x s3) (\<lambda>s4. Returns (a, s4))
                   else then_do (unlock_dynamic_pool x s3) (\<lambda>_. Lock_Failure)))"

definition retarget_lock_close :: "call_context \<Rightarrow> nat option \<Rightarrow> newlib \<Rightarrow> newlib libc_outcome" where
  "retarget_lock_close x lock s =
     (case lock of
        None \<Rightarrow> Lock_Failure
      | Some a \<Rightarrow>
          then_do (lock_dynamic_pool x s) (\<lambda>s1.
            unlock_dynamic_pool x
              (if a \<in> set (dynamic_locks s1) \<and> dynamic (lock_at s1 a)
               then s1\<lparr>lock_at := (lock_at s1)(a := (lock_at s1 a)\<lparr>allocated := False\<rparr>)\<rparr> else s1)))"

section \<open>Reentrancy structures\<close>

text \<open>\<open>_impure_ptr\<close> points to the library's own structure or to that of a thread; \<open>reents\<close> are the initialised ones.\<close>

datatype reent_pointer = Impure_Data | Reent_Of nat

record reents =
  impure_ptr :: reent_pointer
  initialised_reents :: "nat set"

definition libc_preinitialize :: "reents \<Rightarrow> reents" where
  "libc_preinitialize r = r\<lparr>impure_ptr := Impure_Data\<rparr>"

definition libc_thread_create :: "nat option \<Rightarrow> reents \<Rightarrow> reents option" where
  "libc_thread_create thread r =
     (case thread of None \<Rightarrow> None | Some t \<Rightarrow> Some (r\<lparr>initialised_reents := insert t (initialised_reents r)\<rparr>))"

definition libc_thread_delete :: "nat option \<Rightarrow> reents \<Rightarrow> reents option" where
  "libc_thread_delete thread r =
     (case thread of
        None \<Rightarrow> None
      | Some t \<Rightarrow>
          let r1 = (if impure_ptr r = Reent_Of t then r\<lparr>impure_ptr := Impure_Data\<rparr> else r)
          in Some (r1\<lparr>initialised_reents := initialised_reents r1 - {t}\<rparr>))"

definition execution_initialize :: "reents \<Rightarrow> reents" where
  "execution_initialize r = r\<lparr>impure_ptr := Impure_Data\<rparr>"

definition execution_thread_enter :: "nat option \<Rightarrow> reents \<Rightarrow> reents" where
  "execution_thread_enter current r =
     r\<lparr>impure_ptr := (case current of None \<Rightarrow> Impure_Data | Some t \<Rightarrow> Reent_Of t)\<rparr>"

definition execution_thread_exit :: "reents \<Rightarrow> reents" where
  "execution_thread_exit r = r\<lparr>impure_ptr := Impure_Data\<rparr>"

end
