(* ===== verification/Libc_Properties.thy ===== *)
theory Libc_Properties
  imports Libc_Locks
begin

text \<open>
  A lock the library holds can always be locked, a new one is never one in use, the pool does not outgrow the use, and the
  library never works on the structure of a deleted thread.
\<close>

section \<open>Calls\<close>

lemma pool_call:
  assumes "lock_dynamic_pool x s = Returns s1"
  shows "lock_at s1 = lock_at s" "dynamic_locks s1 = dynamic_locks s" "libc_locks_ready s1 = libc_locks_ready s"
  using assms
  by (auto simp: lock_dynamic_pool_def acquire_mutex_def get_mutex_def split: option.splits bool.splits if_splits)

lemma pool_return:
  assumes "unlock_dynamic_pool x s = Returns s1"
  shows "lock_at s1 = lock_at s" "dynamic_locks s1 = dynamic_locks s" "libc_locks_ready s1 = libc_locks_ready s"
  using assms
  by (auto simp: unlock_dynamic_pool_def release_mutex_def put_mutex_def split: option.splits bool.splits if_splits)

lemma lock_calls:
  "acquire_libc_lock x l s = Returns s1 \<Longrightarrow> lock_at s1 = lock_at s \<and> dynamic_locks s1 = dynamic_locks s \<and> libc_locks_ready s1 = libc_locks_ready s"
  "try_acquire_libc_lock x l s = Returns (b, s1) \<Longrightarrow> lock_at s1 = lock_at s \<and> dynamic_locks s1 = dynamic_locks s \<and> libc_locks_ready s1 = libc_locks_ready s"
  "release_libc_lock x l s = Returns s1 \<Longrightarrow> lock_at s1 = lock_at s \<and> dynamic_locks s1 = dynamic_locks s \<and> libc_locks_ready s1 = libc_locks_ready s"
  by (auto simp: acquire_libc_lock_def try_acquire_libc_lock_def release_libc_lock_def acquire_mutex_def release_mutex_def
      get_mutex_def put_mutex_def split: option.splits bool.splits if_splits)

lemma then_do_Returns: "then_do r f = Returns y \<longleftrightarrow> (\<exists>a. r = Returns a \<and> f a = Returns y)"
  by (cases r) auto

section \<open>Reachable states\<close>

text \<open>
  The calls of the library, from any context that they do not stop: \<open>live\<close> are the locks it has been given and not
  closed, \<open>peak\<close> the most there were at a time. \<open>calloc\<close> answers a block that is not in use.
\<close>

inductive libc_reachable :: "newlib \<Rightarrow> nat set \<Rightarrow> nat \<Rightarrow> bool" where
  start: "dynamic_locks s = [] \<Longrightarrow> \<not> libc_locks_ready s \<Longrightarrow> libc_reachable s {} 0"
| initialised: "libc_reachable s live peak \<Longrightarrow> runtime_libc_initialize creates s = Returns s' \<Longrightarrow> libc_reachable s' live peak"
| opened: "libc_reachable s live peak \<Longrightarrow> (\<And>a. block = Some a \<Longrightarrow> STATIC_LOCKS \<le> a \<and> a \<notin> set (dynamic_locks s)) \<Longrightarrow>
    retarget_lock_init x creates block s = Returns (a, s') \<Longrightarrow>
    libc_reachable s' (insert a live) (max peak (card (insert a live)))"
| closed: "libc_reachable s live peak \<Longrightarrow> retarget_lock_close x (Some a) s = Returns s' \<Longrightarrow> libc_reachable s' (live - {a}) peak"
| acquired: "libc_reachable s live peak \<Longrightarrow> acquire_libc_lock x l s = Returns s' \<Longrightarrow> libc_reachable s' live peak"
| tried: "libc_reachable s live peak \<Longrightarrow> try_acquire_libc_lock x l s = Returns (b, s') \<Longrightarrow> libc_reachable s' live peak"
| released: "libc_reachable s live peak \<Longrightarrow> release_libc_lock x l s = Returns s' \<Longrightarrow> libc_reachable s' live peak"

definition libc_inv :: "newlib \<Rightarrow> nat set \<Rightarrow> nat \<Rightarrow> bool" where
  "libc_inv s live peak \<longleftrightarrow>
     distinct (dynamic_locks s) \<and> live \<subseteq> set (dynamic_locks s) \<and> length (dynamic_locks s) \<le> peak \<and> card live \<le> peak \<and>
     (\<forall>a \<in> set (dynamic_locks s). STATIC_LOCKS \<le> a \<and> dynamic (lock_at s a) \<and> (allocated (lock_at s a) \<longleftrightarrow> a \<in> live)) \<and>
     (libc_locks_ready s \<longrightarrow> (\<forall>a. a < STATIC_LOCKS \<or> a \<in> set (dynamic_locks s) \<longrightarrow> created (lock_at s a)))"

lemma libc_inv_cong:
  "libc_inv s live peak \<Longrightarrow> lock_at s' = lock_at s \<and> dynamic_locks s' = dynamic_locks s \<and> libc_locks_ready s' = libc_locks_ready s \<Longrightarrow>
   libc_inv s' live peak"
  by (simp add: libc_inv_def)

lemma create_locks_effect:
  "create_locks creates as s = Returns s' \<Longrightarrow>
   dynamic_locks s' = dynamic_locks s \<and> libc_locks_ready s' = libc_locks_ready s \<and>
   (\<forall>a. dynamic (lock_at s' a) = dynamic (lock_at s a) \<and> allocated (lock_at s' a) = allocated (lock_at s a) \<and>
        (created (lock_at s' a) \<longleftrightarrow> a \<in> set as \<or> created (lock_at s a)))"
proof (induction as arbitrary: s)
  case (Cons a as)
  then obtain s1 where c: "create_lock creates a s = (True, s1)" "create_locks creates as s1 = Returns s'"
    by (auto simp: Let_def split: prod.splits if_splits)
  then have "s1 = s\<lparr>lock_at := (lock_at s)(a := (lock_at s a)\<lparr>created := True\<rparr>)\<rparr>"
    by (simp add: create_lock_def split: if_splits)
  then show ?case using Cons.IH [OF c(2)] by simp
qed simp

lemma initialised_inv:
  assumes inv: "libc_inv s live peak" and r: "runtime_libc_initialize creates s = Returns s'"
  shows "libc_inv s' live peak"
proof (cases "libc_locks_ready s")
  case True
  with r inv show ?thesis by (simp add: runtime_libc_initialize_def)
next
  case False
  then obtain s1 s2 where c: "create_locks creates [0..<STATIC_LOCKS] s = Returns s1"
      "create_locks creates (dynamic_locks s1) s1 = Returns s2" "s' = s2\<lparr>libc_locks_ready := True\<rparr>"
    using r by (auto simp: runtime_libc_initialize_def then_do_Returns split: if_splits)
  note e = create_locks_effect [OF c(1)] create_locks_effect [OF c(2)]
  show ?thesis using inv e unfolding libc_inv_def c(3) by auto
qed

lemma opened_effect:
  assumes r: "retarget_lock_init x creates block s = Returns (a, s')"
  shows "(a \<in> set (dynamic_locks s) \<and> \<not> allocated (lock_at s a) \<and> dynamic_locks s' = dynamic_locks s \<and>
      lock_at s' = (lock_at s)(a := (lock_at s a)\<lparr>allocated := True\<rparr>) \<or>
    block = Some a \<and> (\<forall>b \<in> set (dynamic_locks s). allocated (lock_at s b)) \<and> dynamic_locks s' = a # dynamic_locks s \<and>
      lock_at s' = (lock_at s)(a := \<lparr>created = libc_locks_ready s, allocated = True, dynamic = True\<rparr>)) \<and>
    libc_locks_ready s' = libc_locks_ready s"
proof -
  obtain s1 where s1: "lock_dynamic_pool x s = Returns s1" using r by (cases "lock_dynamic_pool x s") (auto simp: retarget_lock_init_def)
  note p = pool_call [OF s1]
  show ?thesis
  proof (cases "List.find (\<lambda>a. \<not> allocated (lock_at s1 a)) (dynamic_locks s1)")
    case (Some b)
    then have b: "b \<in> set (dynamic_locks s)" "\<not> allocated (lock_at s b)" by (auto simp: find_Some_iff p)
    have "a = b" and u: "unlock_dynamic_pool x (s1\<lparr>lock_at := (lock_at s1)(b := (lock_at s1 b)\<lparr>allocated := True\<rparr>)\<rparr>) = Returns s'"
      using r by (auto simp: retarget_lock_init_def s1 Some then_do_Returns)
    then show ?thesis using b pool_return [OF u] p by simp
  next
    case None
    then have all: "\<forall>b \<in> set (dynamic_locks s). allocated (lock_at s b)" by (auto simp: find_None_iff p)
    let ?s2 = "s1\<lparr>lock_at := (lock_at s1)(a := \<lparr>created = False, allocated = True, dynamic = True\<rparr>), dynamic_locks := a # dynamic_locks s1\<rparr>"
    obtain s3 where b: "block = Some a" and c: "(if \<not> libc_locks_ready s then (True, ?s2) else create_lock creates a ?s2) = (True, s3)"
      and u: "unlock_dynamic_pool x s3 = Returns s'"
      using r by (auto simp: retarget_lock_init_def s1 None [unfolded p] p then_do_Returns Let_def split: option.splits prod.splits if_splits)
    have "dynamic_locks s3 = a # dynamic_locks s" "libc_locks_ready s3 = libc_locks_ready s"
      "lock_at s3 = (lock_at s)(a := \<lparr>created = libc_locks_ready s, allocated = True, dynamic = True\<rparr>)"
      using c by (auto simp: create_lock_def p split: if_splits)
    then show ?thesis using all b pool_return [OF u] by simp
  qed
qed

lemma opened_inv:
  assumes inv: "libc_inv s live peak" and block: "\<And>a. block = Some a \<Longrightarrow> STATIC_LOCKS \<le> a \<and> a \<notin> set (dynamic_locks s)"
    and r: "retarget_lock_init x creates block s = Returns (a, s')"
  shows "a \<notin> live" and "libc_inv s' (insert a live) (max peak (card (insert a live)))"
proof -
  have fin: "finite live" using inv by (auto simp: libc_inv_def intro: finite_subset)
  note e = opened_effect [OF r]
  show new: "a \<notin> live" using e inv block by (auto simp: libc_inv_def)
  show "libc_inv s' (insert a live) (max peak (card (insert a live)))"
  proof (cases "a \<in> set (dynamic_locks s)")
    case True
    then have "block \<noteq> Some a" using block by auto
    with e have e: "a \<in> set (dynamic_locks s)" "dynamic_locks s' = dynamic_locks s" "libc_locks_ready s' = libc_locks_ready s"
      "lock_at s' = (lock_at s)(a := (lock_at s a)\<lparr>allocated := True\<rparr>)" by simp_all
    show ?thesis using inv e by (auto simp: libc_inv_def le_max_iff_disj)
  next
    case False
    then have b: "block = Some a" "\<forall>b \<in> set (dynamic_locks s). allocated (lock_at s b)" "dynamic_locks s' = a # dynamic_locks s"
      "lock_at s' = (lock_at s)(a := \<lparr>created = libc_locks_ready s, allocated = True, dynamic = True\<rparr>)"
      "libc_locks_ready s' = libc_locks_ready s" using e by blast+
    then have "live = set (dynamic_locks s)" using inv by (auto simp: libc_inv_def)
    then have "length (dynamic_locks s') = card (insert a live)" using inv b(3) new by (simp add: libc_inv_def distinct_card)
    then show ?thesis using inv b block [OF b(1)] False by (auto simp: libc_inv_def)
  qed
qed

lemma closed_inv:
  assumes inv: "libc_inv s live peak" and r: "retarget_lock_close x (Some a) s = Returns s'"
  shows "libc_inv s' (live - {a}) peak"
proof -
  obtain s1 where s1: "lock_dynamic_pool x s = Returns s1"
    and u: "unlock_dynamic_pool x (if a \<in> set (dynamic_locks s1) \<and> dynamic (lock_at s1 a)
        then s1\<lparr>lock_at := (lock_at s1)(a := (lock_at s1 a)\<lparr>allocated := False\<rparr>)\<rparr> else s1) = Returns s'"
    using r by (auto simp: retarget_lock_close_def then_do_Returns)
  have "finite live" using inv by (auto simp: libc_inv_def intro: finite_subset)
  then have "card (live - {a}) \<le> peak" using inv card_mono [of live "live - {a}"] by (auto simp: libc_inv_def)
  then show ?thesis using inv pool_call [OF s1] pool_return [OF u] by (auto simp: libc_inv_def split: if_splits)
qed

lemma libc_reachable_inv: "libc_reachable s live peak \<Longrightarrow> libc_inv s live peak"
proof (induction rule: libc_reachable.induct)
  case (start s)
  then show ?case by (simp add: libc_inv_def)
next
  case (initialised s live peak creates s')
  then show ?case by (rule_tac initialised_inv)
next
  case (opened s live peak block x creates a s')
  show ?case by (rule opened_inv(2) [OF opened.IH opened.hyps(2,3)])
next
  case (closed s live peak x a s')
  then show ?case by (rule_tac closed_inv)
next
  case (acquired s live peak x l s')
  then show ?case by (rule_tac libc_inv_cong [OF _ lock_calls(1)])
next
  case (tried s live peak x l b s')
  then show ?case by (rule_tac libc_inv_cong [OF _ lock_calls(2)])
next
  case (released s live peak x l s')
  then show ?case by (rule_tac libc_inv_cong [OF _ lock_calls(3)])
qed

text \<open>
  C39. The locks of the C library. Once the library is initialised, a thread that acquires a static lock or one that it was given
  never stops the system: it waits exactly while another thread owns the lock, and otherwise owns it
  afterwards. A lock that is given out is none of those in use, and the pool never has more locks
  than were in use at one time.\<close>

theorem libc_locks_usable:
  assumes "libc_reachable s live peak" and "libc_locks_ready s" and "\<not> interrupt_context x" and "tx_thread_identify x = Some t"
    and "a < STATIC_LOCKS \<or> a \<in> live"
  shows "(acquire_libc_lock x (Some a) s = Waits \<longleftrightarrow> (\<exists>t' n. mutex_holder s (Lock_Mutex a) = Some (t', n) \<and> t' \<noteq> t)) \<and>
    (acquire_libc_lock x (Some a) s \<noteq> Waits \<longrightarrow> (\<exists>s' n. acquire_libc_lock x (Some a) s = Returns s' \<and>
       mutex_holder s' (Lock_Mutex a) = Some (t, n))) \<and>
    length (dynamic_locks s) \<le> peak \<and>
    (\<forall>b s'. (\<forall>a. block = Some a \<longrightarrow> STATIC_LOCKS \<le> a \<and> a \<notin> set (dynamic_locks s)) \<longrightarrow>
       retarget_lock_init x creates block s = Returns (b, s') \<longrightarrow> b \<notin> live \<and> STATIC_LOCKS \<le> b)"
proof -
  have inv: "libc_inv s live peak" by (rule libc_reachable_inv [OF assms(1)])
  then have c: "created (lock_at s a)" using assms(2,5) by (auto simp: libc_inv_def)
  have e: "acquire_libc_lock x (Some a) s = acquire_mutex x (Lock_Mutex a) s"
    using assms(2-4) c by (simp add: acquire_libc_lock_def libc_locking_required_def)
  have g: "b \<notin> live \<and> STATIC_LOCKS \<le> b"
    if "\<forall>a. block = Some a \<longrightarrow> STATIC_LOCKS \<le> a \<and> a \<notin> set (dynamic_locks s)" "retarget_lock_init x creates block s = Returns (b, s')" for b s'
    using opened_inv(1) [OF inv _ that(2)] opened_effect [OF that(2)] that(1) inv by (auto simp: libc_inv_def)
  let ?h = "mutex_holder s (Lock_Mutex a)"
  have w: "acquire_mutex x (Lock_Mutex a) s = Waits \<longleftrightarrow> (\<exists>t' n. ?h = Some (t', n) \<and> t' \<noteq> t)"
    by (auto simp: acquire_mutex_def get_mutex_def assms(4) split: option.splits prod.splits)
  have o': "\<exists>s' n. acquire_mutex x (Lock_Mutex a) s = Returns s' \<and> mutex_holder s' (Lock_Mutex a) = Some (t, n)"
    if "acquire_mutex x (Lock_Mutex a) s \<noteq> Waits"
    using that by (auto simp: acquire_mutex_def get_mutex_def assms(4) split: option.splits prod.splits)
  have "length (dynamic_locks s) \<le> peak" using inv by (simp add: libc_inv_def)
  then show ?thesis unfolding e using w o' g by blast
qed

text \<open>Acquiring and releasing are inverse to each other; the lock is owned as often as it was acquired.\<close>

lemma acquire_release:
  assumes "acquire_libc_lock x l s = Returns s1" and "\<And>m t n. mutex_holder s m = Some (t, n) \<Longrightarrow> 0 < n"
  shows "release_libc_lock x l s1 = Returns s"
proof (cases "libc_locking_required x s")
  case (Some required)
  show ?thesis
  proof (cases required)
    case False
    then show ?thesis using assms(1) Some by (simp add: acquire_libc_lock_def release_libc_lock_def)
  next
    case True
    then obtain a t where a: "l = Some a" "created (lock_at s a)" "get_mutex (Lock_Mutex a) t s = Some s1" "tx_thread_identify x = Some t"
      using assms(1) Some by (auto simp: acquire_libc_lock_def acquire_mutex_def libc_locking_required_def split: option.splits if_splits)
    have "libc_locking_required x s1 = Some True" "lock_at s1 = lock_at s"
      using Some True lock_calls(1) [OF assms(1)] by (auto simp: libc_locking_required_def split: if_splits)
    moreover have "put_mutex (Lock_Mutex a) t s1 = Some s"
      using a(3) assms(2) [of "Lock_Mutex a"] by (cases s) (auto simp: get_mutex_def put_mutex_def fun_upd_idem split: option.splits if_splits)
    ultimately show ?thesis using a by (simp add: release_libc_lock_def release_mutex_def)
  qed
qed (use assms(1) in \<open>simp add: acquire_libc_lock_def\<close>)

section \<open>Reentrancy structures\<close>

text \<open>What ThreadX calls: threads are created and deleted, and the running one changes.\<close>

inductive reent_reachable :: "reents \<Rightarrow> bool" where
  start: "initialised_reents r = {} \<Longrightarrow> reent_reachable (libc_preinitialize r)"
| kernel: "reent_reachable r \<Longrightarrow> reent_reachable (execution_initialize r)"
| created: "reent_reachable r \<Longrightarrow> libc_thread_create (Some t) r = Some r' \<Longrightarrow> reent_reachable r'"
| deleted: "reent_reachable r \<Longrightarrow> libc_thread_delete (Some t) r = Some r' \<Longrightarrow> reent_reachable r'"
| entered: "reent_reachable r \<Longrightarrow> t \<in> initialised_reents r \<Longrightarrow> reent_reachable (execution_thread_enter (Some t) r)"
| idle: "reent_reachable r \<Longrightarrow> reent_reachable (execution_thread_enter None r)"
| left: "reent_reachable r \<Longrightarrow> reent_reachable (execution_thread_exit r)"

text \<open>The library never works on the structure of a thread that was not initialised or is deleted.\<close>

lemma no_dangling_reent: "reent_reachable r \<Longrightarrow> impure_ptr r = Reent_Of t \<Longrightarrow> t \<in> initialised_reents r"
  by (induction rule: reent_reachable.induct)
    (auto simp: libc_preinitialize_def execution_initialize_def libc_thread_create_def libc_thread_delete_def Let_def
      execution_thread_enter_def execution_thread_exit_def split: if_splits)

section \<open>Examples\<close>

theorem libc_locks_usable_witness:
  "\<exists>s s'. acquire_libc_lock \<lparr>initialized = True, interrupt_context = False, tx_thread_identify = Some 4\<rparr> (Some 3) s = Returns s' \<and>
     libc_locks_ready s \<and> dynamic_locks s = [9]"
proof -
  let ?x = "\<lparr>initialized = True, interrupt_context = False, tx_thread_identify = Some 4\<rparr>"
  let ?boot = "\<lparr>initialized = False, interrupt_context = False, tx_thread_identify = None\<rparr>"
  define s0 where "s0 = \<lparr>dynamic_locks = [], lock_at = (\<lambda>_. \<lparr>created = False, allocated = False, dynamic = False\<rparr>),
    libc_locks_ready = False, mutex_holder = Map.empty\<rparr>"
  define s1 where "s1 = s0\<lparr>lock_at := (lock_at s0)(9 := \<lparr>created = False, allocated = True, dynamic = True\<rparr>), dynamic_locks := [9]\<rparr>"
  have r0: "libc_reachable s0 {} 0" by (rule libc_reachable.start) (simp_all add: s0_def)
  have op: "retarget_lock_init ?boot (\<lambda>_. True) (Some 9) s0 = Returns (9, s1)"
    by (simp add: retarget_lock_init_def lock_dynamic_pool_def unlock_dynamic_pool_def libc_locking_required_def s0_def s1_def)
  have r1: "libc_reachable s1 (insert 9 {}) (max 0 (card (insert (9 :: nat) {})))"
    by (rule libc_reachable.opened [OF r0 _ op]) (simp_all add: s0_def STATIC_LOCKS_def)
  obtain s2 where s2: "runtime_libc_initialize (\<lambda>_. True) s1 = Returns s2" "libc_locks_ready s2" "dynamic_locks s2 = [9]"
      "mutex_holder s2 = Map.empty"
    by (simp add: runtime_libc_initialize_def s0_def s1_def STATIC_LOCKS_def upt_rec create_lock_def)
  from r1 s2(1) have r: "libc_reachable s2 (insert 9 {}) (max 0 (card (insert (9 :: nat) {})))" by (rule libc_reachable.initialised)
  have "acquire_libc_lock ?x (Some 3) s2 \<noteq> Waits" and "\<exists>s'. acquire_libc_lock ?x (Some 3) s2 = Returns s'"
    using libc_locks_usable [OF r s2(2), of ?x 4 3 None "\<lambda>_. True"] s2(4) by (simp_all add: STATIC_LOCKS_def) blast+
  then show ?thesis using s2(2,3) by blast
qed

end
