(* ===== verification/Panic.thy ===== *)
theory Panic
  imports Runtime_Context
begin

text \<open>
  The end of the program (\<open>platform/hal/hal.cpp\<close>, the handlers of \<open>hal/linux/hal.cpp\<close> and
  \<open>hal/stm32/hal.cpp\<close>, \<open>platform/runtime/libstdcxx/terminate.cpp\<close>): an error handler prints what it knows without the
  library's streams, on the hosted system to standard error, on the board to the serial port, and never returns.
  Pointers to strings may be null.
\<close>

section \<open>What is reported\<close>

record panic_info =
  message :: "string option"
  detail :: "string option"
  source_file :: "string option"
  source_function :: "string option"
  source_line :: u32

record source_location =
  file_name :: string
  function_name :: string
  line_number :: u32

definition panic :: "string option \<Rightarrow> string option \<Rightarrow> source_location \<Rightarrow> panic_info" where
  "panic m d l = \<lparr>message = m, detail = d, source_file = Some (file_name l), source_function = Some (function_name l),
     source_line = line_number l\<rparr>"

definition hal_error_handler :: panic_info where
  "hal_error_handler = \<lparr>message = Some ''HAL Error_Handler invoked'', detail = None, source_file = None,
     source_function = None, source_line = 0\<rparr>"

text \<open>The exception that ended the program, if there is one.\<close>

datatype active_exception = Std_Exception string | Other_Exception

definition runtime_terminate_handler :: "active_exception option \<Rightarrow> source_location \<Rightarrow> panic_info" where
  "runtime_terminate_handler e l =
     (case e of
        None \<Rightarrow> panic (Some ''Runtime terminated without an active exception'') None l
      | Some (Std_Exception what) \<Rightarrow> panic (Some ''Unhandled C++ exception'') (Some what) l
      | Some Other_Exception \<Rightarrow> panic (Some ''Unhandled non-std C++ exception'') None l)"

section \<open>Line numbers\<close>

text \<open>The array of digits as it is filled, the last digit first; its size is 10.\<close>

function line_digits :: "u32 \<Rightarrow> string" where
  "line_digits line =
     (let c = char_of (48 + unat (line mod 10))
      in if line div 10 = 0 then [c] else c # line_digits (line div 10))"
  by pat_completeness auto

lemma div_ten_less: "line div 10 \<noteq> 0 \<Longrightarrow> unat (line div 10) < unat line" for line :: u32
proof -
  assume a: "line div 10 \<noteq> 0"
  have "unat (line div 10) = unat line div 10" by (simp add: unat_div)
  moreover from this a have "0 < unat line" by (auto simp: unat_gt_0)
  ultimately show ?thesis by simp
qed

termination line_digits
  by (relation "measure unat") (auto intro: div_ten_less)

declare line_digits.simps [simp del]

text \<open>The digits are written from the last of the array to its first.\<close>

definition panic_line :: "u32 \<Rightarrow> string" where
  "panic_line line = rev (line_digits line)"

section \<open>The hosted handler\<close>

datatype write_answer = Wrote nat | Write_Errno errno

text \<open>What reaches standard error, and the answers left; \<open>None\<close> if they run out.\<close>

fun panic_write_loop :: "write_answer list \<Rightarrow> string \<Rightarrow> (string \<times> write_answer list) option" where
  "panic_write_loop answers text =
     (if text = [] then Some ([], answers)
      else case answers of
        [] \<Rightarrow> None
      | Write_Errno e # rest \<Rightarrow> if e = EINTR then panic_write_loop rest text else Some ([], rest)
      | Wrote n # rest \<Rightarrow>
          if n = 0 then Some ([], rest)
          else map_option (\<lambda>(out, a). (take n text @ out, a)) (panic_write_loop rest (drop n text)))"

declare panic_write_loop.simps [simp del]

definition panic_write :: "write_answer list \<Rightarrow> string option \<Rightarrow> (string \<times> write_answer list) option" where
  "panic_write answers text = (case text of None \<Rightarrow> Some ([], answers) | Some t \<Rightarrow> panic_write_loop answers t)"

fun panic_write_all :: "write_answer list \<Rightarrow> string option list \<Rightarrow> (string \<times> write_answer list) option" where
  "panic_write_all answers [] = Some ([], answers)"
| "panic_write_all answers (t # ts) =
     (case panic_write answers t of
        None \<Rightarrow> None
      | Some (out, rest) \<Rightarrow> map_option (\<lambda>(out', a). (out @ out', a)) (panic_write_all rest ts))"

text \<open>The texts the handler writes one after the other; the digits of a line one by one.\<close>

definition hosted_panic_texts :: "panic_info option \<Rightarrow> string option list" where
  "hosted_panic_texts info =
     [Some ''[hal][panic] ''] @
     [case info of Some i \<Rightarrow> (case message i of Some m \<Rightarrow> Some m | None \<Rightarrow> Some ''fatal error'') | None \<Rightarrow> Some ''fatal error''] @
     (case info of
        None \<Rightarrow> []
      | Some i \<Rightarrow>
          (if detail i \<noteq> None then [Some '': '', detail i] else []) @
          (if source_file i \<noteq> None then
             [Some (char_of (10 :: nat) # ''  at ''), source_file i] @
             (if source_line i \<noteq> 0 then Some '':'' # map (\<lambda>c. Some [c]) (panic_line (source_line i)) else []) @
             (if source_function i \<noteq> None then [Some '' ('', source_function i, Some '')''] else [])
           else [])) @
     [Some [char_of (10 :: nat)]]"

text \<open>What it writes before it aborts.\<close>

definition hosted_panic_handler :: "write_answer list \<Rightarrow> panic_info option \<Rightarrow> string option" where
  "hosted_panic_handler answers info = map_option fst (panic_write_all answers (hosted_panic_texts info))"

section \<open>The board's handler\<close>

definition UART_SPIN_LIMIT :: nat where
  "UART_SPIN_LIMIT = 1000000"

text \<open>The wait for the transmitter; \<open>ready k\<close> is what the status register says at the \<open>k\<close>-th look. The count that remains.\<close>

fun uart_spin :: "(nat \<Rightarrow> bool) \<Rightarrow> nat \<Rightarrow> nat \<Rightarrow> nat" where
  "uart_spin ready k remaining =
     (if ready k then remaining
      else case remaining of 0 \<Rightarrow> 0 | Suc r \<Rightarrow> uart_spin ready (k + 1) r)"

declare uart_spin.simps [simp del]

definition panic_uart_write_character :: "bool \<Rightarrow> (nat \<Rightarrow> bool) \<Rightarrow> char \<Rightarrow> string" where
  "panic_uart_write_character enabled ready c =
     (if \<not> enabled then [] else if uart_spin ready 0 UART_SPIN_LIMIT \<noteq> 0 then [c] else [])"

definition board_panic_text :: "panic_info option \<Rightarrow> string" where
  "board_panic_text info =
     (let crlf = [char_of (13 :: nat), char_of (10 :: nat)]
      in crlf @ ''[hal][panic] '' @
         (case info of Some i \<Rightarrow> (case message i of Some m \<Rightarrow> m | None \<Rightarrow> ''fatal error'') | None \<Rightarrow> ''fatal error'') @
         (case info of
            None \<Rightarrow> []
          | Some i \<Rightarrow>
              (case detail i of None \<Rightarrow> [] | Some d \<Rightarrow> '': '' @ d) @
              (case source_file i of
                 None \<Rightarrow> []
               | Some f \<Rightarrow>
                   crlf @ ''  at '' @ f @
                   (if source_line i \<noteq> 0 then '':'' @ panic_line (source_line i) else []) @
                   (case source_function i of None \<Rightarrow> [] | Some g \<Rightarrow> '' ('' @ g @ '')''))) @
         crlf)"

text \<open>Character by character; the port is as \<open>uart\<close> says when its turn has come.\<close>

definition board_panic_output :: "(nat \<Rightarrow> bool \<times> (nat \<Rightarrow> bool)) \<Rightarrow> panic_info option \<Rightarrow> string" where
  "board_panic_output uart info =
     concat (map (\<lambda>(k, c). panic_uart_write_character (fst (uart k)) (snd (uart k)) c) (enumerate 0 (board_panic_text info)))"

section \<open>Line numbers are decimal\<close>

text \<open>The number a row of decimal digits stands for.\<close>

definition decimal_value :: "string \<Rightarrow> nat" where
  "decimal_value cs = foldl (\<lambda>n c. n * 10 + (of_char c - 48)) 0 cs"

lemma line_digits_exact:
  "unat line < 10 ^ Suc k \<Longrightarrow> decimal_value (rev (line_digits line)) = unat line \<and> length (line_digits line) \<le> Suc k \<and>
     (\<forall>c \<in> set (line_digits line). 48 \<le> (of_char c :: nat) \<and> (of_char c :: nat) \<le> 57) \<and>
     ((of_char (List.last (line_digits line)) :: nat) = 48 \<longrightarrow> line = 0)"
proof (induction line arbitrary: k rule: line_digits.induct)
  case (1 line)
  let ?d = "unat (line mod 10)"
  have d: "?d = unat line mod 10" "unat (line div 10) = unat line div 10" by (simp_all add: unat_mod unat_div)
  then have "?d < 10" by simp
  then have m: "(48 + ?d) mod 256 = 48 + ?d" by simp
  then have c: "(of_char (char_of (48 + ?d) :: char) :: nat) = 48 + ?d" by (simp only: of_char_of)
  have n: "unat line = unat line div 10 * 10 + ?d" by (simp add: d(1))
  show ?case
  proof (cases "line div 10 = 0")
    case True
    then have z: "unat line div 10 = 0" using d(2) by simp
    then have v: "unat line = ?d" using n by simp
    have "line_digits line = [char_of (48 + ?d)]" using True by (subst line_digits.simps) (simp add: Let_def)
    moreover have "?d < 10" by (simp add: d(1))
    moreover have "?d = 0 \<Longrightarrow> line = 0" using v by (simp add: word_unat_eq_iff)
    ultimately show ?thesis using v by (simp add: decimal_value_def c m)
  next
    case False
    have e: "line_digits line = char_of (48 + ?d) # line_digits (line div 10)"
      using False by (subst line_digits.simps) (simp add: Let_def)
    have "k \<noteq> 0"
    proof
      assume "k = 0"
      then have "unat line div 10 = 0" using 1(2) by simp
      then show False using False d(2) by (metis unat_eq_0)
    qed
    then obtain j where k: "k = Suc j" by (cases k) simp_all
    then have "unat (line div 10) < 10 ^ Suc j" using 1(2) d(2) by (simp add: less_mult_imp_div_less mult.commute)
    note ih = "1.IH" [OF refl False this]
    have ne: "line_digits (line div 10) \<noteq> []" by (subst line_digits.simps) (simp add: Let_def)
    have v: "decimal_value (rev (line_digits line)) = unat (line div 10) * 10 + ?d"
      using ih by (simp add: e decimal_value_def c m)
    have "?d < 10" by (simp add: d(1))
    then show ?thesis using ih ne v n False d(2) k by (auto simp: e c m)
  qed
qed

text \<open>
  A line number is printed in decimal, without leading zeros, in at most the ten digits for which the handler has
  room.\<close>

theorem panic_line_decimal:
  "decimal_value (panic_line line) = unat line \<and> length (panic_line line) \<le> 10 \<and>
   (\<forall>c \<in> set (panic_line line). 48 \<le> (of_char c :: nat) \<and> (of_char c :: nat) \<le> 57) \<and> (hd (panic_line line) = CHR ''0'' \<longrightarrow> line = 0)"
proof -
  have "unat line < 2 ^ LENGTH(32)" by (rule unsigned_less)
  then have "unat line < 10 ^ Suc 9" by simp
  note x = line_digits_exact [OF this]
  have "line_digits line \<noteq> []" by (subst line_digits.simps) (simp add: Let_def)
  then show ?thesis using x by (simp add: panic_line_def hd_rev)
qed

theorem panic_line_decimal_witness: "decimal_value (panic_line 907) = 907 \<and> hd (panic_line 907) \<noteq> CHR ''0''"
  using panic_line_decimal [of 907] by auto

section \<open>What is printed\<close>

text \<open>With a working console the two handlers print the same words.\<close>

definition panic_words :: "string \<Rightarrow> string \<Rightarrow> panic_info option \<Rightarrow> string" where
  "panic_words first newline info =
     first @ ''[hal][panic] '' @ (case info of Some i \<Rightarrow> (case message i of Some m \<Rightarrow> m | None \<Rightarrow> ''fatal error'') | None \<Rightarrow> ''fatal error'') @
     (case info of
        None \<Rightarrow> []
      | Some i \<Rightarrow>
          (case detail i of None \<Rightarrow> [] | Some d \<Rightarrow> '': '' @ d) @
          (case source_file i of
             None \<Rightarrow> []
           | Some f \<Rightarrow>
               newline @ ''  at '' @ f @
               (if source_line i \<noteq> 0 then '':'' @ panic_line (source_line i) else []) @
               (case source_function i of None \<Rightarrow> [] | Some g \<Rightarrow> '' ('' @ g @ '')''))) @
     newline"

lemma panic_write_loop_whole:
  "(\<forall>a \<in> set answers. \<exists>n > 0. a = Wrote n) \<Longrightarrow> length t \<le> length answers \<Longrightarrow>
   \<exists>rest. panic_write_loop answers t = Some (t, rest) \<and> set rest \<subseteq> set answers \<and> length answers \<le> length rest + length t"
proof (induction answers arbitrary: t)
  case Nil
  then show ?case by (subst panic_write_loop.simps) simp
next
  case (Cons a answers)
  show ?case
  proof (cases "t = []")
    case True
    then show ?thesis by (subst panic_write_loop.simps) simp
  next
    case False
    obtain n where n: "a = Wrote n" "0 < n" using Cons.prems(1) by auto
    have "length (drop n t) < length t" using False n(2) by simp
    then obtain rest where r: "panic_write_loop answers (drop n t) = Some (drop n t, rest)" "set rest \<subseteq> set answers"
        "length answers \<le> length rest + length (drop n t)"
      using Cons.IH [of "drop n t"] Cons.prems by auto
    have "panic_write_loop (a # answers) t = Some (t, rest)"
      using False n r(1) by (subst panic_write_loop.simps) simp
    then show ?thesis using r(2,3) \<open>length (drop n t) < length t\<close> by auto
  qed
qed

definition text_of :: "string option list \<Rightarrow> string" where
  "text_of ts = concat (map (case_option [] id) ts)"

lemma panic_write_all_whole:
  "(\<forall>a \<in> set answers. \<exists>n > 0. a = Wrote n) \<Longrightarrow> length (text_of ts) \<le> length answers \<Longrightarrow>
   \<exists>rest. panic_write_all answers ts = Some (text_of ts, rest)"
proof (induction ts arbitrary: answers)
  case (Cons t ts)
  obtain rest where r: "panic_write answers t = Some (case_option [] id t, rest)" "set rest \<subseteq> set answers"
      "length answers \<le> length rest + length (case_option [] id t)"
    using Cons.prems panic_write_loop_whole [of answers "the t"] by (cases t) (auto simp: panic_write_def text_of_def)
  have "\<exists>rest'. panic_write_all rest ts = Some (text_of ts, rest')"
  proof (rule Cons.IH)
    show "\<forall>a \<in> set rest. \<exists>n > 0. a = Wrote n" using Cons.prems(1) r(2) by blast
    show "length (text_of ts) \<le> length rest" using Cons.prems(2) r(3) by (simp add: text_of_def)
  qed
  then show ?case using r(1) by (auto simp: text_of_def)
qed (simp add: text_of_def)

lemma hosted_texts: "text_of (hosted_panic_texts info) = panic_words [] [char_of (10 :: nat)] info"
proof -
  have "concat (map (case_option [] id \<circ> (\<lambda>c. Some [c])) cs) = cs" for cs :: string by (induction cs) simp_all
  then show ?thesis by (cases info) (auto simp: text_of_def hosted_panic_texts_def panic_words_def split: option.splits)
qed

lemma uart_spin_waits: "uart_spin ready k n \<noteq> 0 \<longleftrightarrow> (\<exists>j < n. ready (k + j))"
proof (induction n arbitrary: k)
  case 0
  show ?case by (subst uart_spin.simps) simp
next
  case (Suc n)
  have "(\<exists>j < Suc n. ready (k + j)) \<longleftrightarrow> ready k \<or> (\<exists>j < n. ready (k + 1 + j))" by (auto simp: Ex_less_Suc2)
  then show ?case using Suc [of "k + 1"] by (subst uart_spin.simps) simp
qed

lemma board_text: "board_panic_text info = panic_words [char_of (13 :: nat), char_of (10 :: nat)] [char_of (13 :: nat), char_of (10 :: nat)] info"
  by (cases info) (auto simp: board_panic_text_def panic_words_def Let_def split: option.splits)

text \<open>
  C40. What a panic says. If the console takes every write, if only byte by byte, the hosted handler writes the whole report: the message, the
  detail, the file, the line and the function, as far as they are there. The board writes the same report, with its own line ends, if the
  port is enabled and becomes ready for each character within a million looks; a character for which it does not is left out, and
  the handler goes on.\<close>

theorem panic_reported:
  "((\<forall>a \<in> set answers. \<exists>n > 0. a = Wrote n) \<longrightarrow> length (panic_words [] [char_of (10 :: nat)] info) \<le> length answers \<longrightarrow>
      hosted_panic_handler answers info = Some (panic_words [] [char_of (10 :: nat)] info)) \<and>
   board_panic_output uart info =
     concat (map (\<lambda>(k, c). if fst (uart k) \<and> (\<exists>j < 1000000. snd (uart k) j) then [c] else [])
       (enumerate 0 (panic_words [char_of (13 :: nat), char_of (10 :: nat)] [char_of (13 :: nat), char_of (10 :: nat)] info)))"
proof
  show "(\<forall>a \<in> set answers. \<exists>n > 0. a = Wrote n) \<longrightarrow> length (panic_words [] [char_of (10 :: nat)] info) \<le> length answers \<longrightarrow>
      hosted_panic_handler answers info = Some (panic_words [] [char_of (10 :: nat)] info)"
  proof (intro impI)
    assume a: "\<forall>a \<in> set answers. \<exists>n > 0. a = Wrote n" and "length (panic_words [] [char_of (10 :: nat)] info) \<le> length answers"
    then have "length (text_of (hosted_panic_texts info)) \<le> length answers" by (simp only: hosted_texts)
    from panic_write_all_whole [OF a this] show "hosted_panic_handler answers info = Some (panic_words [] [char_of (10 :: nat)] info)"
      by (auto simp: hosted_panic_handler_def hosted_texts)
  qed
  have u: "uart_spin r 0 1000000 \<noteq> 0 \<longleftrightarrow> (\<exists>j < 1000000. r j)" for r using uart_spin_waits [of r 0 1000000] by simp
  have "(\<lambda>(k, c). panic_uart_write_character (fst (uart k)) (snd (uart k)) c) =
      (\<lambda>(k, c). if fst (uart k) \<and> (\<exists>j < 1000000. snd (uart k) j) then [c] else [])"
    by (simp only: panic_uart_write_character_def UART_SPIN_LIMIT_def u) (auto simp: fun_eq_iff)
  then show "board_panic_output uart info =
     concat (map (\<lambda>(k, c). if fst (uart k) \<and> (\<exists>j < 1000000. snd (uart k) j) then [c] else [])
       (enumerate 0 (panic_words [char_of (13 :: nat), char_of (10 :: nat)] [char_of (13 :: nat), char_of (10 :: nat)] info)))"
    by (simp only: board_panic_output_def board_text)
qed

theorem panic_reported_witness:
  "hosted_panic_handler (replicate 40 (Wrote 1)) (Some hal_error_handler) = Some (''[hal][panic] HAL Error_Handler invoked'' @ [char_of (10 :: nat)])"
proof -
  have w: "panic_words [] [char_of (10 :: nat)] (Some hal_error_handler) = ''[hal][panic] HAL Error_Handler invoked'' @ [char_of (10 :: nat)]"
    by (simp add: panic_words_def hal_error_handler_def)
  have a: "\<forall>a \<in> set (replicate 40 (Wrote 1)). \<exists>n > 0. a = Wrote n" by simp
  have l: "length (panic_words [] [char_of (10 :: nat)] (Some hal_error_handler)) \<le> length (replicate 40 (Wrote 1))"
    unfolding w length_append length_replicate by simp
  show ?thesis using conjunct1 [OF panic_reported [of "replicate 40 (Wrote 1)" "Some hal_error_handler" "\<lambda>_. (True, \<lambda>_. True)"],
      rule_format, OF a [rule_format] l] unfolding w by blast
qed

end
