(* ===== verification/System_Start.thy ===== *)
theory System_Start
  imports Filesystem Runtime_Startup Panic Block_Properties Startup_Properties
begin

text \<open>
  The start of the program (\<open>platform/runtime/startup.cpp\<close>, \<open>hal::initialize\<close> of \<open>platform/hal/hal.cpp\<close>, the
  initialisers of \<open>platform/hal/linux/hal.cpp\<close> that stand for the vendor's): the hardware, then ThreadX, which calls
  \<open>tx_application_define\<close>, then the application's thread, which starts the file system and runs the program. What the vendor's
  initialisers and ThreadX answer are arguments.
\<close>

section \<open>Hardware\<close>

datatype hal_call =
    MPU_Config_User | SCB_EnableICache | SCB_EnableDCache | HAL_Init | SystemClock_Config | MX_GPIO_Init | MX_ETH_Init
  | MX_RTC_Init | MX_TIM2_Init | MX_RNG_Init | BSP_COM_Init nat u32

text \<open>Why a start stops.\<close>

datatype stop = Error_Handler_Called | Terminated "active_exception option" | Storage_Failure

definition COM1 :: nat where
  "COM1 = 0"

definition com_baud_rate :: u32 where
  "com_baud_rate = 115200"

text \<open>The calls that are made, and the stop if one of the two that answer refuses.\<close>

definition hal_initialize :: "(hal_call \<Rightarrow> bool) \<Rightarrow> hal_call list \<times> stop option" where
  "hal_initialize ok =
     (let before = [MPU_Config_User, SCB_EnableICache, SCB_EnableDCache, HAL_Init]
      in if \<not> ok HAL_Init then (before, Some Error_Handler_Called)
         else
           let com = BSP_COM_Init COM1 com_baud_rate;
               done = before @ [SystemClock_Config, MX_GPIO_Init, MX_ETH_Init, MX_RTC_Init, MX_TIM2_Init, MX_RNG_Init, com]
           in if \<not> ok com then (done, Some Error_Handler_Called) else (done, None))"

text \<open>The hosted initialisers print their name and succeed.\<close>

fun hosted_message :: "hal_call \<Rightarrow> string" where
  "hosted_message MPU_Config_User = ''MPU_Config_User''"
| "hosted_message SCB_EnableICache = ''SCB_EnableICache''"
| "hosted_message SCB_EnableDCache = ''SCB_EnableDCache''"
| "hosted_message HAL_Init = ''HAL_Init''"
| "hosted_message SystemClock_Config = ''SystemClock_Config''"
| "hosted_message MX_GPIO_Init = ''MX_GPIO_Init''"
| "hosted_message MX_ETH_Init = ''MX_ETH_Init''"
| "hosted_message MX_RTC_Init = ''MX_RTC_Init''"
| "hosted_message MX_TIM2_Init = ''MX_TIM2_Init''"
| "hosted_message MX_RNG_Init = ''MX_RNG_Init''"
| "hosted_message (BSP_COM_Init com baud) =
     ''BSP_COM_Init(com='' @ panic_line (of_nat com) @ '', baud='' @ panic_line baud @ '')''"

definition print_message :: "string \<Rightarrow> string" where
  "print_message m = ''[sim][hal] '' @ m @ [char_of (10 :: nat)]"

definition hosted_call :: "hal_call \<Rightarrow> bool \<times> string" where
  "hosted_call c = (True, print_message (hosted_message c))"

text \<open>What \<open>hal::initialize\<close> prints on the hosted system.\<close>

definition hosted_initialize :: "string \<times> stop option" where
  "hosted_initialize =
     (let (calls, s) = hal_initialize (fst \<circ> hosted_call) in (concat (map (snd \<circ> hosted_call) calls), s))"

section \<open>Threads\<close>

datatype platform = Board | Hosted

record 'w system =
  stack_error_handler :: bool
  created :: "nat list"
  tls_of :: tls
  runtime_of :: "'w startup"
  arguments :: "string list"

text \<open>What the start meets: ThreadX's answers, the linker's image, the memory, the clock, and the weak function of the program.\<close>

record 'w start_env =
  notify_answer :: tx_status
  create_answer :: tx_status
  image_of :: tls_image
  memory_of :: allocator
  clock_of :: "'w clock_services"
  rtc_time_of :: "(int \<times> u32) option"
  timer_started :: bool
  objects_of :: creations
  runtime_application_define :: "('w system \<Rightarrow> 'w system) option"

definition application_thread :: nat where
  "application_thread = 0"

text \<open>\<open>tx_thread_create\<close> runs the hook of \<open>tx_user.h\<close> on the new thread; only the board's has thread-local blocks.\<close>

definition create_application_thread :: "platform \<Rightarrow> 'w start_env \<Rightarrow> 'w system \<Rightarrow> stop option \<times> 'w system" where
  "create_application_thread p e s =
     (if create_answer e \<noteq> TX_SUCCESS then (Some Error_Handler_Called, s)
      else
        case p of
          Hosted \<Rightarrow> (None, s\<lparr>created := created s @ [application_thread]\<rparr>)
        | Board \<Rightarrow>
            (case runtime_tls_thread_create (image_of e) (memory_of e) application_thread (tls_of s) of
               None \<Rightarrow> (Some Error_Handler_Called, s)
             | Some t \<Rightarrow> (None, s\<lparr>created := created s @ [application_thread], tls_of := t\<rparr>)))"

definition adopt_startup :: "platform \<Rightarrow> 'w start_env \<Rightarrow> 'w system \<Rightarrow> stop option \<times> 'w system" where
  "adopt_startup p e s =
     (case p of
        Hosted \<Rightarrow> (None, s)
      | Board \<Rightarrow>
          (case runtime_tls_adopt_startup (image_of e) application_thread (tls_of s) of
             None \<Rightarrow> (Some Error_Handler_Called, s)
           | Some t \<Rightarrow> (None, s\<lparr>tls_of := t\<rparr>)))"

definition runtime_libstdcxx_initialize :: "'w start_env \<Rightarrow> 'w system \<Rightarrow> stop option \<times> 'w system" where
  "runtime_libstdcxx_initialize e s =
     (let (status, r) = runtime_initialize (clock_of e) (rtc_time_of e) (timer_started e) (objects_of e) (runtime_of s)
      in (if status \<noteq> TX_SUCCESS then Some (Terminated None) else None, s\<lparr>runtime_of := r\<rparr>))"

definition tx_application_define :: "platform \<Rightarrow> 'w start_env \<Rightarrow> 'w system \<Rightarrow> stop option \<times> 'w system" where
  "tx_application_define p e s =
     (if notify_answer e \<noteq> TX_SUCCESS then (Some Error_Handler_Called, s)
      else
        let (x1, s1) = create_application_thread p e (s\<lparr>stack_error_handler := True\<rparr>)
        in if x1 \<noteq> None then (x1, s1)
           else
             let (x2, s2) = adopt_startup p e s1
             in if x2 \<noteq> None then (x2, s2)
                else
                  let (x3, s3) = runtime_libstdcxx_initialize e s2
                  in if x3 \<noteq> None then (x3, s3)
                     else case runtime_application_define e of
                            None \<Rightarrow> (None, s3)
                          | Some f \<Rightarrow> (None, f s3))"

section \<open>The program\<close>

datatype main_result = Returned int | Raised active_exception

text \<open>How the application's thread ends: the process exits, the thread's function returns, or the system stops.\<close>

datatype ending = Process_Exit int | Thread_Returned | Stopped stop

definition application_thread_entry ::
    "platform \<Rightarrow> 'w boot_services \<Rightarrow> 'w board \<Rightarrow> 'w rtc \<Rightarrow> (string list \<Rightarrow> 'w fs \<Rightarrow> main_result \<times> 'w fs) \<Rightarrow> string list \<Rightarrow> 'w fs \<Rightarrow> ending \<times> 'w fs" where
  "application_thread_entry p bs b rtc real_main argv s =
     (case (if p = Board then runtime_filex_initialize bs b rtc s else Some s) of
        None \<Rightarrow> (Stopped Storage_Failure, s)
      | Some s1 \<Rightarrow>
          let (r, s2) = real_main argv s1
          in case r of
               Raised x \<Rightarrow> (Stopped (Terminated (Some x)), s2)
             | Returned status \<Rightarrow>
                 (case p of
                    Hosted \<Rightarrow> (Process_Exit status, s2)
                  | Board \<Rightarrow> (if status \<noteq> 0 then Stopped Error_Handler_Called else Thread_Returned, s2)))"

text \<open>
  \<open>__wrap_main\<close>: the scheduler, entered once the hardware is up, first lets \<open>tx_application_define\<close> define the application and then runs the threads until it
  returns, which stops the system. \<open>scheduler\<close> is what the threads do.\<close>

definition wrap_main ::
    "platform \<Rightarrow> (hal_call \<Rightarrow> bool) \<Rightarrow> 'w start_env \<Rightarrow> ('w system \<Rightarrow> 'w system) \<Rightarrow> string list \<Rightarrow> 'w system \<Rightarrow> stop \<times> 'w system" where
  "wrap_main p ok e scheduler argv s =
     (let s1 = (if p = Hosted then s\<lparr>arguments := argv\<rparr> else s)
      in case snd (hal_initialize ok) of
           Some x \<Rightarrow> (x, s1)
         | None \<Rightarrow>
             let (x1, s2) = tx_application_define p e s1
             in case x1 of Some x \<Rightarrow> (x, s2) | None \<Rightarrow> (Error_Handler_Called, scheduler s2))"

section \<open>The start is in order\<close>

text \<open>The port is the last thing to be set up; only the first and the last answer count, and on the hosted system both are good.\<close>

lemma hal_initialize_exact:
  "snd (hal_initialize ok) = None \<longleftrightarrow> ok HAL_Init \<and> ok (BSP_COM_Init 0 115200)"
  "snd (hal_initialize ok) \<noteq> None \<Longrightarrow> snd (hal_initialize ok) = Some Error_Handler_Called"
  "fst (hal_initialize ok) = take (length (fst (hal_initialize ok))) (fst (hal_initialize (\<lambda>_. True)))"
  by (auto simp: hal_initialize_def Let_def COM1_def com_baud_rate_def split: if_splits)

lemma hosted_initialize_succeeds: "snd hosted_initialize = None"
  by (simp add: hosted_initialize_def hal_initialize_def hosted_call_def Let_def)

lemma adopt_after_create:
  assumes "runtime_tls_thread_create img malloc t s = Some s'"
  shows "\<exists>s''. runtime_tls_adopt_startup img t s' = Some s'' \<and>
    tls_block (tls_threads s'' t) = Some (tls_base img - tcb_offset img) \<and> tls_data (tls_threads s'' t) = startup_data s \<and>
    destructors (tls_threads s'' t) = startup_destructors s \<and> startup_destructors s'' = [] \<and>
    arrays (emulated s'') (Some t) = arrays (emulated s) None \<and> arrays (emulated s'') None = None \<and>
    (\<forall>u. u \<noteq> t \<longrightarrow> tls_threads s'' u = tls_threads s u)"
  using assms
  by (auto simp: runtime_tls_thread_create_def runtime_tls_adopt_startup_def adopt_emutls_def destroy_emutls_def
      free_block_def Let_def split: if_splits option.splits)

lemma runtime_part_outcome:
  assumes "\<not> runtime_initialized (runtime_of s)" and "existing (runtime_of s) = []" and "\<not> cxx_guard_mutex_ready (runtime_of s)"
    and "runtime_libstdcxx_initialize e s = (x, s')"
  shows "(x = None \<longleftrightarrow> (\<forall>obj. objects_of e obj = TX_SUCCESS)) \<and> (x \<noteq> None \<longrightarrow> x = Some (Terminated None) \<and> existing (runtime_of s') = []) \<and>
    (x = None \<longrightarrow> runtime_initialized (runtime_of s') \<and>
       existing (runtime_of s') = [Reaper_Thread, Rollover_Timer, Cleanup_Queue, Guard_Mutex, Initialization_Mutex]) \<and>
    created s' = created s \<and> tls_of s' = tls_of s \<and> stack_error_handler s' = stack_error_handler s \<and> arguments s' = arguments s"
proof -
  obtain status r where r: "runtime_initialize (clock_of e) (rtc_time_of e) (timer_started e) (objects_of e) (runtime_of s) = (status, r)"
    by fastforce
  note f = runtime_initialize_all_or_nothing [OF assms(1-3) r]
  have "x = (if status \<noteq> TX_SUCCESS then Some (Terminated None) else None)" "s' = s\<lparr>runtime_of := r\<rparr>"
    using assms(4) by (simp_all add: runtime_libstdcxx_initialize_def r)
  then show ?thesis using f by auto
qed

text \<open>What the application's thread finds where code before the scheduler left its thread-local objects.\<close>

definition startup_adopted :: "tls_image \<Rightarrow> tls \<Rightarrow> tls \<Rightarrow> bool" where
  "startup_adopted img ini fin \<longleftrightarrow>
     runtime_tls_read_thread_pointer img (Some application_thread) fin = runtime_tls_read_thread_pointer img None ini \<and>
     tls_data (tls_threads fin application_thread) = startup_data ini \<and>
     destructors (tls_threads fin application_thread) = startup_destructors ini \<and> startup_destructors fin = [] \<and>
     arrays (emulated fin) (Some application_thread) = arrays (emulated ini) None \<and> arrays (emulated fin) None = None \<and>
     (\<forall>u. u \<noteq> application_thread \<longrightarrow> tls_threads fin u = tls_threads ini u)"

lemma thread_part_outcome:
  assumes "create_application_thread p e s = (x, s1)"
  shows "(x = None \<longleftrightarrow> create_answer e = TX_SUCCESS \<and>
       (p = Board \<longrightarrow> runtime_tls_thread_create (image_of e) (memory_of e) application_thread (tls_of s) \<noteq> None)) \<and>
    (x \<noteq> None \<longrightarrow> x = Some Error_Handler_Called \<and> s1 = s) \<and>
    (x = None \<longrightarrow> created s1 = created s @ [application_thread] \<and> runtime_of s1 = runtime_of s \<and>
       stack_error_handler s1 = stack_error_handler s \<and>
       (\<exists>s2. adopt_startup p e s1 = (None, s2) \<and> created s2 = created s1 \<and> runtime_of s2 = runtime_of s \<and>
          stack_error_handler s2 = stack_error_handler s1 \<and>
          (p = Board \<longrightarrow> startup_adopted (image_of e) (tls_of s) (tls_of s2))))"
proof (cases p)
  case Board
  then show ?thesis using assms
    by (auto simp: create_application_thread_def adopt_startup_def startup_adopted_def runtime_tls_read_thread_pointer_def
        split: if_splits option.splits dest!: adopt_after_create)
next
  case Hosted
  then show ?thesis using assms
    by (auto simp: create_application_thread_def adopt_startup_def split: if_splits)
qed

text \<open>
  C30. The start of the application. It succeeds exactly when ThreadX takes the handler, creates the
  application's thread and all five objects of the runtime and, on the board, there is a block for the thread. The
  thread is the first one that exists: the runtime, whose reaper is a thread, has objects only if all of the start succeeded, and the program's own function comes last.
  On the board the thread then sees the thread-local objects that the constructors used before it, with their
  addresses and their destructors, and nobody else does. A refusal stops the system, with no object of the runtime left.\<close>

theorem application_starts_in_order:
  assumes new: "\<not> runtime_initialized (runtime_of s)" "existing (runtime_of s) = []" "\<not> cxx_guard_mutex_ready (runtime_of s)"
      "created s = []"
    and r: "tx_application_define p e s = (x, s')"
  shows "\<exists>t. s' = (if x = None then case_option t (\<lambda>f. f t) (runtime_application_define e) else t) \<and>
    (x = None \<longleftrightarrow> notify_answer e = TX_SUCCESS \<and> create_answer e = TX_SUCCESS \<and> (\<forall>obj. objects_of e obj = TX_SUCCESS) \<and>
       (p = Board \<longrightarrow> runtime_tls_thread_create (image_of e) (memory_of e) application_thread (tls_of s) \<noteq> None)) \<and>
    (x = None \<longrightarrow> stack_error_handler t \<and> created t = [application_thread] \<and> runtime_initialized (runtime_of t) \<and>
       existing (runtime_of t) = [Reaper_Thread, Rollover_Timer, Cleanup_Queue, Guard_Mutex, Initialization_Mutex] \<and>
       (p = Board \<longrightarrow> startup_adopted (image_of e) (tls_of s) (tls_of t))) \<and>
    (x \<noteq> None \<longrightarrow> existing (runtime_of t) = [] \<and>
       (x = Some Error_Handler_Called \<and> created t = [] \<or> x = Some (Terminated None) \<and> created t = [application_thread]))"
proof (cases "notify_answer e = TX_SUCCESS")
  case False
  then show ?thesis using r new by (auto simp: tx_application_define_def)
next
  case notified: True
  obtain x1 s1 where c: "create_application_thread p e (s\<lparr>stack_error_handler := True\<rparr>) = (x1, s1)" by fastforce
  note a = thread_part_outcome [OF c]
  show ?thesis
  proof (cases "x1 = None")
    case False
    then show ?thesis using r new notified a c by (auto simp: tx_application_define_def)
  next
    case True
    then obtain s2 where s2: "adopt_startup p e s1 = (None, s2)" "created s2 = [application_thread]" "runtime_of s2 = runtime_of s"
        "stack_error_handler s2" "p = Board \<longrightarrow> startup_adopted (image_of e) (tls_of s) (tls_of s2)"
      using a new(4) by auto
    obtain x3 s3 where i: "runtime_libstdcxx_initialize e s2 = (x3, s3)" by fastforce
    have n: "\<not> runtime_initialized (runtime_of s2)" "existing (runtime_of s2) = []" "\<not> cxx_guard_mutex_ready (runtime_of s2)"
      using new s2(3) by simp_all
    note b = runtime_part_outcome [OF n i]
    have "x = x3" "s' = (if x = None then case_option s3 (\<lambda>f. f s3) (runtime_application_define e) else s3)"
      using r True c s2(1) i notified by (auto simp: tx_application_define_def split: if_splits option.splits)
    moreover have "created s3 = [application_thread]" "stack_error_handler s3"
        "p = Board \<longrightarrow> startup_adopted (image_of e) (tls_of s) (tls_of s3)"
      using b s2(2,4,5) by simp_all
    moreover have "create_answer e = TX_SUCCESS"
        "p = Board \<longrightarrow> runtime_tls_thread_create (image_of e) (memory_of e) application_thread (tls_of s) \<noteq> None"
      using a True by simp_all
    ultimately show ?thesis using b notified by (intro exI [of _ s3]) (cases x3; simp)
  qed
qed

section \<open>The program finds its files\<close>

text \<open>
  On the board the program runs only on a file system that was started, on which the invariant C1
  holds; without one the system stops before it. A program that fails, by its result or by an exception, does not
  return from its thread.\<close>

theorem main_runs_initialised:
  assumes "reachable fx bs b rtc s" and "application_thread_entry Board bs b rtc real_main argv s = (x, s')"
  shows "x = Stopped Storage_Failure \<and> runtime_filex_initialize bs b rtc s = None \<and> s' = s \<or>
    (\<exists>s1 r. reachable fx bs b rtc s1 \<and> filesystem_initialized s1 \<and> real_main argv s1 = (r, s') \<and>
       (x = Thread_Returned \<longleftrightarrow> r = Returned 0))"
proof (cases "runtime_filex_initialize bs b rtc s")
  case None
  then show ?thesis using assms by (simp add: application_thread_entry_def)
next
  case (Some s1)
  have f: "filesystem_initialized s1"
    using Some by (auto simp: runtime_filex_initialize_def Let_def split: if_splits prod.splits option.splits)
  have "reachable fx bs b rtc s1" using assms(1) Some by (rule reachable.boot)
  then show ?thesis using assms(2) Some f
    by (auto simp: application_thread_entry_def Let_def split: prod.splits main_result.splits if_splits intro!: exI [of _ s1])
qed

section \<open>Examples\<close>

definition constructed :: "nat system" where
  "constructed = \<lparr>stack_error_handler = False, created = [], tls_of = fresh_tls\<lparr>startup_destructors := [cleanup 5]\<rparr>,
     runtime_of = unstarted, arguments = []\<rparr>"

definition granting :: "nat start_env" where
  "granting = \<lparr>notify_answer = TX_SUCCESS, create_answer = TX_SUCCESS, image_of = small_image, memory_of = shelf,
     clock_of = sample_services, rtc_time_of = None, timer_started = False, objects_of = (\<lambda>_. TX_SUCCESS),
     runtime_application_define = None\<rparr>"

lemma application_block: "runtime_tls_thread_create small_image shelf 0 (tls_of constructed) \<noteq> None"
proof -
  have "tls_layout_valid small_image" by (simp add: tls_layout_valid_def small_image_def SIZE_MAX_def)
  moreover have "shelf 21 {} = Some 0x1001" by (simp add: shelf_def)
  ultimately show ?thesis
    by (simp add: runtime_tls_thread_create_def small_image_def constructed_def fresh_tls_def fresh_emutls_def initialize_tls_data_def)
qed

theorem application_starts_in_order_witness:
  "\<exists>s'. tx_application_define Board granting constructed = (None, s') \<and> created s' = [0] \<and>
     destructors (tls_threads (tls_of s') 0) = [cleanup 5]"
proof -
  obtain x s' where r: "tx_application_define Board granting constructed = (x, s')" by fastforce
  have new: "\<not> runtime_initialized (runtime_of constructed)" "existing (runtime_of constructed) = []"
      "\<not> cxx_guard_mutex_ready (runtime_of constructed)" "created constructed = []"
    by (simp_all add: constructed_def unstarted_def)
  have g: "notify_answer granting = TX_SUCCESS" "create_answer granting = TX_SUCCESS" "objects_of granting = (\<lambda>_. TX_SUCCESS)"
      "runtime_application_define granting = None" "image_of granting = small_image" "memory_of granting = shelf"
    by (simp_all add: granting_def)
  have d: "startup_destructors (tls_of constructed) = [cleanup 5]" by (simp add: constructed_def)
  have x: "x = None" using application_starts_in_order [OF new r] application_block by (auto simp: g application_thread_def)
  show ?thesis using application_starts_in_order [OF new r] x r d
    by (auto simp: g application_thread_def startup_adopted_def)
qed

lemma main_runs_initialised_witness:
  "application_thread_entry Board quiet_services quiet_board None (\<lambda>argv s. (Returned 0, s)) [] (zero_fs sample_memory) =
     (Thread_Returned, booted) \<and> filesystem_initialized booted"
proof -
  have e: "application_thread_entry Board quiet_services quiet_board None (\<lambda>argv s. (Returned 0, s)) [] (zero_fs sample_memory) =
      (Thread_Returned, booted)"
    by (simp add: application_thread_entry_def boot_succeeds)
  from main_runs_initialised [OF reachable.start e] e show ?thesis by auto
qed

end
