(* ===== verification/Panic_Lamp.thy ===== *)
theory Panic_Lamp
  imports Panic "HOL-Library.Stream"
begin

unbundle bit_operations_syntax

text \<open>
  The lamp of a board that has panicked (\<open>platform/hal/stm32/hal.cpp\<close>): the handler sets up the pin of the red lamp in the registers of its
  port, whatever state they are in, and then blinks for ever. The port is given by its registers; a write to \<open>BSRR\<close> sets the outputs
  of its lower half and resets those of its upper half, and setting wins.
\<close>

section \<open>The port\<close>

record led_port =
  MODER :: u32
  OTYPER :: u32
  OSPEEDR :: u32
  PUPDR :: u32
  ODR :: u32

definition write_BSRR :: "u32 \<Rightarrow> led_port \<Rightarrow> led_port" where
  "write_BSRR v g = g\<lparr>ODR := (ODR g AND NOT (drop_bit 16 v)) OR (v AND 0xFFFF)\<rparr>"

text \<open>\<open>LED3_PIN\<close> is a single bit; \<open>RED_LED_PIN_NUMBER\<close> is its number \<open>n\<close>.\<close>

definition GPIO_MODE_BITS :: nat where
  "GPIO_MODE_BITS = 2"

definition led_pin :: "nat \<Rightarrow> u32" where
  "led_pin n = push_bit n 1"

definition configure_red_led :: "nat \<Rightarrow> led_port \<Rightarrow> led_port" where
  "configure_red_led n g =
     (let mode_shift = n * GPIO_MODE_BITS;
          mode_mask = push_bit mode_shift 3 :: u32
      in write_BSRR (push_bit 16 (led_pin n))
           (g\<lparr>MODER := (MODER g AND NOT mode_mask) OR push_bit mode_shift 1, OTYPER := OTYPER g AND NOT (led_pin n),
              OSPEEDR := OSPEEDR g AND NOT mode_mask, PUPDR := PUPDR g AND NOT mode_mask\<rparr>))"

definition red_led_value :: "nat \<Rightarrow> bool \<Rightarrow> u32" where
  "red_led_value n lit = (if lit then led_pin n else push_bit 16 (led_pin n))"

definition set_red_led :: "nat \<Rightarrow> bool \<Rightarrow> led_port \<Rightarrow> led_port" where
  "set_red_led n lit g = write_BSRR (red_led_value n lit) g"

definition panic_delay :: "u32 \<Rightarrow> u32" where
  "panic_delay SystemCoreClock = (if SystemCoreClock \<ge> 1000000 then SystemCoreClock div 32 else 2000000)"

text \<open>The loop that does not end: what the lamp is set to, and how long the handler then waits.\<close>

definition blinking :: "u32 \<Rightarrow> (bool \<times> u32) stream" where
  "blinking SystemCoreClock = cycle [(True, panic_delay SystemCoreClock), (False, panic_delay SystemCoreClock)]"

text \<open>The port after \<open>k\<close> settings of the lamp.\<close>

fun after_settings :: "nat \<Rightarrow> (bool \<times> u32) stream \<Rightarrow> nat \<Rightarrow> led_port \<Rightarrow> led_port" where
  "after_settings n settings 0 g = g"
| "after_settings n settings (Suc k) g = after_settings n (stl settings) k (set_red_led n (fst (shd settings)) g)"

section \<open>The lamp blinks\<close>

lemma bit_led [simp]: "bit (led_pin n) i \<longleftrightarrow> i = n \<and> n < 32"
  by (auto simp: led_pin_def bit_simps)

lemma bit_fields [simp]: "bit (3 :: int) i \<longleftrightarrow> i < 2" "bit (0xFFFF :: int) i \<longleftrightarrow> i < 16"
proof -
  have "(3 :: int) = mask 2" "(0xFFFF :: int) = mask 16" by code_simp+
  then show "bit (3 :: int) i \<longleftrightarrow> i < 2" "bit (0xFFFF :: int) i \<longleftrightarrow> i < 16" by (simp_all only: bit_mask_iff possible_bit_int simp_thms)
qed

lemma other_field: "i \<noteq> n \<Longrightarrow> n \<le> i \<Longrightarrow> \<not> 2 * i - n * 2 < 2" "n * 2 \<le> Suc (2 * i) \<Longrightarrow> i \<noteq> n \<Longrightarrow> \<not> Suc (2 * i) - n * 2 < 2"
  "Suc (2 * i) \<noteq> n * 2" for i n :: nat
  by presburger+

text \<open>The pin becomes a push-pull output without pull resistors, at the slowest speed and dark; no other pin is touched.\<close>

lemma configure_red_led_exact:
  assumes "n < 16" and "i < 16"
  shows "bit (MODER (configure_red_led n g)) (2 * i) \<longleftrightarrow> (if i = n then True else bit (MODER g) (2 * i))"
    "bit (MODER (configure_red_led n g)) (2 * i + 1) \<longleftrightarrow> i \<noteq> n \<and> bit (MODER g) (2 * i + 1)"
    "bit (OTYPER (configure_red_led n g)) i \<longleftrightarrow> i \<noteq> n \<and> bit (OTYPER g) i"
    "bit (ODR (configure_red_led n g)) i \<longleftrightarrow> i \<noteq> n \<and> bit (ODR g) i"
  using assms
  by (auto simp: configure_red_led_def write_BSRR_def Let_def GPIO_MODE_BITS_def bit_simps other_field)

lemma set_red_led_exact:
  assumes "n < 16" and "i < 16"
  shows "bit (ODR (set_red_led n lit g)) i \<longleftrightarrow> (if i = n then lit else bit (ODR g) i)"
  using assms
  by (auto simp: set_red_led_def red_led_value_def write_BSRR_def bit_simps)

lemma blinking_steps: "blinking c = (True, panic_delay c) ## (False, panic_delay c) ## blinking c"
  unfolding blinking_def by (subst cycle_decomp) simp_all

text \<open>
  After a panic the red lamp is lit and dark in turn for ever, with a wait after each change that is not empty, and no
  other output of the port changes.\<close>

theorem lamp_blinks:
  assumes "n < 16" and "i < 16"
  shows "bit (ODR (after_settings n (blinking c) k (configure_red_led n g))) i \<longleftrightarrow>
      (if i = n then odd k else bit (ODR g) i)"
    "snd (blinking c !! k) = panic_delay c" "31250 \<le> panic_delay c"
proof -
  have step: "bit (ODR (after_settings n (blinking c) k h)) i \<longleftrightarrow> (if i = n then odd k else bit (ODR h) i)"
    if "\<not> bit (ODR h) n" for h
    using that
  proof (induction k arbitrary: h rule: nat_induct2)
    case 0
    then show ?case by auto
  next
    case 1
    then show ?case by (subst blinking_steps) (simp add: set_red_led_exact [OF assms])
  next
    case (step k)
    let ?h = "set_red_led n False (set_red_led n True h)"
    have "\<not> bit (ODR ?h) n" by (simp add: set_red_led_exact [OF assms(1) assms(1)])
    from step.IH [OF this] show ?case
      by (subst blinking_steps) (simp add: set_red_led_exact [OF assms])
  qed
  show "bit (ODR (after_settings n (blinking c) k (configure_red_led n g))) i \<longleftrightarrow> (if i = n then odd k else bit (ODR g) i)"
    using step [of "configure_red_led n g"] configure_red_led_exact(4) [OF assms] configure_red_led_exact(4) [OF assms(1) assms(1)]
    by simp
  show "snd (blinking c !! k) = panic_delay c"
  proof (induction k rule: nat_induct2)
    case (step k)
    then show ?case by (subst blinking_steps) simp
  qed (subst blinking_steps, simp)+
  show "31250 \<le> panic_delay c"
    by (auto simp: panic_delay_def word_le_nat_alt unat_div)
qed

end
