(* ===== verification/Spec2Isabelle.thy ===== *)
theory Spec2Isabelle
  imports Filesystem File_Properties Rename_Properties Clock_Properties Key_Properties Thread_Cleanup
    Condition_Properties Sync_Properties Call_Once Static_Guard Block_Properties Atomics Timer_Properties
    Ethernet_Properties Startup_Properties Std_Thread
    Stack_Properties Board_Ethernet_Properties Board_Timer_Properties
    Hosted_Mount Calendar Pin_Properties Entropy Libc_Properties System_Start Panic_Lamp
begin

text \<open>
  A verification development for SimPLCity: its runtime, which puts the C library and the C++ library
  on top of ThreadX and FileX (\<open>platform/runtime/\<close>), the hardware drivers the runtime and the application use
  (\<open>platform/hal/\<close>), and the stacks of hosted threads in the ThreadX port (\<open>external/threadx_port/\<close>).

  The program. \<open>libc/filesystem.cpp\<close> implements the C library's file calls (\<open>_open\<close>, \<open>_read\<close>,
  \<open>_rename\<close>, \<open>opendir\<close> and so on) over FileX volumes; \<open>libc/storage_media.cpp\<close> mounts the volumes
  and drives the SD card and the QSPI flash below them. \<open>libstdcxx/\<close> implements what
  libstdc++ and the C++ ABI need of an operating system over ThreadX: \<open>backend.cpp\<close> the clocks, timed waits,
  thread-specific keys, threads, mutexes, condition variables and once; \<open>cxx_guard.cpp\<close> the guards of static
  variables; \<open>tls.cpp\<close> thread-local storage; \<open>atomic.cpp\<close> wide atomics; \<open>thread.cpp\<close>, \<open>thread_exit.cpp\<close> and
  \<open>thread.hpp\<close> \<open>std::thread\<close> itself. The parts meet in four places: the file
  system asks the backend for the time and the storage component for its volumes; the backend reads a
  timer and the real-time clock of the HAL; the start of the runtime creates the objects of the
  backend and of the guards; the end of a thread runs its thread-local destructors and then those of its keys.

  Theories, and the code they model.
  \<^item> \<open>Prelude\<close>: error codes, ThreadX status codes, facts on words, alignment and lists, and the locale
    \<open>slot_table\<close>, the contract of a table of slots that are claimed and given back; it is interpreted on the file
    descriptors, the directory streams, the thread-specific keys and the Ethernet receive buffers.
  \<^item> \<open>FileX_Interface\<close>: the FileX services as a record of functions, a parameter of everything above.
  \<^item> \<open>Path\<close>: normalisation of paths and their resolution to a volume. \<open>Registry\<close>: the table of
    descriptors and streams, and its lock. \<open>File_Calls\<close>, \<open>Rename\<close>, \<open>Directory_Streams\<close>, \<open>System_Calls\<close>: one
    function per call of \<open>filesystem.cpp\<close>, with every early return; \<open>Filesystem\<close> puts them together as the steps
    of a state machine.
  \<^item> \<open>FileX_Memory\<close>: a small FileX of files in memory, used only to show that the laws assumed of
    FileX can hold and to evaluate examples.
  \<^item> \<open>Storage\<close>: the board's branch of \<open>storage_media.cpp\<close>; \<open>Hosted_Storage\<close>: its host branch, flash and card as image
    files, with the locale \<open>nor_flash\<close>, what a log on such a flash may rely on, interpreted on it; \<open>Hosted_Mount\<close>: the start of
    the hosted flash, LevelX and FileX on the image. \<open>Libc_Locks\<close>: \<open>libc.c\<close>, the locks and reentrancy structures of the C library on the board.
  \<^item> Of \<open>backend.cpp\<close>: \<open>Runtime_Context\<close> (who may call), \<open>Runtime_Clock\<close>, \<open>Thread_Keys\<close>, \<open>Thread_Lifecycle\<close>,
    \<open>Sync_Handles\<close> (mutexes, semaphores and the creation of objects behind handles at their first use),
    \<open>Waiter_List\<close> and \<open>Condition_Variable\<close>, \<open>Call_Once\<close>, \<open>Runtime_Startup\<close> (\<open>initialize\<close> and the hooks of a thread).
  \<^item> \<open>Static_Guard\<close>: \<open>cxx_guard.cpp\<close>. \<open>Thread_Local\<close> and \<open>Thread_Block\<close>: \<open>tls.cpp\<close>, the emulated objects and the
    block of each thread. \<open>Atomics\<close>: \<open>atomic.cpp\<close>. \<open>Std_Thread\<close>: \<open>thread.cpp\<close>, \<open>thread_exit.cpp\<close>, \<open>thread.hpp\<close>.
  \<^item> Of the HAL: \<open>Timer\<close> and \<open>Ethernet\<close> (the hosted drivers, \<open>impl/linux/\<close>), \<open>Board_Timer\<close> and
    \<open>Board_Ethernet\<close> (the board's, \<open>impl/stm32/\<close>); \<open>Ethernet\<close> also has the reading of frames in \<open>IEthernet.hpp\<close>.
    \<open>Pins\<close>: general-purpose pins with their factories on both platforms, lamps, buttons and those of the
    board (\<open>board.cpp\<close>). \<open>Calendar\<close>: the real-time clocks. \<open>Entropy\<close>: the random-number drivers and \<open>random.cpp\<close>.
    \<open>Panic\<close>: the error handlers of \<open>hal.cpp\<close> and \<open>terminate.cpp\<close> and how they write;
    \<open>Panic_Lamp\<close>: the lamp they leave blinking. \<open>System_Start\<close>:
    \<open>startup.cpp\<close> and \<open>hal::initialize\<close>, which start the other parts.
  \<^item> \<open>Stack_Info\<close>: \<open>tx_thread_stack_info.cpp\<close>.
  \<^item> The theories ending in \<open>_Properties\<close>, and \<open>Thread_Cleanup\<close>, hold the theorems; small components
    have theirs beside the model.

  State and operations. Each part's static variables, or an object's members, are a record (\<open>Registry\<close>'s table,
  \<open>clock\<close>, \<open>key_state\<close>, \<open>lifecycle\<close>, \<open>timer\<close>, \<open>ethernet\<close>, \<open>stacks\<close>), each function of the code is a function that takes
  the record and returns it updated beside the result; an \<open>errno\<close>, an exception or a failure is a value of the result. Machine integers
  are words of their width. Sections under a mutex are one step; the order of steps of different
  threads is free, given by a step relation (\<open>life_step\<close>, \<open>cv_step\<close>, \<open>once_step\<close>, \<open>guard_step\<close>, \<open>system_step\<close>,
  \<open>rx_reachable\<close>) or by a function that says what the others did in
  between (\<open>meanwhile\<close> in \<open>clock_services\<close>). Linked lists of the code stay linked: the waiters of a condition
  by their back and forward links, a received frame by the links of its buffers.

  What is proved. For the file calls: the table's invariant over all sequences of calls, that
  every call returns, that refused calls change nothing, what open, write, truncate, seek, close
  and rename do to descriptors and contents, the snapshot of a directory stream. For paths:
  normalisation agrees with a walk over components, is idempotent, and migration after a rename retargets
  exactly the paths below it. For storage: page programs never cross a page, and mounting
  reports what it did. For the clocks: the 64-bit extension of the tick counter, elapsed time across
  wraps, monotonic publication, no sleep or timed wait ends early and each ends. For keys: the
  table implements a set of handles, values are private to
  thread and key. For threads: no use of freed memory, no leak, failures of creation leave
  nothing behind, and everything can always be cleaned up except after the one refusal named in \<open>Thread_Cleanup\<close>;
  the start of the application creates its thread before anything of the runtime, and of the runtime all objects or none; an ending thread cleans up once.
  For synchronisation: the mutex calls do to ownership what they should, an object behind a handle is created once,
  signals, wakeups and permits of a condition balance, a signalled waiter succeeds also when its deadline passes, a
  broadcast wakes all, the function of a once control and the initialiser of a static run to completion
  once. For thread-local storage: each thread has its own copy, found again, aligned and inside its allocation. For the
  hosted timer: exact counting, exact conversion, a callback never before the overflow. For Ethernet: the kernel's
  filter agrees with the driver's reading of a frame, sockets do not leak, a frame is sent and received
  whole, the pool of receive buffers is never lost or shared, a receive ends in time. For hosted stacks: the pointer ThreadX
  sees stays in the thread's stack area, the blocks are accounted for. For pins: one owner each, interrupts enabled
  exactly while an input needs them. For the real-time clock: the days are those that counting one by one gives, and those the file
  system computes for a file. For the C library: no call stops the system on a lock it was given, and no pointer to a deleted
  thread's structure is left. The image of the hosted flash obeys the rules of a flash whatever \<open>stdio\<close> does; a panic prints all it knows.

  Parameters and their laws. FileX, LevelX, the vendor's HAL and the registers below it, the Linux kernel, the
  linker's thread-local image and ThreadX are not part of the sources; they are
  records of functions or arguments, and a theorem that relies on them states what it needs as a named law over the
  record: the laws in \<open>File_Properties\<close>, \<open>clock_services\<close>, \<open>mutex_law\<close>, \<open>malloc_law\<close>, \<open>bpf_law\<close> (the kernel's packet
  filter machine), \<open>descriptor_law\<close>, \<open>retry_law\<close>, \<open>clock_law\<close>, \<open>tim_law\<close>. Each such theorem has a witness
  on concrete functions.

  Bounds and fuel. Loops of the code are structural recursion or recursion with a proved measure;
  retry loops whose end depends on the environment take fuel, or are \<open>partial_function (option)\<close> with \<open>None\<close> for a loop that does not end, and
  the theorem on their return gives the fuel, or the law, that is
  enough. Registry ids of threads are 32 bits wide and are given out once; the theorems on threads hold until
  they wrap, that is for the first \<open>2 ^ 32 - 3\<close> threads.

  Not modelled: the calls that only forward (\<open>clock.cpp\<close>, \<open>future.cpp\<close>,
  \<open>condition_variable.cpp\<close>), the templates of \<open>thread.hpp\<close> that carry a callable;
  code generated by CubeMX, the vendored libstdc++ sources, tests.
\<close>

end
